(* ===== verification/Prelude.thy ===== *)
theory Prelude
  imports Complex_Main
begin

text \<open>
  What every component shares: money as exact rationals with the rounding of the decimal
  package as a parameter, the byte strings of Go with the few functions of the standard
  library that the modelled code calls, results as sums, and generic lemmas.

  A value of type \<open>decimal.Decimal\<close> (github.com/shopspring/decimal) is a rational number.  Its
  exact operations (Add, Sub, Mul, Neg, Abs, Cmp, Floor) are those of \<open>rat\<close>.  The operations
  that round or print are not exact, and the package is not part of the repository, so they are
  fields of a record \<open>decimal_lib\<close> that every definition using them takes as an argument; what
  the code relies on is the predicate \<open>decimal_ok\<close>.
\<close>

section \<open>Collections of hints\<close>

named_theorems decimal_simps \<open>facts about rounded and divided decimals\<close>
named_theorems entry_simps \<open>unfolding rules of the journal-entry builders\<close>

section \<open>Decimals\<close>

type_synonym decimal = rat

record decimal_lib =
  dl_Round :: "decimal \<Rightarrow> nat \<Rightarrow> decimal"
  dl_Div :: "decimal \<Rightarrow> decimal \<Rightarrow> decimal"
  dl_String :: "decimal \<Rightarrow> string"
  dl_StringFixed :: "decimal \<Rightarrow> nat \<Rightarrow> string"

definition on_grid :: "nat \<Rightarrow> decimal \<Rightarrow> bool" where
  "on_grid p x \<longleftrightarrow> (\<exists>n::int. x = of_int n / 10 ^ p)"

text \<open>
  The documented behaviour: Round gives a multiple of \<open>10\<^sup>-\<^sup>p\<close> within half a unit, is monotone and
  leaves such multiples alone; Div is the quotient rounded to DivisionPrecision = 16 places.
\<close>

definition decimal_ok :: "decimal_lib \<Rightarrow> bool" where
  "decimal_ok L \<longleftrightarrow>
     (\<forall>x p. on_grid p (dl_Round L x p)) \<and>
     (\<forall>x p. \<bar>dl_Round L x p - x\<bar> \<le> 1 / (2 * 10 ^ p)) \<and>
     (\<forall>x y p. x \<le> y \<longrightarrow> dl_Round L x p \<le> dl_Round L y p) \<and>
     (\<forall>x p. on_grid p x \<longrightarrow> dl_Round L x p = x) \<and>
     (\<forall>x y. y \<noteq> 0 \<longrightarrow> dl_Div L x y = dl_Round L (x / y) 16)"

text \<open>A concrete instance: rounding half away from zero.\<close>

definition round_half_away :: "decimal \<Rightarrow> nat \<Rightarrow> decimal" where
  "round_half_away x p =
     (if 0 \<le> x then of_int \<lfloor>x * 10 ^ p + 1 / 2\<rfloor> / 10 ^ p
      else - (of_int \<lfloor>- x * 10 ^ p + 1 / 2\<rfloor> / 10 ^ p))"

definition decimal_std :: decimal_lib where
  "decimal_std = \<lparr>dl_Round = round_half_away,
                  dl_Div = (\<lambda>x y. round_half_away (x / y) 16),
                  dl_String = (\<lambda>_. []), dl_StringFixed = (\<lambda>_ _. [])\<rparr>"

text \<open>Numerals under a floor evaluate.\<close>

lemma floor_rat_numeral [simp]: "\<lfloor>numeral a / numeral b :: rat\<rfloor> = numeral a div numeral b"
  using floor_divide_of_int_eq [of "numeral a" "numeral b", where ?'a = rat] by simp

lemma on_grid_0 [simp, intro]: "on_grid p 0"
  unfolding on_grid_def by (rule exI [of _ 0]) simp

lemma on_grid_of_int [simp, intro]: "on_grid p (of_int n)"
  unfolding on_grid_def by (rule exI [of _ "n * 10 ^ p"]) simp

lemma on_grid_numeral [simp, intro]: "on_grid p (numeral n)"
  using on_grid_of_int [of p "numeral n"] by simp

lemma on_grid_1 [simp, intro]: "on_grid p 1"
  using on_grid_of_int [of p 1] by simp

lemma on_grid_add [intro]: "on_grid p x \<Longrightarrow> on_grid p y \<Longrightarrow> on_grid p (x + y)"
  unfolding on_grid_def by (metis add_divide_distrib of_int_add)

lemma on_grid_minus [intro]: "on_grid p x \<Longrightarrow> on_grid p (- x)"
  unfolding on_grid_def by (metis minus_divide_left of_int_minus)

lemma on_grid_diff [intro]: "on_grid p x \<Longrightarrow> on_grid p y \<Longrightarrow> on_grid p (x - y)"
  using on_grid_add [of p x "- y"] on_grid_minus [of p y] by simp

lemma on_grid_abs [intro]: "on_grid p x \<Longrightarrow> on_grid p \<bar>x\<bar>"
  using on_grid_minus [of p x] by (simp add: abs_if)

lemma on_grid_div [intro]: "on_grid p (of_int n / 10 ^ p)"
  unfolding on_grid_def by blast

lemma on_grid_finer: "on_grid p x \<Longrightarrow> p \<le> q \<Longrightarrow> on_grid q x"
proof -
  assume "on_grid p x" and pq: "p \<le> q"
  then obtain n where n: "x = of_int n / 10 ^ p" by (auto simp: on_grid_def)
  have "(10::rat) ^ q = 10 ^ p * 10 ^ (q - p)" using pq by (simp flip: power_add)
  then have "x = of_int (n * 10 ^ (q - p)) / 10 ^ q" by (simp add: n)
  then show "on_grid q x" unfolding on_grid_def by blast
qed

subsection \<open>The instance satisfies the laws\<close>

lemma round_half_away_neg: "round_half_away (- x) p = - round_half_away x p"
proof -
  have "\<lfloor>1 / 2 :: rat\<rfloor> = 0" by linarith
  then show ?thesis by (cases "x = 0") (auto simp: round_half_away_def)
qed

lemma round_half_away_mono0:
  assumes "0 \<le> x" and "x \<le> y"
  shows "round_half_away x p \<le> round_half_away y p"
proof -
  have "x * 10 ^ p + 1 / 2 \<le> y * 10 ^ p + 1 / 2" using assms(2) by simp
  then have "\<lfloor>x * 10 ^ p + 1 / 2\<rfloor> \<le> \<lfloor>y * 10 ^ p + 1 / 2\<rfloor>" by (rule floor_mono)
  then show ?thesis using assms
    by (simp add: round_half_away_def divide_right_mono)
qed

lemma round_half_away_nonneg: "0 \<le> x \<Longrightarrow> 0 \<le> round_half_away x p"
  using round_half_away_mono0 [of 0 x p] by (simp add: round_half_away_def)

lemma round_half_away_mono: "x \<le> y \<Longrightarrow> round_half_away x p \<le> round_half_away y p"
proof (cases "0 \<le> x")
  case True
  then show "x \<le> y \<Longrightarrow> round_half_away x p \<le> round_half_away y p"
    by (rule round_half_away_mono0)
next
  case False
  assume xy: "x \<le> y"
  show "round_half_away x p \<le> round_half_away y p"
  proof (cases "0 \<le> y")
    case True
    have "0 \<le> round_half_away (- x) p" using False by (intro round_half_away_nonneg) simp
    with round_half_away_nonneg [OF True, of p] show ?thesis by (simp add: round_half_away_neg)
  next
    case neg: False
    have "round_half_away (- y) p \<le> round_half_away (- x) p"
      using neg xy by (intro round_half_away_mono0) auto
    then show ?thesis by (simp add: round_half_away_neg)
  qed
qed

lemma floor_half_error: "\<bar>of_int \<lfloor>z + 1 / 2\<rfloor> - z\<bar> \<le> (1 / 2 :: rat)"
  unfolding abs_le_iff by linarith

lemma round_half_away_error0:
  assumes "0 \<le> x"
  shows "\<bar>round_half_away x p - x\<bar> \<le> 1 / (2 * 10 ^ p)"
proof -
  have "\<bar>of_int \<lfloor>x * 10 ^ p + 1 / 2\<rfloor> - x * 10 ^ p\<bar> / 10 ^ p \<le> (1 / 2) / 10 ^ p"
    by (rule divide_right_mono [OF floor_half_error]) simp
  then have "\<bar>(of_int \<lfloor>x * 10 ^ p + 1 / 2\<rfloor> - x * 10 ^ p) / 10 ^ p\<bar> \<le> (1 / 2) / 10 ^ p"
    by (simp only: abs_divide) simp
  moreover have "(of_int \<lfloor>x * 10 ^ p + 1 / 2\<rfloor> - x * 10 ^ p) / 10 ^ p = round_half_away x p - x"
    using assms by (simp add: round_half_away_def diff_divide_distrib)
  ultimately show ?thesis by (simp add: mult.commute)
qed

lemma round_half_away_error: "\<bar>round_half_away x p - x\<bar> \<le> 1 / (2 * 10 ^ p)"
proof (cases "0 \<le> x")
  case False
  then have "\<bar>round_half_away (- x) p - (- x)\<bar> \<le> 1 / (2 * 10 ^ p)"
    by (intro round_half_away_error0) simp
  then show ?thesis by (simp add: round_half_away_neg abs_minus_commute)
qed (rule round_half_away_error0)

lemma round_half_away_grid: "on_grid p (round_half_away x p)"
  by (auto simp: round_half_away_def)

lemma round_half_away_id: "on_grid p x \<Longrightarrow> round_half_away x p = x"
proof -
  assume "on_grid p x"
  then obtain n where n: "x = of_int n / 10 ^ p" by (auto simp: on_grid_def)
  have fl: "\<lfloor>of_int m + 1 / 2 :: rat\<rfloor> = m" for m by linarith
  have "\<lfloor>of_int n + 1 / 2 :: rat\<rfloor> = n" "\<lfloor>- of_int n + 1 / 2 :: rat\<rfloor> = - n"
    using fl [of n] fl [of "- n"] by simp_all
  then show ?thesis unfolding n round_half_away_def by (simp del: floor_add2)
qed

lemma decimal_std_ok: "decimal_ok decimal_std"
  by (simp add: decimal_ok_def decimal_std_def round_half_away_grid round_half_away_error
        round_half_away_mono round_half_away_id)

subsection \<open>Consequences of the laws\<close>

lemma Round_grid [intro]: "decimal_ok L \<Longrightarrow> on_grid p (dl_Round L x p)"
  by (simp add: decimal_ok_def)

lemma Round_id [decimal_simps]: "decimal_ok L \<Longrightarrow> on_grid p x \<Longrightarrow> dl_Round L x p = x"
  by (simp add: decimal_ok_def)

lemma Round_error: "decimal_ok L \<Longrightarrow> \<bar>dl_Round L x p - x\<bar> \<le> 1 / (2 * 10 ^ p)"
  by (simp add: decimal_ok_def)

lemma Round_mono: "decimal_ok L \<Longrightarrow> x \<le> y \<Longrightarrow> dl_Round L x p \<le> dl_Round L y p"
  by (simp add: decimal_ok_def)

lemma Round_0 [decimal_simps]: "decimal_ok L \<Longrightarrow> dl_Round L 0 p = 0"
  by (simp add: Round_id)

lemma Round_nonneg: "decimal_ok L \<Longrightarrow> 0 \<le> x \<Longrightarrow> 0 \<le> dl_Round L x p"
  using Round_mono [of L 0 x p] by (simp add: Round_0)

lemma Round_nonpos: "decimal_ok L \<Longrightarrow> x \<le> 0 \<Longrightarrow> dl_Round L x p \<le> 0"
  using Round_mono [of L x 0 p] by (simp add: Round_0)

lemma Round_pos_imp: "decimal_ok L \<Longrightarrow> 0 < dl_Round L x p \<Longrightarrow> 0 < x"
  using Round_nonpos [of L x p] by linarith

lemma Div_nonneg: "decimal_ok L \<Longrightarrow> 0 \<le> x \<Longrightarrow> 0 < y \<Longrightarrow> 0 \<le> dl_Div L x y"
  by (simp add: decimal_ok_def Round_nonneg [unfolded decimal_ok_def])

lemma Div_error: "decimal_ok L \<Longrightarrow> y \<noteq> 0 \<Longrightarrow> \<bar>dl_Div L x y - x / y\<bar> \<le> 1 / (2 * 10 ^ 16)"
  using Round_error [of L "x / y" 16] by (simp add: decimal_ok_def)

lemma Div_exact [decimal_simps]:
  "decimal_ok L \<Longrightarrow> y \<noteq> 0 \<Longrightarrow> on_grid 16 (x / y) \<Longrightarrow> dl_Div L x y = x / y"
  by (simp add: decimal_ok_def)

lemma Div_self [decimal_simps]: "decimal_ok L \<Longrightarrow> y \<noteq> 0 \<Longrightarrow> dl_Div L y y = 1"
  by (simp add: Div_exact)

lemma Round_le_grid: "decimal_ok L \<Longrightarrow> on_grid p y \<Longrightarrow> x \<le> y \<Longrightarrow> dl_Round L x p \<le> y"
  using Round_mono [of L x y p] by (simp add: Round_id)

lemma Div_Round: "decimal_ok L \<Longrightarrow> y \<noteq> 0 \<Longrightarrow> dl_Div L x y = dl_Round L (x / y) 16"
  unfolding decimal_ok_def by blast

lemma Div_le_grid: "decimal_ok L \<Longrightarrow> on_grid 16 z \<Longrightarrow> y \<noteq> 0 \<Longrightarrow> x / y \<le> z \<Longrightarrow> dl_Div L x y \<le> z"
  by (simp add: Div_Round Round_le_grid)

text \<open>Two numbers of the same grid that are less than a unit apart are equal.\<close>

lemma on_grid_eqI:
  assumes "on_grid p x" and "on_grid p y" and "\<bar>x - y\<bar> < 1 / 10 ^ p"
  shows "x = y"
proof -
  obtain m n where m: "x = of_int m / 10 ^ p" and n: "y = of_int n / 10 ^ p"
    using assms(1,2) by (auto simp: on_grid_def)
  have "\<bar>of_int (m - n) / 10 ^ p\<bar> < (1::rat) / 10 ^ p"
    using assms(3) by (simp add: m n diff_divide_distrib)
  then have "\<bar>of_int (m - n)\<bar> < (1::rat)" by (simp add: divide_less_cancel)
  then have "m = n" by linarith
  then show ?thesis by (simp add: m n)
qed

text \<open>Rounding something that is close to a grid point gives the grid point.\<close>

lemma Round_near:
  assumes "decimal_ok L" and "on_grid p y" and "\<bar>x - y\<bar> < 1 / (2 * 10 ^ p)"
  shows "dl_Round L x p = y"
proof (rule on_grid_eqI [of p])
  have "\<bar>dl_Round L x p - x\<bar> \<le> 1 / (2 * 10 ^ p)" using assms(1) by (rule Round_error)
  moreover have "(1::rat) / 10 ^ p = 1 / (2 * 10 ^ p) + 1 / (2 * 10 ^ p)" by simp
  ultimately show "\<bar>dl_Round L x p - y\<bar> < 1 / 10 ^ p" using assms(3) by linarith
qed (use assms in auto)

lemmas decimal_bounds = Round_nonneg Div_nonneg Round_mono

section \<open>Results\<close>

text \<open>
  A Go function returning \<open>(T, error)\<close> is a function into \<open>'e + 'a\<close>: \<open>Inl\<close> the error, \<open>Inr\<close> the value.
\<close>

definition is_ok :: "'e + 'a \<Rightarrow> bool" where
  "is_ok r \<longleftrightarrow> (case r of Inl _ \<Rightarrow> False | Inr _ \<Rightarrow> True)"

lemma is_ok_simps [simp]: "is_ok (Inr x)" "\<not> is_ok (Inl e)"
  by (simp_all add: is_ok_def)

lemma is_ok_iff: "is_ok r \<longleftrightarrow> (\<exists>x. r = Inr x)"
  by (cases r) auto

end
