(* ===== verification/Go_Strings.thy ===== *)
theory Go_Strings
  imports Prelude
begin

text \<open>
  The functions of Go's \<open>strings\<close>, \<open>strconv\<close> and \<open>fmt\<close> that the modelled code calls, on byte
  strings.  A \<open>string\<close> is the list of bytes a Go string holds.  Case mapping and white space are
  those of ASCII, which is what the codes, currencies and keys handled here consist of; free
  text beyond ASCII is only concatenated, compared and cut (see \<open>truncateRunes\<close> of the
  accounting package), never case-mapped.
\<close>

section \<open>Bytes\<close>

definition is_space :: "char \<Rightarrow> bool" where
  "is_space c \<longleftrightarrow> (let n = of_char c :: nat in n = 32 \<or> (9 \<le> n \<and> n \<le> 13))"

definition upper_char :: "char \<Rightarrow> char" where
  "upper_char c = (let n = of_char c :: nat in if 97 \<le> n \<and> n \<le> 122 then char_of (n - 32) else c)"

definition lower_char :: "char \<Rightarrow> char" where
  "lower_char c = (let n = of_char c :: nat in if 65 \<le> n \<and> n \<le> 90 then char_of (n + 32) else c)"

definition TrimSpace :: "string \<Rightarrow> string" where
  "TrimSpace s = rev (dropWhile is_space (rev (dropWhile is_space s)))"

definition ToUpper :: "string \<Rightarrow> string" where
  "ToUpper s = map upper_char s"

definition ToLower :: "string \<Rightarrow> string" where
  "ToLower s = map lower_char s"

definition EqualFold :: "string \<Rightarrow> string \<Rightarrow> bool" where
  "EqualFold s t \<longleftrightarrow> ToLower s = ToLower t"

lemma dropWhile_rev_dropWhile:
  "dropWhile P (rev (dropWhile P (rev (dropWhile P xs)))) = rev (dropWhile P (rev (dropWhile P xs)))"
proof (cases "dropWhile P xs")
  case (Cons y ys)
  then have "\<not> P y" by (simp add: dropWhile_eq_Cons_conv)
  then have "dropWhile P (rev ys @ [y]) = dropWhile P (rev ys) @ [y]"
    by (induction "rev ys" arbitrary: ys) (auto simp: dropWhile_append)
  with Cons \<open>\<not> P y\<close> show ?thesis by simp
next
  case Nil
  show ?thesis unfolding Nil by simp
qed

lemma TrimSpace_idem [simp]: "TrimSpace (TrimSpace s) = TrimSpace s"
  by (simp add: TrimSpace_def dropWhile_rev_dropWhile)

lemma TrimSpace_Nil [simp]: "TrimSpace [] = []"
  by (simp add: TrimSpace_def)

lemma EqualFold_refl [simp]: "EqualFold s s"
  by (simp add: EqualFold_def)

lemma upper_char_idem [simp]: "upper_char (upper_char c) = upper_char c"
  by (auto simp: upper_char_def Let_def of_char_of)

lemma ToUpper_idem [simp]: "ToUpper (ToUpper s) = ToUpper s"
  by (simp add: ToUpper_def)

lemma is_space_upper [simp]: "is_space (upper_char c) = is_space c"
  by (auto simp: upper_char_def is_space_def Let_def of_char_of)

lemma ToUpper_TrimSpace: "ToUpper (TrimSpace s) = TrimSpace (ToUpper s)"
  by (simp add: ToUpper_def TrimSpace_def dropWhile_map rev_map comp_def)

section \<open>Joining and printing numbers\<close>

fun Join :: "string list \<Rightarrow> string \<Rightarrow> string" where
  "Join [] sep = []"
| "Join [s] sep = s"
| "Join (s # t # ss) sep = s @ sep @ Join (t # ss) sep"

fun nat_str :: "nat \<Rightarrow> string" where
  "nat_str n = (if n < 10 then [char_of (48 + n)] else nat_str (n div 10) @ [char_of (48 + n mod 10)])"

declare nat_str.simps [simp del]

definition Itoa :: "int \<Rightarrow> string" where
  "Itoa i = (if i < 0 then ''-'' @ nat_str (nat (- i)) else nat_str (nat i))"

text \<open>\<open>strings.Split\<close> at one byte, and \<open>strconv.Atoi\<close> (\<open>int\<close> has 64 bits).\<close>

fun Split :: "string \<Rightarrow> char \<Rightarrow> string list" where
  "Split [] x = [[]]"
| "Split (c # cs) x =
     (if c = x then [] # Split cs x
      else case Split cs x of [] \<Rightarrow> [[c]] | p # ps \<Rightarrow> (c # p) # ps)"

text \<open>The digits read back: the printed form determines the number.\<close>

definition digits_val :: "string \<Rightarrow> nat" where
  "digits_val s = foldl (\<lambda>acc c. 10 * acc + (of_char c - 48)) 0 s"

definition is_digit :: "char \<Rightarrow> bool" where
  "is_digit c \<longleftrightarrow> (let n = of_char c :: nat in 48 \<le> n \<and> n \<le> 57)"

definition Atoi :: "string \<Rightarrow> int option" where
  "Atoi s =
     (let (neg, ds) = (case s of [] \<Rightarrow> (False, []) | c # cs \<Rightarrow>
            if c = CHR ''-'' then (True, cs) else if c = CHR ''+'' then (False, cs) else (False, s));
          n = (if neg then - int (digits_val ds) else int (digits_val ds))
      in if ds \<noteq> [] \<and> list_all is_digit ds \<and> - (2 ^ 63) \<le> n \<and> n < 2 ^ 63 then Some n else None)"

lemma digits_val_nat_str [simp]: "digits_val (nat_str n) = n"
proof (induction n rule: nat_str.induct)
  case (1 n)
  show ?case
  proof (cases "n < 10")
    case True
    then show ?thesis by (subst nat_str.simps) (simp add: digits_val_def of_char_of)
  next
    case False
    have "of_char (char_of (48 + n mod 10) :: char) = 48 + n mod 10"
      by (simp add: of_char_of)
    with False 1 show ?thesis by (subst nat_str.simps) (simp add: digits_val_def)
  qed
qed

lemma nat_str_digits: "list_all is_digit (nat_str n)"
proof (induction n rule: nat_str.induct)
  case (1 n)
  have d: "is_digit (char_of (48 + m))" if "m < 10" for m :: nat
    using that by (simp add: is_digit_def of_char_of)
  show ?case
  proof (cases "n < 10")
    case True
    then show ?thesis by (subst nat_str.simps) (simp add: d)
  next
    case False
    with 1 show ?thesis by (subst nat_str.simps) (simp add: d)
  qed
qed

lemma nat_str_not_Nil [simp]: "nat_str n \<noteq> []"
  by (subst nat_str.simps) simp

lemma nat_str_inj [simp]: "nat_str m = nat_str n \<longleftrightarrow> m = n"
  by (metis digits_val_nat_str)

lemma Itoa_digits: "c \<in> set (Itoa i) \<Longrightarrow> is_digit c \<or> c = CHR ''-''"
  using nat_str_digits by (auto simp: Itoa_def list_all_iff split: if_splits)

lemma not_digit_minus [simp]: "\<not> is_digit (CHR ''-'')"
  by (simp add: is_digit_def)

lemma not_digit_colon [simp]: "\<not> is_digit (CHR '':'')"
  by (simp add: is_digit_def)

lemma nat_str_not_minus: "nat_str n \<noteq> CHR ''-'' # s"
  using nat_str_digits [of n] by auto

lemma Itoa_inj [simp]: "Itoa i = Itoa j \<longleftrightarrow> i = j"
proof
  assume "Itoa i = Itoa j"
  then show "i = j"
    using nat_str_not_minus nat_str_not_minus [symmetric]
    by (fastforce simp: Itoa_def split: if_splits)
qed simp

lemma Itoa_no_colon: "CHR '':'' \<notin> set (Itoa i)"
  using Itoa_digits [of "CHR '':''" i] by (auto simp: is_digit_def)

lemma Itoa_cases:
  obtains (neg) "i < 0" "Itoa i = CHR ''-'' # nat_str (nat (- i))" | (pos) "0 \<le> i" "Itoa i = nat_str (nat i)"
  by (cases "i < 0") (auto simp: Itoa_def)

lemma Atoi_Itoa: "- (2 ^ 63) \<le> i \<Longrightarrow> i < 2 ^ 63 \<Longrightarrow> Atoi (Itoa i) = Some i"
proof (cases i rule: Itoa_cases)
  case pos
  then obtain c cs where c: "nat_str (nat i) = c # cs" by (metis nat_str_not_Nil list.exhaust)
  have "is_digit c" using nat_str_digits [of "nat i"] c by simp
  then have "c \<noteq> CHR ''-''" "c \<noteq> CHR ''+''" by (auto simp: is_digit_def)
  assume "- (2 ^ 63) \<le> i" "i < 2 ^ 63"
  with pos c \<open>c \<noteq> CHR ''-''\<close> \<open>c \<noteq> CHR ''+''\<close> show ?thesis
    using digits_val_nat_str [of "nat i"] nat_str_digits [of "nat i"] by (simp add: Atoi_def)
next
  case neg
  assume "- (2 ^ 63) \<le> i" "i < 2 ^ 63"
  with neg show ?thesis by (simp add: Atoi_def nat_str_digits)
qed

lemma Split_no_sep: "x \<notin> set s \<Longrightarrow> Split s x = [s]"
  by (induction s) auto

lemma Split_sep: "x \<notin> set s \<Longrightarrow> Split (s @ x # t) x = s # Split t x"
  by (induction s) auto

lemma Itoa_not_Nil [simp]: "Itoa i \<noteq> []"
  by (simp add: Itoa_def)

text \<open>A prefix without the separator and the rest are determined by the whole.\<close>

lemma append_sep_inj:
  assumes "x \<notin> set a" and "x \<notin> set b"
  shows "a @ x # c = b @ x # d \<longleftrightarrow> a = b \<and> c = d"
  using assms
proof (induction a arbitrary: b)
  case Nil
  then show ?case by (cases b) auto
next
  case (Cons y a)
  then show ?case by (cases b) auto
qed

lemma append_tail_inj:
  assumes "x \<notin> set a" and "x \<notin> set b" and "c = [] \<or> hd c = x" and "d = [] \<or> hd d = x"
    and "a @ c = b @ d"
  shows "a = b \<and> c = d"
  using assms
proof (induction a arbitrary: b)
  case Nil
  then show ?case by (cases b) (auto simp: hd_append split: if_splits)
next
  case (Cons y a)
  then show ?case by (cases b) auto
qed

lemma append_sep_neq: "x \<notin> set b \<Longrightarrow> a @ x # c \<noteq> b"
  by auto

text \<open>The \<open>%0nd\<close> verb of a number that is not negative: zeros on the left up to the width.\<close>

definition zero_pad :: "nat \<Rightarrow> nat \<Rightarrow> string" where
  "zero_pad w n = replicate (w - length (nat_str n)) (CHR ''0'') @ nat_str n"

lemma digits_val_zeros: "foldl (\<lambda>acc c. 10 * acc + (of_char c - 48)) (0::nat) (replicate k (CHR ''0'')) = 0"
  by (induction k) simp_all

lemma digits_val_zero_pad [simp]: "digits_val (zero_pad w n) = n"
  using digits_val_nat_str [of n] by (simp add: zero_pad_def digits_val_def digits_val_zeros)

lemma zero_pad_inj [simp]: "zero_pad w m = zero_pad w n \<longleftrightarrow> m = n"
  by (metis digits_val_zero_pad)

lemma zero_pad_digits: "list_all is_digit (zero_pad w n)"
  using nat_str_digits [of n] by (auto simp: zero_pad_def list_all_iff is_digit_def)

text \<open>The \<open>%q\<close> verb of \<open>fmt\<close> on ASCII: quotes, with quote, backslash and control bytes escaped.\<close>

definition hex_digit :: "nat \<Rightarrow> char" where
  "hex_digit n = (if n < 10 then char_of (48 + n) else char_of (87 + n))"

definition quote_char :: "char \<Rightarrow> string" where
  "quote_char c = (let n = of_char c :: nat in
     if n = 34 \<or> n = 92 then [CHR 0x5C, c]
     else if n = 7 then [CHR 0x5C, CHR ''a''] else if n = 8 then [CHR 0x5C, CHR ''b'']
     else if n = 9 then [CHR 0x5C, CHR ''t''] else if n = 10 then [CHR 0x5C, CHR ''n'']
     else if n = 11 then [CHR 0x5C, CHR ''v''] else if n = 12 then [CHR 0x5C, CHR ''f'']
     else if n = 13 then [CHR 0x5C, CHR ''r'']
     else if n < 32 \<or> n = 127 then [CHR 0x5C, CHR ''x'', hex_digit (n div 16), hex_digit (n mod 16)]
     else [c])"

definition Quote :: "string \<Rightarrow> string" where
  "Quote s = [CHR 0x22] @ concat (map quote_char s) @ [CHR 0x22]"

end
