(* ===== verification/Go_Time.thy ===== *)
theory Go_Time
  imports Go_Strings
begin

text \<open>
  The part of Go's \<open>time\<close> the accounting code uses, in UTC: dates of the proleptic Gregorian calendar
  as days since 1970-01-01, normalising \<open>time.Date\<close>, the date of an instant, and the first of its
  month, which keys an accounting period.
\<close>

type_synonym time = int

section \<open>Calendar\<close>

text \<open>
  \<open>time.Date\<close> in UTC: a month outside 1..12 and a day outside the month are normalised.  The months
  the accounting code handles are pairs of a year and a month.
\<close>

type_synonym civil_month = "int \<times> int"

definition leap :: "int \<Rightarrow> bool" where
  "leap y \<longleftrightarrow> y mod 4 = 0 \<and> (y mod 100 \<noteq> 0 \<or> y mod 400 = 0)"

definition days_before_year :: "int \<Rightarrow> int" where
  "days_before_year y = 365 * (y - 1) + (y - 1) div 4 - (y - 1) div 100 + (y - 1) div 400"

definition month_len :: "int \<Rightarrow> int \<Rightarrow> int" where
  "month_len y m = (if m = 2 then (if leap y then 29 else 28) else if m \<in> {4, 6, 9, 11} then 30 else 31)"

definition days_before_month :: "int \<Rightarrow> int \<Rightarrow> int" where
  "days_before_month y m = sum_list (map (month_len y) [1..m - 1])"

definition unix_day :: "int \<Rightarrow> int \<Rightarrow> int \<Rightarrow> int" where
  "unix_day y m d =
     (let y' = y + (m - 1) div 12; m' = (m - 1) mod 12 + 1
      in days_before_year y' + days_before_month y' m' + d - 1 - 719162)"

definition Date_UTC :: "int \<Rightarrow> int \<Rightarrow> int \<Rightarrow> time" where
  "Date_UTC y m d = unix_day y m d * 86400000000000"

text \<open>\<open>Format("2006-01")\<close> for years from 0 on.\<close>

definition format_month :: "civil_month \<Rightarrow> string" where
  "format_month m = zero_pad 4 (nat (fst m)) @ ''-'' @ zero_pad 2 (nat (snd m))"

definition month_ok :: "civil_month \<Rightarrow> bool" where
  "month_ok m \<longleftrightarrow> 0 \<le> fst m \<and> 1 \<le> snd m \<and> snd m \<le> 12"

text \<open>The calendar date of an instant.\<close>

definition day_of_time :: "time \<Rightarrow> int" where
  "day_of_time t = t div 86400000000000"

definition year_of_day :: "int \<Rightarrow> int" where
  "year_of_day d =
     (let n = d + 719162; y = 400 * n div 146097 + 1
      in if days_before_year (y + 1) \<le> n then y + 1 else y)"

definition month_of_day :: "int \<Rightarrow> civil_month" where
  "month_of_day d =
     (let y = year_of_day d; r = d + 719162 - days_before_year y
      in (y, case find (\<lambda>m. r < days_before_month y (m + 1)) [1..12] of Some m \<Rightarrow> m | None \<Rightarrow> 12))"

definition firstOfMonthUTC :: "time \<Rightarrow> civil_month" where
  "firstOfMonthUTC t = month_of_day (day_of_time t)"

section \<open>Lemmas\<close>

lemma div_step:
  fixes y k :: int
  assumes "0 < k"
  shows "y div k = (y - 1) div k + (if y mod k = 0 then 1 else 0)"
proof (cases "y mod k = 0")
  case True
  have "(y - 1) div k = y div k - 1"
    using assms True mult_div_mod_eq [of k y]
    by (intro int_div_pos_eq [of _ _ _ "k - 1"]) (auto simp: right_diff_distrib)
  with True show ?thesis by simp
next
  case False
  have "(y - 1) div k = y div k"
    using assms False mult_div_mod_eq [of k y] pos_mod_sign [of k y] pos_mod_bound [of k y]
    by (intro int_div_pos_eq [of _ _ _ "y mod k - 1"]) linarith+
  with False show ?thesis by simp
qed

lemma mod_400: "(y::int) mod 400 = 0 \<Longrightarrow> y mod 100 = 0" "(y::int) mod 100 = 0 \<Longrightarrow> y mod 4 = 0"
  using dvd_trans [of 100 400 y] dvd_trans [of 4 100 y] by (simp_all add: mod_eq_0_iff_dvd)

lemma leap_count:
  fixes a b c y :: int
  shows "\<lbrakk>r \<Longrightarrow> q; q \<Longrightarrow> p\<rbrakk> \<Longrightarrow>
    365 * y + (a + (if p then 1 else 0)) - (b + (if q then 1 else 0)) + (c + (if r then 1 else 0))
    = 365 * (y - 1) + a - b + c + (if p \<and> (\<not> q \<or> r) then 366 else 365)"
  by auto

lemma days_before_year_Suc: "days_before_year (y + 1) = days_before_year y + (if leap y then 366 else 365)"
proof -
  have "days_before_year (y + 1) = 365 * y + y div 4 - y div 100 + y div 400"
    by (simp add: days_before_year_def)
  also have "\<dots> = 365 * y + ((y - 1) div 4 + (if y mod 4 = 0 then 1 else 0))
      - ((y - 1) div 100 + (if y mod 100 = 0 then 1 else 0))
      + ((y - 1) div 400 + (if y mod 400 = 0 then 1 else 0))"
    by (simp only: div_step [of 4 y] div_step [of 100 y] div_step [of 400 y])
  also have "\<dots> = days_before_year y + (if leap y then 366 else 365)"
    unfolding days_before_year_def leap_def by (rule leap_count) (fact mod_400)+
  finally show ?thesis .
qed

lemma days_before_month_step:
  "1 \<le> m \<Longrightarrow> days_before_month y (m + 1) = days_before_month y m + month_len y m"
  by (simp add: days_before_month_def upto_rec2)

lemma year_length: "days_before_month y 13 = (if leap y then 366 else 365)"
proof -
  have "[1..13 - 1] = [1, 2, 3, 4, 5, 6, 7, 8, 9, 10, 11, 12 :: int]" by code_simp
  then show ?thesis unfolding days_before_month_def by (simp add: month_len_def)
qed

lemma unix_day_next_month:
  assumes "1 \<le> m" and "m \<le> 12"
  shows "unix_day y (m + 1) d = unix_day y m d + month_len y m"
proof (cases "m = 12")
  case True
  have "days_before_month y 12 + month_len y 12 = (if leap y then 366 else 365)"
    using days_before_month_step [of 12 y] by (simp add: year_length)
  with True show ?thesis
    by (simp add: unix_day_def days_before_year_Suc days_before_month_def Let_def split: if_splits)
next
  case False
  with assms have "m div 12 = 0" "m mod 12 = m" "(m - 1) div 12 = 0" "(m - 1) mod 12 = m - 1" by auto
  with assms show ?thesis by (simp add: unix_day_def days_before_month_step Let_def)
qed

lemma div_bounds:
  fixes x k :: int
  assumes "0 < k"
  shows "x - (k - 1) \<le> k * (x div k)" and "k * (x div k) \<le> x"
  using mult_div_mod_eq [of k x] pos_mod_sign [OF assms, of x] pos_mod_bound [OF assms, of x] by linarith+

lemma year_count_bounds:
  fixes a b c k :: int
  assumes "k - 3 \<le> 4 * a" "4 * a \<le> k" "k - 99 \<le> 100 * b" "100 * b \<le> k" "k - 399 \<le> 400 * c" "400 * c \<le> k"
  shows "146097 * k - 699 \<le> 400 * (365 * k + a - b + c)" and "400 * (365 * k + a - b + c) \<le> 146097 * k + 396"
proof -
  have "400 * (365 * k + a - b + c) = 146000 * k + 100 * (4 * a) - 4 * (100 * b) + 400 * c" by simp
  then show "146097 * k - 699 \<le> 400 * (365 * k + a - b + c)" "400 * (365 * k + a - b + c) \<le> 146097 * k + 396"
    using assms by linarith+
qed

lemma days_before_year_bounds:
  "146097 * (y - 1) - 699 \<le> 400 * days_before_year y" "400 * days_before_year y \<le> 146097 * (y - 1) + 396"
  using year_count_bounds [of "y - 1" "(y - 1) div 4" "(y - 1) div 100" "(y - 1) div 400"]
    div_bounds [of 4 "y - 1"] div_bounds [of 100 "y - 1"] div_bounds [of 400 "y - 1"]
  by (simp_all add: days_before_year_def)

lemma days_before_year_mono: "x \<le> y \<Longrightarrow> days_before_year x \<le> days_before_year y"
proof (induction "nat (y - x)" arbitrary: y)
  case (Suc n)
  then have "days_before_year x \<le> days_before_year (y - 1)" by simp
  also have "\<dots> \<le> days_before_year y" using days_before_year_Suc [of "y - 1"] by simp
  finally show ?case .
qed simp

lemma year_of_day_bounds:
  "days_before_year (year_of_day d) \<le> d + 719162" "d + 719162 < days_before_year (year_of_day d + 1)"
proof -
  define n y where "n = d + 719162" and "y = 400 * n div 146097 + 1"
  have y: "146097 * (y - 1) \<le> 400 * n" "400 * n < 146097 * y"
    using div_bounds [of 146097 "400 * n"] unfolding y_def by simp_all
  have "days_before_year y \<le> n" using days_before_year_bounds(2) [of y] y by linarith
  moreover have "n < days_before_year (y + 1 + 1)"
  proof -
    have "146097 * (y + 1) - 699 \<le> 400 * days_before_year (y + 1 + 1)"
      using days_before_year_bounds(1) [of "y + 1 + 1"] by simp
    then have "400 * n < 400 * days_before_year (y + 1 + 1)" using y(2) by simp
    then show ?thesis by simp
  qed
  moreover have e: "year_of_day d = (if days_before_year (y + 1) \<le> n then y + 1 else y)"
    unfolding year_of_day_def Let_def n_def y_def by (rule refl)
  ultimately show "days_before_year (year_of_day d) \<le> d + 719162"
    "d + 719162 < days_before_year (year_of_day d + 1)"
    unfolding e n_def [symmetric] by simp_all
qed

lemma year_of_day_unique:
  assumes "days_before_year y \<le> d + 719162" and "d + 719162 < days_before_year (y + 1)"
  shows "year_of_day d = y"
proof (rule ccontr)
  assume "year_of_day d \<noteq> y"
  then consider "year_of_day d + 1 \<le> y" | "y + 1 \<le> year_of_day d" by linarith
  then show False
    using days_before_year_mono year_of_day_bounds [of d] assms by cases fastforce+
qed

lemma days_before_month_mono: "m \<le> n \<Longrightarrow> 1 \<le> m \<Longrightarrow> days_before_month y m \<le> days_before_month y n"
proof (induction "nat (n - m)" arbitrary: n)
  case (Suc k)
  then have "days_before_month y m \<le> days_before_month y (n - 1)" by simp
  also have "\<dots> \<le> days_before_month y n"
    using days_before_month_step [of "n - 1" y] Suc.hyps(2) Suc.prems by (simp add: month_len_def)
  finally show ?case .
qed simp

text \<open>A day of a month has that month as its period.\<close>

lemma month_of_unix_day:
  assumes "1 \<le> m" and "m \<le> 12" and "1 \<le> d" and "d \<le> month_len y m"
  shows "month_of_day (unix_day y m d) = (y, m)"
proof -
  define r where "r = days_before_month y m + d - 1"
  have u: "unix_day y m d + 719162 = days_before_year y + r"
    using assms(1,2) by (simp add: unix_day_def r_def Let_def)
  have r0: "0 \<le> r"
    using days_before_month_mono [of 1 m y] assms by (simp add: r_def days_before_month_def)
  have lt: "r < days_before_month y (m + 1)"
    using days_before_month_step [OF assms(1)] assms(4) by (simp add: r_def)
  also have "\<dots> \<le> days_before_month y 13" using assms by (intro days_before_month_mono) auto
  finally have "r < (if leap y then 366 else 365)" by (simp add: year_length)
  then have y: "year_of_day (unix_day y m d) = y"
    using u r0 days_before_year_Suc [of y] by (intro year_of_day_unique) auto
  have before: "\<not> r < days_before_month y (j + 1)" if "1 \<le> j" "j < m" for j
    using days_before_month_mono [of "j + 1" m y] that assms(3) by (simp add: r_def)
  have "find (\<lambda>j. r < days_before_month y (j + 1)) [1..12] = Some m"
    unfolding find_Some_iff
    by (rule exI [of _ "nat (m - 1)"]) (use assms lt before [of "1 + int j" for j] in \<open>auto simp: nth_upto add.commute\<close>)
  then show ?thesis using u by (simp add: month_of_day_def y Let_def)
qed

lemma firstOfMonthUTC_Date:
  "1 \<le> m \<Longrightarrow> m \<le> 12 \<Longrightarrow> 1 \<le> d \<Longrightarrow> d \<le> month_len y m \<Longrightarrow> firstOfMonthUTC (Date_UTC y m d) = (y, m)"
  by (simp add: firstOfMonthUTC_def Date_UTC_def day_of_time_def month_of_unix_day)

end
