(* ===== verification/Acct_Types.thy ===== *)
theory Acct_Types
  imports Go_Time
begin

text \<open>
  The data of the general ledger (internal/entity/accounting.go, payment.go, inventory.go,
  order.go): accounts, sides, journal entries, and the fact sets the posting rules read.  A Go
  string type with a list of constants is a datatype with those constants and one constructor
  for every other string; a nullable column (\<open>sql.NullX\<close>, \<open>decimal.NullDecimal\<close>) is an option;
  \<open>time.Time\<close> is the number of nanoseconds since the Unix epoch.
\<close>

section \<open>Enumerations\<close>

datatype AcctSide = AcctSideDebit | AcctSideCredit | OtherSide string

datatype PaymentMethodName = CARD | CARD_TEST | BANK_INVOICE | CASH | OtherMethod string

datatype VatRegime = VatRegimeOSS | VatRegimePLDomestic | VatRegimeExport | VatRegimeWDT
  | VatRegimeUKStockDomestic | VatRegimeNone | OtherRegime string

datatype InputVatRegime = InputVatRegimeWNT | InputVatRegimeImport | InputVatRegimeDomesticPL
  | InputVatRegimeDomesticUK | OtherInputRegime string

datatype MaterialMovementType = MaterialMovementReceipt | MaterialMovementReceiptProduction
  | MaterialMovementIssueProduction | MaterialMovementIssueSample
  | MaterialMovementReturnProduction | MaterialMovementReturnSample
  | MaterialMovementAdjustment | MaterialMovementWriteoff | OtherMovement string

datatype AcctSourceType = AcctSourceOrderSale | AcctSourceOrderRefund | AcctSourceOrderPrepayment
  | AcctSourceOrderTransit | AcctSourceOrderDeliveredSale | AcctSourceMaterialReceipt
  | AcctSourceMaterialIssue | AcctSourceMaterialReturn | AcctSourceMaterialWriteoff
  | AcctSourceMaterialAdjustment | AcctSourceProductionReceive
  | AcctSourceProductionReceiveReversal | AcctSourceOpexMonth | AcctSourceShippingActual
  | AcctSourceDevExpense | AcctSourceOrderDispute | AcctSourceManual | AcctSourceReversal
  | AcctSourceDepreciation | AcctSourceCorpTax | OtherSource string

datatype AcctEventType = AcctEventOrderPaid | AcctEventOrderRefund | AcctEventOrderShipped
  | AcctEventOrderDelivered | AcctEventOrderDispute | OtherEvent string

datatype RefundDisposition = RefundDispositionUnset | RefundDispositionRestock
  | RefundDispositionWriteoff | RefundDispositionSeconds | OtherDisposition string

text \<open>The wire strings of the regimes: the order row stores them and a refund reads them back.\<close>

fun VatRegime_string :: "VatRegime \<Rightarrow> string" where
  "VatRegime_string VatRegimeOSS = ''oss''"
| "VatRegime_string VatRegimePLDomestic = ''pl_domestic''"
| "VatRegime_string VatRegimeExport = ''export''"
| "VatRegime_string VatRegimeWDT = ''wdt''"
| "VatRegime_string VatRegimeUKStockDomestic = ''uk_stock_domestic''"
| "VatRegime_string VatRegimeNone = ''none''"
| "VatRegime_string (OtherRegime s) = s"

definition VatRegime_of :: "string \<Rightarrow> VatRegime" where
  "VatRegime_of s =
     (if s = ''oss'' then VatRegimeOSS else if s = ''pl_domestic'' then VatRegimePLDomestic
      else if s = ''export'' then VatRegimeExport else if s = ''wdt'' then VatRegimeWDT
      else if s = ''uk_stock_domestic'' then VatRegimeUKStockDomestic
      else if s = ''none'' then VatRegimeNone else OtherRegime s)"

definition InputVatRegime_of :: "string \<Rightarrow> InputVatRegime" where
  "InputVatRegime_of s =
     (if s = ''wnt'' then InputVatRegimeWNT else if s = ''import'' then InputVatRegimeImport
      else if s = ''domestic_pl'' then InputVatRegimeDomesticPL
      else if s = ''domestic_uk'' then InputVatRegimeDomesticUK else OtherInputRegime s)"

fun ValidInputVatRegimes :: "InputVatRegime \<Rightarrow> bool" where
  "ValidInputVatRegimes (OtherInputRegime s) = False"
| "ValidInputVatRegimes r = True"

lemma VatRegime_string_of [simp]: "VatRegime_string (VatRegime_of s) = s"
  by (simp add: VatRegime_of_def)

section \<open>Journal entries\<close>

record AcctJournalLineInsert =
  ln_AccountCode :: string
  ln_Side :: AcctSide
  ln_Amount :: decimal
  ln_AmountSrc :: "decimal option"
  ln_CurrencySrc :: "string option"
  ln_Note :: "string option"

record AcctJournalEntryInsert =
  je_OccurredAt :: time
  je_Description :: string
  je_SourceType :: AcctSourceType
  je_SourceKey :: string
  je_CreatedBy :: string
  je_HasCaveat :: bool
  je_Caveat :: "string option"
  je_SupplierID :: "int option"
  je_Lines :: "AcctJournalLineInsert list"

text \<open>The composite literals of the builders, with the zero value of every field left out.\<close>

definition mkLine :: "string \<Rightarrow> AcctSide \<Rightarrow> decimal \<Rightarrow> AcctJournalLineInsert" where
  "mkLine code side amt = \<lparr>ln_AccountCode = code, ln_Side = side, ln_Amount = amt,
     ln_AmountSrc = None, ln_CurrencySrc = None, ln_Note = None\<rparr>"

definition mkEntry :: "time \<Rightarrow> string \<Rightarrow> AcctSourceType \<Rightarrow> string \<Rightarrow> string
    \<Rightarrow> AcctJournalLineInsert list \<Rightarrow> AcctJournalEntryInsert" where
  "mkEntry occ desc st key by ls = \<lparr>je_OccurredAt = occ, je_Description = desc,
     je_SourceType = st, je_SourceKey = key, je_CreatedBy = by, je_HasCaveat = False,
     je_Caveat = None, je_SupplierID = None, je_Lines = ls\<rparr>"

abbreviation Dr :: "string \<Rightarrow> decimal \<Rightarrow> AcctJournalLineInsert" where
  "Dr code amt \<equiv> mkLine code AcctSideDebit amt"

abbreviation Cr :: "string \<Rightarrow> decimal \<Rightarrow> AcctJournalLineInsert" where
  "Cr code amt \<equiv> mkLine code AcctSideCredit amt"

lemma mkLine_simps [simp]:
  "ln_AccountCode (mkLine c s a) = c" "ln_Side (mkLine c s a) = s" "ln_Amount (mkLine c s a) = a"
  "ln_AmountSrc (mkLine c s a) = None" "ln_CurrencySrc (mkLine c s a) = None"
  "ln_Note (mkLine c s a) = None"
  by (simp_all add: mkLine_def)

lemma mkEntry_simps [simp]:
  "je_OccurredAt (mkEntry t d st k b ls) = t" "je_Description (mkEntry t d st k b ls) = d"
  "je_SourceType (mkEntry t d st k b ls) = st" "je_SourceKey (mkEntry t d st k b ls) = k"
  "je_CreatedBy (mkEntry t d st k b ls) = b" "je_HasCaveat (mkEntry t d st k b ls) = False"
  "je_Caveat (mkEntry t d st k b ls) = None" "je_SupplierID (mkEntry t d st k b ls) = None"
  "je_Lines (mkEntry t d st k b ls) = ls"
  by (simp_all add: mkEntry_def)

section \<open>Facts\<close>

record AcctOrderItemFact =
  it_Id :: int
  it_ProductId :: int
  it_Quantity :: decimal
  it_UnitCost :: "decimal option"

record AcctOrderFacts =
  of_Id :: int
  of_UUID :: string
  of_Placed :: time
  of_TotalPrice :: decimal
  of_Currency :: string
  of_TotalSettledBase :: "decimal option"
  of_PaymentFee :: "decimal option"
  of_VatAmount :: "decimal option"
  of_VatRatePct :: "decimal option"
  of_PaymentMethodId :: int
  of_PaymentMethodName :: PaymentMethodName
  of_FeePct :: decimal
  of_FeeFixed :: decimal
  of_ShipmentCost :: "decimal option"
  of_FreeShipping :: "bool option"
  of_DestCountry :: string
  of_BuyerVatID :: "string option"
  of_VatRegime :: "string option"
  of_PromoDiscountPct :: "decimal option"
  of_Items :: "AcctOrderItemFact list"

text \<open>
  A Go map has no order of iteration: \<open>rp_RefundedByItem\<close> is the association list of the order
  one particular run takes, with distinct keys.
\<close>

record AcctOrderRefundPayload =
  rp_OrderUUID :: string
  rp_RefundAmount :: decimal
  rp_OrderCurrency :: string
  rp_RefundedByItem :: "(int \<times> int) list"
  rp_Disposition :: RefundDisposition

record AcctOrderDisputePayload =
  dp_OrderUUID :: string
  dp_DisputeID :: string
  dp_Closed :: bool
  dp_Won :: bool
  dp_AmountBase :: decimal
  dp_FeeBase :: decimal
  dp_FeeKnown :: bool
  dp_Currency :: string

record AcctOrderPostingState =
  ps_LegacySale :: bool
  ps_Prepayment :: bool
  ps_Transit :: bool
  ps_DeliveredSale :: bool
  ps_DeliveredEvent :: bool
  ps_Remaining2090 :: decimal
  ps_Remaining1140 :: decimal

record AcctShipmentCostFacts =
  sf_ShipmentID :: int
  sf_OrderUUID :: string
  sf_ActualCost :: "decimal option"
  sf_ReturnShippingCost :: "decimal option"
  sf_ShippingDate :: "time option"
  sf_UpdatedAt :: time

record AcctDevExpenseFacts =
  de_Id :: int
  de_TechCardID :: int
  de_TechCardName :: string
  de_Kind :: string
  de_Description :: "string option"
  de_AmountBase :: "decimal option"
  de_IncurredAt :: "time option"
  de_CreatedAt :: time

record AcctMovementFacts =
  mf_Id :: int
  mf_MovementType :: MaterialMovementType
  mf_Quantity :: decimal
  mf_OnHandBefore :: decimal
  mf_OnHandAfter :: decimal
  mf_UnitCostBase :: "decimal option"
  mf_SupplierId :: "int option"
  mf_Reason :: "string option"
  mf_Comment :: "string option"
  mf_InputVatAmount :: "decimal option"
  mf_InputVatRegime :: "string option"
  mf_OccurredAt :: "time option"
  mf_CreatedAt :: time
  mf_MaterialName :: string

record AcctRunIssueFact =
  ri_MovementType :: MaterialMovementType
  ri_Quantity :: decimal
  ri_UnitCostBase :: "decimal option"
  ri_CreatedAt :: time

text \<open>Of a cost article of a run the posting rule reads only its base amount.\<close>

record AcctRunFacts =
  rf_RunID :: int
  rf_ReceivedAt :: time
  rf_TechCardName :: string
  rf_Costs :: "decimal option list"
  rf_Issues :: "AcctRunIssueFact list"
  rf_ReceiptID :: int
  rf_GoodQtyTotal :: int
  rf_DefectQtyTotal :: int
  rf_IsFinal :: bool
  rf_AllGoodQty :: int
  rf_AllReceivedQty :: int
  rf_PlannedQtyTotal :: int
  rf_OtherPostedManualBase :: decimal
  rf_OtherPostedFGBase :: decimal
  rf_IsAux :: bool
  rf_AllScrapQty :: int

record AcctOpexCategorySum =
  os_Category :: string
  os_AmountBase :: decimal
  os_VatBase :: decimal
  os_UncostedLabels :: "string list"

section \<open>Outcomes of the builders\<close>

text \<open>
  The sentinels of internal/accounting/errors.go.  \<open>EmptyReceiptError\<close> unwraps to \<open>ErrSkipEmpty\<close>,
  so \<open>errors.Is\<close> matches it there.
\<close>

datatype acct_error = ErrNotReady | ErrSkipNonEUR | ErrDegenerateAmounts | ErrSkipUncosted
  | ErrSkipEmpty | ErrUnknownMovementType | EmptyReceiptError "string list"

fun is_ErrSkipEmpty :: "acct_error \<Rightarrow> bool" where
  "is_ErrSkipEmpty ErrSkipEmpty = True"
| "is_ErrSkipEmpty (EmptyReceiptError cs) = True"
| "is_ErrSkipEmpty e = False"

end
