(* ===== verification/Acct_Balance.thy ===== *)
theory Acct_Balance
  imports Acct_Types
begin

text \<open>
  Double entry (internal/accounting/balance.go): the check every built entry passes, its
  declarative meaning, and the movement an entry causes on one account.
\<close>

section \<open>ValidateBalanced\<close>

datatype balance_error = NoLines | NonPositiveAmount nat string | InvalidSide nat string
  | UnbalancedEntry decimal decimal

fun ValidateBalanced_loop ::
  "nat \<Rightarrow> decimal \<Rightarrow> decimal \<Rightarrow> AcctJournalLineInsert list \<Rightarrow> balance_error + (decimal \<times> decimal)"
where
  "ValidateBalanced_loop i debit credit [] = Inr (debit, credit)"
| "ValidateBalanced_loop i debit credit (l # ls) =
     (if \<not> 0 < ln_Amount l then Inl (NonPositiveAmount i (ln_AccountCode l))
      else case ln_Side l of
        AcctSideDebit \<Rightarrow> ValidateBalanced_loop (Suc i) (debit + ln_Amount l) credit ls
      | AcctSideCredit \<Rightarrow> ValidateBalanced_loop (Suc i) debit (credit + ln_Amount l) ls
      | OtherSide s \<Rightarrow> Inl (InvalidSide i (ln_AccountCode l)))"

definition ValidateBalanced :: "AcctJournalEntryInsert \<Rightarrow> balance_error option" where
  "ValidateBalanced e =
     (if je_Lines e = [] then Some NoLines
      else case ValidateBalanced_loop 0 0 0 (je_Lines e) of
        Inl err \<Rightarrow> Some err
      | Inr (debit, credit) \<Rightarrow>
          if debit \<noteq> credit then Some (UnbalancedEntry debit credit) else None)"

section \<open>What it means\<close>

definition line_ok :: "AcctJournalLineInsert \<Rightarrow> bool" where
  "line_ok l \<longleftrightarrow> 0 < ln_Amount l \<and> (ln_Side l = AcctSideDebit \<or> ln_Side l = AcctSideCredit)"

definition debit_of :: "AcctJournalLineInsert \<Rightarrow> decimal" where
  "debit_of l = (if ln_Side l = AcctSideDebit then ln_Amount l else 0)"

definition credit_of :: "AcctJournalLineInsert \<Rightarrow> decimal" where
  "credit_of l = (if ln_Side l = AcctSideCredit then ln_Amount l else 0)"

definition debits :: "AcctJournalLineInsert list \<Rightarrow> decimal" where
  "debits ls = sum_list (map debit_of ls)"

definition credits :: "AcctJournalLineInsert list \<Rightarrow> decimal" where
  "credits ls = sum_list (map credit_of ls)"

definition lines_ok :: "AcctJournalLineInsert list \<Rightarrow> bool" where
  "lines_ok ls \<longleftrightarrow> list_all line_ok ls \<and> debits ls = credits ls"

definition entry_ok :: "AcctJournalEntryInsert \<Rightarrow> bool" where
  "entry_ok e \<longleftrightarrow> je_Lines e \<noteq> [] \<and> lines_ok (je_Lines e)"

text \<open>The movement on one account, debit positive.\<close>

definition acct_net :: "string \<Rightarrow> AcctJournalLineInsert list \<Rightarrow> decimal" where
  "acct_net c ls = sum_list (map (\<lambda>l. if ln_AccountCode l = c then debit_of l - credit_of l else 0) ls)"

lemma debits_simps [simp]:
  "debits [] = 0" "debits (l # ls) = debit_of l + debits ls" "debits (ls @ ms) = debits ls + debits ms"
  by (simp_all add: debits_def)

lemma credits_simps [simp]:
  "credits [] = 0" "credits (l # ls) = credit_of l + credits ls"
  "credits (ls @ ms) = credits ls + credits ms"
  by (simp_all add: credits_def)

lemma acct_net_simps [simp]:
  "acct_net c [] = 0"
  "acct_net c (l # ls) = (if ln_AccountCode l = c then debit_of l - credit_of l else 0) + acct_net c ls"
  "acct_net c (ls @ ms) = acct_net c ls + acct_net c ms"
  by (simp_all add: acct_net_def)

lemma mkLine_sides [simp]:
  "debit_of (Dr c a) = a" "credit_of (Dr c a) = 0" "debit_of (Cr c a) = 0" "credit_of (Cr c a) = a"
  by (simp_all add: debit_of_def credit_of_def)

lemma line_ok_mkLine [simp]: "line_ok (Dr c a) \<longleftrightarrow> 0 < a" "line_ok (Cr c a) \<longleftrightarrow> 0 < a"
  by (simp_all add: line_ok_def)

lemma lines_okI: "list_all line_ok ls \<Longrightarrow> debits ls = credits ls \<Longrightarrow> lines_ok ls"
  by (simp add: lines_ok_def)

lemma lines_ok_append [intro]: "lines_ok ls \<Longrightarrow> lines_ok ms \<Longrightarrow> lines_ok (ls @ ms)"
  by (simp add: lines_ok_def)

lemma lines_ok_Nil [simp]: "lines_ok []"
  by (simp add: lines_ok_def)

lemma lines_ok_pair [simp]: "lines_ok [Dr c a, Cr d a] \<longleftrightarrow> 0 < a"
  by (auto simp: lines_ok_def)

text \<open>A line that is appended only when its amount is positive.\<close>

definition line_if_pos :: "AcctJournalLineInsert \<Rightarrow> AcctJournalLineInsert list" where
  "line_if_pos l = (if 0 < ln_Amount l then [l] else [])"

definition pair_if_pos :: "string \<Rightarrow> string \<Rightarrow> decimal \<Rightarrow> AcctJournalLineInsert list" where
  "pair_if_pos dr cr a = (if 0 < a then [Dr dr a, Cr cr a] else [])"

lemma line_if_pos_ok [simp]: "list_all line_ok (line_if_pos (mkLine c s a)) \<longleftrightarrow>
    (0 < a \<longrightarrow> line_ok (mkLine c s a))"
  by (simp add: line_if_pos_def)

lemma line_if_pos_sums [simp]:
  "debits (line_if_pos (Dr c a)) = max 0 a" "credits (line_if_pos (Dr c a)) = 0"
  "debits (line_if_pos (Cr c a)) = 0" "credits (line_if_pos (Cr c a)) = max 0 a"
  by (simp_all add: line_if_pos_def max_def)

lemma acct_net_line_if_pos [simp]:
  "acct_net c (line_if_pos (Dr d a)) = (if c = d then max 0 a else 0)"
  "acct_net c (line_if_pos (Cr d a)) = (if c = d then - max 0 a else 0)"
  by (auto simp: line_if_pos_def max_def)

lemma lines_ok_pair_if_pos [simp]: "lines_ok (pair_if_pos c d a)"
  by (simp add: pair_if_pos_def)

lemma pair_if_pos_sums [simp]:
  "list_all line_ok (pair_if_pos c d a)"
  "debits (pair_if_pos c d a) = max 0 a" "credits (pair_if_pos c d a) = max 0 a"
  by (simp_all add: pair_if_pos_def max_def)

lemma acct_net_pair_if_pos [simp]:
  "acct_net x (pair_if_pos c d a) = (if c = x then max 0 a else 0) - (if d = x then max 0 a else 0)"
  by (auto simp: pair_if_pos_def max_def)

text \<open>The lines a builder's outcome puts into the ledger.\<close>

definition entry_lines :: "acct_error + AcctJournalEntryInsert \<Rightarrow> AcctJournalLineInsert list" where
  "entry_lines r = (case r of Inl _ \<Rightarrow> [] | Inr e \<Rightarrow> je_Lines e)"

lemma entry_lines_simps [simp]: "entry_lines (Inl err) = []" "entry_lines (Inr e) = je_Lines e"
  by (simp_all add: entry_lines_def)

section \<open>ValidateBalanced decides the meaning\<close>

lemma ValidateBalanced_loop_Inr:
  "ValidateBalanced_loop i d c ls = Inr r \<longleftrightarrow>
     list_all line_ok ls \<and> r = (d + debits ls, c + credits ls)"
proof (induction ls arbitrary: i d c)
  case (Cons l ls)
  show ?case
    by (cases "ln_Side l") (auto simp: Cons.IH line_ok_def debit_of_def credit_of_def add.assoc)
qed auto

lemma ValidateBalanced_None: "ValidateBalanced e = None \<longleftrightarrow> entry_ok e"
proof (cases "ValidateBalanced_loop 0 0 0 (je_Lines e)")
  case (Inl err)
  then have "\<not> list_all line_ok (je_Lines e)"
    using ValidateBalanced_loop_Inr [of 0 0 0 "je_Lines e"] by fastforce
  with Inl show ?thesis by (auto simp: ValidateBalanced_def entry_ok_def lines_ok_def)
next
  case (Inr r)
  then have "list_all line_ok (je_Lines e)" "r = (debits (je_Lines e), credits (je_Lines e))"
    using ValidateBalanced_loop_Inr [of 0 0 0 "je_Lines e" r] by simp_all
  with Inr show ?thesis by (auto simp: ValidateBalanced_def entry_ok_def lines_ok_def)
qed

text \<open>
  ValidateBalanced accepts an entry exactly when it has a line, every amount is positive,
  every side is debit or credit, and total debits equal total credits.
\<close>

theorem ValidateBalanced_iff: "ValidateBalanced e = None \<longleftrightarrow> entry_ok e"
  by (rule ValidateBalanced_None)

text \<open>A balanced entry moves nothing on the whole: the movements of its accounts cancel.\<close>

lemma acct_net_total:
  assumes "finite A" and "ln_AccountCode ` set ls \<subseteq> A"
  shows "(\<Sum>c\<in>A. acct_net c ls) = debits ls - credits ls"
  using assms(2)
proof (induction ls)
  case (Cons l ls)
  have "(\<Sum>c\<in>A. if ln_AccountCode l = c then debit_of l - credit_of l else 0)
      = debit_of l - credit_of l"
    using Cons.prems assms(1) by (simp add: sum.delta)
  with Cons show ?case by (simp add: sum.distrib)
qed simp

end
