(* ===== verification/Acct_Vat.thy ===== *)
theory Acct_Vat
  imports Acct_Types
begin

text \<open>
  The VAT regime resolver (internal/accounting/vatregime.go): from the countries an order is
  shipped from and to, whether the buyer is a business and how it was paid, to the regime and
  the country whose rate applies.
\<close>

definition euCountries :: "string list" where
  "euCountries =
     [''AT'', ''BE'', ''BG'', ''HR'', ''CY'', ''CZ'', ''DK'', ''EE'', ''FI'',
      ''FR'', ''DE'', ''GR'', ''HU'', ''IE'', ''IT'', ''LV'', ''LT'', ''LU'',
      ''MT'', ''NL'', ''PL'', ''PT'', ''RO'', ''SK'', ''SI'', ''ES'', ''SE'']"

abbreviation countryPL :: string where "countryPL \<equiv> ''PL''"
abbreviation countryGB :: string where "countryGB \<equiv> ''GB''"

abbreviation CaveatUnknownDestination :: string where
  "CaveatUnknownDestination \<equiv> ''unknown destination''"

abbreviation CaveatWdtWithoutVatID :: string where
  "CaveatWdtWithoutVatID \<equiv> ''wdt without vat id''"

record VatFacts =
  vf_DestCountry :: string
  vf_OriginCountry :: string
  vf_IsB2B :: bool
  vf_BuyerVatID :: string
  vf_PaymentMethod :: PaymentMethodName

definition normalizeCountry :: "string \<Rightarrow> string" where
  "normalizeCountry c = ToUpper (TrimSpace c)"

definition isCountryCode :: "string \<Rightarrow> bool" where
  "isCountryCode s \<longleftrightarrow>
     length s = 2 \<and> list_all (\<lambda>c. 65 \<le> (of_char c :: nat) \<and> (of_char c :: nat) \<le> 90) s"

definition ResolveVatRegime :: "VatFacts \<Rightarrow> VatRegime \<times> string list" where
  "ResolveVatRegime f =
     (let origin = normalizeCountry (vf_OriginCountry f); dest = normalizeCountry (vf_DestCountry f) in
      if vf_PaymentMethod f = CASH \<or> origin = countryGB then (VatRegimeUKStockDomestic, [])
      else if \<not> isCountryCode dest then (VatRegimeExport, [CaveatUnknownDestination])
      else let inEU = dest \<in> set euCountries in
        if vf_IsB2B f then
          (if dest = countryPL then (VatRegimePLDomestic, [])
           else if inEU then
             (if TrimSpace (vf_BuyerVatID f) = [] then (VatRegimeOSS, [CaveatWdtWithoutVatID])
              else (VatRegimeWDT, []))
           else (VatRegimeExport, []))
        else if \<not> inEU then (VatRegimeExport, [])
        else if dest = countryPL then (VatRegimePLDomestic, [])
        else (VatRegimeOSS, []))"

fun RegimeHasVAT :: "VatRegime \<Rightarrow> bool" where
  "RegimeHasVAT VatRegimeOSS = True"
| "RegimeHasVAT VatRegimePLDomestic = True"
| "RegimeHasVAT VatRegimeUKStockDomestic = True"
| "RegimeHasVAT r = False"

fun RegimeRateCountry :: "VatRegime \<Rightarrow> string \<Rightarrow> string \<Rightarrow> string" where
  "RegimeRateCountry VatRegimeOSS dest origin = normalizeCountry dest"
| "RegimeRateCountry VatRegimePLDomestic dest origin = countryPL"
| "RegimeRateCountry VatRegimeUKStockDomestic dest origin = countryGB"
| "RegimeRateCountry r dest origin = []"

section \<open>Properties\<close>

lemma normalizeCountry_idem [simp]: "normalizeCountry (normalizeCountry c) = normalizeCountry c"
  by (simp add: normalizeCountry_def ToUpper_TrimSpace)

lemma euCountries_codes: "c \<in> set euCountries \<Longrightarrow> isCountryCode c"
  by (auto simp: euCountries_def isCountryCode_def)

lemma PL_in_EU: "countryPL \<in> set euCountries" and GB_not_in_EU: "countryGB \<notin> set euCountries"
  by (simp_all add: euCountries_def)

definition uk_origin :: "VatFacts \<Rightarrow> bool" where
  "uk_origin f \<longleftrightarrow> vf_PaymentMethod f = CASH \<or> normalizeCountry (vf_OriginCountry f) = countryGB"

text \<open>
  The resolver is the case table of its comment: UK stock first, then an unknown destination
  as export with a caveat, then by destination and kind of buyer; the two guards, and nothing
  else, raise a caveat.
\<close>

theorem ResolveVatRegime_table:
  "ResolveVatRegime f =
     (let d = normalizeCountry (vf_DestCountry f); eu = (d \<in> set euCountries \<and> d \<noteq> countryPL) in
      if uk_origin f then (VatRegimeUKStockDomestic, [])
      else if d = countryPL then (VatRegimePLDomestic, [])
      else if eu \<and> vf_IsB2B f \<and> TrimSpace (vf_BuyerVatID f) \<noteq> [] then (VatRegimeWDT, [])
      else if eu \<and> vf_IsB2B f then (VatRegimeOSS, [CaveatWdtWithoutVatID])
      else if eu then (VatRegimeOSS, [])
      else (VatRegimeExport, if isCountryCode d then [] else [CaveatUnknownDestination]))"
  using euCountries_codes PL_in_EU
  by (auto simp: ResolveVatRegime_def uk_origin_def Let_def)

text \<open>
  A regime that posts VAT always has a country whose rate applies, and the order can only be
  zero-rated as an intra-community supply when the buyer gave a VAT id and the destination is an
  EU country other than Poland.
\<close>

theorem ResolveVatRegime_rate_country:
  "(RegimeHasVAT (fst (ResolveVatRegime f)) \<longleftrightarrow>
      isCountryCode (RegimeRateCountry (fst (ResolveVatRegime f)) (vf_DestCountry f) (vf_OriginCountry f))) \<and>
   (fst (ResolveVatRegime f) = VatRegimeWDT \<longleftrightarrow>
      \<not> uk_origin f \<and> vf_IsB2B f \<and> TrimSpace (vf_BuyerVatID f) \<noteq> [] \<and>
      normalizeCountry (vf_DestCountry f) \<in> set euCountries - {countryPL})"
proof -
  let ?d = "normalizeCountry (vf_DestCountry f)"
  have "isCountryCode countryPL" "isCountryCode countryGB" "\<not> isCountryCode []"
    by (simp_all add: isCountryCode_def)
  moreover have "?d \<in> set euCountries \<Longrightarrow> isCountryCode ?d" by (rule euCountries_codes)
  ultimately show ?thesis
    using PL_in_EU by (auto simp: ResolveVatRegime_def uk_origin_def Let_def)
qed

text \<open>
  Upper or lower case and surrounding blanks of the two country codes never change the
  regime or its caveats.
\<close>

theorem ResolveVatRegime_normalizes:
  "ResolveVatRegime (f\<lparr>vf_DestCountry := normalizeCountry (vf_DestCountry f),
                       vf_OriginCountry := normalizeCountry (vf_OriginCountry f)\<rparr>)
   = ResolveVatRegime f"
  by (simp add: ResolveVatRegime_def Let_def)

end
