(* ===== verification/Acct_Common.thy ===== *)
theory Acct_Common
  imports Acct_Balance Acct_Vat
begin

text \<open>
  What the posting rules share (internal/accounting/common.go, accounts.go and the helpers of
  ordersale.go): the chart of accounts, which account an order's money and revenue land on, the
  gross amount in the book currency, VAT contained in a gross amount, the acquirer fee, the
  split of a discounted sale, cost of goods, and the caveats an entry carries.
\<close>

section \<open>Accounts\<close>

abbreviation Acc1010 :: string where "Acc1010 \<equiv> ''1010''"
abbreviation Acc1030 :: string where "Acc1030 \<equiv> ''1030''"
abbreviation Acc1040 :: string where "Acc1040 \<equiv> ''1040''"
abbreviation Acc1110 :: string where "Acc1110 \<equiv> ''1110''"
abbreviation Acc1120 :: string where "Acc1120 \<equiv> ''1120''"
abbreviation Acc1130 :: string where "Acc1130 \<equiv> ''1130''"
abbreviation Acc1140 :: string where "Acc1140 \<equiv> ''1140''"
abbreviation Acc2010 :: string where "Acc2010 \<equiv> ''2010''"
abbreviation Acc2030 :: string where "Acc2030 \<equiv> ''2030''"
abbreviation Acc2070 :: string where "Acc2070 \<equiv> ''2070''"
abbreviation Acc2080 :: string where "Acc2080 \<equiv> ''2080''"
abbreviation Acc2090 :: string where "Acc2090 \<equiv> ''2090''"
abbreviation Acc4010 :: string where "Acc4010 \<equiv> ''4010''"
abbreviation Acc4020 :: string where "Acc4020 \<equiv> ''4020''"
abbreviation Acc4030 :: string where "Acc4030 \<equiv> ''4030''"
abbreviation Acc4040 :: string where "Acc4040 \<equiv> ''4040''"
abbreviation Acc4110 :: string where "Acc4110 \<equiv> ''4110''"
abbreviation Acc4310 :: string where "Acc4310 \<equiv> ''4310''"
abbreviation Acc5010 :: string where "Acc5010 \<equiv> ''5010''"
abbreviation Acc5040 :: string where "Acc5040 \<equiv> ''5040''"
abbreviation Acc5050 :: string where "Acc5050 \<equiv> ''5050''"
abbreviation Acc5090 :: string where "Acc5090 \<equiv> ''5090''"
abbreviation Acc6030 :: string where "Acc6030 \<equiv> ''6030''"
abbreviation Acc6050 :: string where "Acc6050 \<equiv> ''6050''"
abbreviation Acc6060 :: string where "Acc6060 \<equiv> ''6060''"
abbreviation Acc6210 :: string where "Acc6210 \<equiv> ''6210''"
abbreviation Acc6390 :: string where "Acc6390 \<equiv> ''6390''"

definition opexCategoryAccounts :: "string \<rightharpoonup> string" where
  "opexCategoryAccounts = map_of
     [(''salaries'', ''6330''), (''rent'', ''6340''), (''software'', ''6320''),
      (''marketing_other'', ''6110''), (''production_content'', ''6125''), (''taxes'', ''6360''),
      (''bank_fees'', ''6060''), (''professional_services'', ''6350''),
      (''logistics_office'', ''6010''), (''employer_social'', ''6335''), (''other'', ''6390'')]"

definition OpexCategoryAccount :: "string \<Rightarrow> string \<times> bool" where
  "OpexCategoryAccount category =
     (case opexCategoryAccounts category of Some code \<Rightarrow> (code, True) | None \<Rightarrow> (Acc6390, False))"

abbreviation baseCurrency :: string where "baseCurrency \<equiv> ''EUR''"
abbreviation createdBySystem :: string where "createdBySystem \<equiv> ''system''"
abbreviation descMaxLen :: nat where "descMaxLen \<equiv> 512"
abbreviation caveatMaxLen :: nat where "caveatMaxLen \<equiv> 512"

section \<open>Text\<close>

definition nullStr :: "string \<Rightarrow> string option" where
  "nullStr s = (if s \<noteq> [] then Some s else None)"

text \<open>A rune of a UTF-8 string is a byte that does not continue another one, with what continues it.\<close>

definition is_cont :: "char \<Rightarrow> bool" where
  "is_cont c \<longleftrightarrow> 128 \<le> (of_char c :: nat) \<and> (of_char c :: nat) < 192"

definition rune_count :: "string \<Rightarrow> nat" where
  "rune_count s = length (filter (\<lambda>c. \<not> is_cont c) s)"

fun take_runes :: "nat \<Rightarrow> string \<Rightarrow> string" where
  "take_runes n [] = []"
| "take_runes n (c # cs) =
     (if is_cont c then c # take_runes n cs
      else case n of 0 \<Rightarrow> [] | Suc m \<Rightarrow> c # take_runes m cs)"

definition truncateRunes :: "string \<Rightarrow> nat \<Rightarrow> string" where
  "truncateRunes s maxLen = (if rune_count s \<le> maxLen then s else take_runes maxLen s)"

definition joinProductIDs :: "int list \<Rightarrow> string" where
  "joinProductIDs ids = (if ids = [] then [] else Join (map Itoa (sort (remdups ids))) '', '')"

text \<open>A caveat that is appended under a condition.\<close>

definition cavIf :: "bool \<Rightarrow> string \<Rightarrow> string list" where
  "cavIf b s = (if b then [s] else [])"

definition applyCaveats :: "AcctJournalEntryInsert \<Rightarrow> string list \<Rightarrow> AcctJournalEntryInsert" where
  "applyCaveats e caveats =
     (if caveats = [] then e
      else e\<lparr>je_HasCaveat := True,
             je_Caveat := Some (truncateRunes (Join caveats ''; '') caveatMaxLen)\<rparr>)"

section \<open>Orders\<close>

record VatDecision =
  vd_Regime :: VatRegime
  vd_RatePct :: decimal
  vd_Caveats :: "string list"

definition isStripe :: "PaymentMethodName \<Rightarrow> bool" where
  "isStripe m \<longleftrightarrow> m = CARD \<or> m = CARD_TEST"

fun moneyAccount :: "PaymentMethodName \<Rightarrow> string" where
  "moneyAccount CASH = Acc1010"
| "moneyAccount BANK_INVOICE = Acc1040"
| "moneyAccount m = Acc1030"

definition revenueAccount :: "PaymentMethodName \<Rightarrow> string" where
  "revenueAccount m = (if m = CASH then Acc4010 else Acc4020)"

definition isB2B :: "AcctOrderFacts \<Rightarrow> bool" where
  "isB2B f \<longleftrightarrow> (case of_BuyerVatID f of Some s \<Rightarrow> TrimSpace s \<noteq> [] | None \<Rightarrow> False)"

definition saleRevenueAccount :: "AcctOrderFacts \<Rightarrow> string" where
  "saleRevenueAccount f = (if isB2B f then Acc4310 else revenueAccount (of_PaymentMethodName f))"

definition isBaseCurrency :: "string \<Rightarrow> bool" where
  "isBaseCurrency currency \<longleftrightarrow> EqualFold (TrimSpace currency) baseCurrency"

definition grossEUR :: "AcctOrderFacts \<Rightarrow> acct_error + decimal" where
  "grossEUR f =
     (case of_TotalSettledBase f of
        Some g \<Rightarrow> Inr g
      | None \<Rightarrow>
          if \<not> isStripe (of_PaymentMethodName f) \<and> isBaseCurrency (of_Currency f)
          then Inr (of_TotalPrice f)
          else if isStripe (of_PaymentMethodName f) then Inl ErrNotReady
          else Inl ErrSkipNonEUR)"

definition orderFee :: "decimal_lib \<Rightarrow> AcctOrderFacts \<Rightarrow> decimal \<Rightarrow> decimal" where
  "orderFee L f g =
     (if isStripe (of_PaymentMethodName f) then
        (case of_PaymentFee f of
           Some fee \<Rightarrow> if 0 < fee then dl_Round L fee 2 else 0
         | None \<Rightarrow> 0)
      else let estimated = dl_Div L (g * of_FeePct f) 100 + of_FeeFixed f;
               estimated = (if estimated < 0 then 0 else estimated)
           in dl_Round L estimated 2)"

text \<open>\<open>oneCent\<close> is \<open>decimal.NewFromFloat(0.01)\<close>, a hundredth exactly.\<close>

abbreviation oneCent :: decimal where "oneCent \<equiv> 1 / 100"

definition revenueLines :: "decimal_lib \<Rightarrow> string \<Rightarrow> decimal \<Rightarrow> decimal option
    \<Rightarrow> AcctJournalLineInsert list \<times> string" where
  "revenueLines L acct net pct =
     (let single = [Cr acct net] in
      case pct of
        None \<Rightarrow> (single, [])
      | Some d \<Rightarrow>
          if net \<le> 0 \<or> d \<le> 0 then (single, [])
          else if 100 \<le> d
          then (single, ''promo discount >= 100% not reconstructable; 4030 discount line omitted'')
          else
            let factor = 100 - d;
                fullNet = dl_Round L (dl_Div L (net * 100) factor) 2;
                discount = fullNet - net
            in if discount \<le> 0 then (single, [])
               else if \<bar>dl_Round L (dl_Div L (fullNet * factor) 100) 2 - net\<bar> > oneCent
               then (single, ''promo discount did not reconstruct within a cent; 4030 discount line omitted'')
               else ([Cr acct fullNet, Dr Acc4030 discount], []))"

definition vatInclusive :: "decimal_lib \<Rightarrow> decimal \<Rightarrow> decimal \<Rightarrow> decimal" where
  "vatInclusive L gross ratePct = dl_Round L (dl_Div L (gross * ratePct) (ratePct + 100)) 2"

abbreviation vatMismatchTolerance :: decimal where "vatMismatchTolerance \<equiv> 1 / 100"

definition vatSnapshotDiffers :: "decimal_lib \<Rightarrow> decimal \<Rightarrow> decimal \<Rightarrow> bool" where
  "vatSnapshotDiffers L regimeVat snapshotVat \<longleftrightarrow>
     (if snapshotVat \<le> 0 then False
      else dl_Div L \<bar>regimeVat - snapshotVat\<bar> snapshotVat > vatMismatchTolerance)"

definition vatSnapshotCaveat :: "decimal_lib \<Rightarrow> decimal \<Rightarrow> decimal \<Rightarrow> string" where
  "vatSnapshotCaveat L regimeVat snapshotVat =
     ''vat snapshot mismatch (regime '' @ dl_StringFixed L regimeVat 2 @ '' vs snapshot '' @
     dl_StringFixed L snapshotVat 2 @ '')''"

definition saleCOGS :: "decimal_lib \<Rightarrow> AcctOrderItemFact list \<Rightarrow> decimal \<times> int list" where
  "saleCOGS L items =
     (let (total, uncosted) = foldl (\<lambda>(total, uncosted) it.
        case it_UnitCost it of
          Some c \<Rightarrow> (total + c * it_Quantity it, uncosted)
        | None \<Rightarrow> (total, uncosted @ [it_ProductId it])) (0, []) items
      in (dl_Round L total 2, uncosted))"

section \<open>Lemmas\<close>

lemma take_runes_count: "rune_count (take_runes n s) = min n (rune_count s)"
  by (induction n s rule: take_runes.induct) (auto simp: rune_count_def split: nat.splits)

lemma take_runes_prefix: "\<exists>t. s = take_runes n s @ t"
  by (induction n s rule: take_runes.induct) (auto split: nat.splits)

text \<open>
  A cut text has at most the given number of runes, keeps whole runes only (it is a prefix
  that ends where a rune ends) and is the text itself when it already fits.
\<close>

theorem truncateRunes_bound:
  "rune_count (truncateRunes s n) = min n (rune_count s) \<and>
   (\<exists>t. s = truncateRunes s n @ t \<and> (t = [] \<or> \<not> is_cont (hd t)))"
proof -
  have "\<exists>t. s = take_runes n s @ t \<and> (t = [] \<or> \<not> is_cont (hd t))"
    by (induction n s rule: take_runes.induct) (auto split: nat.splits)
  then show ?thesis by (auto simp: truncateRunes_def take_runes_count)
qed

theorem truncateRunes_bound_witness:
  "truncateRunes [CHR ''a'', CHR 0xC3, CHR 0xA9, CHR ''b''] 2 = [CHR ''a'', CHR 0xC3, CHR 0xA9] \<and>
   rune_count (truncateRunes [CHR ''a'', CHR 0xC3, CHR 0xA9, CHR ''b''] 2) = 2"
proof -
  have "rune_count [CHR ''a'', CHR 0xC3, CHR 0xA9, CHR ''b''] = 3"
    "truncateRunes [CHR ''a'', CHR 0xC3, CHR 0xA9, CHR ''b''] 2 = [CHR ''a'', CHR 0xC3, CHR 0xA9]"
    by code_simp+
  then show ?thesis
    using truncateRunes_bound [of "[CHR ''a'', CHR 0xC3, CHR 0xA9, CHR ''b'']" 2] by simp
qed

lemma applyCaveats_simps [simp]:
  "je_Lines (applyCaveats e cs) = je_Lines e" "je_SourceType (applyCaveats e cs) = je_SourceType e"
  "je_SourceKey (applyCaveats e cs) = je_SourceKey e" "je_OccurredAt (applyCaveats e cs) = je_OccurredAt e"
  "je_CreatedBy (applyCaveats e cs) = je_CreatedBy e" "je_SupplierID (applyCaveats e cs) = je_SupplierID e"
  "je_HasCaveat (applyCaveats e cs) \<longleftrightarrow> je_HasCaveat e \<or> cs \<noteq> []"
  by (simp_all add: applyCaveats_def)

lemma entry_ok_applyCaveats [simp]: "entry_ok (applyCaveats e cs) = entry_ok e"
  by (simp add: entry_ok_def)

lemma entry_ok_mkEntry [simp]: "entry_ok (mkEntry t d st k b ls) \<longleftrightarrow> ls \<noteq> [] \<and> lines_ok ls"
  by (simp add: entry_ok_def)

lemma orderFee_nonneg: "decimal_ok L \<Longrightarrow> 0 \<le> orderFee L f g"
  by (auto simp: orderFee_def Let_def Round_nonneg Round_0 split: option.splits)

lemma vatInclusive_nonneg: "decimal_ok L \<Longrightarrow> 0 \<le> g \<Longrightarrow> 0 \<le> r \<Longrightarrow> 0 \<le> vatInclusive L g r"
  by (simp add: vatInclusive_def Round_nonneg Div_nonneg)

text \<open>Both shapes of the revenue side carry exactly the net amount to the ledger.\<close>

lemma revenueLines_ok:
  assumes "0 < net"
  shows "list_all line_ok (fst (revenueLines L acct net pct))"
    and "credits (fst (revenueLines L acct net pct)) - debits (fst (revenueLines L acct net pct)) = net"
  using assms by (auto simp: revenueLines_def Let_def split: option.splits)

lemma revenueLines_not_Nil [simp]: "fst (revenueLines L acct net pct) \<noteq> []"
  by (auto simp: revenueLines_def Let_def split: option.splits)

lemma revenueLines_net:
  "acct \<noteq> c \<Longrightarrow> c \<noteq> Acc4030 \<Longrightarrow> acct_net c (fst (revenueLines L acct net pct)) = 0"
  by (auto simp: revenueLines_def Let_def split: option.splits)

text \<open>
  Splitting a discounted sale into a full-price credit and a 4030 contra never changes the
  revenue: whatever the promotion percentage, the lines are well formed and credit, net of the
  contra, exactly the net amount, which lands on the revenue account and 4030 only.
\<close>

theorem revenueLines_preserve_net:
  assumes "0 < net" and "acct \<noteq> Acc4030"
  shows "list_all line_ok (fst (revenueLines L acct net pct)) \<and>
    acct_net acct (fst (revenueLines L acct net pct)) + acct_net Acc4030 (fst (revenueLines L acct net pct)) = - net \<and>
    0 \<le> acct_net Acc4030 (fst (revenueLines L acct net pct)) \<and>
    (\<forall>c. c \<noteq> acct \<and> c \<noteq> Acc4030 \<longrightarrow> acct_net c (fst (revenueLines L acct net pct)) = 0)"
  using assms by (auto simp: revenueLines_def Let_def split: option.splits)

theorem revenueLines_preserve_net_witness:
  "acct_net Acc4020 (fst (revenueLines decimal_std Acc4020 90 (Some 10))) +
   acct_net Acc4030 (fst (revenueLines decimal_std Acc4020 90 (Some 10))) = - 90"
  using revenueLines_preserve_net [of 90 Acc4020 decimal_std "Some 10"] by simp

lemma foldl_saleCOGS:
  "foldl (\<lambda>(total, uncosted) it.
        case it_UnitCost it of
          Some c \<Rightarrow> (total + c * it_Quantity it, uncosted)
        | None \<Rightarrow> (total, uncosted @ [it_ProductId it])) (t, u) items
   = (t + sum_list (map (\<lambda>it. case it_UnitCost it of Some c \<Rightarrow> c * it_Quantity it | None \<Rightarrow> 0) items),
      u @ map it_ProductId (filter (\<lambda>it. it_UnitCost it = None) items))"
  by (induction items arbitrary: t u) (auto split: option.splits)

lemma saleCOGS_eq:
  "saleCOGS L items =
     (dl_Round L (sum_list (map (\<lambda>it. case it_UnitCost it of Some c \<Rightarrow> c * it_Quantity it | None \<Rightarrow> 0) items)) 2,
      map it_ProductId (filter (\<lambda>it. it_UnitCost it = None) items))"
  by (simp add: saleCOGS_def foldl_saleCOGS)

text \<open>
  The product list of a caveat does not depend on the order in which the products were met nor on
  how often.
\<close>

lemma joinProductIDs_set: "set ids = set ids' \<Longrightarrow> joinProductIDs ids = joinProductIDs ids'"
proof -
  assume eq: "set ids = set ids'"
  have "sort (remdups ids) = sorted_list_of_set (set ids)" for ids :: "int list"
    by (simp add: sorted_list_of_set_sort_remdups)
  with eq show ?thesis by (auto simp: joinProductIDs_def)
qed

end
