(* ===== verification/Acct_Sale.thy ===== *)
theory Acct_Sale
  imports Acct_Common
begin

text \<open>
  The order rules S1 and S2 of the ledger (internal/accounting/ordersale.go, refund.go): the entry
  of a paid order and the entry of a refund.  The pieces the delivered chain shares with them
  (the VAT of an order, its shipping, the VAT of a refund, the cost of the units a refund returns)
  are definitions of their own.
\<close>

section \<open>Rule S1: the sale of a paid order\<close>

definition regimeVat :: "decimal_lib \<Rightarrow> VatDecision \<Rightarrow> decimal \<Rightarrow> decimal" where
  "regimeVat L vd g =
     (if RegimeHasVAT (vd_Regime vd) \<and> 0 < vd_RatePct vd then vatInclusive L g (vd_RatePct vd) else 0)"

definition saleVat :: "decimal_lib \<Rightarrow> AcctOrderFacts \<Rightarrow> VatDecision \<Rightarrow> decimal \<Rightarrow> decimal
    \<Rightarrow> decimal \<times> string list" where
  "saleVat L f vd g k =
     (let caveats = vd_Caveats vd;
          vat = regimeVat L vd g;
          (vat, caveats) = (if g \<le> vat then (0, caveats @ [''vat exceeds gross; VAT line dropped''])
                            else (vat, caveats));
          caveats = (case of_VatAmount f of
                       Some a \<Rightarrow> (if 0 < vat \<and> vatSnapshotDiffers L vat (a * k)
                                  then caveats @ [vatSnapshotCaveat L vat (a * k)] else caveats)
                     | None \<Rightarrow> caveats)
      in (vat, caveats))"

definition rawShip :: "decimal_lib \<Rightarrow> AcctOrderFacts \<Rightarrow> decimal \<Rightarrow> decimal" where
  "rawShip L f k =
     (case of_ShipmentCost f of
        Some c \<Rightarrow> (if of_FreeShipping f = Some True then 0 else dl_Round L (c * k) 2)
      | None \<Rightarrow> 0)"

definition saleShip :: "decimal_lib \<Rightarrow> AcctOrderFacts \<Rightarrow> decimal \<Rightarrow> decimal \<Rightarrow> decimal \<times> bool" where
  "saleShip L f k remainder =
     (let ship = rawShip L f k in if remainder \<le> ship then (0, True) else (ship, False))"

definition BuildOrderSaleEntry :: "decimal_lib \<Rightarrow> AcctOrderFacts \<Rightarrow> VatDecision \<Rightarrow> time
    \<Rightarrow> acct_error + AcctJournalEntryInsert" where
  "BuildOrderSaleEntry L f vd occurredAt =
     (case grossEUR f of
        Inl err \<Rightarrow> Inl err
      | Inr g \<Rightarrow>
          if of_TotalPrice f \<le> 0 \<or> g \<le> 0 then Inl ErrDegenerateAmounts
          else
            let k = dl_Div L g (of_TotalPrice f);
                (vat, caveats) = saleVat L f vd g k;
                (ship, dropped) = saleShip L f k (g - vat);
                caveats = caveats @ cavIf dropped ''shipping exceeds remainder; shipping line dropped'';
                net = g - vat - ship;
                (revLines, discCaveat) = revenueLines L (saleRevenueAccount f) net (of_PromoDiscountPct f);
                caveats = caveats @ cavIf (discCaveat \<noteq> []) discCaveat;
                money = moneyAccount (of_PaymentMethodName f);
                fee = orderFee L f g;
                caveats = caveats @ cavIf (0 < fee \<and> \<not> isStripe (of_PaymentMethodName f))
                                        ''fee estimated from method model'';
                (cogs, uncosted) = saleCOGS L (of_Items f);
                caveats = caveats @ cavIf (uncosted \<noteq> [])
                  (''COGS understated; missing cost for product(s): '' @ joinProductIDs uncosted);
                lines = [Dr money g] @ revLines @ line_if_pos (Cr Acc4110 ship)
                        @ line_if_pos (Cr Acc2070 vat)
                        @ pair_if_pos Acc6050 money fee @ pair_if_pos Acc5010 Acc1130 cogs
            in Inr (applyCaveats
                 (mkEntry occurredAt (''order sale '' @ of_UUID f) AcctSourceOrderSale (of_UUID f)
                    createdBySystem lines) caveats))"

section \<open>Rule S2: a refund\<close>

definition refundVat :: "decimal_lib \<Rightarrow> AcctOrderFacts \<Rightarrow> VatDecision \<Rightarrow> decimal \<Rightarrow> decimal
    \<Rightarrow> decimal \<Rightarrow> decimal \<Rightarrow> decimal \<times> string list" where
  "refundVat L f vd g k rOrd r =
     (let caveats = vd_Caveats vd;
          vatr = (if RegimeHasVAT (vd_Regime vd) \<and> 0 < vd_RatePct vd
                  then dl_Round L (vatInclusive L g (vd_RatePct vd) * dl_Div L rOrd (of_TotalPrice f)) 2
                  else 0);
          (vatr, caveats) = (if r \<le> vatr
             then (0, caveats @ [''vat exceeds refund; VAT reversal line dropped''])
             else (vatr, caveats));
          caveats = (case of_VatAmount f of
             Some a \<Rightarrow> (let snap = dl_Round L (a * dl_Div L rOrd (of_TotalPrice f) * k) 2 in
               if 0 < vatr \<and> vatSnapshotDiffers L vatr snap
               then caveats @ [vatSnapshotCaveat L vatr snap] else caveats)
           | None \<Rightarrow> caveats)
      in (vatr, caveats))"

text \<open>\<open>IntPart\<close> of a decimal drops its fraction.\<close>

definition IntPart :: "decimal \<Rightarrow> int" where
  "IntPart q = (if 0 \<le> q then \<lfloor>q\<rfloor> else \<lceil>q\<rceil>)"

text \<open>The units of a line that a refund returns; 0 when the loop skips the line.\<close>

definition refundQty :: "(int \<times> int) list \<Rightarrow> AcctOrderItemFact \<Rightarrow> int" where
  "refundQty refundedByItem it =
     (case map_of refundedByItem (it_Id it) of
        None \<Rightarrow> 0
      | Some qty \<Rightarrow>
          if qty \<le> 0 then 0
          else let sold = IntPart (it_Quantity it); qty = (if sold < qty then sold else qty)
               in if qty \<le> 0 then 0 else qty)"

definition refundCOGS :: "decimal_lib \<Rightarrow> AcctOrderItemFact list \<Rightarrow> (int \<times> int) list
    \<Rightarrow> decimal \<times> int list \<times> int list" where
  "refundCOGS L items refundedByItem =
     (let (total, uncosted) = foldl (\<lambda>(total, uncosted) it.
            let qty = refundQty refundedByItem it in
            if qty = 0 then (total, uncosted)
            else case it_UnitCost it of
                Some c \<Rightarrow> (total + c * of_int qty, uncosted)
              | None \<Rightarrow> (total, uncosted @ [it_ProductId it])) (0, []) items;
          unknownItems = map fst (filter (\<lambda>(id, qty). 0 < qty \<and> id \<notin> it_Id ` set items) refundedByItem)
      in (dl_Round L total 2, uncosted, unknownItems))"

text \<open>The stock side: only a restocked refund takes cost back.\<close>

definition refundStock :: "decimal_lib \<Rightarrow> AcctOrderRefundPayload \<Rightarrow> AcctOrderItemFact list
    \<Rightarrow> AcctJournalLineInsert list \<times> string list" where
  "refundStock L refund items =
     (case rp_Disposition refund of
        RefundDispositionWriteoff \<Rightarrow> ([],
          [''refund dispositioned writeoff: goods not restocked, sale COGS stays expensed''])
      | RefundDispositionSeconds \<Rightarrow> ([],
          [''refund dispositioned seconds: goods restocked as zero-cost B grade, sale COGS stays expensed''])
      | _ \<Rightarrow>
          let (cogsr, uncosted, unknownItems) = refundCOGS L items (rp_RefundedByItem refund)
          in (pair_if_pos Acc1130 Acc5050 cogsr,
              cavIf (uncosted \<noteq> []) (''COGS return understated; missing cost for product(s): ''
                                     @ joinProductIDs uncosted)
              @ cavIf (unknownItems \<noteq> []) (''refund references order item(s) not on the order; COGS return understated: ''
                                           @ joinProductIDs unknownItems)))"

definition BuildOrderRefundEntry :: "decimal_lib \<Rightarrow> AcctOrderFacts \<Rightarrow> AcctOrderRefundPayload
    \<Rightarrow> AcctOrderItemFact list \<Rightarrow> VatDecision \<Rightarrow> string \<Rightarrow> time
    \<Rightarrow> acct_error + AcctJournalEntryInsert" where
  "BuildOrderRefundEntry L f refund items vd sourceKey occurredAt =
     (case grossEUR f of
        Inl err \<Rightarrow> Inl err
      | Inr g \<Rightarrow>
          if of_TotalPrice f \<le> 0 \<or> g \<le> 0 then Inl ErrDegenerateAmounts
          else
            let k = dl_Div L g (of_TotalPrice f);
                rOrd = rp_RefundAmount refund;
                r = dl_Round L (rOrd * k) 2
            in if r \<le> 0 then Inl ErrDegenerateAmounts
               else
                 let (vatr, caveats) = refundVat L f vd g k rOrd r;
                     netr = r - vatr;
                     lines = [Dr Acc4040 netr] @ line_if_pos (Dr Acc2070 vatr)
                             @ [Cr (moneyAccount (of_PaymentMethodName f)) r];
                     (stock, stockCaveats) = refundStock L refund items
                 in Inr (applyCaveats
                      (mkEntry occurredAt (''order refund '' @ rp_OrderUUID refund) AcctSourceOrderRefund
                         sourceKey createdBySystem (lines @ stock)) (caveats @ stockCaveats)))"

section \<open>Lemmas on the pieces\<close>

lemma saleVat_bounds:
  assumes "decimal_ok L" and "0 < g"
  shows "0 \<le> fst (saleVat L f vd g k)" and "fst (saleVat L f vd g k) < g"
  using assms by (auto simp: saleVat_def regimeVat_def Let_def vatInclusive_nonneg)

lemma regimeVat_grid: "decimal_ok L \<Longrightarrow> on_grid 2 (regimeVat L vd g)"
  by (auto simp: regimeVat_def vatInclusive_def)

lemma saleVat_grid: "decimal_ok L \<Longrightarrow> on_grid 2 (fst (saleVat L f vd g k))"
  using regimeVat_grid [of L vd g] by (auto simp: saleVat_def Let_def)

lemma saleShip_lt: "0 < remainder \<Longrightarrow> fst (saleShip L f k remainder) < remainder"
  by (auto simp: saleShip_def Let_def)

lemma rawShip_grid: "decimal_ok L \<Longrightarrow> on_grid 2 (rawShip L f k)"
  by (auto simp: rawShip_def split: option.splits)

lemma saleShip_grid: "decimal_ok L \<Longrightarrow> on_grid 2 (fst (saleShip L f k remainder))"
  using rawShip_grid [of L f k] by (auto simp: saleShip_def Let_def)

definition shipping_ok :: "AcctOrderFacts \<Rightarrow> bool" where
  "shipping_ok f \<longleftrightarrow> of_FreeShipping f = Some True \<or> (\<forall>c. of_ShipmentCost f = Some c \<longrightarrow> 0 \<le> c)"

lemma saleShip_nonneg:
  "decimal_ok L \<Longrightarrow> shipping_ok f \<Longrightarrow> 0 \<le> k \<Longrightarrow> 0 \<le> fst (saleShip L f k remainder)"
  by (auto simp: saleShip_def rawShip_def shipping_ok_def Let_def Round_nonneg Round_0
        split: option.splits)

lemma refundVat_bounds:
  assumes "decimal_ok L" and "0 < g" and "0 < of_TotalPrice f" and "0 \<le> rOrd" and "0 < r"
  shows "0 \<le> fst (refundVat L f vd g k rOrd r)" and "fst (refundVat L f vd g k rOrd r) < r"
  using assms
  by (auto simp: refundVat_def Let_def vatInclusive_nonneg Round_nonneg Div_nonneg split: option.splits)

lemma refundVat_grid: "decimal_ok L \<Longrightarrow> on_grid 2 (fst (refundVat L f vd g k rOrd r))"
  by (auto simp: refundVat_def Let_def split: option.splits)

lemma refund_amount_pos:
  assumes "decimal_ok L" and "0 < g" and "0 < t" and "0 < dl_Round L (rOrd * dl_Div L g t) 2"
  shows "0 < rOrd"
proof -
  have "0 \<le> dl_Div L g t" using assms(1-3) by (simp add: Div_nonneg)
  moreover have "0 < rOrd * dl_Div L g t" using assms(1,4) by (rule Round_pos_imp)
  ultimately show ?thesis by (simp add: zero_less_mult_iff)
qed

text \<open>The loop over the lines of a refund in closed form.\<close>

definition returned_cost :: "(int \<times> int) list \<Rightarrow> AcctOrderItemFact \<Rightarrow> decimal" where
  "returned_cost m it =
     (case it_UnitCost it of Some c \<Rightarrow> c * of_int (refundQty m it) | None \<Rightarrow> 0)"

definition uncosted_returns :: "AcctOrderItemFact list \<Rightarrow> (int \<times> int) list \<Rightarrow> int list" where
  "uncosted_returns items m =
     map it_ProductId (filter (\<lambda>it. refundQty m it \<noteq> 0 \<and> it_UnitCost it = None) items)"

definition unknown_returns :: "AcctOrderItemFact list \<Rightarrow> (int \<times> int) list \<Rightarrow> int list" where
  "unknown_returns items m = map fst (filter (\<lambda>(id, qty). 0 < qty \<and> id \<notin> it_Id ` set items) m)"

lemma foldl_refundCOGS:
  "foldl (\<lambda>(total, uncosted) it.
            let qty = refundQty m it in
            if qty = 0 then (total, uncosted)
            else case it_UnitCost it of
                Some c \<Rightarrow> (total + c * of_int qty, uncosted)
              | None \<Rightarrow> (total, uncosted @ [it_ProductId it])) (t, u) items =
     (t + sum_list (map (returned_cost m) items), u @ uncosted_returns items m)"
  by (induction items arbitrary: t u)
     (auto simp: returned_cost_def uncosted_returns_def Let_def split: option.splits)

lemma refundCOGS_eq:
  "refundCOGS L items m =
     (dl_Round L (sum_list (map (returned_cost m) items)) 2, uncosted_returns items m,
      unknown_returns items m)"
  by (simp add: refundCOGS_def foldl_refundCOGS unknown_returns_def)

text \<open>What a successful build consists of, for the sale.\<close>

lemma BuildOrderSaleEntry_Inr:
  assumes "BuildOrderSaleEntry L f vd t = Inr e"
  obtains g k vat ship where
    "grossEUR f = Inr g" "0 < of_TotalPrice f" "0 < g" "k = dl_Div L g (of_TotalPrice f)"
    "vat = fst (saleVat L f vd g k)" "ship = fst (saleShip L f k (g - vat))"
    "je_Lines e = [Dr (moneyAccount (of_PaymentMethodName f)) g]
       @ fst (revenueLines L (saleRevenueAccount f) (g - vat - ship) (of_PromoDiscountPct f))
       @ line_if_pos (Cr Acc4110 ship) @ line_if_pos (Cr Acc2070 vat)
       @ pair_if_pos Acc6050 (moneyAccount (of_PaymentMethodName f)) (orderFee L f g)
       @ pair_if_pos Acc5010 Acc1130 (fst (saleCOGS L (of_Items f)))"
    "je_SourceType e = AcctSourceOrderSale" "je_SourceKey e = of_UUID f" "je_OccurredAt e = t"
proof -
  from assms obtain g where g: "grossEUR f = Inr g" "0 < of_TotalPrice f" "0 < g"
    by (auto simp: BuildOrderSaleEntry_def split: sum.splits if_splits)
  show ?thesis
    by (rule that [OF g refl refl refl])
       (use assms g in \<open>auto simp: BuildOrderSaleEntry_def Let_def split: prod.splits\<close>)
qed

lemma refundStock_lines:
  "fst (refundStock L rf items) =
     (if rp_Disposition rf \<in> {RefundDispositionWriteoff, RefundDispositionSeconds} then []
      else pair_if_pos Acc1130 Acc5050 (fst (refundCOGS L items (rp_RefundedByItem rf))))"
  by (auto simp: refundStock_def split: prod.splits RefundDisposition.splits)

lemma BuildOrderRefundEntry_Inr:
  assumes "BuildOrderRefundEntry L f rf items vd key t = Inr e"
  obtains g k r vatr where
    "grossEUR f = Inr g" "0 < of_TotalPrice f" "0 < g" "k = dl_Div L g (of_TotalPrice f)"
    "r = dl_Round L (rp_RefundAmount rf * k) 2" "0 < r"
    "vatr = fst (refundVat L f vd g k (rp_RefundAmount rf) r)"
    "je_Lines e = [Dr Acc4040 (r - vatr)] @ line_if_pos (Dr Acc2070 vatr)
       @ [Cr (moneyAccount (of_PaymentMethodName f)) r]
       @ fst (refundStock L rf items)"
    "je_SourceType e = AcctSourceOrderRefund" "je_SourceKey e = key" "je_OccurredAt e = t"
proof -
  from assms obtain g where g: "grossEUR f = Inr g" "0 < of_TotalPrice f" "0 < g"
      "0 < dl_Round L (rp_RefundAmount rf * dl_Div L g (of_TotalPrice f)) 2"
    by (auto simp: BuildOrderRefundEntry_def Let_def split: sum.splits if_splits)
  show ?thesis
    by (rule that [OF g(1-3) refl refl g(4) refl])
       (use assms g in \<open>auto simp: BuildOrderRefundEntry_def Let_def split: prod.splits\<close>)
qed

end
