(* ===== verification/Acct_Delivered.thy ===== *)
theory Acct_Delivered
  imports Acct_Sale
begin

text \<open>
  Revenue recognised on delivery (internal/accounting/orderdelivery.go): the chain of entries of
  one order - prepayment at payment, transit at shipping, delivered sale at delivery - and the
  refund of an order that was not delivered yet.  The VAT, shipping and revenue pieces are those
  of the sale, as the code repeats them line by line.
\<close>

section \<open>The builders\<close>

definition BuildOrderPrepaymentEntry :: "decimal_lib \<Rightarrow> AcctOrderFacts \<Rightarrow> VatDecision \<Rightarrow> time
    \<Rightarrow> acct_error + AcctJournalEntryInsert" where
  "BuildOrderPrepaymentEntry L f vd occurredAt =
     (case grossEUR f of
        Inl err \<Rightarrow> Inl err
      | Inr g \<Rightarrow>
          if of_TotalPrice f \<le> 0 \<or> g \<le> 0 then Inl ErrDegenerateAmounts
          else
            let k = dl_Div L g (of_TotalPrice f);
                (vat, caveats) = saleVat L f vd g k;
                prepay = g - vat;
                money = moneyAccount (of_PaymentMethodName f);
                fee = orderFee L f g;
                caveats = caveats @ cavIf (0 < fee \<and> \<not> isStripe (of_PaymentMethodName f))
                                        ''fee estimated from method model'';
                lines = [Dr money g] @ line_if_pos (Cr Acc2070 vat) @ [Cr Acc2090 prepay]
                        @ pair_if_pos Acc6050 money fee
            in Inr (applyCaveats
                 (mkEntry occurredAt (''order prepayment '' @ of_UUID f) AcctSourceOrderPrepayment
                    (of_UUID f) createdBySystem lines) caveats))"

definition BuildOrderTransitEntry :: "decimal_lib \<Rightarrow> AcctOrderFacts \<Rightarrow> time
    \<Rightarrow> acct_error + AcctJournalEntryInsert" where
  "BuildOrderTransitEntry L f occurredAt =
     (let (cost, uncosted) = saleCOGS L (of_Items f) in
      if cost \<le> 0 then Inl ErrSkipEmpty
      else Inr (applyCaveats
             (mkEntry occurredAt (''order shipped to transit '' @ of_UUID f) AcctSourceOrderTransit
                (of_UUID f) createdBySystem [Dr Acc1140 cost, Cr Acc1130 cost])
             (cavIf (uncosted \<noteq> [])
                (''transit understated; missing cost for product(s): '' @ joinProductIDs uncosted))))"

definition BuildOrderDeliveredSaleEntry :: "decimal_lib \<Rightarrow> AcctOrderFacts \<Rightarrow> decimal \<Rightarrow> decimal \<Rightarrow> time
    \<Rightarrow> acct_error + AcctJournalEntryInsert" where
  "BuildOrderDeliveredSaleEntry L f prepaymentNet transitCost occurredAt =
     (if prepaymentNet \<le> 0 then Inl ErrSkipEmpty
      else case grossEUR f of
        Inl err \<Rightarrow> Inl err
      | Inr g \<Rightarrow>
          if of_TotalPrice f \<le> 0 \<or> g \<le> 0 then Inl ErrDegenerateAmounts
          else
            let k = dl_Div L g (of_TotalPrice f);
                (ship, dropped) = saleShip L f k prepaymentNet;
                caveats = cavIf dropped ''shipping exceeds prepayment remainder; shipping line dropped'';
                revenue = prepaymentNet - ship;
                (revLines, discCaveat) =
                  revenueLines L (saleRevenueAccount f) revenue (of_PromoDiscountPct f);
                caveats = caveats @ cavIf (discCaveat \<noteq> []) discCaveat;
                lines = [Dr Acc2090 prepaymentNet] @ revLines @ line_if_pos (Cr Acc4110 ship)
                        @ pair_if_pos Acc5010 Acc1140 transitCost;
                caveats = caveats @ cavIf (\<not> 0 < transitCost)
                  ''COGS not recognised; no costed transit balance for order''
            in Inr (applyCaveats
                 (mkEntry occurredAt (''order delivered sale '' @ of_UUID f)
                    AcctSourceOrderDeliveredSale (of_UUID f) createdBySystem lines) caveats))"

text \<open>The stock side of a refund before delivery: only when the goods had left for transit.\<close>

definition preDeliveredStock :: "decimal_lib \<Rightarrow> AcctOrderRefundPayload \<Rightarrow> AcctOrderItemFact list
    \<Rightarrow> AcctJournalLineInsert list \<times> string list" where
  "preDeliveredStock L refund items =
     (let (cogsr, uncosted, unknownItems) = refundCOGS L items (rp_RefundedByItem refund);
          (lines, caveats) =
            (if 0 < cogsr then
               (case rp_Disposition refund of
                  RefundDispositionWriteoff \<Rightarrow> ([Dr Acc5040 cogsr, Cr Acc1140 cogsr],
                    [''refund dispositioned writeoff pre-delivery: goods not restocked, transit cost written off''])
                | RefundDispositionSeconds \<Rightarrow> ([Dr Acc5040 cogsr, Cr Acc1140 cogsr],
                    [''refund dispositioned seconds pre-delivery: goods restocked as zero-cost B grade, transit cost written off''])
                | _ \<Rightarrow> ([Dr Acc1130 cogsr, Cr Acc1140 cogsr], []))
             else ([], []))
      in (lines, caveats
            @ cavIf (uncosted \<noteq> []) (''transit return understated; missing cost for product(s): ''
                                     @ joinProductIDs uncosted)
            @ cavIf (unknownItems \<noteq> []) (''refund references order item(s) not on the order; transit return understated: ''
                                         @ joinProductIDs unknownItems)))"

definition BuildOrderPreDeliveredRefundEntry :: "decimal_lib \<Rightarrow> AcctOrderFacts \<Rightarrow> AcctOrderRefundPayload
    \<Rightarrow> AcctOrderItemFact list \<Rightarrow> VatDecision \<Rightarrow> bool \<Rightarrow> string \<Rightarrow> time
    \<Rightarrow> acct_error + AcctJournalEntryInsert" where
  "BuildOrderPreDeliveredRefundEntry L f refund items vd transitPosted sourceKey occurredAt =
     (case grossEUR f of
        Inl err \<Rightarrow> Inl err
      | Inr g \<Rightarrow>
          if of_TotalPrice f \<le> 0 \<or> g \<le> 0 then Inl ErrDegenerateAmounts
          else
            let k = dl_Div L g (of_TotalPrice f);
                rOrd = rp_RefundAmount refund;
                r = dl_Round L (rOrd * k) 2
            in if r \<le> 0 then Inl ErrDegenerateAmounts
               else
                 let (vatr, caveats) = refundVat L f vd g k rOrd r;
                     netBack = r - vatr;
                     lines = [Dr Acc2090 netBack] @ line_if_pos (Dr Acc2070 vatr)
                             @ [Cr (moneyAccount (of_PaymentMethodName f)) r];
                     (stock, stockCaveats) =
                       (if transitPosted then preDeliveredStock L refund items else ([], []))
                 in Inr (applyCaveats
                      (mkEntry occurredAt (''order prepayment refund '' @ rp_OrderUUID refund)
                         AcctSourceOrderRefund sourceKey createdBySystem (lines @ stock))
                      (caveats @ stockCaveats)))"

section \<open>What a successful build consists of\<close>

lemma BuildOrderPrepaymentEntry_Inr:
  assumes "BuildOrderPrepaymentEntry L f vd t = Inr e"
  obtains g k vat where
    "grossEUR f = Inr g" "0 < of_TotalPrice f" "0 < g" "k = dl_Div L g (of_TotalPrice f)"
    "vat = fst (saleVat L f vd g k)"
    "je_Lines e = [Dr (moneyAccount (of_PaymentMethodName f)) g]
       @ line_if_pos (Cr Acc2070 vat) @ [Cr Acc2090 (g - vat)]
       @ pair_if_pos Acc6050 (moneyAccount (of_PaymentMethodName f)) (orderFee L f g)"
    "je_SourceType e = AcctSourceOrderPrepayment" "je_SourceKey e = of_UUID f"
proof -
  from assms obtain g where g: "grossEUR f = Inr g" "0 < of_TotalPrice f" "0 < g"
    by (auto simp: BuildOrderPrepaymentEntry_def split: sum.splits if_splits)
  show ?thesis
    by (rule that [OF g refl refl])
       (use assms g in \<open>auto simp: BuildOrderPrepaymentEntry_def Let_def split: prod.splits\<close>)
qed

lemma BuildOrderTransitEntry_eq:
  "BuildOrderTransitEntry L f t = Inr e \<Longrightarrow>
     je_Lines e = [Dr Acc1140 (fst (saleCOGS L (of_Items f))), Cr Acc1130 (fst (saleCOGS L (of_Items f)))]
     \<and> 0 < fst (saleCOGS L (of_Items f)) \<and> je_SourceType e = AcctSourceOrderTransit
     \<and> je_SourceKey e = of_UUID f"
  by (auto simp: BuildOrderTransitEntry_def Let_def split: prod.splits if_splits)

lemma BuildOrderDeliveredSaleEntry_Inr:
  assumes "BuildOrderDeliveredSaleEntry L f p c t = Inr e"
  obtains g k ship where
    "grossEUR f = Inr g" "0 < of_TotalPrice f" "0 < g" "k = dl_Div L g (of_TotalPrice f)"
    "0 < p" "ship = fst (saleShip L f k p)"
    "je_Lines e = [Dr Acc2090 p]
       @ fst (revenueLines L (saleRevenueAccount f) (p - ship) (of_PromoDiscountPct f))
       @ line_if_pos (Cr Acc4110 ship) @ pair_if_pos Acc5010 Acc1140 c"
    "je_SourceType e = AcctSourceOrderDeliveredSale" "je_SourceKey e = of_UUID f"
proof -
  from assms obtain g where g: "grossEUR f = Inr g" "0 < of_TotalPrice f" "0 < g" "0 < p"
    by (auto simp: BuildOrderDeliveredSaleEntry_def split: sum.splits if_splits)
  show ?thesis
    by (rule that [OF g(1-3) refl g(4) refl])
       (use assms g in \<open>auto simp: BuildOrderDeliveredSaleEntry_def Let_def split: prod.splits\<close>)
qed

lemma preDeliveredStock_lines:
  "fst (preDeliveredStock L rf items) =
     pair_if_pos (if rp_Disposition rf \<in> {RefundDispositionWriteoff, RefundDispositionSeconds}
                  then Acc5040 else Acc1130) Acc1140
       (fst (refundCOGS L items (rp_RefundedByItem rf)))"
  by (auto simp: preDeliveredStock_def pair_if_pos_def Let_def
        split: prod.splits RefundDisposition.splits)

lemma BuildOrderPreDeliveredRefundEntry_Inr:
  assumes "BuildOrderPreDeliveredRefundEntry L f rf items vd shipped key t = Inr e"
  obtains g k r vatr where
    "grossEUR f = Inr g" "0 < of_TotalPrice f" "0 < g" "k = dl_Div L g (of_TotalPrice f)"
    "r = dl_Round L (rp_RefundAmount rf * k) 2" "0 < r"
    "vatr = fst (refundVat L f vd g k (rp_RefundAmount rf) r)"
    "je_Lines e = [Dr Acc2090 (r - vatr)] @ line_if_pos (Dr Acc2070 vatr)
       @ [Cr (moneyAccount (of_PaymentMethodName f)) r]
       @ (if shipped then fst (preDeliveredStock L rf items) else [])"
    "je_SourceType e = AcctSourceOrderRefund" "je_SourceKey e = key"
proof -
  from assms obtain g where g: "grossEUR f = Inr g" "0 < of_TotalPrice f" "0 < g"
      "0 < dl_Round L (rp_RefundAmount rf * dl_Div L g (of_TotalPrice f)) 2"
    by (auto simp: BuildOrderPreDeliveredRefundEntry_def Let_def split: sum.splits if_splits)
  show ?thesis
    by (rule that [OF g(1-3) refl refl g(4) refl])
       (use assms g in \<open>auto simp: BuildOrderPreDeliveredRefundEntry_def Let_def split: prod.splits\<close>)
qed

end
