(* ===== verification/Acct_Order.thy ===== *)
theory Acct_Order
  imports Acct_Delivered
begin

text \<open>
  What the order rules guarantee: every entry they build is balanced and stays on the cent grid,
  which outcome each set of facts has, what an entry moves on every account, how a refund undoes a
  sale, and that the delivered chain of three entries amounts to the single sale entry.
\<close>

section \<open>Accounts of an order\<close>

lemma moneyAccount_cases [simp]:
  "moneyAccount m \<noteq> ''1130''" "moneyAccount m \<noteq> ''1140''" "moneyAccount m \<noteq> ''2070''"
  "moneyAccount m \<noteq> ''2090''" "moneyAccount m \<noteq> ''4030''" "moneyAccount m \<noteq> ''4040''"
  "moneyAccount m \<noteq> ''4110''" "moneyAccount m \<noteq> ''5010''" "moneyAccount m \<noteq> ''5040''"
  "moneyAccount m \<noteq> ''5050''" "moneyAccount m \<noteq> ''6050''" "moneyAccount m \<noteq> ''4010''"
  "moneyAccount m \<noteq> ''4020''" "moneyAccount m \<noteq> ''4310''"
  by (cases m; simp)+

lemma saleRevenueAccount_cases [simp]:
  "saleRevenueAccount f \<noteq> ''1130''" "saleRevenueAccount f \<noteq> ''1140''"
  "saleRevenueAccount f \<noteq> ''2070''" "saleRevenueAccount f \<noteq> ''2090''"
  "saleRevenueAccount f \<noteq> ''4030''" "saleRevenueAccount f \<noteq> ''4040''"
  "saleRevenueAccount f \<noteq> ''4110''" "saleRevenueAccount f \<noteq> ''5010''"
  "saleRevenueAccount f \<noteq> ''5040''" "saleRevenueAccount f \<noteq> ''5050''"
  "saleRevenueAccount f \<noteq> ''6050''" "saleRevenueAccount f \<noteq> moneyAccount m"
  by (cases m; simp add: saleRevenueAccount_def revenueAccount_def)+

lemmas acct_neqs [simp] = moneyAccount_cases [symmetric] saleRevenueAccount_cases [symmetric]

section \<open>Every entry is balanced\<close>

lemma sale_entry_ok:
  assumes "BuildOrderSaleEntry L f vd t = Inr e" and "decimal_ok L" and "shipping_ok f"
  shows "entry_ok e"
  using assms(1)
proof (cases rule: BuildOrderSaleEntry_Inr)
  case (1 g k vat ship)
  note vat = saleVat_bounds [OF assms(2) 1(3), of f vd k, folded 1(5)]
  have k: "0 \<le> k" using 1 assms(2) by (simp add: Div_nonneg)
  have ship: "0 \<le> ship" "ship < g - vat"
    using saleShip_nonneg [OF assms(2,3) k] saleShip_lt [of "g - vat" L f k] vat 1(6) by auto
  show ?thesis
    using 1(3,7) vat ship revenueLines_ok [of "g - vat - ship" L "saleRevenueAccount f" "of_PromoDiscountPct f"]
    by (auto simp: entry_ok_def lines_ok_def)
qed

lemma refund_entry_ok:
  assumes "BuildOrderRefundEntry L f rf items vd key t = Inr e" and "decimal_ok L"
  shows "entry_ok e"
  using assms(1)
proof (cases rule: BuildOrderRefundEntry_Inr)
  case (1 g k r vatr)
  have "0 < rp_RefundAmount rf"
    using refund_amount_pos [OF assms(2) 1(3,2)] 1(4-6) by simp
  then have "0 \<le> vatr" "vatr < r"
    using refundVat_bounds [OF assms(2) 1(3,2) _ 1(6), of "rp_RefundAmount rf" vd k] 1(7) by auto
  then show ?thesis using 1(6,8) by (auto simp: entry_ok_def lines_ok_def refundStock_lines)
qed

lemma prepayment_entry_ok:
  assumes "BuildOrderPrepaymentEntry L f vd t = Inr e" and "decimal_ok L"
  shows "entry_ok e"
  using assms(1)
proof (cases rule: BuildOrderPrepaymentEntry_Inr)
  case (1 g k vat)
  show ?thesis using 1(3,6) saleVat_bounds [OF assms(2) 1(3), of f vd k, folded 1(5)]
    by (auto simp: entry_ok_def lines_ok_def)
qed

lemma transit_entry_ok: "BuildOrderTransitEntry L f t = Inr e \<Longrightarrow> entry_ok e"
  by (drule BuildOrderTransitEntry_eq) (simp add: entry_ok_def)

lemma delivered_entry_ok:
  assumes "BuildOrderDeliveredSaleEntry L f p c t = Inr e" and "decimal_ok L" and "shipping_ok f"
  shows "entry_ok e"
  using assms(1)
proof (cases rule: BuildOrderDeliveredSaleEntry_Inr)
  case (1 g k ship)
  have k: "0 \<le> k" using 1 assms(2) by (simp add: Div_nonneg)
  have ship: "0 \<le> ship" "ship < p"
    using saleShip_nonneg [OF assms(2,3) k] saleShip_lt [of p L f k] 1(5,6) by auto
  then show ?thesis
    using 1(5,7) revenueLines_ok [of "p - ship" L "saleRevenueAccount f" "of_PromoDiscountPct f"]
    by (auto simp: entry_ok_def lines_ok_def)
qed

lemma predelivered_entry_ok:
  assumes "BuildOrderPreDeliveredRefundEntry L f rf items vd shipped key t = Inr e" and "decimal_ok L"
  shows "entry_ok e"
  using assms(1)
proof (cases rule: BuildOrderPreDeliveredRefundEntry_Inr)
  case (1 g k r vatr)
  have "0 < rp_RefundAmount rf"
    using refund_amount_pos [OF assms(2) 1(3,2)] 1(4-6) by simp
  then have "0 \<le> vatr" "vatr < r"
    using refundVat_bounds [OF assms(2) 1(3,2) _ 1(6), of "rp_RefundAmount rf" vd k] 1(7) by auto
  then show ?thesis using 1(6,8) by (auto simp: entry_ok_def lines_ok_def preDeliveredStock_lines)
qed

section \<open>The entries of an order\<close>

definition cents_ok :: "AcctOrderFacts \<Rightarrow> bool" where
  "cents_ok f \<longleftrightarrow> on_grid 2 (of_TotalPrice f) \<and> (\<forall>g. of_TotalSettledBase f = Some g \<longrightarrow> on_grid 2 g)"

definition cent_lines :: "AcctJournalLineInsert list \<Rightarrow> bool" where
  "cent_lines ls \<longleftrightarrow> list_all (\<lambda>l. on_grid 2 (ln_Amount l)) ls"

text \<open>
  The journal entries the order rules can produce for one set of facts: the delivered sale reads
  two balances of the ledger, which are sums of posted amounts.
\<close>

inductive order_entry :: "decimal_lib \<Rightarrow> AcctOrderFacts \<Rightarrow> AcctJournalEntryInsert \<Rightarrow> bool"
  for L f where
  sale: "BuildOrderSaleEntry L f vd t = Inr e \<Longrightarrow> order_entry L f e"
| refund: "BuildOrderRefundEntry L f rf items vd key t = Inr e \<Longrightarrow> order_entry L f e"
| prepayment: "BuildOrderPrepaymentEntry L f vd t = Inr e \<Longrightarrow> order_entry L f e"
| transit: "BuildOrderTransitEntry L f t = Inr e \<Longrightarrow> order_entry L f e"
| delivered: "on_grid 2 p \<Longrightarrow> on_grid 2 c \<Longrightarrow> BuildOrderDeliveredSaleEntry L f p c t = Inr e
    \<Longrightarrow> order_entry L f e"
| predelivered_refund: "BuildOrderPreDeliveredRefundEntry L f rf items vd shipped key t = Inr e
    \<Longrightarrow> order_entry L f e"

lemma grossEUR_grid: "cents_ok f \<Longrightarrow> grossEUR f = Inr g \<Longrightarrow> on_grid 2 g"
  by (auto simp: grossEUR_def cents_ok_def split: option.splits if_splits)

lemma cent_lines_simps [simp]:
  "cent_lines []" "cent_lines (l # ls) \<longleftrightarrow> on_grid 2 (ln_Amount l) \<and> cent_lines ls"
  "cent_lines (ls @ ms) \<longleftrightarrow> cent_lines ls \<and> cent_lines ms"
  by (auto simp: cent_lines_def)

lemma cent_lines_if_pos: "on_grid 2 (ln_Amount l) \<Longrightarrow> cent_lines (line_if_pos l)"
  by (simp add: line_if_pos_def)

lemma cent_pair_if_pos: "on_grid 2 a \<Longrightarrow> cent_lines (pair_if_pos c d a)"
  by (simp add: pair_if_pos_def)

lemma cent_revenueLines:
  "decimal_ok L \<Longrightarrow> on_grid 2 net \<Longrightarrow> cent_lines (fst (revenueLines L acct net pct))"
  by (auto simp: revenueLines_def Let_def Round_grid on_grid_diff split: option.splits)

lemma orderFee_grid: "decimal_ok L \<Longrightarrow> on_grid 2 (orderFee L f g)"
  by (auto simp: orderFee_def Let_def split: option.splits)

lemma COGS_grid:
  "decimal_ok L \<Longrightarrow> on_grid 2 (fst (saleCOGS L items))"
  "decimal_ok L \<Longrightarrow> on_grid 2 (fst (refundCOGS L items m))"
  by (simp_all add: saleCOGS_eq refundCOGS_eq Round_grid)

lemmas cent_intros = cent_lines_if_pos cent_pair_if_pos cent_revenueLines orderFee_grid COGS_grid
  saleVat_grid saleShip_grid refundVat_grid Round_grid on_grid_diff

lemma order_entry_cents:
  "order_entry L f e \<Longrightarrow> decimal_ok L \<Longrightarrow> cents_ok f \<Longrightarrow> cent_lines (je_Lines e)"
proof (induction rule: order_entry.induct)
  case (sale vd t e)
  from sale(1) show ?case
    by (cases rule: BuildOrderSaleEntry_Inr)
       (simp add: cent_intros grossEUR_grid [OF sale(3)] sale(2))
next
  case (refund rf items vd key t e)
  from refund(1) show ?case
    by (cases rule: BuildOrderRefundEntry_Inr)
       (simp add: cent_intros refundStock_lines grossEUR_grid [OF refund(3)] refund(2))
next
  case (prepayment vd t e)
  from prepayment(1) show ?case
    by (cases rule: BuildOrderPrepaymentEntry_Inr)
       (simp add: cent_intros grossEUR_grid [OF prepayment(3)] prepayment(2))
next
  case (transit t e)
  then show ?case by (drule_tac BuildOrderTransitEntry_eq) (simp add: cent_intros)
next
  case (delivered p c t e)
  from delivered(3) show ?case
    by (cases rule: BuildOrderDeliveredSaleEntry_Inr)
       (simp add: cent_intros delivered(1,2,4))
next
  case (predelivered_refund rf items vd shipped key t e)
  from predelivered_refund(1) show ?case
    by (cases rule: BuildOrderPreDeliveredRefundEntry_Inr)
       (simp add: cent_intros preDeliveredStock_lines predelivered_refund(2))
qed

lemma order_entry_ok: "order_entry L f e \<Longrightarrow> decimal_ok L \<Longrightarrow> shipping_ok f \<Longrightarrow> entry_ok e"
  by (induction rule: order_entry.induct)
     (auto intro: sale_entry_ok refund_entry_ok prepayment_entry_ok transit_entry_ok
        delivered_entry_ok predelivered_entry_ok)

text \<open>
  C24: Whatever entry the order rules build - sale, refund, prepayment, transit, delivered sale,
  refund before delivery - it passes ValidateBalanced, and when the order's amounts are whole
  cents so is every line (so the ledger's rounding of the lines cannot unbalance it).  The
  shipment cost must not be negative.
\<close>

theorem order_entries_balanced:
  assumes "order_entry L f e" and "decimal_ok L" and "shipping_ok f"
  shows "ValidateBalanced e = None \<and> (cents_ok f \<longrightarrow> cent_lines (je_Lines e))"
proof -
  have "entry_ok e" using assms by (rule order_entry_ok)
  moreover have "cents_ok f \<Longrightarrow> cent_lines (je_Lines e)" using assms(1,2) by (rule order_entry_cents)
  ultimately show ?thesis by (simp add: ValidateBalanced_None)
qed

text \<open>One order to try the rules on: 123 EUR to Poland at 23%, 10 EUR shipping, two units at cost 15.\<close>

definition ex_order :: AcctOrderFacts where
  "ex_order = \<lparr>of_Id = 1, of_UUID = ''o1'', of_Placed = 0, of_TotalPrice = 123, of_Currency = ''EUR'',
     of_TotalSettledBase = Some 123, of_PaymentFee = Some 2, of_VatAmount = None, of_VatRatePct = None,
     of_PaymentMethodId = 1, of_PaymentMethodName = CARD, of_FeePct = 0, of_FeeFixed = 0,
     of_ShipmentCost = Some 10, of_FreeShipping = None, of_DestCountry = ''PL'', of_BuyerVatID = None,
     of_VatRegime = None, of_PromoDiscountPct = Some 10,
     of_Items = [\<lparr>it_Id = 1, it_ProductId = 7, it_Quantity = 2, it_UnitCost = Some 15\<rparr>]\<rparr>"

definition ex_vat :: VatDecision where
  "ex_vat = \<lparr>vd_Regime = VatRegimePLDomestic, vd_RatePct = 23, vd_Caveats = []\<rparr>"

definition ex_refund :: AcctOrderRefundPayload where
  "ex_refund = \<lparr>rp_OrderUUID = ''o1'', rp_RefundAmount = 123, rp_OrderCurrency = ''EUR'',
     rp_RefundedByItem = [(1, 2)], rp_Disposition = RefundDispositionUnset\<rparr>"

lemma ex_order_ok [simp]: "shipping_ok ex_order" "cents_ok ex_order"
  by (simp_all add: ex_order_def shipping_ok_def cents_ok_def)

lemma ex_values [simp]:
  "grossEUR ex_order = Inr 123" "of_TotalPrice ex_order = 123"
  "saleVat decimal_std ex_order ex_vat 123 1 = (23, [])"
  "dl_Div decimal_std 123 123 = 1"
  "refundVat decimal_std ex_order ex_vat 123 1 123 123 = (23, [])"
  "dl_Round decimal_std 123 2 = 123"
  "fst (saleCOGS decimal_std (of_Items ex_order)) = 30"
  by (simp_all add: grossEUR_def ex_order_def ex_vat_def saleVat_def regimeVat_def vatInclusive_def
        refundVat_def saleCOGS_def decimal_std_def round_half_away_def Let_def)

lemma ex_sale_ok: "is_ok (BuildOrderSaleEntry decimal_std ex_order ex_vat 0)"
  by (simp add: BuildOrderSaleEntry_def Let_def split: prod.splits)

lemma ex_refund_ok: "is_ok (BuildOrderRefundEntry decimal_std ex_order ex_refund items ex_vat key t)"
  by (simp add: BuildOrderRefundEntry_def ex_refund_def Let_def split: prod.splits)

theorem order_entries_balanced_witness:
  "\<exists>e. BuildOrderSaleEntry decimal_std ex_order ex_vat 0 = Inr e \<and> ValidateBalanced e = None
     \<and> cent_lines (je_Lines e)"
proof -
  obtain e where e: "BuildOrderSaleEntry decimal_std ex_order ex_vat 0 = Inr e"
    using ex_sale_ok by (auto simp: is_ok_iff)
  show ?thesis
    using e order_entries_balanced [OF order_entry.sale [OF e] decimal_std_ok] by auto
qed

section \<open>What the sale moves\<close>

lemma saleCOGS_max: "max 0 (fst (saleCOGS L items)) = (if 0 < fst (saleCOGS L items) then fst (saleCOGS L items) else 0)"
  by (simp add: max_def)

lemma revenueLines_acct:
  assumes "acct \<noteq> Acc4030"
  shows "acct_net acct (fst (revenueLines L acct net pct)) + acct_net Acc4030 (fst (revenueLines L acct net pct)) = - net"
  using assms by (auto simp: revenueLines_def Let_def split: option.splits)

text \<open>The amounts of a sale, read off the order alone: what its accounts are measured against.\<close>

definition vat_contained :: "decimal_lib \<Rightarrow> VatDecision \<Rightarrow> decimal \<Rightarrow> decimal" where
  "vat_contained L vd g =
     (let v = dl_Round L (dl_Div L (g * vd_RatePct vd) (vd_RatePct vd + 100)) 2 in
      if RegimeHasVAT (vd_Regime vd) \<and> 0 < vd_RatePct vd \<and> v < g then v else 0)"

definition shipping_charged :: "decimal_lib \<Rightarrow> AcctOrderFacts \<Rightarrow> decimal \<Rightarrow> decimal" where
  "shipping_charged L f k =
     (if of_FreeShipping f = Some True \<or> of_ShipmentCost f = None then 0
      else dl_Round L (the (of_ShipmentCost f) * k) 2)"

definition fee_kept :: "decimal_lib \<Rightarrow> AcctOrderFacts \<Rightarrow> decimal \<Rightarrow> decimal" where
  "fee_kept L f g =
     (if of_PaymentMethodName f \<in> {CARD, CARD_TEST} then dl_Round L (max 0 (case_option 0 id (of_PaymentFee f))) 2
      else dl_Round L (max 0 (dl_Div L (g * of_FeePct f) 100 + of_FeeFixed f)) 2)"

definition goods_cost :: "decimal_lib \<Rightarrow> AcctOrderItemFact list \<Rightarrow> decimal" where
  "goods_cost L items =
     max 0 (dl_Round L (\<Sum>it\<leftarrow>items. case it_UnitCost it of Some c \<Rightarrow> c * it_Quantity it | None \<Rightarrow> 0) 2)"

lemma fst_saleVat: "decimal_ok L \<Longrightarrow> 0 < g \<Longrightarrow> fst (saleVat L f vd g k) = vat_contained L vd g"
  by (auto simp: saleVat_def regimeVat_def vatInclusive_def vat_contained_def Let_def)

lemma fst_saleShip:
  "fst (saleShip L f k m) = (if shipping_charged L f k < m then shipping_charged L f k else 0)"
  by (auto simp: saleShip_def rawShip_def shipping_charged_def Let_def split: option.splits)

lemma orderFee_kept: "decimal_ok L \<Longrightarrow> orderFee L f g = fee_kept L f g"
  by (auto simp: orderFee_def fee_kept_def isStripe_def Let_def max_def Round_0 split: option.splits)

lemma saleCOGS_cost: "max 0 (fst (saleCOGS L items)) = goods_cost L items"
  by (simp add: saleCOGS_eq goods_cost_def)

text \<open>
  C31: What a sale moves, account by account, each amount read off the order: the money account of its
  payment method receives the gross less the acquirer's fee, 6050 the fee, 2070 owes the VAT contained in
  the gross at the decision's rate (none when that would be all of it), 4110 earns the shipping charged at
  the order's own rate (none when it would leave no revenue), the revenue account and the 4030 contra earn
  together what is left, the cost of the costed lines moves from 1130 to 5010, and no other account moves.
\<close>

theorem sale_movements:
  assumes e: "BuildOrderSaleEntry L f vd t = Inr e" and L: "decimal_ok L" and ship: "shipping_ok f"
  shows "\<exists>g k vat s m rev. grossEUR f = Inr g \<and> k = dl_Div L g (of_TotalPrice f) \<and>
    vat = vat_contained L vd g \<and>
    s = (if shipping_charged L f k < g - vat then shipping_charged L f k else 0) \<and> 0 \<le> s \<and> s < g - vat \<and>
    m = (case of_PaymentMethodName f of CASH \<Rightarrow> Acc1010 | BANK_INVOICE \<Rightarrow> Acc1040 | _ \<Rightarrow> Acc1030) \<and>
    rev = (if isB2B f then Acc4310 else if of_PaymentMethodName f = CASH then Acc4010 else Acc4020) \<and>
    acct_net m (je_Lines e) = g - fee_kept L f g \<and>
    acct_net Acc6050 (je_Lines e) = fee_kept L f g \<and>
    acct_net Acc2070 (je_Lines e) = - vat \<and>
    acct_net Acc4110 (je_Lines e) = - s \<and>
    acct_net rev (je_Lines e) + acct_net Acc4030 (je_Lines e) = - (g - vat - s) \<and>
    acct_net Acc5010 (je_Lines e) = goods_cost L (of_Items f) \<and>
    acct_net Acc1130 (je_Lines e) = - goods_cost L (of_Items f) \<and>
    (\<forall>a. a \<notin> {m, rev, Acc6050, Acc2070, Acc4110, Acc4030, Acc5010, Acc1130} \<longrightarrow> acct_net a (je_Lines e) = 0)"
  using e
proof (cases rule: BuildOrderSaleEntry_Inr)
  case (1 g k vat s)
  note vat = saleVat_bounds [OF L 1(3), of f vd k, folded 1(5)]
  have k: "0 \<le> k" using 1 L by (simp add: Div_nonneg)
  have s: "0 \<le> s" "s < g - vat"
    using saleShip_nonneg [OF L ship k] saleShip_lt [of "g - vat" L f k] vat 1(6) by auto
  have v: "vat = vat_contained L vd g" using 1(5) fst_saleVat [OF L 1(3)] by simp
  have m: "moneyAccount (of_PaymentMethodName f) =
      (case of_PaymentMethodName f of CASH \<Rightarrow> Acc1010 | BANK_INVOICE \<Rightarrow> Acc1040 | _ \<Rightarrow> Acc1030)"
    by (cases "of_PaymentMethodName f") simp_all
  have rev: "saleRevenueAccount f =
      (if isB2B f then Acc4310 else if of_PaymentMethodName f = CASH then Acc4010 else Acc4020)"
    by (simp add: saleRevenueAccount_def revenueAccount_def)
  let ?m = "moneyAccount (of_PaymentMethodName f)" and ?r = "saleRevenueAccount f"
  have apart: "?m \<noteq> ?r" "?m \<noteq> Acc6050" "?m \<noteq> Acc2070" "?m \<noteq> Acc4110" "?m \<noteq> Acc4030" "?m \<noteq> Acc5010" "?m \<noteq> Acc1130"
    "?r \<noteq> Acc6050" "?r \<noteq> Acc2070" "?r \<noteq> Acc4110" "?r \<noteq> Acc4030" "?r \<noteq> Acc5010" "?r \<noteq> Acc1130"
    by (cases "of_PaymentMethodName f"; simp add: rev)+
  define R where R: "R = fst (revenueLines L ?r (g - vat - s) (of_PromoDiscountPct f))"
  have net: "acct_net ?r R + acct_net Acc4030 R = - (g - vat - s)"
    using revenueLines_acct [OF apart(11)] unfolding R .
  have other: "acct_net a R = 0" if "a \<noteq> ?r" "a \<noteq> Acc4030" for a
    unfolding R by (rule revenueLines_net) (use that in simp_all)
  have fee: "max 0 (fee_kept L f g) = fee_kept L f g" using orderFee_nonneg [OF L, of f g] by (simp add: orderFee_kept [OF L])
  define C where C: "C = goods_cost L (of_Items f)"
  have lines: "acct_net a (je_Lines e) = (if a = ?m then g - fee_kept L f g else 0) + acct_net a R
       - (if a = Acc4110 then s else 0) - (if a = Acc2070 then vat else 0)
       + (if a = Acc6050 then fee_kept L f g else 0)
       + (if a = Acc5010 then C else 0) - (if a = Acc1130 then C else 0)" for a
    unfolding 1(7) R C using vat(1) s(1) apart(2)
    by (simp add: orderFee_kept [OF L] fee saleCOGS_cost max_absorb2)
  show ?thesis
    unfolding v [symmetric] C [symmetric]
    by (rule exI [of _ g], rule exI [of _ k], rule exI [of _ vat], rule exI [of _ s], rule exI [of _ ?m], rule exI [of _ ?r],
        intro conjI allI impI)
       (use 1(1,4) 1(6) v s m rev net apart fst_saleShip [of L f k "g - vat"] in \<open>simp_all add: lines other\<close>)
qed

theorem sale_movements_witness:
  "\<exists>e. BuildOrderSaleEntry decimal_std ex_order ex_vat 0 = Inr e \<and> acct_net Acc1030 (je_Lines e) = 121"
proof -
  obtain e where e: "BuildOrderSaleEntry decimal_std ex_order ex_vat 0 = Inr e"
    using ex_sale_ok by (auto simp: is_ok_iff)
  have fee: "fee_kept decimal_std ex_order 123 = 2" "of_PaymentMethodName ex_order = CARD"
    by (simp_all add: fee_kept_def ex_order_def decimal_std_def round_half_away_def)
  obtain g where "grossEUR ex_order = Inr g" "acct_net Acc1030 (je_Lines e) = g - fee_kept decimal_std ex_order g"
    using sale_movements [OF e decimal_std_ok ex_order_ok(1)] unfolding fee(2) by auto
  then show ?thesis using e fee(1) by auto
qed

text \<open>
  C33: When a sale can be booked: a Stripe order waits for its settlement (ErrNotReady), another
  order in a foreign currency is left to a manual entry (ErrSkipNonEUR), a total or gross that is
  not positive is refused (ErrDegenerateAmounts), and in every other case there is an entry,
  under the order's UUID as idempotency key.
\<close>

theorem sale_outcomes:
  "(BuildOrderSaleEntry L f vd t = Inl ErrNotReady \<longleftrightarrow>
      of_TotalSettledBase f = None \<and> isStripe (of_PaymentMethodName f)) \<and>
   (BuildOrderSaleEntry L f vd t = Inl ErrSkipNonEUR \<longleftrightarrow>
      of_TotalSettledBase f = None \<and> \<not> isStripe (of_PaymentMethodName f) \<and> \<not> isBaseCurrency (of_Currency f)) \<and>
   (BuildOrderSaleEntry L f vd t = Inl ErrDegenerateAmounts \<longleftrightarrow>
      (\<exists>g. grossEUR f = Inr g \<and> (of_TotalPrice f \<le> 0 \<or> g \<le> 0))) \<and>
   ((\<exists>e. BuildOrderSaleEntry L f vd t = Inr e \<and> je_SourceKey e = of_UUID f \<and> je_SourceType e = AcctSourceOrderSale) \<longleftrightarrow>
      (\<exists>g. grossEUR f = Inr g \<and> 0 < of_TotalPrice f \<and> 0 < g))"
proof (cases "grossEUR f")
  case (Inl err)
  then show ?thesis by (auto simp: BuildOrderSaleEntry_def grossEUR_def split: option.splits if_splits)
next
  case (Inr g)
  then have nr: "\<not> (of_TotalSettledBase f = None \<and> isStripe (of_PaymentMethodName f))"
    "\<not> (of_TotalSettledBase f = None \<and> \<not> isStripe (of_PaymentMethodName f) \<and> \<not> isBaseCurrency (of_Currency f))"
    by (auto simp: grossEUR_def split: option.splits if_splits)
  show ?thesis using Inr nr by (auto simp: BuildOrderSaleEntry_def Let_def split: prod.splits)
qed

section \<open>Refunds\<close>

lemma full_refund_amount:
  assumes L: "decimal_ok L" and t: "0 < t" "t < 10 ^ 14" and g: "on_grid 2 g"
  shows "dl_Round L (t * dl_Div L g t) 2 = g"
proof (rule Round_near [OF L g])
  have "\<bar>dl_Div L g t - g / t\<bar> \<le> 1 / (2 * 10 ^ 16)" using L t by (intro Div_error) auto
  then have "t * \<bar>dl_Div L g t - g / t\<bar> \<le> t * (1 / (2 * 10 ^ 16))"
    using t by (intro mult_left_mono) auto
  moreover have "t * \<bar>dl_Div L g t - g / t\<bar> = \<bar>t * dl_Div L g t - g\<bar>"
    using t abs_mult [of t "dl_Div L g t - g / t"] by (simp add: right_diff_distrib)
  moreover have "t * (1 / (2 * 10 ^ 16)) < 10 ^ 14 * (1 / (2 * 10 ^ 16))"
    using t by (intro mult_strict_right_mono) auto
  ultimately show "\<bar>t * dl_Div L g t - g\<bar> < 1 / (2 * 10 ^ 2)" by simp
qed

lemma full_refund_vat:
  assumes "decimal_ok L" and "0 < of_TotalPrice f"
  shows "fst (refundVat L f vd g k (of_TotalPrice f) g) = fst (saleVat L f vd g k)"
proof -
  have "dl_Round L (vatInclusive L g r) 2 = vatInclusive L g r" for r
    using assms(1) by (auto simp: vatInclusive_def intro: Round_id)
  then show ?thesis using assms
    by (simp add: refundVat_def saleVat_def regimeVat_def Let_def Div_self split: option.splits)
qed

text \<open>
  C28: A full refund undoes the sale: it returns exactly the gross amount that was booked and
  takes back exactly the VAT that was booked, to the cent, whatever the exchange rate between the
  order's currency and the book currency (any order below 10^14 units); the rest is contra
  revenue on 4040.
\<close>

theorem full_refund_undoes_sale:
  assumes "decimal_ok L" and "cents_ok f" and "of_TotalPrice f < 10 ^ 14"
    and "rp_RefundAmount rf = of_TotalPrice f"
    and "BuildOrderSaleEntry L f vd t = Inr s" and "BuildOrderRefundEntry L f rf items vd key t' = Inr r"
  shows "acct_net Acc2070 (je_Lines s @ je_Lines r) = 0 \<and>
    (\<exists>g. grossEUR f = Inr g \<and>
       acct_net (moneyAccount (of_PaymentMethodName f)) (je_Lines s @ je_Lines r) = - orderFee L f g \<and>
       acct_net Acc4040 (je_Lines r) = g + acct_net Acc2070 (je_Lines s))"
proof -
  from assms(5) obtain g k vat sh where 1: "grossEUR f = Inr g" "0 < of_TotalPrice f" "0 < g"
      "k = dl_Div L g (of_TotalPrice f)" "vat = fst (saleVat L f vd g k)"
      "je_Lines s = [Dr (moneyAccount (of_PaymentMethodName f)) g]
       @ fst (revenueLines L (saleRevenueAccount f) (g - vat - sh) (of_PromoDiscountPct f))
       @ line_if_pos (Cr Acc4110 sh) @ line_if_pos (Cr Acc2070 vat)
       @ pair_if_pos Acc6050 (moneyAccount (of_PaymentMethodName f)) (orderFee L f g)
       @ pair_if_pos Acc5010 Acc1130 (fst (saleCOGS L (of_Items f)))"
    by (rule BuildOrderSaleEntry_Inr) blast
  have G: "on_grid 2 g" using assms(2) 1(1) by (rule grossEUR_grid)
  have amount: "dl_Round L (of_TotalPrice f * dl_Div L g (of_TotalPrice f)) 2 = g"
    by (rule full_refund_amount [OF assms(1) 1(2) assms(3) G])
  have vat0: "0 \<le> vat" using saleVat_bounds(1) [OF assms(1) 1(3)] 1(5) by simp
  from assms(6) have r: "je_Lines r = [Dr Acc4040 (g - vat)] @ line_if_pos (Dr Acc2070 vat)
       @ [Cr (moneyAccount (of_PaymentMethodName f)) g]
       @ fst (refundStock L rf items)"
    by (rule BuildOrderRefundEntry_Inr)
       (use 1(1,4,5) amount full_refund_vat [OF assms(1) 1(2), of vd g k] in \<open>simp add: assms(4)\<close>)
  show ?thesis using 1(1) vat0 orderFee_nonneg [OF assms(1), of f g]
    by (simp add: 1(6) r refundStock_lines revenueLines_net max_absorb2)
qed

theorem full_refund_undoes_sale_witness:
  "\<exists>s r. BuildOrderSaleEntry decimal_std ex_order ex_vat 0 = Inr s \<and>
     BuildOrderRefundEntry decimal_std ex_order ex_refund (of_Items ex_order) ex_vat ''o1:1'' 5 = Inr r \<and>
     acct_net Acc2070 (je_Lines s @ je_Lines r) = 0"
proof -
  obtain s r where "BuildOrderSaleEntry decimal_std ex_order ex_vat 0 = Inr s"
     "BuildOrderRefundEntry decimal_std ex_order ex_refund (of_Items ex_order) ex_vat ''o1:1'' 5 = Inr r"
    using ex_sale_ok ex_refund_ok [of "of_Items ex_order" "''o1:1''" 5] by (auto simp: is_ok_iff)
  with full_refund_undoes_sale [OF decimal_std_ok, of ex_order ex_refund] show ?thesis
    by (auto simp: ex_refund_def)
qed

text \<open>The cost of returned units.\<close>

definition items_ok :: "AcctOrderItemFact list \<Rightarrow> bool" where
  "items_ok items \<longleftrightarrow> (\<forall>it \<in> set items. 0 \<le> it_Quantity it \<and> (\<forall>c. it_UnitCost it = Some c \<longrightarrow> 0 \<le> c))"

lemma refundQty_bounds:
  assumes "0 \<le> it_Quantity it"
  shows "0 \<le> refundQty m it" and "of_int (refundQty m it) \<le> it_Quantity it"
  using assms by (auto simp: refundQty_def IntPart_def Let_def split: option.splits; linarith)+

definition sale_cost :: "AcctOrderItemFact \<Rightarrow> decimal" where
  "sale_cost it = (case it_UnitCost it of Some c \<Rightarrow> c * it_Quantity it | None \<Rightarrow> 0)"

lemma returned_cost_bounds:
  assumes "0 \<le> it_Quantity it" and "\<And>c. it_UnitCost it = Some c \<Longrightarrow> 0 \<le> c"
  shows "0 \<le> returned_cost m it \<and> returned_cost m it \<le> sale_cost it"
  using assms refundQty_bounds [OF assms(1), of m]
  by (auto simp: returned_cost_def sale_cost_def mult_left_mono split: option.splits)

lemma saleCOGS_sale_cost: "fst (saleCOGS L items) = dl_Round L (sum_list (map sale_cost items)) 2"
  by (simp add: saleCOGS_eq sale_cost_def [abs_def])

text \<open>
  C32: The cost a refund takes back from cost of goods never exceeds what the sale expensed, no
  matter which quantities the refund claims, and returning every unit of every line takes back
  exactly what the sale expensed.
\<close>

theorem refund_cogs_within_sale:
  assumes "decimal_ok L" and "items_ok items"
  shows "0 \<le> fst (refundCOGS L items m) \<and> fst (refundCOGS L items m) \<le> fst (saleCOGS L items) \<and>
    ((\<forall>it \<in> set items. \<exists>n q. it_Quantity it = of_nat n \<and> map_of m (it_Id it) = Some q \<and> int n \<le> q)
      \<longrightarrow> fst (refundCOGS L items m) = fst (saleCOGS L items))"
proof -
  have le: "0 \<le> returned_cost m it \<and> returned_cost m it \<le> sale_cost it" if "it \<in> set items" for it
    using assms(2) that by (intro returned_cost_bounds) (auto simp: items_ok_def)
  have eq: "returned_cost m it = sale_cost it"
    if "it_Quantity it = of_nat n" "map_of m (it_Id it) = Some q" "int n \<le> q" for it n q
    using that by (auto simp: returned_cost_def sale_cost_def refundQty_def IntPart_def Let_def
                        split: option.splits)
  have "0 \<le> sum_list (map (returned_cost m) items)" using le by (intro sum_list_nonneg) auto
  moreover have "sum_list (map (returned_cost m) items) \<le> sum_list (map sale_cost items)"
    using le by (intro sum_list_mono) auto
  moreover have "(\<forall>it \<in> set items. \<exists>n q. it_Quantity it = of_nat n \<and> map_of m (it_Id it) = Some q \<and> int n \<le> q)
      \<longrightarrow> sum_list (map (returned_cost m) items) = sum_list (map sale_cost items)"
    using eq by (auto intro!: arg_cong [where f = sum_list] map_cong)
  ultimately show ?thesis
    using assms(1) by (auto simp: refundCOGS_eq saleCOGS_sale_cost Round_nonneg Round_mono)
qed

theorem refund_cogs_within_sale_witness:
  "fst (refundCOGS decimal_std (of_Items ex_order) [(1, 5)]) = 30"
  using refund_cogs_within_sale [OF decimal_std_ok, of "of_Items ex_order" "[(1, 5)]"]
  by (auto simp: items_ok_def ex_order_def saleCOGS_def decimal_std_def round_half_away_def
        dest: spec [of _ "2 :: nat"])

text \<open>The refund builders read the map of refunded units only through its lookups and the sorted ids.\<close>

lemma refundQty_cong: "map_of m = map_of m' \<Longrightarrow> refundQty m = refundQty m'"
  by (rule ext) (simp add: refundQty_def)

lemma refundCOGS_cong:
  assumes "distinct (map fst m)" and "distinct (map fst m')" and "set m = set m'"
  shows "fst (refundCOGS L items m) = fst (refundCOGS L items m')"
    and "fst (snd (refundCOGS L items m)) = fst (snd (refundCOGS L items m'))"
    and "set (snd (snd (refundCOGS L items m))) = set (snd (snd (refundCOGS L items m')))"
proof -
  have m: "map_of m = map_of m'" using map_of_inject_set [OF assms(1,2)] assms(3) by simp
  show "fst (refundCOGS L items m) = fst (refundCOGS L items m')"
  proof -
    have "returned_cost m = returned_cost m'"
      using refundQty_cong [OF m] by (intro ext) (simp add: returned_cost_def split: option.split)
    then show ?thesis by (simp add: refundCOGS_eq)
  qed
  show "fst (snd (refundCOGS L items m)) = fst (snd (refundCOGS L items m'))"
    using refundQty_cong [OF m] by (simp add: refundCOGS_eq uncosted_returns_def)
  show "set (snd (snd (refundCOGS L items m))) = set (snd (snd (refundCOGS L items m')))"
    using assms(3) by (auto simp: refundCOGS_eq unknown_returns_def)
qed

lemma refundCOGS_obtain:
  assumes "distinct (map fst m)" and "distinct (map fst m')" and "set m = set m'"
  obtains c u w w' where "refundCOGS L items m = (c, u, w)" and "refundCOGS L items m' = (c, u, w')"
    and "joinProductIDs w = joinProductIDs w'" and "w = [] \<longleftrightarrow> w' = []"
proof -
  note c = refundCOGS_cong [OF assms, of L items]
  show ?thesis
  proof (rule that)
    show "refundCOGS L items m = (fst (refundCOGS L items m), fst (snd (refundCOGS L items m)),
       snd (snd (refundCOGS L items m)))" by simp
    show "refundCOGS L items m' = (fst (refundCOGS L items m), fst (snd (refundCOGS L items m)),
       snd (snd (refundCOGS L items m')))" by (simp add: c)
    show "joinProductIDs (snd (snd (refundCOGS L items m))) = joinProductIDs (snd (snd (refundCOGS L items m')))"
      by (rule joinProductIDs_set) (rule c(3))
    show "snd (snd (refundCOGS L items m)) = [] \<longleftrightarrow> snd (snd (refundCOGS L items m')) = []"
      using c(3) by (metis set_empty)
  qed
qed

text \<open>
  Both refund entries are deterministic although the code ranges over a Go map: two runs that
  meet the refunded items in different orders build the same entry, caveat text included.
\<close>

theorem refund_map_order_irrelevant:
  assumes "distinct (map fst m)" and "distinct (map fst m')" and "set m = set m'"
  shows "BuildOrderRefundEntry L f (rf\<lparr>rp_RefundedByItem := m\<rparr>) items vd key t
       = BuildOrderRefundEntry L f (rf\<lparr>rp_RefundedByItem := m'\<rparr>) items vd key t \<and>
    BuildOrderPreDeliveredRefundEntry L f (rf\<lparr>rp_RefundedByItem := m\<rparr>) items vd shipped key t
       = BuildOrderPreDeliveredRefundEntry L f (rf\<lparr>rp_RefundedByItem := m'\<rparr>) items vd shipped key t"
proof -
  obtain c u w w' where r: "refundCOGS L items m = (c, u, w)" "refundCOGS L items m' = (c, u, w')"
    "joinProductIDs w = joinProductIDs w'" "w = [] \<longleftrightarrow> w' = []"
    by (rule refundCOGS_obtain [OF assms])
  have "preDeliveredStock L (rf\<lparr>rp_RefundedByItem := m\<rparr>) items
      = preDeliveredStock L (rf\<lparr>rp_RefundedByItem := m'\<rparr>) items"
    using r by (simp add: preDeliveredStock_def)
  moreover have "refundStock L (rf\<lparr>rp_RefundedByItem := m\<rparr>) items
      = refundStock L (rf\<lparr>rp_RefundedByItem := m'\<rparr>) items"
    using r by (cases "rp_Disposition rf") (simp_all add: refundStock_def)
  ultimately show ?thesis
    by (simp add: BuildOrderPreDeliveredRefundEntry_def BuildOrderRefundEntry_def Let_def
          split: sum.split prod.split)
qed

theorem refund_map_order_irrelevant_witness:
  "BuildOrderRefundEntry decimal_std ex_order (ex_refund\<lparr>rp_RefundedByItem := [(1, 2), (9, 1)]\<rparr>)
     (of_Items ex_order) ex_vat ''o1:1'' 0 =
   BuildOrderRefundEntry decimal_std ex_order (ex_refund\<lparr>rp_RefundedByItem := [(9, 1), (1, 2)]\<rparr>)
     (of_Items ex_order) ex_vat ''o1:1'' 0"
  using refund_map_order_irrelevant [of "[(1, 2), (9, 1)]" "[(9, 1), (1, 2)]"] by (auto simp: insert_commute)

section \<open>The delivered chain\<close>

lemma transit_lines:
  "entry_lines (BuildOrderTransitEntry L f t) = pair_if_pos Acc1140 Acc1130 (fst (saleCOGS L (of_Items f)))"
  by (auto simp: entry_lines_def BuildOrderTransitEntry_def pair_if_pos_def split: prod.splits)

lemma prepayment_exists:
  "grossEUR f = Inr g \<Longrightarrow> 0 < of_TotalPrice f \<Longrightarrow> 0 < g \<Longrightarrow> is_ok (BuildOrderPrepaymentEntry L f vd t)"
  by (simp add: BuildOrderPrepaymentEntry_def Let_def split: prod.splits)

lemma delivered_exists:
  "grossEUR f = Inr g \<Longrightarrow> 0 < of_TotalPrice f \<Longrightarrow> 0 < g \<Longrightarrow> 0 < p
    \<Longrightarrow> is_ok (BuildOrderDeliveredSaleEntry L f p c t)"
  by (simp add: BuildOrderDeliveredSaleEntry_def Let_def split: prod.splits)

text \<open>
  C23: Recognising revenue on delivery books the same as recognising it at payment: whenever the
  single sale entry exists, the chain exists too - the prepayment, the transit entry (or none, for
  an order without cost) and the delivered sale that drains the balances the first two left on
  2090 and 1140 - and the three together move every account by exactly what the sale entry moves
  it; in particular 2090 and 1140 end where they started.
\<close>

theorem delivered_chain_equals_sale:
  assumes "decimal_ok L" and "BuildOrderSaleEntry L f vd t = Inr s"
  shows "\<exists>a b d. BuildOrderPrepaymentEntry L f vd t1 = Inr a \<and>
    b = entry_lines (BuildOrderTransitEntry L f t2) \<and>
    BuildOrderDeliveredSaleEntry L f (- acct_net Acc2090 (je_Lines a)) (acct_net Acc1140 b) t3 = Inr d \<and>
    (\<forall>x. acct_net x (je_Lines a @ b @ je_Lines d) = acct_net x (je_Lines s)) \<and>
    acct_net Acc2090 (je_Lines a @ b @ je_Lines d) = 0 \<and> acct_net Acc1140 (je_Lines a @ b @ je_Lines d) = 0"
proof -
  from assms(2) obtain g k vat sh where 1: "grossEUR f = Inr g" "0 < of_TotalPrice f" "0 < g"
      "k = dl_Div L g (of_TotalPrice f)" "vat = fst (saleVat L f vd g k)" "sh = fst (saleShip L f k (g - vat))"
      "je_Lines s = [Dr (moneyAccount (of_PaymentMethodName f)) g]
       @ fst (revenueLines L (saleRevenueAccount f) (g - vat - sh) (of_PromoDiscountPct f))
       @ line_if_pos (Cr Acc4110 sh) @ line_if_pos (Cr Acc2070 vat)
       @ pair_if_pos Acc6050 (moneyAccount (of_PaymentMethodName f)) (orderFee L f g)
       @ pair_if_pos Acc5010 Acc1130 (fst (saleCOGS L (of_Items f)))"
    by (rule BuildOrderSaleEntry_Inr) blast
  have vat: "vat < g" using saleVat_bounds(2) [OF assms(1) 1(3)] 1(5) by simp
  obtain a where a: "BuildOrderPrepaymentEntry L f vd t1 = Inr a"
    using prepayment_exists [OF 1(1-3), of L vd t1] by (auto simp: is_ok_iff)
  then have al: "je_Lines a = [Dr (moneyAccount (of_PaymentMethodName f)) g]
       @ line_if_pos (Cr Acc2070 vat) @ [Cr Acc2090 (g - vat)]
       @ pair_if_pos Acc6050 (moneyAccount (of_PaymentMethodName f)) (orderFee L f g)"
    by (rule BuildOrderPrepaymentEntry_Inr) (use 1(1,4,5) in auto)
  define b where "b = entry_lines (BuildOrderTransitEntry L f t2)"
  define c where "c = max 0 (fst (saleCOGS L (of_Items f)))"
  have p: "- acct_net Acc2090 (je_Lines a) = g - vat" by (simp add: al)
  have cb: "acct_net Acc1140 b = c" by (simp add: b_def c_def transit_lines)
  obtain d where d: "BuildOrderDeliveredSaleEntry L f (g - vat) c t3 = Inr d"
    using delivered_exists [OF 1(1-3), of "g - vat" L c t3] vat by (auto simp: is_ok_iff)
  then have dl: "je_Lines d = [Dr Acc2090 (g - vat)]
       @ fst (revenueLines L (saleRevenueAccount f) (g - vat - sh) (of_PromoDiscountPct f))
       @ line_if_pos (Cr Acc4110 sh) @ pair_if_pos Acc5010 Acc1140 c"
    by (rule BuildOrderDeliveredSaleEntry_Inr) (use 1(1,4,6) in auto)
  have all: "\<forall>x. acct_net x (je_Lines a @ b @ je_Lines d) = acct_net x (je_Lines s)"
    by (simp add: al dl 1(7) b_def transit_lines c_def)
  have "acct_net Acc2090 (je_Lines s) = 0" "acct_net Acc1140 (je_Lines s) = 0"
    by (simp_all add: 1(7) revenueLines_net)
  with all a d p cb b_def show ?thesis by metis
qed

theorem delivered_chain_equals_sale_witness:
  "\<exists>a d. BuildOrderPrepaymentEntry decimal_std ex_order ex_vat 1 = Inr a \<and>
     BuildOrderDeliveredSaleEntry decimal_std ex_order (- acct_net Acc2090 (je_Lines a)) 30 3 = Inr d"
proof -
  obtain s where s: "BuildOrderSaleEntry decimal_std ex_order ex_vat 0 = Inr s"
    using ex_sale_ok by (auto simp: is_ok_iff)
  show ?thesis
    using delivered_chain_equals_sale [OF decimal_std_ok s, of 1 2 3] by (auto simp: transit_lines)
qed

text \<open>
  C29: A full refund before delivery unwinds the prepayment: 2090 and 2070 return to zero, the
  money account keeps only the acquirer fee, and when every unit had left for transit and comes
  back, 1140 is drained too - to finished goods when restocked, to write-off expense otherwise.
\<close>

theorem predelivered_full_refund_unwinds:
  assumes "decimal_ok L" and "cents_ok f" and "of_TotalPrice f < 10 ^ 14"
    and "rp_RefundAmount rf = of_TotalPrice f"
    and "BuildOrderPrepaymentEntry L f vd t = Inr a"
    and "BuildOrderPreDeliveredRefundEntry L f rf (of_Items f) vd shipped key t' = Inr r"
  shows "acct_net Acc2090 (je_Lines a @ je_Lines r) = 0 \<and> acct_net Acc2070 (je_Lines a @ je_Lines r) = 0 \<and>
    (\<exists>g. grossEUR f = Inr g \<and>
      acct_net (moneyAccount (of_PaymentMethodName f)) (je_Lines a @ je_Lines r) = - orderFee L f g) \<and>
    (shipped \<and> fst (refundCOGS L (of_Items f) (rp_RefundedByItem rf)) = fst (saleCOGS L (of_Items f)) \<longrightarrow>
      acct_net Acc1140 (entry_lines (BuildOrderTransitEntry L f t2) @ je_Lines r) = 0)"
proof -
  from assms(5) obtain g k vat where 1: "grossEUR f = Inr g" "0 < of_TotalPrice f" "0 < g"
      "k = dl_Div L g (of_TotalPrice f)" "vat = fst (saleVat L f vd g k)"
      "je_Lines a = [Dr (moneyAccount (of_PaymentMethodName f)) g]
       @ line_if_pos (Cr Acc2070 vat) @ [Cr Acc2090 (g - vat)]
       @ pair_if_pos Acc6050 (moneyAccount (of_PaymentMethodName f)) (orderFee L f g)"
    by (rule BuildOrderPrepaymentEntry_Inr) blast
  have G: "on_grid 2 g" using assms(2) 1(1) by (rule grossEUR_grid)
  have amount: "dl_Round L (of_TotalPrice f * dl_Div L g (of_TotalPrice f)) 2 = g"
    by (rule full_refund_amount [OF assms(1) 1(2) assms(3) G])
  have vat0: "0 \<le> vat" using saleVat_bounds(1) [OF assms(1) 1(3)] 1(5) by simp
  from assms(6) have r: "je_Lines r = [Dr Acc2090 (g - vat)] @ line_if_pos (Dr Acc2070 vat)
       @ [Cr (moneyAccount (of_PaymentMethodName f)) g]
       @ (if shipped then fst (preDeliveredStock L rf (of_Items f)) else [])"
    by (rule BuildOrderPreDeliveredRefundEntry_Inr)
       (use 1(1,4,5) amount full_refund_vat [OF assms(1) 1(2), of vd g k] in \<open>simp add: assms(4)\<close>)
  show ?thesis using 1(1) vat0 orderFee_nonneg [OF assms(1), of f g]
    by (simp add: 1(6) r preDeliveredStock_lines transit_lines max_absorb2)
qed

theorem predelivered_full_refund_unwinds_witness:
  "\<exists>a r. BuildOrderPrepaymentEntry decimal_std ex_order ex_vat 0 = Inr a \<and>
     BuildOrderPreDeliveredRefundEntry decimal_std ex_order ex_refund (of_Items ex_order) ex_vat True ''o1:1'' 5 = Inr r \<and>
     acct_net Acc2090 (je_Lines a @ je_Lines r) = 0"
proof -
  have "is_ok (BuildOrderPrepaymentEntry decimal_std ex_order ex_vat 0)"
    by (rule prepayment_exists [of _ 123]) simp_all
  moreover have "is_ok (BuildOrderPreDeliveredRefundEntry decimal_std ex_order ex_refund (of_Items ex_order) ex_vat True ''o1:1'' 5)"
    by (simp add: BuildOrderPreDeliveredRefundEntry_def ex_refund_def Let_def split: prod.splits)
  ultimately show ?thesis
    using predelivered_full_refund_unwinds [OF decimal_std_ok, of ex_order ex_refund]
    by (auto simp: is_ok_iff ex_refund_def)
qed

end
