(* ===== verification/Acct_Material.thy ===== *)
theory Acct_Material
  imports Acct_Common
begin

text \<open>
  Material stock in the ledger (rules M1-M8, internal/accounting/material.go): the entry of one row
  of the append-only material ledger, with the recoverable input VAT of a purchase receipt.
\<close>

section \<open>The builder\<close>

text \<open>The separator of the description is a dash of three bytes between blanks.\<close>

definition em_dash_sep :: string where
  "em_dash_sep = '' '' @ [CHR 0xE2, CHR 0x80, CHR 0x94] @ '' ''"

definition movementDescription :: "AcctMovementFacts \<Rightarrow> string" where
  "movementDescription m =
     (let parts = [mf_MaterialName m];
          parts = (case mf_Reason m of
            Some r \<Rightarrow> (if TrimSpace r \<noteq> [] then parts @ [TrimSpace r] else parts) | None \<Rightarrow> parts);
          parts = (case mf_Comment m of
            Some c \<Rightarrow> (if TrimSpace c \<noteq> [] then parts @ [TrimSpace c] else parts) | None \<Rightarrow> parts)
      in truncateRunes (Join parts em_dash_sep) descMaxLen)"

definition movementOccurredAt :: "AcctMovementFacts \<Rightarrow> time \<Rightarrow> time" where
  "movementOccurredAt m startDate =
     (let occ = (case mf_OccurredAt m of Some t \<Rightarrow> t | None \<Rightarrow> mf_CreatedAt m)
      in if occ < startDate then startDate else occ)"

definition tagReceiptSupplier :: "AcctJournalEntryInsert \<Rightarrow> AcctMovementFacts \<Rightarrow> AcctJournalEntryInsert" where
  "tagReceiptSupplier e m =
     (case mf_SupplierId m of
        Some s \<Rightarrow> (if mf_MovementType m = MaterialMovementReceipt then e\<lparr>je_SupplierID := Some s\<rparr> else e)
      | None \<Rightarrow> e)"

text \<open>\<open>InputVatRegime\<close> is NULL or a string; Go reads the empty string out of NULL.\<close>

definition buildMaterialReceiptWithInputVAT :: "decimal_lib \<Rightarrow> AcctMovementFacts \<Rightarrow> decimal \<Rightarrow> decimal \<Rightarrow> time
    \<Rightarrow> AcctJournalEntryInsert" where
  "buildMaterialReceiptWithInputVAT L m amount net occ =
     (let vat = dl_Round L amount 2;
          regime = InputVatRegime_of (TrimSpace (case mf_InputVatRegime m of Some s \<Rightarrow> s | None \<Rightarrow> []));
          entry = mkEntry occ (movementDescription m) AcctSourceMaterialReceipt (Itoa (mf_Id m)) createdBySystem
      in if mf_InputVatRegime m = None \<or> \<not> ValidInputVatRegimes regime
         then applyCaveats (entry [Dr Acc1110 net, Cr Acc2010 net])
                [''input vat amount without a recognised regime; VAT not posted'']
         else if regime = InputVatRegimeDomesticPL \<or> regime = InputVatRegimeDomesticUK
         then entry [Dr Acc1110 net, Dr Acc2080 vat, Cr Acc2010 (net + vat)]
         else entry [Dr Acc1110 net, Cr Acc2010 net, Dr Acc2080 vat, Cr Acc2070 vat])"

text \<open>The switch over the movement type: the debit and credit account and the source type.\<close>

fun movementAccounts :: "AcctMovementFacts \<Rightarrow> MaterialMovementType
    \<Rightarrow> acct_error + (string \<times> string \<times> AcctSourceType)" where
  "movementAccounts m MaterialMovementReceipt = Inr (Acc1110, Acc2010, AcctSourceMaterialReceipt)"
| "movementAccounts m MaterialMovementReceiptProduction = Inr (Acc1110, Acc1120, AcctSourceMaterialReceipt)"
| "movementAccounts m MaterialMovementIssueProduction = Inr (Acc1120, Acc1110, AcctSourceMaterialIssue)"
| "movementAccounts m MaterialMovementIssueSample = Inr (Acc6210, Acc1110, AcctSourceMaterialIssue)"
| "movementAccounts m MaterialMovementReturnProduction = Inr (Acc1110, Acc1120, AcctSourceMaterialReturn)"
| "movementAccounts m MaterialMovementReturnSample = Inr (Acc1110, Acc6210, AcctSourceMaterialReturn)"
| "movementAccounts m MaterialMovementWriteoff = Inr (Acc5040, Acc1110, AcctSourceMaterialWriteoff)"
| "movementAccounts m MaterialMovementAdjustment =
     (let delta = mf_OnHandAfter m - mf_OnHandBefore m in
      if delta = 0 then Inl ErrSkipUncosted
      else if 0 < delta then Inr (Acc1110, Acc5090, AcctSourceMaterialAdjustment)
      else Inr (Acc5090, Acc1110, AcctSourceMaterialAdjustment))"
| "movementAccounts m (OtherMovement s) = Inl ErrUnknownMovementType"

definition BuildMaterialMovementEntry :: "decimal_lib \<Rightarrow> AcctMovementFacts \<Rightarrow> time
    \<Rightarrow> acct_error + AcctJournalEntryInsert" where
  "BuildMaterialMovementEntry L m startDate =
     (case mf_UnitCostBase m of
        None \<Rightarrow> Inl ErrSkipUncosted
      | Some c \<Rightarrow>
          let v = dl_Round L (mf_Quantity m * c) 2 in
          if \<not> 0 < v then Inl ErrSkipUncosted
          else
            let occ = movementOccurredAt m startDate;
                plain = (case movementAccounts m (mf_MovementType m) of
                   Inl err \<Rightarrow> Inl err
                 | Inr (dr, cr, sourceType) \<Rightarrow>
                     Inr (tagReceiptSupplier
                       (mkEntry occ (movementDescription m) sourceType (Itoa (mf_Id m)) createdBySystem
                          [Dr dr v, Cr cr v]) m))
            in case mf_InputVatAmount m of
                 Some vat \<Rightarrow>
                   if mf_MovementType m = MaterialMovementReceipt \<and> 0 < vat
                   then Inr (tagReceiptSupplier (buildMaterialReceiptWithInputVAT L m vat v occ) m)
                   else plain
               | None \<Rightarrow> plain)"

section \<open>Lemmas\<close>

lemma tagReceiptSupplier_simps [simp]:
  "je_Lines (tagReceiptSupplier e m) = je_Lines e"
  "je_SourceType (tagReceiptSupplier e m) = je_SourceType e"
  "je_SourceKey (tagReceiptSupplier e m) = je_SourceKey e"
  "je_OccurredAt (tagReceiptSupplier e m) = je_OccurredAt e"
  "je_HasCaveat (tagReceiptSupplier e m) = je_HasCaveat e"
  by (simp_all add: tagReceiptSupplier_def split: option.split)

lemma receiptWithInputVAT_simps [simp]:
  "je_SourceType (buildMaterialReceiptWithInputVAT L m a v occ) = AcctSourceMaterialReceipt"
  "je_SourceKey (buildMaterialReceiptWithInputVAT L m a v occ) = Itoa (mf_Id m)"
  "je_OccurredAt (buildMaterialReceiptWithInputVAT L m a v occ) = occ"
  by (simp_all add: buildMaterialReceiptWithInputVAT_def Let_def)

lemma movementOccurredAt_ge: "startDate \<le> movementOccurredAt m startDate"
  by (simp add: movementOccurredAt_def Let_def)

lemma receiptWithInputVAT_ok:
  assumes "0 < v" and "0 < dl_Round L a 2"
  shows "acct_net Acc1110 (je_Lines (buildMaterialReceiptWithInputVAT L m a v occ)) = v \<and>
    entry_ok (buildMaterialReceiptWithInputVAT L m a v occ)"
  using assms by (simp add: buildMaterialReceiptWithInputVAT_def Let_def lines_ok_def)

lemma material_entry_parts:
  assumes "BuildMaterialMovementEntry L m start = Inr e"
  obtains (plain) c dr cr st where
      "mf_UnitCostBase m = Some c" "0 < dl_Round L (mf_Quantity m * c) 2"
      "movementAccounts m (mf_MovementType m) = Inr (dr, cr, st)"
      "je_Lines e = [Dr dr (dl_Round L (mf_Quantity m * c) 2), Cr cr (dl_Round L (mf_Quantity m * c) 2)]"
      "je_OccurredAt e = movementOccurredAt m start" "je_SourceKey e = Itoa (mf_Id m)"
  | (vat) c a where
      "mf_UnitCostBase m = Some c" "0 < dl_Round L (mf_Quantity m * c) 2"
      "mf_InputVatAmount m = Some a" "0 < a" "mf_MovementType m = MaterialMovementReceipt"
      "je_Lines e = je_Lines (buildMaterialReceiptWithInputVAT L m a (dl_Round L (mf_Quantity m * c) 2)
         (movementOccurredAt m start))"
      "je_OccurredAt e = movementOccurredAt m start" "je_SourceKey e = Itoa (mf_Id m)"
proof (cases "\<exists>a. mf_InputVatAmount m = Some a \<and> 0 < a \<and> mf_MovementType m = MaterialMovementReceipt")
  case True
  then show ?thesis
    using assms vat by (auto simp: BuildMaterialMovementEntry_def Let_def split: option.splits if_splits)
next
  case False
  then have "BuildMaterialMovementEntry L m start = Inr e \<Longrightarrow>
      \<exists>c dr cr st. mf_UnitCostBase m = Some c \<and> 0 < dl_Round L (mf_Quantity m * c) 2 \<and>
      movementAccounts m (mf_MovementType m) = Inr (dr, cr, st) \<and>
      je_Lines e = [Dr dr (dl_Round L (mf_Quantity m * c) 2), Cr cr (dl_Round L (mf_Quantity m * c) 2)] \<and>
      je_OccurredAt e = movementOccurredAt m start \<and> je_SourceKey e = Itoa (mf_Id m)"
    by (auto simp: BuildMaterialMovementEntry_def Let_def split: option.splits if_splits sum.splits)
  with assms plain show ?thesis by blast
qed

text \<open>
  A row of the material ledger as the stock operations write it: receipts and returns raise the
  balance by the quantity, issues and write-offs lower it, and an adjustment records the absolute
  difference.
\<close>

fun row_delta :: "AcctMovementFacts \<Rightarrow> MaterialMovementType \<Rightarrow> decimal" where
  "row_delta m MaterialMovementIssueProduction = - mf_Quantity m"
| "row_delta m MaterialMovementIssueSample = - mf_Quantity m"
| "row_delta m MaterialMovementWriteoff = - mf_Quantity m"
| "row_delta m MaterialMovementAdjustment = mf_OnHandAfter m - mf_OnHandBefore m"
| "row_delta m _ = mf_Quantity m"

definition row_ok :: "AcctMovementFacts \<Rightarrow> bool" where
  "row_ok m \<longleftrightarrow> mf_OnHandAfter m = mf_OnHandBefore m + row_delta m (mf_MovementType m) \<and>
     mf_Quantity m = \<bar>mf_OnHandAfter m - mf_OnHandBefore m\<bar>"

lemma movementAccounts_1110:
  assumes "movementAccounts m ty = Inr (dr, cr, st)" and "0 < mf_Quantity m"
  shows "(dr = Acc1110 \<and> cr \<noteq> Acc1110 \<and> 0 < row_delta m ty) \<or>
         (dr \<noteq> Acc1110 \<and> cr = Acc1110 \<and> row_delta m ty < 0)"
proof (cases ty)
  case MaterialMovementAdjustment
  then show ?thesis using assms(1)
    by (cases "mf_OnHandAfter m = mf_OnHandBefore m"; cases "mf_OnHandBefore m < mf_OnHandAfter m")
       (simp_all add: Let_def; elim conjE; hypsubst; simp)+
qed (use assms in \<open>simp_all; elim conjE; hypsubst; simp\<close>)+

text \<open>
  C30: The material ledger and account 1110 agree: for every kind of movement the entry moves
  1110 by the rounded value of the change in the on-hand balance, up when the balance rises and
  down when it falls, whether or not the receipt carries input VAT; the entry is balanced, never
  dated before the accounting start, and keyed by the movement's id.
\<close>

theorem material_entry_tracks_stock:
  assumes "BuildMaterialMovementEntry L m start = Inr e" and "decimal_ok L" and "row_ok m"
    and "\<forall>a. mf_InputVatAmount m = Some a \<longrightarrow> on_grid 2 a"
  shows "\<exists>c. mf_UnitCostBase m = Some c \<and>
      acct_net Acc1110 (je_Lines e) =
        sgn (mf_OnHandAfter m - mf_OnHandBefore m) *
        dl_Round L (\<bar>mf_OnHandAfter m - mf_OnHandBefore m\<bar> * c) 2 \<and>
      ValidateBalanced e = None \<and> start \<le> je_OccurredAt e \<and> je_SourceKey e = Itoa (mf_Id m)"
proof -
  from assms(1) obtain c where c: "mf_UnitCostBase m = Some c" and v: "0 < dl_Round L (mf_Quantity m * c) 2"
    by (rule material_entry_parts)
  have delta: "mf_OnHandAfter m - mf_OnHandBefore m = row_delta m (mf_MovementType m)"
    and abs: "\<bar>mf_OnHandAfter m - mf_OnHandBefore m\<bar> = mf_Quantity m"
    using assms(3) unfolding row_ok_def by linarith+
  have "0 \<le> mf_Quantity m" unfolding abs [symmetric] by (rule abs_ge_zero)
  moreover have "mf_Quantity m \<noteq> 0" using v assms(2) by (auto simp: Round_0)
  ultimately have q: "0 < mf_Quantity m" by simp
  have rest: "start \<le> je_OccurredAt e" "je_SourceKey e = Itoa (mf_Id m)"
    using assms(1) by (cases rule: material_entry_parts; simp add: movementOccurredAt_ge)+
  have "acct_net Acc1110 (je_Lines e) =
      sgn (mf_OnHandAfter m - mf_OnHandBefore m) * dl_Round L (mf_Quantity m * c) 2 \<and> lines_ok (je_Lines e)
      \<and> je_Lines e \<noteq> []"
    using assms(1)
  proof (cases rule: material_entry_parts)
    case (plain c' dr cr st)
    define v' where "v' = dl_Round L (mf_Quantity m * c) 2"
    have l: "je_Lines e = [Dr dr v', Cr cr v']" and v': "0 < v'" using plain c by (auto simp: v'_def)
    show ?thesis
      using movementAccounts_1110 [OF plain(3) q] v' unfolding delta l v'_def [symmetric] by auto
  next
    case (vat c' a)
    have "dl_Round L a 2 = a" using assms(2,4) vat(3) by (simp add: Round_id)
    with vat(4) have a: "0 < dl_Round L a 2" by simp
    have d: "mf_OnHandAfter m - mf_OnHandBefore m = mf_Quantity m"
      unfolding delta using vat(5) by simp
    have c': "c' = c" using vat(1) c by simp
    show ?thesis
      using receiptWithInputVAT_ok [OF v a, of m "movementOccurredAt m start"] q
      unfolding vat(6) d c' by (simp add: entry_ok_def)
  qed
  with rest c show ?thesis unfolding abs by (auto simp: ValidateBalanced_None entry_ok_def)
qed

definition ex_receipt :: AcctMovementFacts where
  "ex_receipt = \<lparr>mf_Id = 9, mf_MovementType = MaterialMovementReceipt, mf_Quantity = 3,
     mf_OnHandBefore = 1, mf_OnHandAfter = 4, mf_UnitCostBase = Some 20, mf_SupplierId = Some 2,
     mf_Reason = None, mf_Comment = None, mf_InputVatAmount = Some 12,
     mf_InputVatRegime = Some ''wnt'', mf_OccurredAt = None, mf_CreatedAt = 100,
     mf_MaterialName = ''wool''\<rparr>"

lemma ex_receipt_ok: "is_ok (BuildMaterialMovementEntry decimal_std ex_receipt 50)" "row_ok ex_receipt"
  by (simp_all add: BuildMaterialMovementEntry_def ex_receipt_def Let_def decimal_std_def
        round_half_away_def row_ok_def)

theorem material_entry_tracks_stock_witness:
  "\<exists>e. BuildMaterialMovementEntry decimal_std ex_receipt 50 = Inr e \<and> acct_net Acc1110 (je_Lines e) = 60"
proof -
  obtain e where e: "BuildMaterialMovementEntry decimal_std ex_receipt 50 = Inr e"
    using ex_receipt_ok(1) by (auto simp: is_ok_iff)
  show ?thesis
    using material_entry_tracks_stock [OF e decimal_std_ok ex_receipt_ok(2)] e
    by (auto simp: ex_receipt_def decimal_std_def round_half_away_def)
qed

text \<open>
  Input VAT of a purchase receipt: under the reverse charge (intra-EU acquisition, import) it
  is self-assessed and recovered in the same entry, so tax is neutral and the supplier is owed the
  net; under a domestic regime it is recoverable and the supplier is owed the gross; with no
  recognised regime no VAT is posted at all and the entry carries a caveat.
\<close>

theorem receipt_input_vat_treatment:
  assumes "BuildMaterialMovementEntry L m start = Inr e" and "mf_MovementType m = MaterialMovementReceipt"
    and "mf_InputVatAmount m = Some a" and "0 < a" and "mf_UnitCostBase m = Some c"
    and "r = (case mf_InputVatRegime m of Some s \<Rightarrow> TrimSpace s | None \<Rightarrow> [])"
  shows "(r = ''wnt'' \<or> r = ''import'' \<longrightarrow>
      acct_net Acc2080 (je_Lines e) = dl_Round L a 2 \<and> acct_net Acc2070 (je_Lines e) = - dl_Round L a 2 \<and>
      acct_net Acc2010 (je_Lines e) = - dl_Round L (mf_Quantity m * c) 2) \<and>
    (r = ''domestic_pl'' \<or> r = ''domestic_uk'' \<longrightarrow>
      acct_net Acc2080 (je_Lines e) = dl_Round L a 2 \<and> acct_net Acc2070 (je_Lines e) = 0 \<and>
      acct_net Acc2010 (je_Lines e) = - (dl_Round L (mf_Quantity m * c) 2 + dl_Round L a 2)) \<and>
    (r \<notin> {''wnt'', ''import'', ''domestic_pl'', ''domestic_uk''} \<longrightarrow>
      acct_net Acc2080 (je_Lines e) = 0 \<and> acct_net Acc2070 (je_Lines e) = 0 \<and> je_HasCaveat e)"
proof -
  define v where "v = dl_Round L (mf_Quantity m * c) 2"
  have e: "e = tagReceiptSupplier (buildMaterialReceiptWithInputVAT L m a v (movementOccurredAt m start)) m"
    using assms(1-5) by (simp add: BuildMaterialMovementEntry_def Let_def v_def split: if_splits)
  have r: "TrimSpace (case mf_InputVatRegime m of Some s \<Rightarrow> s | None \<Rightarrow> []) = r"
    using assms(6) by (simp split: option.splits)
  have some: "mf_InputVatRegime m \<noteq> None" if "r \<noteq> []" using that assms(6) by (auto split: option.splits)
  let ?b = "buildMaterialReceiptWithInputVAT L m a v (movementOccurredAt m start)"
  consider (charge) "r = ''wnt'' \<or> r = ''import''" | (domestic) "r = ''domestic_pl'' \<or> r = ''domestic_uk''"
    | (other) "r \<notin> {''wnt'', ''import'', ''domestic_pl'', ''domestic_uk''}" by blast
  then show ?thesis
  proof cases
    case charge
    then have "je_Lines ?b = [Dr Acc1110 v, Cr Acc2010 v, Dr Acc2080 (dl_Round L a 2), Cr Acc2070 (dl_Round L a 2)]"
      using some by (elim disjE) (simp_all add: buildMaterialReceiptWithInputVAT_def Let_def r InputVatRegime_of_def)
    with charge show ?thesis unfolding v_def [symmetric] e by (elim disjE) simp_all
  next
    case domestic
    then have "je_Lines ?b = [Dr Acc1110 v, Dr Acc2080 (dl_Round L a 2), Cr Acc2010 (v + dl_Round L a 2)]"
      using some by (elim disjE) (simp_all add: buildMaterialReceiptWithInputVAT_def Let_def r InputVatRegime_of_def)
    with domestic show ?thesis unfolding v_def [symmetric] e by (elim disjE) simp_all
  next
    case other
    then have "InputVatRegime_of r = OtherInputRegime r" by (simp add: InputVatRegime_of_def)
    then have "je_Lines ?b = [Dr Acc1110 v, Cr Acc2010 v] \<and> je_HasCaveat ?b"
      by (simp add: buildMaterialReceiptWithInputVAT_def Let_def r)
    with other show ?thesis unfolding v_def [symmetric] e by simp
  qed
qed

theorem receipt_input_vat_treatment_witness:
  "\<exists>e. BuildMaterialMovementEntry decimal_std ex_receipt 50 = Inr e \<and>
     acct_net Acc2080 (je_Lines e) + acct_net Acc2070 (je_Lines e) = 0"
proof -
  obtain e where e: "BuildMaterialMovementEntry decimal_std ex_receipt 50 = Inr e"
    using ex_receipt_ok(1) by (auto simp: is_ok_iff)
  have t: "TrimSpace ''wnt'' = ''wnt''" by code_simp
  have f: "mf_MovementType ex_receipt = MaterialMovementReceipt" "mf_InputVatAmount ex_receipt = Some 12"
    "mf_UnitCostBase ex_receipt = Some 20" "mf_InputVatRegime ex_receipt = Some ''wnt''"
    by (simp_all add: ex_receipt_def)
  have "acct_net Acc2080 (je_Lines e) = dl_Round decimal_std 12 2 \<and>
      acct_net Acc2070 (je_Lines e) = - dl_Round decimal_std 12 2"
    using receipt_input_vat_treatment [OF e f(1,2) _ f(3) refl] by (simp add: f(4) t)
  with e show ?thesis by auto
qed

end
