(* ===== verification/Acct_Accruals.thy ===== *)
theory Acct_Accruals
  imports Acct_Common Go_Time
begin

text \<open>
  Accrued costs (internal/accounting/opex.go, shipping.go, devexpense.go) and chargebacks
  (dispute.go): the builders, and the versioned idempotency
  keys under which a corrected source is posted again.
\<close>

section \<open>Dates\<close>

definition monthEnd :: "civil_month \<Rightarrow> time" where
  "monthEnd month = Date_UTC (fst month) (snd month + 1) (1 - 1)"

section \<open>Keys\<close>

definition opexSourceKey :: "civil_month \<Rightarrow> int \<Rightarrow> string" where
  "opexSourceKey month version =
     (let key = format_month month in if version > 1 then key @ '':v'' @ Itoa version else key)"

definition shippingSourceKey :: "int \<Rightarrow> int \<Rightarrow> string" where
  "shippingSourceKey shipmentID version =
     (if version > 1 then ''ship:'' @ Itoa shipmentID @ '':v'' @ Itoa version
      else ''ship:'' @ Itoa shipmentID)"

definition devExpenseSourceKey :: "int \<Rightarrow> int \<Rightarrow> string" where
  "devExpenseSourceKey devID version =
     (if version > 1 then ''dev:'' @ Itoa devID @ '':v'' @ Itoa version else ''dev:'' @ Itoa devID)"

section \<open>Builders\<close>

definition withNote :: "AcctJournalLineInsert \<Rightarrow> string \<Rightarrow> AcctJournalLineInsert" where
  "withNote l s = l\<lparr>ln_Note := nullStr s\<rparr>"

definition opexStep :: "decimal_lib \<Rightarrow> string list \<times> AcctJournalLineInsert list \<times> decimal
    \<Rightarrow> AcctOpexCategorySum \<Rightarrow> string list \<times> AcctJournalLineInsert list \<times> decimal" where
  "opexStep L st s =
     (let (caveats, lines, total) = st;
          caveats = caveats @ cavIf (os_UncostedLabels s \<noteq> [])
            (''opex line(s) skipped (no base amount) in '' @ Quote (os_Category s) @ '': '' @
             Join (os_UncostedLabels s) '', '');
          amount = dl_Round L (os_AmountBase s) 2
      in if \<not> 0 < amount then (caveats, lines, total)
         else
           let (code, known) = OpexCategoryAccount (os_Category s);
               caveats = caveats @ cavIf (\<not> known)
                 (''unknown opex category '' @ Quote (os_Category s) @ '' booked to '' @ Acc6390)
           in (caveats, lines @ [withNote (Dr code amount) (os_Category s)], total + amount))"

definition opexVat :: "decimal_lib \<Rightarrow> AcctOpexCategorySum list \<Rightarrow> decimal" where
  "opexVat L cats =
     foldl (\<lambda>t s. let v = dl_Round L (os_VatBase s) 2 in if 0 < v then t + v else t) 0 cats"

definition BuildOpexMonthEntry :: "decimal_lib \<Rightarrow> civil_month \<Rightarrow> AcctOpexCategorySum list \<Rightarrow> int
    \<Rightarrow> acct_error + AcctJournalEntryInsert" where
  "BuildOpexMonthEntry L month cats version =
     (let (caveats, lines, total) = foldl (opexStep L) ([], [], 0) cats in
      if lines = [] \<or> \<not> 0 < total then Inl ErrSkipEmpty
      else
        let totalVat = opexVat L cats;
            (lines, total) = (if 0 < totalVat
               then (lines @ [withNote (Dr Acc2080 totalVat) ''input VAT''], total + totalVat)
               else (lines, total));
            lines = lines @ [Cr Acc2030 total]
        in Inr (applyCaveats
             (mkEntry (monthEnd month) (''opex accrual '' @ format_month month) AcctSourceOpexMonth
                (opexSourceKey month version) createdBySystem lines) caveats))"

definition shippingOccurredAt :: "AcctShipmentCostFacts \<Rightarrow> time \<times> bool" where
  "shippingOccurredAt f =
     (case sf_ShippingDate f of Some t \<Rightarrow> (t, True) | None \<Rightarrow> (sf_UpdatedAt f, False))"

definition shipAmount :: "decimal_lib \<Rightarrow> decimal option \<Rightarrow> decimal" where
  "shipAmount L a = (case a of Some x \<Rightarrow> dl_Round L x 2 | None \<Rightarrow> 0)"

definition BuildShippingActualEntry :: "decimal_lib \<Rightarrow> AcctShipmentCostFacts \<Rightarrow> int
    \<Rightarrow> acct_error + AcctJournalEntryInsert" where
  "BuildShippingActualEntry L f version =
     (let actual = shipAmount L (sf_ActualCost f);
          ret = shipAmount L (sf_ReturnShippingCost f);
          caveats = cavIf (actual < 0) ''negative actual_cost dropped''
                    @ cavIf (ret < 0) ''negative return_shipping_cost dropped'';
          actual = (if actual < 0 then 0 else actual);
          ret = (if ret < 0 then 0 else ret);
          total = actual + ret
      in if total \<le> 0 then Inl ErrSkipEmpty
         else
           let lines = (if 0 < actual then [Dr Acc6030 actual] else [])
                       @ (if 0 < ret then [withNote (Dr Acc6030 ret) ''return shipping''] else [])
                       @ [Cr Acc2030 total];
               (occurredAt, dated) = shippingOccurredAt f;
               caveats = caveats @ cavIf (\<not> dated) ''shipping_date missing; dated to last update''
           in Inr (applyCaveats
                (mkEntry occurredAt
                   (''shipping cost '' @ sf_OrderUUID f @ '' (shipment '' @ Itoa (sf_ShipmentID f) @ '')'')
                   AcctSourceShippingActual (shippingSourceKey (sf_ShipmentID f) version)
                   createdBySystem lines) caveats))"

definition devExpenseOccurredAt :: "AcctDevExpenseFacts \<Rightarrow> time" where
  "devExpenseOccurredAt f = (case de_IncurredAt f of Some t \<Rightarrow> t | None \<Rightarrow> de_CreatedAt f)"

definition devExpenseDescription :: "AcctDevExpenseFacts \<Rightarrow> string" where
  "devExpenseDescription f =
     (let desc = ''dev expense '' @ de_TechCardName f @ '' ('' @ de_Kind f @ '')'';
          desc = (case de_Description f of
            Some d \<Rightarrow> (if d \<noteq> [] then desc @ '' '' @ [CHR 0xE2, CHR 0x80, CHR 0x94] @ '' '' @ d else desc)
          | None \<Rightarrow> desc)
      in truncateRunes desc descMaxLen)"

definition BuildDevExpenseEntry :: "decimal_lib \<Rightarrow> AcctDevExpenseFacts \<Rightarrow> int
    \<Rightarrow> acct_error + AcctJournalEntryInsert" where
  "BuildDevExpenseEntry L f version =
     (case de_AmountBase f of
        None \<Rightarrow> Inl ErrSkipUncosted
      | Some a \<Rightarrow>
          let amount = dl_Round L a 2 in
          if amount \<le> 0 then Inl ErrSkipEmpty
          else Inr (mkEntry (devExpenseOccurredAt f) (devExpenseDescription f) AcctSourceDevExpense
                 (devExpenseSourceKey (de_Id f) version) createdBySystem
                 [withNote (Dr Acc6210 amount) (de_Kind f), Cr Acc2030 amount]))"

definition BuildDisputeEntry :: "decimal_lib \<Rightarrow> decimal \<Rightarrow> decimal \<Rightarrow> bool \<Rightarrow> string \<Rightarrow> string \<Rightarrow> string
    \<Rightarrow> time \<Rightarrow> acct_error + AcctJournalEntryInsert" where
  "BuildDisputeEntry L disputedAmount fee feeKnown orderUUID disputeID currency occurredAt =
     (let amount = dl_Round L disputedAmount 2 in
      if amount \<le> 0 then Inl ErrDegenerateAmounts
      else
        let f = (if feeKnown then (let f = dl_Round L fee 2 in if f < 0 then 0 else f) else 0);
            caveats = cavIf (\<not> feeKnown) ''dispute fee unavailable from Stripe; disputed amount only''
              @ cavIf (currency \<noteq> [] \<and> \<not> isBaseCurrency currency)
                  (''dispute presented in '' @ currency @ ''; amount booked from EUR balance'');
            lines = [Dr Acc4040 amount] @ (if 0 < f then [Dr Acc6050 f] else [])
                    @ [Cr Acc1030 (amount + f)]
        in Inr (applyCaveats
             (mkEntry occurredAt (''order dispute '' @ orderUUID @ '' ('' @ disputeID @ '')'')
                AcctSourceOrderDispute (''dispute:'' @ disputeID) createdBySystem lines) caveats))"

section \<open>Balance\<close>

lemma withNote_simps [simp]:
  "debit_of (withNote l s) = debit_of l" "credit_of (withNote l s) = credit_of l"
  "line_ok (withNote l s) = line_ok l" "ln_AccountCode (withNote l s) = ln_AccountCode l"
  by (simp_all add: withNote_def debit_of_def credit_of_def line_ok_def)

lemma OpexCategoryAccount_neq:
  "OpexCategoryAccount c = (code, b) \<Longrightarrow> code \<noteq> ''2030'' \<and> code \<noteq> ''2080''"
  by (auto simp: OpexCategoryAccount_def opexCategoryAccounts_def split: if_splits)

text \<open>The loop over the categories in closed form.\<close>

definition opexAmount :: "decimal_lib \<Rightarrow> AcctOpexCategorySum \<Rightarrow> decimal" where
  "opexAmount L s = max 0 (dl_Round L (os_AmountBase s) 2)"

definition opexLine :: "decimal_lib \<Rightarrow> AcctOpexCategorySum \<Rightarrow> AcctJournalLineInsert list" where
  "opexLine L s = (if 0 < dl_Round L (os_AmountBase s) 2
     then [withNote (Dr (fst (OpexCategoryAccount (os_Category s))) (dl_Round L (os_AmountBase s) 2)) (os_Category s)]
     else [])"

lemma foldl_opexStep:
  "snd (foldl (opexStep L) (cs, ls, t) cats) =
     (ls @ concat (map (opexLine L) cats), t + sum_list (map (opexAmount L) cats))"
proof (induction cats arbitrary: cs ls t)
  case (Cons s cats)
  have "snd (opexStep L (cs, ls, t) s) = (ls @ opexLine L s, t + opexAmount L s)"
    by (simp add: opexStep_def opexLine_def opexAmount_def Let_def split: prod.splits)
  then obtain cs' where "opexStep L (cs, ls, t) s = (cs', ls @ opexLine L s, t + opexAmount L s)"
    by (metis prod.collapse)
  then show ?case by (simp add: Cons.IH)
qed simp

lemma opexVat_eq: "opexVat L cats = sum_list (map (\<lambda>s. max 0 (dl_Round L (os_VatBase s) 2)) cats)"
proof -
  have "foldl (\<lambda>t s. let v = dl_Round L (os_VatBase s) 2 in if 0 < v then t + v else t) t cats
      = t + sum_list (map (\<lambda>s. max 0 (dl_Round L (os_VatBase s) 2)) cats)" for t
    by (induction cats arbitrary: t) (auto simp: Let_def max_def)
  then show ?thesis by (simp add: opexVat_def)
qed

lemma opexLine_facts:
  "list_all line_ok (opexLine L s)" "debits (opexLine L s) = opexAmount L s" "credits (opexLine L s) = 0"
  "acct_net ''2030'' (opexLine L s) = 0" "acct_net ''2080'' (opexLine L s) = 0"
  "0 < opexAmount L s \<longleftrightarrow> opexLine L s \<noteq> []" "0 \<le> opexAmount L s"
  using OpexCategoryAccount_neq [of "os_Category s"]
  by (auto simp: opexLine_def opexAmount_def prod_eq_iff)

lemma opexLines_facts:
  "list_all line_ok (concat (map (opexLine L) cats))"
  "debits (concat (map (opexLine L) cats)) = sum_list (map (opexAmount L) cats)"
  "credits (concat (map (opexLine L) cats)) = 0"
  "acct_net ''2030'' (concat (map (opexLine L) cats)) = 0"
  "acct_net ''2080'' (concat (map (opexLine L) cats)) = 0"
  "0 \<le> sum_list (map (opexAmount L) cats)"
  "0 < sum_list (map (opexAmount L) cats) \<longleftrightarrow> concat (map (opexLine L) cats) \<noteq> []"
proof -
  show "0 < sum_list (map (opexAmount L) cats) \<longleftrightarrow> concat (map (opexLine L) cats) \<noteq> []"
  proof (induction cats)
    case (Cons s cats)
    have "0 \<le> sum_list (map (opexAmount L) cats)" by (intro sum_list_nonneg) (auto simp: opexLine_facts)
    with Cons show ?case using opexLine_facts(6,7) [of L s] by auto
  qed simp
qed (induction cats; simp add: opexLine_facts add_nonneg_nonneg)+

text \<open>Which account takes a category: the chart of the books, with 6390 for whatever it does not name.\<close>

definition expense_account :: "string \<Rightarrow> string" where
  "expense_account c =
     (if c = ''salaries'' then ''6330'' else if c = ''employer_social'' then ''6335''
      else if c = ''rent'' then ''6340'' else if c = ''software'' then ''6320''
      else if c = ''marketing_other'' then ''6110'' else if c = ''production_content'' then ''6125''
      else if c = ''taxes'' then ''6360'' else if c = ''bank_fees'' then ''6060''
      else if c = ''professional_services'' then ''6350'' else if c = ''logistics_office'' then ''6010''
      else ''6390'')"

lemma OpexCategoryAccount_expense: "fst (OpexCategoryAccount c) = expense_account c"
  by (simp add: OpexCategoryAccount_def opexCategoryAccounts_def expense_account_def)

lemma opexLines_account:
  "acct_net a (concat (map (opexLine L) cats)) =
     (\<Sum>s\<leftarrow>cats. if expense_account (os_Category s) = a then opexAmount L s else 0)"
  by (induction cats) (auto simp: opexLine_def opexAmount_def OpexCategoryAccount_expense)

text \<open>
  C34: The month's accrual: there is an entry exactly when some category has a positive cent
  amount; it is balanced, each expense account receives the positive amounts of the categories the
  chart sends to it (the unknown ones go to 6390), 2080 receives the positive input VAT, 2030 owes
  both, no other account moves, and it is dated to the last day of the month.
\<close>

theorem opex_month_accrual:
  "(BuildOpexMonthEntry L month cats version = Inl ErrSkipEmpty \<longleftrightarrow>
      (\<forall>s. s \<in> set cats \<longrightarrow> dl_Round L (os_AmountBase s) 2 \<le> 0)) \<and>
   (\<forall>e. BuildOpexMonthEntry L month cats version = Inr e \<longrightarrow>
      ValidateBalanced e = None \<and>
      acct_net Acc2080 (je_Lines e) = sum_list (map (\<lambda>s. max 0 (dl_Round L (os_VatBase s) 2)) cats) \<and>
      acct_net Acc2030 (je_Lines e) = - sum_list (map (\<lambda>s. max 0 (dl_Round L (os_AmountBase s) 2)) cats)
        - sum_list (map (\<lambda>s. max 0 (dl_Round L (os_VatBase s) 2)) cats) \<and>
      (\<forall>a. a \<noteq> Acc2080 \<and> a \<noteq> Acc2030 \<longrightarrow> acct_net a (je_Lines e) =
         (\<Sum>s\<leftarrow>cats. if expense_account (os_Category s) = a then max 0 (dl_Round L (os_AmountBase s) 2) else 0)) \<and>
      je_OccurredAt e = monthEnd month)"
proof -
  let ?ls = "concat (map (opexLine L) cats)" and ?t = "sum_list (map (opexAmount L) cats)"
    and ?v = "opexVat L cats"
  obtain cs where f: "foldl (opexStep L) ([], [], 0) cats = (cs, ?ls, ?t)"
    using foldl_opexStep [of L "[]" "[]" 0 cats] by (metis add_0 append_Nil prod.collapse)
  note F = opexLines_facts [of L cats]
  have v: "0 \<le> ?v" unfolding opexVat_eq by (rule sum_list_nonneg) auto
  have empty: "?ls = [] \<longleftrightarrow> (\<forall>s. s \<in> set cats \<longrightarrow> dl_Round L (os_AmountBase s) 2 \<le> 0)"
  proof -
    have "opexLine L s = [] \<longleftrightarrow> dl_Round L (os_AmountBase s) 2 \<le> 0" for s
      by (simp add: opexLine_def not_less)
    then show ?thesis by (simp add: concat_eq_Nil_conv) blast
  qed
  have a: "sum_list (map (\<lambda>s. max 0 (dl_Round L (os_AmountBase s) 2)) cats) = ?t"
    by (simp add: opexAmount_def [abs_def])
  note acct = opexLines_account [of _ L cats, unfolded opexAmount_def]
  show ?thesis
    unfolding empty [symmetric] a opexVat_eq [symmetric]
    using F v acct by (auto simp: BuildOpexMonthEntry_def f Let_def ValidateBalanced_None lines_ok_def)
qed

definition ex_sums :: "AcctOpexCategorySum list" where
  "ex_sums = [\<lparr>os_Category = ''rent'', os_AmountBase = 900, os_VatBase = 207, os_UncostedLabels = []\<rparr>,
     \<lparr>os_Category = ''misc'', os_AmountBase = 40, os_VatBase = 0, os_UncostedLabels = [''tape'']\<rparr>]"

theorem opex_month_accrual_witness:
  "\<exists>e. BuildOpexMonthEntry decimal_std (2025, 2) ex_sums 1 = Inr e \<and> acct_net Acc2030 (je_Lines e) = - 1147"
proof -
  have "BuildOpexMonthEntry decimal_std (2025, 2) ex_sums 1 \<noteq> Inl ErrSkipEmpty"
    using opex_month_accrual [of decimal_std "(2025, 2)" ex_sums 1]
    by (auto simp: ex_sums_def decimal_std_def round_half_away_def)
  moreover have "BuildOpexMonthEntry decimal_std (2025, 2) ex_sums 1 = Inl err \<Longrightarrow> err = ErrSkipEmpty" for err
    by (auto simp: BuildOpexMonthEntry_def Let_def split: prod.splits if_splits)
  ultimately obtain e where "BuildOpexMonthEntry decimal_std (2025, 2) ex_sums 1 = Inr e"
    by (cases "BuildOpexMonthEntry decimal_std (2025, 2) ex_sums 1") auto
  then show ?thesis
    using opex_month_accrual [of decimal_std "(2025, 2)" ex_sums 1]
    by (auto simp: ex_sums_def decimal_std_def round_half_away_def)
qed

lemma shipping_entry_lines:
  assumes "BuildShippingActualEntry L f version = Inr e"
  shows "ValidateBalanced e = None \<and>
    acct_net Acc6030 (je_Lines e) = max 0 (shipAmount L (sf_ActualCost f)) + max 0 (shipAmount L (sf_ReturnShippingCost f)) \<and>
    acct_net Acc2030 (je_Lines e) = - acct_net Acc6030 (je_Lines e)"
  using assms
  by (auto simp: BuildShippingActualEntry_def Let_def ValidateBalanced_None lines_ok_def max_def
        split: prod.splits if_splits)

lemma dev_expense_lines:
  "BuildDevExpenseEntry L f version = Inr e \<Longrightarrow> ValidateBalanced e = None"
  by (auto simp: BuildDevExpenseEntry_def Let_def ValidateBalanced_None lines_ok_def
        split: option.splits if_splits)

text \<open>
  C35: The carrier cost, development expense and chargeback entries are balanced whenever they
  are built; a carrier entry accrues the positive parts of the cost and of the return cost, and a
  chargeback takes from the processor account the disputed amount and, when the fee is known, the
  fee - never less than the disputed amount.
\<close>

theorem accrual_entries_balanced:
  "(\<forall>f version e. BuildShippingActualEntry L f version = Inr e \<longrightarrow> ValidateBalanced e = None \<and>
      acct_net Acc6030 (je_Lines e) =
        max 0 (shipAmount L (sf_ActualCost f)) + max 0 (shipAmount L (sf_ReturnShippingCost f))) \<and>
   (\<forall>f version e. BuildDevExpenseEntry L f version = Inr e \<longrightarrow> ValidateBalanced e = None) \<and>
   (\<forall>amount fee known uuid did cur t e. BuildDisputeEntry L amount fee known uuid did cur t = Inr e \<longrightarrow>
      ValidateBalanced e = None \<and>
      acct_net Acc1030 (je_Lines e) = - dl_Round L amount 2 - (if known then max 0 (dl_Round L fee 2) else 0))"
  using shipping_entry_lines [of L] dev_expense_lines [of L]
  by (auto simp: BuildDisputeEntry_def Let_def ValidateBalanced_None lines_ok_def max_def split: if_splits)

theorem accrual_entries_balanced_witness:
  "\<exists>e. BuildDisputeEntry decimal_std 50 15 True ''o1'' ''dp_1'' ''EUR'' 7 = Inr e \<and>
     acct_net Acc1030 (je_Lines e) = - 65"
proof -
  obtain e where "BuildDisputeEntry decimal_std 50 15 True ''o1'' ''dp_1'' ''EUR'' 7 = Inr e"
    by (simp add: BuildDisputeEntry_def Let_def decimal_std_def round_half_away_def)
  then show ?thesis using accrual_entries_balanced [of decimal_std]
    by (fastforce simp: decimal_std_def round_half_away_def)
qed

section \<open>Versioned keys\<close>

text \<open>
  A mutable source is posted under a base key, a corrected one under the base key with a version
  suffix.  What the scheme needs is that a base key can be told from what follows a colon.
\<close>

locale versioned_key =
  fixes key :: "'k \<Rightarrow> int \<Rightarrow> string" and base :: "'k \<Rightarrow> string" and wf :: "'k \<Rightarrow> bool"
  assumes key_eq: "key k v = base k @ (if v > 1 then '':v'' @ Itoa v else [])"
    and base_sep: "\<lbrakk>wf k; wf k'; c = [] \<or> hd c = CHR '':''; d = [] \<or> hd d = CHR '':'';
                   base k @ c = base k' @ d\<rbrakk> \<Longrightarrow> k = k' \<and> c = d"
begin

lemma key_inj:
  assumes "wf k" and "wf k'"
  shows "key k v = key k' v' \<longleftrightarrow> k = k' \<and> max 1 v = max 1 v'"
proof
  assume "key k v = key k' v'"
  then have "k = k'" "(if v > 1 then '':v'' @ Itoa v else []) = (if v' > 1 then '':v'' @ Itoa v' else [])"
    using base_sep [OF assms, of "if v > 1 then '':v'' @ Itoa v else []" "if v' > 1 then '':v'' @ Itoa v' else []"]
    by (auto simp: key_eq)
  then show "k = k' \<and> max 1 v = max 1 v'" by (auto split: if_splits)
qed (auto simp: key_eq)

lemma repost_is_new: "wf k \<Longrightarrow> wf k' \<Longrightarrow> 1 \<le> v \<Longrightarrow> v < v' \<Longrightarrow> key k v \<noteq> key k' v'"
  by (simp add: key_inj)

end

lemma format_month_no_colon: "CHR '':'' \<notin> set (format_month m)"
  using zero_pad_digits [of 4 "nat (fst m)"] zero_pad_digits [of 2 "nat (snd m)"]
  by (auto simp: format_month_def list_all_iff)

lemma zero_pad_no_minus: "CHR ''-'' \<notin> set (zero_pad w n)"
  using zero_pad_digits [of w n] by (auto simp: list_all_iff)

lemma format_month_inj: "month_ok m \<Longrightarrow> month_ok m' \<Longrightarrow> format_month m = format_month m' \<longleftrightarrow> m = m'"
  by (auto simp: format_month_def month_ok_def prod_eq_iff append_sep_inj zero_pad_no_minus)

interpretation opex_key: versioned_key opexSourceKey format_month month_ok
proof unfold_locales
  fix k v show "opexSourceKey k v = format_month k @ (if v > 1 then '':v'' @ Itoa v else [])"
    by (simp add: opexSourceKey_def)
next
  fix k k' c d
  assume "month_ok k" "month_ok k'" "c = [] \<or> hd c = CHR '':''" "d = [] \<or> hd d = CHR '':''"
    "format_month k @ c = format_month k' @ d"
  then show "k = k' \<and> c = d"
    using append_tail_inj [OF format_month_no_colon format_month_no_colon, of c d k k'] format_month_inj by blast
qed

lemma Itoa_tail_inj:
  "c = [] \<or> hd c = CHR '':'' \<Longrightarrow> d = [] \<or> hd d = CHR '':'' \<Longrightarrow> Itoa i @ c = Itoa j @ d \<Longrightarrow> i = j \<and> c = d"
  using append_tail_inj [OF Itoa_no_colon Itoa_no_colon, of c d i j] by simp

interpretation ship_key: versioned_key shippingSourceKey "\<lambda>i. ''ship:'' @ Itoa i" "\<lambda>_. True"
proof (unfold_locales, goal_cases)
  case (2 k k' c d)
  then show ?case using Itoa_tail_inj [of c d k k'] by simp
qed (simp add: shippingSourceKey_def)

interpretation dev_key: versioned_key devExpenseSourceKey "\<lambda>i. ''dev:'' @ Itoa i" "\<lambda>_. True"
proof (unfold_locales, goal_cases)
  case (2 k k' c d)
  then show ?case using Itoa_tail_inj [of c d k k'] by simp
qed (simp add: devExpenseSourceKey_def)

section \<open>The last day of a month\<close>

text \<open>
  The accrual date of a month is midnight of its last day - the 28th to 31st by the Gregorian
  leap rule, December included - exactly one day before the first of the next month, and so it
  falls into the accounting period of the month it accrues.
\<close>

theorem month_end_is_last_day:
  assumes "1 \<le> m" and "m \<le> 12"
  shows "monthEnd (y, m) = Date_UTC y m (month_len y m) \<and>
    monthEnd (y, m) + 86400000000000 = Date_UTC (if m = 12 then y + 1 else y) (if m = 12 then 1 else m + 1) 1 \<and>
    firstOfMonthUTC (monthEnd (y, m)) = (y, m) \<and> 28 \<le> month_len y m \<and> month_len y m \<le> 31"
proof -
  have "unix_day y (m + 1) 0 = unix_day y m (month_len y m)"
    using unix_day_next_month [OF assms, of y 0] by (simp add: unix_day_def Let_def)
  moreover have "unix_day y 13 1 = unix_day (y + 1) 1 1" by (simp add: unix_day_def)
  moreover have e: "monthEnd (y, m) = Date_UTC y m (month_len y m)"
    using calculation(1) by (simp add: monthEnd_def Date_UTC_def)
  moreover have l: "28 \<le> month_len y m" "month_len y m \<le> 31" by (simp_all add: month_len_def)
  moreover have "firstOfMonthUTC (monthEnd (y, m)) = (y, m)"
    unfolding e using assms l by (intro firstOfMonthUTC_Date) auto
  ultimately show ?thesis
    by (auto simp: monthEnd_def Date_UTC_def unix_day_def Let_def)
qed

theorem month_end_is_last_day_witness: "monthEnd (2024, 2) = Date_UTC 2024 2 29"
  using month_end_is_last_day [of 2 2024] by (simp add: month_len_def leap_def)

end
