(* ===== verification/Acct_Production.thy ===== *)
theory Acct_Production
  imports Acct_Accruals Acct_Material
begin

text \<open>
  The receipt of a production run in the ledger (rule P1, internal/accounting/production.go): the
  manual costs not yet capitalised go into work in progress (1120), and work in progress goes to
  finished goods (1130) by the share of the good units, with the abnormal scrap of a closed series
  written off (5040).  The function is one definition per stage of the code.
\<close>

section \<open>The stages of the builder\<close>

definition runManualCost :: "decimal option list \<Rightarrow> decimal \<times> int" where
  "runManualCost costs =
     foldl (\<lambda>(manualCost, uncosted) c. case c of
        Some a \<Rightarrow> (manualCost + a, uncosted) | None \<Rightarrow> (manualCost, uncosted + 1)) (0, 0) costs"

definition runIssueStep :: "decimal_lib \<Rightarrow> time \<Rightarrow> decimal \<times> bool \<times> bool \<Rightarrow> AcctRunIssueFact
    \<Rightarrow> decimal \<times> bool \<times> bool" where
  "runIssueStep L startDate st iss =
     (let (ledgerWIP, preCutover, uncosted) = st in
      if ri_CreatedAt iss < startDate then (ledgerWIP, True, uncosted)
      else case ri_UnitCostBase iss of
          None \<Rightarrow> (ledgerWIP, preCutover, True)
        | Some c \<Rightarrow>
            let value = dl_Round L (ri_Quantity iss * c) 2 in
            (case ri_MovementType iss of
               MaterialMovementIssueProduction \<Rightarrow> (ledgerWIP + value, preCutover, uncosted)
             | MaterialMovementReturnProduction \<Rightarrow> (ledgerWIP - value, preCutover, uncosted)
             | _ \<Rightarrow> (ledgerWIP, preCutover, uncosted)))"

definition runIssues :: "decimal_lib \<Rightarrow> time \<Rightarrow> AcctRunIssueFact list \<Rightarrow> decimal \<times> bool \<times> bool" where
  "runIssues L startDate issues = foldl (runIssueStep L startDate) (0, False, False) issues"

definition runCounts :: "AcctRunFacts \<Rightarrow> int \<times> int" where
  "runCounts r =
     (if rf_AllReceivedQty r = 0 then (rf_GoodQtyTotal r, rf_GoodQtyTotal r + rf_DefectQtyTotal r)
      else (rf_AllGoodQty r, rf_AllReceivedQty r))"

definition runIsFinal :: "AcctRunFacts \<Rightarrow> bool" where
  "runIsFinal r \<longleftrightarrow> rf_IsFinal r \<or> rf_ReceiptID r = 0 \<or> snd (runCounts r) = 0"

definition goodShareTarget :: "decimal_lib \<Rightarrow> AcctRunFacts \<Rightarrow> decimal \<Rightarrow> decimal" where
  "goodShareTarget L r totalWIPGross =
     (let (allGood, allReceived) = runCounts r in
      if 0 < allReceived
      then dl_Round L (dl_Div L (totalWIPGross * of_int allGood) (of_int allReceived)) 2
      else totalWIPGross)"

definition abnormalWriteOff :: "decimal_lib \<Rightarrow> AcctRunFacts \<Rightarrow> decimal \<Rightarrow> decimal \<Rightarrow> decimal
    \<Rightarrow> decimal \<times> string list" where
  "abnormalWriteOff L r normalLossRate totalWIPGross remaining =
     (let (allGood, allReceived) = runCounts r;
          allowance = of_int \<lfloor>of_int allReceived * normalLossRate\<rfloor>;
          abnormal = of_int (rf_AllScrapQty r) - allowance
      in if 0 < abnormal \<and> 0 < allReceived
         then
           let writeOff = dl_Round L (dl_Div L (totalWIPGross * abnormal) (of_int allReceived)) 2 in
           if remaining < writeOff
           then (remaining, [''abnormal defect loss: '' @ dl_String L abnormal @ '' unit(s) beyond the ''
                   @ dl_String L allowance @ ''-unit allowance; write-off capped at the remaining WIP ''
                   @ dl_String L remaining @ '' (the excess stays capitalised)''])
           else (writeOff, [''abnormal defect loss: '' @ dl_String L abnormal @ '' unit(s) beyond the ''
                   @ dl_String L allowance @ ''-unit normal allowance written off''])
         else (0, []))"

text \<open>The final receipt: what goes to finished goods, what is written off, and the caveats.\<close>

definition finalSplit :: "decimal_lib \<Rightarrow> AcctRunFacts \<Rightarrow> decimal \<Rightarrow> decimal
    \<Rightarrow> decimal \<times> decimal \<times> string list" where
  "finalSplit L r normalLossRate totalWIPGross =
     (let (allGood, allReceived) = runCounts r;
          remaining = totalWIPGross - rf_OtherPostedFGBase r
      in if 0 < remaining then
           if allGood = 0 \<and> 0 < allReceived \<and> 0 < rf_ReceiptID r
           then (0, remaining,
                 [if rf_AllScrapQty r = 0
                  then ''seconds-only run closed: remaining WIP written off (B stock carries zero cost v1)''
                  else ''all-scrap run closed: entire remaining WIP written off''])
           else
             let (writeOff, caveats) = abnormalWriteOff L r normalLossRate totalWIPGross remaining
             in (remaining - writeOff, writeOff, caveats)
         else if remaining < 0 then (remaining, 0, [])
         else (0, 0, []))"

definition partialFG :: "decimal_lib \<Rightarrow> AcctRunFacts \<Rightarrow> decimal \<Rightarrow> decimal" where
  "partialFG L r totalWIPGross =
     (let (allGood, allReceived) = runCounts r;
          thisUnits = rf_GoodQtyTotal r + rf_DefectQtyTotal r;
          remaining = rf_PlannedQtyTotal r - (allReceived - thisUnits);
          remaining = (if remaining < thisUnits then thisUnits else remaining);
          wipBalance = totalWIPGross - rf_OtherPostedFGBase r;
          fg = (if 0 < remaining
                then dl_Round L (dl_Div L (wipBalance * of_int (rf_GoodQtyTotal r)) (of_int remaining)) 2
                else 0);
          cap = goodShareTarget L r totalWIPGross - rf_OtherPostedFGBase r
      in if cap < fg then cap else fg)"

definition productionReceiveSourceKey :: "AcctRunFacts \<Rightarrow> int \<Rightarrow> string" where
  "productionReceiveSourceKey r version =
     (let key = (if 0 < rf_ReceiptID r then ''receipt:'' @ Itoa (rf_ReceiptID r) else Itoa (rf_RunID r))
      in if version > 1 then key @ '':v'' @ Itoa version else key)"

definition runManualNow :: "decimal_lib \<Rightarrow> AcctRunFacts \<Rightarrow> decimal" where
  "runManualNow L r = dl_Round L (fst (runManualCost (rf_Costs r))) 2"

definition runManual :: "decimal_lib \<Rightarrow> AcctRunFacts \<Rightarrow> decimal \<times> string list" where
  "runManual L r =
     (let manual = runManualNow L r - rf_OtherPostedManualBase r in
      if manual < 0
      then (0, [''manual costs shrank below the already-capitalised total; nothing further capitalised''])
      else (manual, []))"

definition runTotalWIP :: "decimal_lib \<Rightarrow> AcctRunFacts \<Rightarrow> time \<Rightarrow> decimal" where
  "runTotalWIP L r startDate =
     dl_Round L (fst (runIssues L startDate (rf_Issues r))) 2
       + max (runManualNow L r) (rf_OtherPostedManualBase r)"

definition runSplit :: "decimal_lib \<Rightarrow> AcctRunFacts \<Rightarrow> time \<Rightarrow> decimal \<Rightarrow> decimal \<times> decimal \<times> string list" where
  "runSplit L r startDate normalLossRate =
     (let totalWIPGross = runTotalWIP L r startDate in
      if rf_IsAux r then (0, 0, [])
      else if runIsFinal r then finalSplit L r normalLossRate totalWIPGross
      else (partialFG L r totalWIPGross, 0, []))"

definition BuildProductionReceiveEntry :: "decimal_lib \<Rightarrow> AcctRunFacts \<Rightarrow> time \<Rightarrow> int \<Rightarrow> decimal
    \<Rightarrow> acct_error + AcctJournalEntryInsert" where
  "BuildProductionReceiveEntry L r startDate version normalLossRate =
     (let (ledgerWIP, preCutoverIssues, uncostedIssues) = runIssues L startDate (rf_Issues r);
          manualUncostedCount = snd (runManualCost (rf_Costs r));
          totalWIPGross = runTotalWIP L r startDate;
          (allGood, allReceived) = runCounts r;
          (manual, manualCaveats) = runManual L r;
          (fg, writeOff, splitCaveats) = runSplit L r startDate normalLossRate;
          caveats = cavIf uncostedIssues ''finished goods understated; run has uncosted material issues''
            @ cavIf (0 < manualUncostedCount)
                (Itoa manualUncostedCount @ '' manual cost line(s) have no base amount and were skipped'')
            @ cavIf preCutoverIssues ''pre-cutover WIP excluded''
            @ manualCaveats @ splitCaveats;
          allScrap = (0 < rf_ReceiptID r \<and> allGood = 0 \<and> 0 < allReceived);
          lines = pair_if_pos Acc1120 Acc2010 manual;
          (lines, caveats) =
            (if allScrap \<and> \<not> runIsFinal r then
               (lines, caveats @ cavIf (0 < totalWIPGross)
                          ''all-scrap receipt: cost left in WIP pending the series close'')
             else if 0 < fg then (lines @ [Dr Acc1130 fg, Cr Acc1120 fg], caveats)
             else if fg < 0
             then (lines, caveats @ [''non-positive finished-goods amount; FG transfer skipped''])
             else (lines, caveats));
          lines = lines @ pair_if_pos Acc5040 Acc1120 writeOff
      in if lines = [] then (if caveats \<noteq> [] then Inl (EmptyReceiptError caveats) else Inl ErrSkipEmpty)
         else Inr (applyCaveats
           (mkEntry (rf_ReceivedAt r)
              (''production run '' @ Itoa (rf_RunID r) @ '' received: '' @ rf_TechCardName r)
              AcctSourceProductionReceive (productionReceiveSourceKey r version) createdBySystem lines)
           caveats))"

section \<open>Shape of the result\<close>

definition receive_lines :: "decimal_lib \<Rightarrow> AcctRunFacts \<Rightarrow> time \<Rightarrow> decimal \<Rightarrow> AcctJournalLineInsert list" where
  "receive_lines L r startDate normalLossRate =
     (let (fg, writeOff, _) = runSplit L r startDate normalLossRate in
      pair_if_pos Acc1120 Acc2010 (fst (runManual L r))
      @ (if 0 < rf_ReceiptID r \<and> fst (runCounts r) = 0 \<and> 0 < snd (runCounts r) \<and> \<not> runIsFinal r then []
         else pair_if_pos Acc1130 Acc1120 fg)
      @ pair_if_pos Acc5040 Acc1120 writeOff)"

lemma receive_entry_lines:
  "BuildProductionReceiveEntry L r t v q = Inr e \<Longrightarrow>
     je_Lines e = receive_lines L r t q \<and> receive_lines L r t q \<noteq> [] \<and>
     je_SourceKey e = productionReceiveSourceKey r v"
  by (auto simp: BuildProductionReceiveEntry_def receive_lines_def pair_if_pos_def Let_def
        split: prod.splits if_splits)

lemma receive_entry_empty:
  "BuildProductionReceiveEntry L r t v q = Inl err \<Longrightarrow> receive_lines L r t q = [] \<and> is_ErrSkipEmpty err"
  by (auto simp: BuildProductionReceiveEntry_def receive_lines_def pair_if_pos_def Let_def
        split: prod.splits if_splits)

lemma entry_lines_receive: "entry_lines (BuildProductionReceiveEntry L r t v q) = receive_lines L r t q"
  using receive_entry_lines [of L r t v q] receive_entry_empty [of L r t v q]
  by (cases "BuildProductionReceiveEntry L r t v q") auto

section \<open>Work in progress is conserved\<close>

text \<open>
  What account 1120 holds for a run before this receipt: the value of its issues, each rounded to the cent
  by itself as the material rules post them, the manual cost its other receipts capitalised, less what
  those relieved.
\<close>

definition issue_value :: "decimal_lib \<Rightarrow> time \<Rightarrow> AcctRunIssueFact \<Rightarrow> decimal" where
  "issue_value L startDate iss =
     (case ri_UnitCostBase iss of
        None \<Rightarrow> 0
      | Some c \<Rightarrow>
          if ri_CreatedAt iss < startDate then 0
          else if ri_MovementType iss = MaterialMovementIssueProduction then dl_Round L (ri_Quantity iss * c) 2
          else if ri_MovementType iss = MaterialMovementReturnProduction then - dl_Round L (ri_Quantity iss * c) 2
          else 0)"

definition wip_before :: "decimal_lib \<Rightarrow> AcctRunFacts \<Rightarrow> time \<Rightarrow> decimal" where
  "wip_before L r startDate = (\<Sum>iss\<leftarrow>rf_Issues r. issue_value L startDate iss)
     + rf_OtherPostedManualBase r - rf_OtherPostedFGBase r"

text \<open>
  The same issues as the rows of the material ledger they are read from, and what the journal entries of
  these rows put on 1120.  The worker posts the rows created since the start of the books.
\<close>

definition issue_of :: "AcctMovementFacts \<Rightarrow> AcctRunIssueFact" where
  "issue_of m = \<lparr>ri_MovementType = mf_MovementType m, ri_Quantity = mf_Quantity m,
     ri_UnitCostBase = mf_UnitCostBase m, ri_CreatedAt = mf_CreatedAt m\<rparr>"

definition issue_rows :: "AcctMovementFacts list \<Rightarrow> AcctRunFacts \<Rightarrow> bool" where
  "issue_rows rows r \<longleftrightarrow> rf_Issues r = map issue_of rows \<and>
     (\<forall>m \<in> set rows. mf_MovementType m \<in> {MaterialMovementIssueProduction, MaterialMovementReturnProduction} \<and>
        0 \<le> mf_Quantity m \<and> (\<forall>c. mf_UnitCostBase m = Some c \<longrightarrow> 0 \<le> c))"

definition posted_1120 :: "decimal_lib \<Rightarrow> time \<Rightarrow> AcctMovementFacts list \<Rightarrow> decimal" where
  "posted_1120 L startDate rows =
     (\<Sum>m\<leftarrow>rows. if mf_CreatedAt m < startDate then 0
        else acct_net Acc1120 (entry_lines (BuildMaterialMovementEntry L m startDate)))"

lemma issue_value_posted:
  assumes "decimal_ok L" and "mf_MovementType m \<in> {MaterialMovementIssueProduction, MaterialMovementReturnProduction}"
    and "0 \<le> mf_Quantity m" and "\<forall>c. mf_UnitCostBase m = Some c \<longrightarrow> 0 \<le> c"
  shows "issue_value L t (issue_of m) = (if mf_CreatedAt m < t then 0
     else acct_net Acc1120 (entry_lines (BuildMaterialMovementEntry L m t)))"
proof (cases "mf_UnitCostBase m")
  case None
  then show ?thesis by (simp add: issue_value_def issue_of_def BuildMaterialMovementEntry_def)
next
  case (Some c)
  have "0 \<le> dl_Round L (mf_Quantity m * c) 2" using assms(1,3,4) Some by (simp add: Round_nonneg)
  then show ?thesis using assms(2) Some
    by (auto simp: issue_value_def issue_of_def BuildMaterialMovementEntry_def Let_def split: option.split)
qed

lemma issues_posted:
  assumes "decimal_ok L" and "issue_rows rows r"
  shows "(\<Sum>iss\<leftarrow>rf_Issues r. issue_value L t iss) = posted_1120 L t rows"
proof -
  have "\<forall>m \<in> set rows. issue_value L t (issue_of m) = (if mf_CreatedAt m < t then 0
     else acct_net Acc1120 (entry_lines (BuildMaterialMovementEntry L m t)))"
    using assms by (intro ballI issue_value_posted) (auto simp: issue_rows_def)
  then show ?thesis using assms(2)
    by (simp add: issue_rows_def posted_1120_def o_def cong: map_cong)
qed

lemma runIssues_value: "fst (runIssues L t issues) = (\<Sum>iss\<leftarrow>issues. issue_value L t iss)"
proof -
  have "fst (foldl (runIssueStep L t) st issues) = fst st + (\<Sum>iss\<leftarrow>issues. issue_value L t iss)" for st
  proof (induction issues arbitrary: st)
    case (Cons iss issues)
    have "fst (runIssueStep L t st iss) = fst st + issue_value L t iss"
      by (auto simp: runIssueStep_def issue_value_def Let_def split: prod.split option.split MaterialMovementType.split)
    then show ?case by (simp add: Cons.IH)
  qed simp
  then show ?thesis by (simp add: runIssues_def)
qed

lemma issues_grid: "decimal_ok L \<Longrightarrow> on_grid 2 (\<Sum>iss\<leftarrow>issues. issue_value L t iss)"
proof (induction issues)
  case (Cons iss issues)
  have "on_grid 2 (issue_value L t iss)"
    using Cons.prems by (auto simp: issue_value_def split: option.split)
  then show ?case using Cons by auto
qed simp

definition run_facts_ok :: "decimal_lib \<Rightarrow> AcctRunFacts \<Rightarrow> time \<Rightarrow> bool" where
  "run_facts_ok L r startDate \<longleftrightarrow> on_grid 2 (rf_OtherPostedManualBase r) \<and>
     0 \<le> rf_OtherPostedFGBase r \<and> rf_OtherPostedFGBase r \<le> runTotalWIP L r startDate \<and>
     0 \<le> fst (runCounts r) \<and> fst (runCounts r) \<le> snd (runCounts r)"

lemma wip_total:
  "decimal_ok L \<Longrightarrow> wip_before L r t + fst (runManual L r) = runTotalWIP L r t - rf_OtherPostedFGBase r"
  using Round_id [OF _ issues_grid, of L L t "rf_Issues r"]
  by (auto simp: wip_before_def runManual_def runTotalWIP_def runIssues_value Let_def max_def)

lemma runManual_nonneg: "0 \<le> fst (runManual L r)"
  by (auto simp: runManual_def Let_def)

lemma runTotalWIP_grid: "decimal_ok L \<Longrightarrow> run_facts_ok L r t \<Longrightarrow> on_grid 2 (runTotalWIP L r t)"
  by (auto simp: run_facts_ok_def runTotalWIP_def runManualNow_def max_def)

lemma abnormalWriteOff_bounds:
  assumes "decimal_ok L" and "0 \<le> tot" and "0 \<le> remaining"
  shows "0 \<le> fst (abnormalWriteOff L r q tot remaining)"
    and "fst (abnormalWriteOff L r q tot remaining) \<le> remaining"
  using assms by (auto simp: abnormalWriteOff_def Let_def Round_nonneg Div_nonneg split: prod.splits)

lemma finalSplit_sum:
  assumes "decimal_ok L" and "0 \<le> rf_OtherPostedFGBase r" and "rf_OtherPostedFGBase r \<le> tot"
    and "finalSplit L r q tot = (fg, w, cs)"
  shows "0 \<le> fg" "0 \<le> w" "fg + w = tot - rf_OtherPostedFGBase r"
  using assms abnormalWriteOff_bounds [of L tot "tot - rf_OtherPostedFGBase r" r q]
  by (auto simp: finalSplit_def Let_def split: prod.splits if_splits)

lemma goodShareTarget_le:
  assumes "decimal_ok L" and "run_facts_ok L r t"
  shows "goodShareTarget L r (runTotalWIP L r t) \<le> runTotalWIP L r t"
proof -
  let ?T = "runTotalWIP L r t"
  obtain g n where c: "runCounts r = (g, n)" by fastforce
  have T: "on_grid 2 ?T" using assms by (rule runTotalWIP_grid)
  have "dl_Round L (dl_Div L (?T * of_int g) (of_int n)) 2 \<le> ?T" if n: "0 < n"
  proof (rule Round_le_grid [OF assms(1) T], rule Div_le_grid [OF assms(1) on_grid_finer [OF T]])
    have "?T * of_int g \<le> ?T * of_int n"
      using assms(2) by (intro mult_left_mono) (auto simp: run_facts_ok_def c)
    then show "?T * of_int g / of_int n \<le> ?T" using n by (simp add: pos_divide_le_eq)
  qed (use n in simp_all)
  then show ?thesis by (simp add: goodShareTarget_def c)
qed

lemma partialFG_le:
  assumes "decimal_ok L" and "run_facts_ok L r t"
  shows "partialFG L r (runTotalWIP L r t) \<le> runTotalWIP L r t - rf_OtherPostedFGBase r"
  using goodShareTarget_le [OF assms] by (auto simp: partialFG_def Let_def split: prod.splits)

lemma receive_lines_facts:
  "lines_ok (receive_lines L r t q)"
  by (auto simp: receive_lines_def lines_ok_def split: prod.splits)

text \<open>
  C26: Closing a run clears its work in progress.  Take a run that is not auxiliary, whose issues are read
  from rows of the material ledger with no negative quantity or cost, and whose other receipts relieved no
  more than the run cost.  Then what the journal entries of these rows put on account 1120, with the
  manual cost the other receipts capitalised and what they relieved, and the entry of the final receipt
  sum to exactly nothing, to the cent, whatever rounding the earlier receipts went through; finished goods
  and write-off are not negative; and scrap within the normal-loss allowance is not written off but
  carried by the good units.
\<close>

theorem final_receipt_clears_wip:
  assumes "decimal_ok L" and "run_facts_ok L r t" and "runIsFinal r" and "\<not> rf_IsAux r"
    and "ls = entry_lines (BuildProductionReceiveEntry L r t v q)" and "issue_rows rows r"
  shows "posted_1120 L t rows + rf_OtherPostedManualBase r - rf_OtherPostedFGBase r + acct_net Acc1120 ls = 0 \<and>
    0 \<le> acct_net Acc1130 ls \<and> 0 \<le> acct_net Acc5040 ls \<and>
    (0 < fst (runCounts r) \<and> rf_AllScrapQty r \<le> \<lfloor>of_int (snd (runCounts r)) * q\<rfloor> \<longrightarrow>
       acct_net Acc5040 ls = 0)"
proof -
  obtain fg w cs where s: "finalSplit L r q (runTotalWIP L r t) = (fg, w, cs)" by (metis prod_cases3)
  have f: "0 \<le> fg" "0 \<le> w" "fg + w = runTotalWIP L r t - rf_OtherPostedFGBase r"
    using finalSplit_sum [OF assms(1) _ _ s] assms(2) by (auto simp: run_facts_ok_def)
  have ls: "ls = pair_if_pos Acc1120 Acc2010 (fst (runManual L r)) @ pair_if_pos Acc1130 Acc1120 fg
      @ pair_if_pos Acc5040 Acc1120 w"
    using assms(3-5) by (simp add: entry_lines_receive receive_lines_def runSplit_def s)
  have "w = 0" if "0 < fst (runCounts r)" "rf_AllScrapQty r \<le> \<lfloor>of_int (snd (runCounts r)) * q\<rfloor>"
  proof -
    have "fst (abnormalWriteOff L r q T m) = 0" for T m
      using that by (auto simp: abnormalWriteOff_def Let_def split: prod.splits)
    with s that show ?thesis
      by (auto simp: finalSplit_def Let_def split: prod.splits if_splits) (metis fst_conv)
  qed
  moreover have "wip_before L r t = posted_1120 L t rows + rf_OtherPostedManualBase r - rf_OtherPostedFGBase r"
    using issues_posted [OF assms(1,6), of t] by (simp add: wip_before_def)
  ultimately show ?thesis using f runManual_nonneg [of L r] wip_total [OF assms(1), of r t]
    by (auto simp: ls max_absorb2)
qed

text \<open>
  C27: No receipt, partial ones included, ever relieves more than the run's work in progress
  holds: the balance of 1120 for the run stays at or above zero; the entry is balanced, an empty
  outcome is always a skip, and an auxiliary run posts neither finished goods nor write-off.
\<close>

theorem receipt_never_over_relieves:
  assumes "decimal_ok L" and "run_facts_ok L r t"
    and "ls = entry_lines (BuildProductionReceiveEntry L r t v q)"
  shows "0 \<le> wip_before L r t + acct_net Acc1120 ls \<and> lines_ok ls \<and>
    (ls = [] \<longleftrightarrow> (\<exists>err. BuildProductionReceiveEntry L r t v q = Inl err \<and> is_ErrSkipEmpty err)) \<and>
    (rf_IsAux r \<longrightarrow> acct_net Acc1130 ls = 0 \<and> acct_net Acc5040 ls = 0)"
proof -
  have le: "max 0 fg + max 0 w \<le> runTotalWIP L r t - rf_OtherPostedFGBase r"
    if "runSplit L r t q = (fg, w, cs)" for fg w cs
  proof -
    consider (aux) "rf_IsAux r" | (final) "\<not> rf_IsAux r" "runIsFinal r" | (part) "\<not> rf_IsAux r" "\<not> runIsFinal r"
      by blast
    then show ?thesis
    proof cases
      case final
      with that have "finalSplit L r q (runTotalWIP L r t) = (fg, w, cs)" by (simp add: runSplit_def)
      from finalSplit_sum [OF assms(1) _ _ this] assms(2) show ?thesis by (auto simp: run_facts_ok_def)
    next
      case part
      with that partialFG_le [OF assms(1,2)] assms(2) show ?thesis
        by (auto simp: runSplit_def run_facts_ok_def)
    qed (use that assms(2) in \<open>auto simp: runSplit_def run_facts_ok_def\<close>)
  qed
  have w: "0 \<le> max 0 x" for x :: decimal by simp
  have "0 \<le> wip_before L r t + acct_net Acc1120 ls"
  proof (cases "runSplit L r t q")
    case (fields fg w cs)
    have "max 0 (fst (runManual L r)) = fst (runManual L r)" using runManual_nonneg [of L r] by simp
    moreover have "max 0 fg \<le> wip_before L r t + fst (runManual L r)" "max 0 w \<le> wip_before L r t + fst (runManual L r)"
      "max 0 fg + max 0 w \<le> wip_before L r t + fst (runManual L r)"
      using le [OF fields] wip_total [OF assms(1), of r t] w [of fg] w [of w] by linarith+
    ultimately show ?thesis
      by (simp add: assms(3) entry_lines_receive receive_lines_def fields)
         (auto simp: max_def algebra_simps split: if_splits)
  qed
  moreover have "ls = [] \<longleftrightarrow> (\<exists>err. BuildProductionReceiveEntry L r t v q = Inl err \<and> is_ErrSkipEmpty err)"
    using receive_entry_lines [of L r t v q] receive_entry_empty [of L r t v q] assms(3)
    by (cases "BuildProductionReceiveEntry L r t v q") auto
  moreover have "rf_IsAux r \<longrightarrow> acct_net Acc1130 ls = 0 \<and> acct_net Acc5040 ls = 0"
    by (simp add: assms(3) entry_lines_receive receive_lines_def runSplit_def)
  ultimately show ?thesis using receive_lines_facts by (simp add: assms(3) entry_lines_receive)
qed

text \<open>A run of 100 units, 90 good and 10 scrapped, with 900 of material and 100 of manual cost.\<close>

definition ex_run :: AcctRunFacts where
  "ex_run = \<lparr>rf_RunID = 5, rf_ReceivedAt = 1000, rf_TechCardName = ''coat'', rf_Costs = [Some 100],
     rf_Issues = [\<lparr>ri_MovementType = MaterialMovementIssueProduction, ri_Quantity = 90,
        ri_UnitCostBase = Some 10, ri_CreatedAt = 500\<rparr>],
     rf_ReceiptID = 3, rf_GoodQtyTotal = 90, rf_DefectQtyTotal = 10, rf_IsFinal = True,
     rf_AllGoodQty = 90, rf_AllReceivedQty = 100, rf_PlannedQtyTotal = 100,
     rf_OtherPostedManualBase = 0, rf_OtherPostedFGBase = 0, rf_IsAux = False, rf_AllScrapQty = 10\<rparr>"

lemma ex_run_facts:
  "runCounts ex_run = (90, 100)" "runIsFinal ex_run" "\<not> rf_IsAux ex_run"
  "runTotalWIP decimal_std ex_run 0 = 1000" "run_facts_ok decimal_std ex_run 0"
proof -
  show c: "runCounts ex_run = (90, 100)" "runIsFinal ex_run" "\<not> rf_IsAux ex_run"
    by (simp_all add: runCounts_def runIsFinal_def ex_run_def)
  show T: "runTotalWIP decimal_std ex_run 0 = 1000"
    by (simp add: runTotalWIP_def runManualNow_def runManualCost_def runIssues_def runIssueStep_def
          ex_run_def decimal_std_def round_half_away_def)
  show "run_facts_ok decimal_std ex_run 0" by (simp add: run_facts_ok_def c T) (simp add: ex_run_def)
qed

text \<open>The row of the material ledger that the example's issue is read from.\<close>

definition ex_issue_row :: AcctMovementFacts where
  "ex_issue_row = \<lparr>mf_Id = 11, mf_MovementType = MaterialMovementIssueProduction, mf_Quantity = 90,
     mf_OnHandBefore = 100, mf_OnHandAfter = 10, mf_UnitCostBase = Some 10, mf_SupplierId = None,
     mf_Reason = None, mf_Comment = None, mf_InputVatAmount = None, mf_InputVatRegime = None,
     mf_OccurredAt = None, mf_CreatedAt = 500, mf_MaterialName = ''wool''\<rparr>"

lemma ex_issue_rows: "issue_rows [ex_issue_row] ex_run"
  by (simp add: issue_rows_def issue_of_def ex_issue_row_def ex_run_def)

theorem final_receipt_clears_wip_witness:
  "acct_net Acc1120 (entry_lines (BuildMaterialMovementEntry decimal_std ex_issue_row 0))
     + acct_net Acc1120 (entry_lines (BuildProductionReceiveEntry decimal_std ex_run 0 1 (1 / 20))) = 0"
  using final_receipt_clears_wip [OF decimal_std_ok ex_run_facts(5,2,3) refl ex_issue_rows, of 1 "1 / 20"]
  by (simp add: posted_1120_def) (simp add: ex_issue_row_def ex_run_def)

theorem receipt_never_over_relieves_witness:
  "0 \<le> wip_before decimal_std ex_run 0
     + acct_net Acc1120 (entry_lines (BuildProductionReceiveEntry decimal_std ex_run 0 2 0))"
  using receipt_never_over_relieves [OF decimal_std_ok ex_run_facts(5) refl] by blast

section \<open>Idempotency keys\<close>

text \<open>A run is keyed by its receipt, or by the run itself for facts without a receipt.\<close>

definition run_key :: "AcctRunFacts \<Rightarrow> int + int" where
  "run_key r = (if 0 < rf_ReceiptID r then Inl (rf_ReceiptID r) else Inr (rf_RunID r))"

fun run_base_key :: "int + int \<Rightarrow> string" where
  "run_base_key (Inl receipt) = ''receipt:'' @ Itoa receipt"
| "run_base_key (Inr run) = Itoa run"

definition run_source_key :: "int + int \<Rightarrow> int \<Rightarrow> string" where
  "run_source_key k v = run_base_key k @ (if v > 1 then '':v'' @ Itoa v else [])"

lemma productionReceiveSourceKey_eq: "productionReceiveSourceKey r v = run_source_key (run_key r) v"
  by (simp add: productionReceiveSourceKey_def run_source_key_def run_key_def)

lemma Itoa_not_r: "Itoa i @ s \<noteq> CHR ''r'' # t"
proof
  assume "Itoa i @ s = CHR ''r'' # t"
  then have "CHR ''r'' \<in> set (Itoa i)" by (cases "Itoa i") auto
  from Itoa_digits [OF this] show False by (simp add: is_digit_def)
qed

interpretation run_key: versioned_key run_source_key run_base_key "\<lambda>_. True"
proof (unfold_locales, goal_cases)
  case (1 k v)
  show ?case by (simp add: run_source_key_def)
next
  case (2 k k' c d)
  note tails = 2(3,4) and eq = 2(5)
  show ?case
  proof (cases k)
    case k: (Inl i)
    show ?thesis
    proof (cases k')
      case (Inl j)
      then show ?thesis using k eq Itoa_tail_inj [OF tails, of i j] by simp
    next
      case (Inr j)
      then have "Itoa j @ d = CHR ''r'' # (''eceipt:'' @ Itoa i @ c)" using k eq by simp
      then show ?thesis using Itoa_not_r by blast
    qed
  next
    case k: (Inr i)
    show ?thesis
    proof (cases k')
      case (Inl j)
      then have "Itoa i @ c = CHR ''r'' # (''eceipt:'' @ Itoa j @ d)" using k eq by simp
      then show ?thesis using Itoa_not_r by blast
    next
      case (Inr j)
      then show ?thesis using k eq Itoa_tail_inj [OF tails, of i j] by simp
    qed
  qed
qed

text \<open>
  Reposting never collides: for each mutable source - a month's expenses, a shipment, a
  development expense, a production receipt - two keys are equal only for the same source at the
  same version (versions up to 1 share the bare key), so a corrected source can always be posted
  again and never lands on another source's entry.
\<close>

theorem source_keys_unique:
  "(\<forall>m m' v v'. month_ok m \<and> month_ok m' \<longrightarrow>
      (opexSourceKey m v = opexSourceKey m' v' \<longleftrightarrow> m = m' \<and> max 1 v = max 1 v')) \<and>
   (shippingSourceKey i v = shippingSourceKey j w \<longleftrightarrow> i = j \<and> max 1 v = max 1 w) \<and>
   (devExpenseSourceKey i v = devExpenseSourceKey j w \<longleftrightarrow> i = j \<and> max 1 v = max 1 w) \<and>
   (productionReceiveSourceKey r v = productionReceiveSourceKey r' w \<longleftrightarrow>
      run_key r = run_key r' \<and> max 1 v = max 1 w)"
  unfolding productionReceiveSourceKey_eq
  using opex_key.key_inj ship_key.key_inj [of i v j w] dev_key.key_inj [of i v j w]
    run_key.key_inj [of "run_key r" v "run_key r'" w] by blast

theorem source_keys_unique_witness: "opexSourceKey (2024, 11) 2 \<noteq> opexSourceKey (2024, 1) 1"
  using source_keys_unique [of 0 0 0 0 ex_run ex_run] by (simp add: month_ok_def)

end
