(* ===== verification/Ledger_Store.thy ===== *)
theory Ledger_Store
  imports Acct_Common "HOL-Library.List_Lexorder" "HOL-Library.Char_ord"
begin

text \<open>
  The ledger store (internal/store/accounting): the chart of accounts, the journal with its
  idempotent insert and its reversals, the period gate and the pull-source cursors.  The tables
  the operations touch are one record; a SQL statement is its effect on the record.  A statement
  that fails for reasons of the database itself is not modelled.
\<close>

section \<open>Tables\<close>

datatype AcctSection = AcctSectionAsset | AcctSectionLiability | AcctSectionEquity
  | AcctSectionRevenue | AcctSectionCogs | AcctSectionOpex | AcctSectionTax | OtherSection string

record AcctAccount =
  ac_Id :: int
  ac_Code :: string
  ac_Name :: string
  ac_Section :: AcctSection
  ac_Statement :: string
  ac_IsSystem :: bool
  ac_Archived :: bool

record AcctAccountInsert =
  ai_Code :: string
  ai_Name :: string
  ai_Section :: AcctSection
  ai_Statement :: string

record AcctJournalLine =
  jl_AccountId :: int
  jl_Side :: AcctSide
  jl_Amount :: decimal
  jl_AmountSrc :: "decimal option"
  jl_CurrencySrc :: "string option"
  jl_Note :: "string option"

text \<open>The header of an entry with its lines; \<open>occurred_at\<close> is a DATE, kept as a day number.\<close>

record AcctJournalEntry =
  en_Id :: int
  en_OccurredAt :: int
  en_Description :: string
  en_SourceType :: AcctSourceType
  en_SourceKey :: string
  en_ReversalOf :: "int option"
  en_ReversedBy :: "int option"
  en_CreatedBy :: string
  en_HasCaveat :: bool
  en_Caveat :: "string option"
  en_SupplierID :: "int option"
  en_Lines :: "AcctJournalLine list"

datatype period_status = PeriodOpen | PeriodClosed

text \<open>The columns of a production receipt the ledger reads and clears.\<close>

record receipt_row =
  rc_Id :: int
  rc_RunId :: int
  rc_ReversedBy :: "int option"
  rc_PostedManualBase :: "decimal option"
  rc_PostedFGBase :: "decimal option"

record ledger_db =
  db_accounts :: "AcctAccount list"
  db_entries :: "AcctJournalEntry list"
  db_periods :: "civil_month \<rightharpoonup> period_status"
  db_receipts :: "receipt_row list"
  db_checkpoints :: "string \<rightharpoonup> (int option \<times> time option)"
  db_next_entry :: int
  db_next_account :: int

datatype ledger_error = ErrAcctUnbalanced | ErrAcctPeriodClosed | ErrAcctPeriodNotReady
  | ErrAcctUnknownAccount string | ErrAcctArchivedAccount | ErrAcctSystemAccount
  | ErrAcctAlreadyReversed | ErrAcctReceiptScopeReversed | ErrAcctCannotReverseReversal
  | ErrOutsideTx | ErrEmptySourceKey | ErrInvalidSide | ErrNoRows | ErrDuplicateCode

section \<open>Accounts\<close>

definition getAccountByCode :: "ledger_db \<Rightarrow> string \<Rightarrow> ledger_error + AcctAccount" where
  "getAccountByCode db code =
     (case find (\<lambda>a. ac_Code a = code) (db_accounts db) of
        Some a \<Rightarrow> Inr a | None \<Rightarrow> Inl (ErrAcctUnknownAccount code))"

definition ListAccounts :: "ledger_db \<Rightarrow> bool \<Rightarrow> AcctAccount list" where
  "ListAccounts db includeArchived =
     sort_key ac_Code (filter (\<lambda>a. includeArchived \<or> \<not> ac_Archived a) (db_accounts db))"

definition CreateAccount :: "AcctAccountInsert \<Rightarrow> ledger_db \<Rightarrow> (ledger_error + int) \<times> ledger_db" where
  "CreateAccount ins db =
     (if \<exists>a \<in> set (db_accounts db). ac_Code a = ai_Code ins then (Inl ErrDuplicateCode, db)
      else
        let i = db_next_account db;
            a = \<lparr>ac_Id = i, ac_Code = ai_Code ins, ac_Name = ai_Name ins, ac_Section = ai_Section ins,
                 ac_Statement = ai_Statement ins, ac_IsSystem = False, ac_Archived = False\<rparr>
        in (Inr i, db\<lparr>db_accounts := db_accounts db @ [a], db_next_account := i + 1\<rparr>))"

definition UpdateAccountName :: "string \<Rightarrow> string \<Rightarrow> ledger_db \<Rightarrow> (ledger_error + unit) \<times> ledger_db" where
  "UpdateAccountName code name db =
     (case getAccountByCode db code of
        Inl err \<Rightarrow> (Inl err, db)
      | Inr acc \<Rightarrow>
          if ac_IsSystem acc then (Inl ErrAcctSystemAccount, db)
          else (Inr (), db\<lparr>db_accounts := map (\<lambda>a. if ac_Code a = code then a\<lparr>ac_Name := name\<rparr> else a)
                                                (db_accounts db)\<rparr>))"

definition SetAccountArchived :: "string \<Rightarrow> bool \<Rightarrow> ledger_db \<Rightarrow> (ledger_error + unit) \<times> ledger_db" where
  "SetAccountArchived code archived db =
     (case getAccountByCode db code of
        Inl err \<Rightarrow> (Inl err, db)
      | Inr acc \<Rightarrow>
          if ac_IsSystem acc then (Inl ErrAcctSystemAccount, db)
          else (Inr (), db\<lparr>db_accounts := map (\<lambda>a. if ac_Code a = code then a\<lparr>ac_Archived := archived\<rparr> else a)
                                                (db_accounts db)\<rparr>))"

text \<open>
  Archived and unknown codes are refused; the rows come back in the order of the table, and the
  archived check runs over them first.
\<close>

definition resolveAccounts :: "ledger_db \<Rightarrow> string list \<Rightarrow> ledger_error + (string \<rightharpoonup> int)" where
  "resolveAccounts db codes =
     (let rows = filter (\<lambda>a. ac_Code a \<in> set codes) (db_accounts db) in
      if \<exists>a \<in> set rows. ac_Archived a then Inl ErrAcctArchivedAccount
      else case find (\<lambda>c. c \<notin> ac_Code ` set rows) codes of
          Some c \<Rightarrow> Inl (ErrAcctUnknownAccount c)
        | None \<Rightarrow> Inr (map_of (map (\<lambda>a. (ac_Code a, ac_Id a)) rows)))"

section \<open>Periods\<close>

definition EnsurePeriodOpen :: "time \<Rightarrow> ledger_db \<Rightarrow> (ledger_error + unit) \<times> ledger_db" where
  "EnsurePeriodOpen month db =
     (let p = firstOfMonthUTC month;
          db = (case db_periods db p of
                  None \<Rightarrow> db\<lparr>db_periods := (db_periods db)(p \<mapsto> PeriodOpen)\<rparr> | Some _ \<Rightarrow> db)
      in if db_periods db p = Some PeriodClosed then (Inl ErrAcctPeriodClosed, db) else (Inr (), db))"

definition isPeriodClosed :: "time \<Rightarrow> ledger_db \<Rightarrow> bool" where
  "isPeriodClosed month db \<longleftrightarrow> db_periods db (firstOfMonthUTC month) = Some PeriodClosed"

definition ReopenPeriod :: "time \<Rightarrow> ledger_db \<Rightarrow> ledger_db" where
  "ReopenPeriod month db = db\<lparr>db_periods := (db_periods db)(firstOfMonthUTC month \<mapsto> PeriodOpen)\<rparr>"

section \<open>The journal\<close>

definition createdByOrSystem :: "string \<Rightarrow> string" where
  "createdByOrSystem v = (if TrimSpace v = [] then ''system'' else v)"

definition nullableCaveat :: "AcctJournalEntryInsert \<Rightarrow> string option" where
  "nullableCaveat ins = (if \<not> je_HasCaveat ins then None else je_Caveat ins)"

text \<open>
  The loop over the lines: the rounded amounts, the two sums, and the codes in the order they are
  first met.
\<close>

fun lineLoop :: "decimal_lib \<Rightarrow> decimal \<Rightarrow> decimal \<Rightarrow> string list \<Rightarrow> decimal list
    \<Rightarrow> AcctJournalLineInsert list
    \<Rightarrow> ledger_error + (decimal \<times> decimal \<times> string list \<times> decimal list)" where
  "lineLoop L sumDebit sumCredit codes amounts [] = Inr (sumDebit, sumCredit, codes, amounts)"
| "lineLoop L sumDebit sumCredit codes amounts (l # ls) =
     (let amt = dl_Round L (ln_Amount l) 2;
          codes' = (if ln_AccountCode l \<in> set codes then codes else codes @ [ln_AccountCode l])
      in if amt \<le> 0 then Inl ErrAcctUnbalanced
         else case ln_Side l of
             AcctSideDebit \<Rightarrow> lineLoop L (sumDebit + amt) sumCredit codes' (amounts @ [amt]) ls
           | AcctSideCredit \<Rightarrow> lineLoop L sumDebit (sumCredit + amt) codes' (amounts @ [amt]) ls
           | OtherSide _ \<Rightarrow> Inl ErrInvalidSide)"

definition lookupSource :: "ledger_db \<Rightarrow> AcctSourceType \<Rightarrow> string \<Rightarrow> int option" where
  "lookupSource db st sk =
     map_option en_Id (find (\<lambda>e. en_SourceType e = st \<and> en_SourceKey e = sk) (db_entries db))"

definition storeLine :: "(string \<rightharpoonup> int) \<Rightarrow> AcctJournalLineInsert \<times> decimal \<Rightarrow> AcctJournalLine" where
  "storeLine accByCode la =
     (let (l, amt) = la in
      \<lparr>jl_AccountId = (case accByCode (ln_AccountCode l) of Some i \<Rightarrow> i | None \<Rightarrow> 0),
       jl_Side = ln_Side l, jl_Amount = amt, jl_AmountSrc = ln_AmountSrc l,
       jl_CurrencySrc = ln_CurrencySrc l, jl_Note = ln_Note l\<rparr>)"

definition CreateJournalEntry :: "decimal_lib \<Rightarrow> bool \<Rightarrow> AcctJournalEntryInsert \<Rightarrow> ledger_db
    \<Rightarrow> (ledger_error + (int \<times> bool)) \<times> ledger_db" where
  "CreateJournalEntry L inTx ins db =
     (if \<not> inTx then (Inl ErrOutsideTx, db)
      else if length (je_Lines ins) < 2 then (Inl ErrAcctUnbalanced, db)
      else if TrimSpace (je_SourceKey ins) = [] then (Inl ErrEmptySourceKey, db)
      else case lineLoop L 0 0 [] [] (je_Lines ins) of
          Inl err \<Rightarrow> (Inl err, db)
        | Inr (sumDebit, sumCredit, codes, amounts) \<Rightarrow>
            if sumDebit \<noteq> sumCredit then (Inl ErrAcctUnbalanced, db)
            else case resolveAccounts db codes of
                Inl err \<Rightarrow> (Inl err, db)
              | Inr accByCode \<Rightarrow>
                  (case EnsurePeriodOpen (je_OccurredAt ins) db of
                     (Inl err, db) \<Rightarrow> (Inl err, db)
                   | (Inr _, db) \<Rightarrow>
                       (case lookupSource db (je_SourceType ins) (je_SourceKey ins) of
                          Some i \<Rightarrow> (Inr (i, True), db)
                        | None \<Rightarrow>
                            let i = db_next_entry db;
                                e = \<lparr>en_Id = i, en_OccurredAt = day_of_time (je_OccurredAt ins),
                                     en_Description = je_Description ins,
                                     en_SourceType = je_SourceType ins, en_SourceKey = je_SourceKey ins,
                                     en_ReversalOf = None, en_ReversedBy = None,
                                     en_CreatedBy = createdByOrSystem (je_CreatedBy ins),
                                     en_HasCaveat = je_HasCaveat ins, en_Caveat = nullableCaveat ins,
                                     en_SupplierID = je_SupplierID ins,
                                     en_Lines = map (storeLine accByCode) (zip (je_Lines ins) amounts)\<rparr>
                            in (Inr (i, False),
                                db\<lparr>db_entries := db_entries db @ [e], db_next_entry := i + 1\<rparr>))))"

definition EntryExistsBySource :: "ledger_db \<Rightarrow> AcctSourceType \<Rightarrow> string \<Rightarrow> bool" where
  "EntryExistsBySource db st sk \<longleftrightarrow>
     0 < length (filter (\<lambda>e. en_SourceType e = st \<and> en_SourceKey e = sk) (db_entries db))"

text \<open>One entry with its lines, each joined to the code of its account.\<close>

definition accountCode :: "ledger_db \<Rightarrow> int \<Rightarrow> string option" where
  "accountCode db i = map_option ac_Code (find (\<lambda>a. ac_Id a = i) (db_accounts db))"

definition joinedLine :: "ledger_db \<Rightarrow> AcctJournalLine \<Rightarrow> (string \<times> AcctJournalLine) option" where
  "joinedLine db l = map_option (\<lambda>c. (c, l)) (accountCode db (jl_AccountId l))"

definition GetJournalEntry :: "ledger_db \<Rightarrow> int
    \<Rightarrow> ledger_error + (AcctJournalEntry \<times> (string \<times> AcctJournalLine) list)" where
  "GetJournalEntry db i =
     (case find (\<lambda>e. en_Id e = i) (db_entries db) of
        None \<Rightarrow> Inl ErrNoRows
      | Some e \<Rightarrow> Inr (e, List.map_filter (joinedLine db) (en_Lines e)))"

section \<open>Reversal\<close>

definition receiptScopeReversed :: "ledger_db \<Rightarrow> string \<Rightarrow> bool" where
  "receiptScopeReversed db sourceKey =
     (case Split sourceKey (CHR '':'') of
        [] \<Rightarrow> False
      | p # ps \<Rightarrow>
          if p = ''receipt'' then
            (case ps of [] \<Rightarrow> False
             | q # _ \<Rightarrow> (case Atoi q of None \<Rightarrow> False
                | Some i \<Rightarrow> (\<exists>r \<in> set (db_receipts db). rc_Id r = i \<and> rc_ReversedBy r \<noteq> None)))
          else (case Atoi p of None \<Rightarrow> False
             | Some run \<Rightarrow> (\<exists>r \<in> set (db_receipts db). rc_RunId r = run \<and> rc_ReversedBy r \<noteq> None)))"

definition clearPosted :: "(receipt_row \<Rightarrow> bool) \<Rightarrow> ledger_db \<Rightarrow> ledger_db" where
  "clearPosted P db = db\<lparr>db_receipts :=
     map (\<lambda>r. if P r then r\<lparr>rc_PostedManualBase := None, rc_PostedFGBase := None\<rparr> else r) (db_receipts db)\<rparr>"

definition clearReceiptPostedAmounts :: "string \<Rightarrow> ledger_db \<Rightarrow> ledger_db" where
  "clearReceiptPostedAmounts sourceKey db =
     (case Split sourceKey (CHR '':'') of
        [] \<Rightarrow> db
      | p # ps \<Rightarrow>
          if p = ''receipt'' then
            (case ps of [] \<Rightarrow> db
             | q # _ \<Rightarrow> (case Atoi q of None \<Rightarrow> db | Some i \<Rightarrow> clearPosted (\<lambda>r. rc_Id r = i) db))
          else (case Atoi p of None \<Rightarrow> db | Some run \<Rightarrow> clearPosted (\<lambda>r. rc_RunId r = run) db))"

definition swapSide :: "AcctSide \<Rightarrow> AcctSide" where
  "swapSide s = (if s = AcctSideCredit then AcctSideDebit else AcctSideCredit)"

definition reversalLine :: "string \<times> AcctJournalLine \<Rightarrow> AcctJournalLineInsert" where
  "reversalLine cl =
     (let (code, l) = cl in
      \<lparr>ln_AccountCode = code, ln_Side = swapSide (jl_Side l), ln_Amount = jl_Amount l,
       ln_AmountSrc = jl_AmountSrc l, ln_CurrencySrc = jl_CurrencySrc l, ln_Note = jl_Note l\<rparr>)"

text \<open>\<open>now\<close> is the clock; a DATE read back is midnight UTC of its day.\<close>

definition time_of_day :: "int \<Rightarrow> time" where
  "time_of_day d = d * 86400000000000"

definition reversalInsert :: "ledger_db \<Rightarrow> AcctJournalEntry \<Rightarrow> (string \<times> AcctJournalLine) list \<Rightarrow> string
    \<Rightarrow> string \<Rightarrow> time \<Rightarrow> AcctJournalEntryInsert" where
  "reversalInsert db orig lines reason adminUsername now =
     (let occurredAt = time_of_day (en_OccurredAt orig);
          occurredAt = (if isPeriodClosed occurredAt db then now else occurredAt);
          desc = ''Reversal of #'' @ Itoa (en_Id orig);
          desc = (if TrimSpace reason \<noteq> [] then desc @ '': '' @ reason else desc)
      in \<lparr>je_OccurredAt = occurredAt, je_Description = desc, je_SourceType = AcctSourceReversal,
          je_SourceKey = ''rev:'' @ Itoa (en_Id orig), je_CreatedBy = createdByOrSystem adminUsername,
          je_HasCaveat = False, je_Caveat = None, je_SupplierID = en_SupplierID orig,
          je_Lines = map reversalLine lines\<rparr>)"

definition linkReversal :: "int \<Rightarrow> int \<Rightarrow> ledger_db \<Rightarrow> ledger_db" where
  "linkReversal orig new db = db\<lparr>db_entries := map (\<lambda>e.
       let e = (if en_Id e = new \<and> en_ReversalOf e = None then e\<lparr>en_ReversalOf := Some orig\<rparr> else e)
       in if en_Id e = orig then e\<lparr>en_ReversedBy := Some new\<rparr> else e) (db_entries db)\<rparr>"

definition ReverseJournalEntry :: "decimal_lib \<Rightarrow> bool \<Rightarrow> int \<Rightarrow> string \<Rightarrow> string \<Rightarrow> time \<Rightarrow> ledger_db
    \<Rightarrow> (ledger_error + int) \<times> ledger_db" where
  "ReverseJournalEntry L inTx entryID reason adminUsername now db =
     (case GetJournalEntry db entryID of
        Inl err \<Rightarrow> (Inl err, db)
      | Inr (orig, lines) \<Rightarrow>
          if en_SourceType orig = AcctSourceReversal then (Inl ErrAcctCannotReverseReversal, db)
          else if en_ReversedBy orig \<noteq> None then (Inl ErrAcctAlreadyReversed, db)
          else if en_SourceType orig = AcctSourceProductionReceive
                  \<and> receiptScopeReversed db (en_SourceKey orig)
          then (Inl ErrAcctReceiptScopeReversed, db)
          else
            (case CreateJournalEntry L inTx (reversalInsert db orig lines reason adminUsername now) db of
               (Inl err, db) \<Rightarrow> (Inl err, db)
             | (Inr (newID, _), db) \<Rightarrow>
                 let db = linkReversal entryID newID db;
                     db = (if en_SourceType orig = AcctSourceProductionReceive
                           then clearReceiptPostedAmounts (en_SourceKey orig) db else db)
                 in (Inr newID, db)))"

section \<open>Closing a month\<close>

text \<open>
  What the gates of ClosePeriod count in tables of other components, and the days for which a
  filing needs a stored exchange rate that is missing; \<open>now\<close> is the clock.
\<close>

record close_facts =
  cf_pendingEvents :: nat
  cf_reviewEvents :: nat
  cf_unpostedMovements :: nat
  cf_unpostedReceipts :: nat
  cf_costedOpexLines :: nat
  cf_unmatchedBank :: nat
  cf_undocVat :: nat
  cf_plnMissingDays :: "int list"
  cf_gbpMissingDays :: "int list"

definition month_before :: "civil_month \<Rightarrow> civil_month \<Rightarrow> bool" where
  "month_before m n \<longleftrightarrow> fst m < fst n \<or> (fst m = fst n \<and> snd m < snd n)"

definition requireFxRates :: "int list \<Rightarrow> ledger_error option" where
  "requireFxRates missingDays = (if missingDays = [] then None else Some ErrAcctPeriodNotReady)"

definition month_entries :: "ledger_db \<Rightarrow> civil_month \<Rightarrow> AcctJournalEntry list" where
  "month_entries db m = filter (\<lambda>e. month_of_day (en_OccurredAt e) = m) (db_entries db)"

definition side_total :: "AcctSide \<Rightarrow> AcctJournalEntry list \<Rightarrow> decimal" where
  "side_total s es = sum_list (map (\<lambda>l. if jl_Side l = s then jl_Amount l else 0) (concat (map en_Lines es)))"

text \<open>A live \<open>opex_month\<close> entry of the month: its key starts with the month.\<close>

definition opexPosted :: "ledger_db \<Rightarrow> civil_month \<Rightarrow> bool" where
  "opexPosted db m \<longleftrightarrow> (\<exists>e \<in> set (db_entries db). en_SourceType e = AcctSourceOpexMonth \<and>
     take (length (format_month m)) (en_SourceKey e) = format_month m \<and> en_ReversedBy e = None)"

definition ClosePeriod :: "close_facts \<Rightarrow> time \<Rightarrow> time \<Rightarrow> ledger_db \<Rightarrow> (ledger_error + unit) \<times> ledger_db" where
  "ClosePeriod c now month db =
     (let m = firstOfMonthUTC month; notReady = (Inl ErrAcctPeriodNotReady, db) in
      if \<not> month_before m (firstOfMonthUTC now) then notReady
      else if 0 < cf_pendingEvents c then notReady
      else if 0 < cf_reviewEvents c then notReady
      else if 0 < cf_unpostedMovements c then notReady
      else if 0 < cf_unpostedReceipts c then notReady
      else if 0 < cf_costedOpexLines c \<and> \<not> opexPosted db m then notReady
      else if 0 < cf_unmatchedBank c then notReady
      else if 0 < cf_undocVat c then notReady
      else case requireFxRates (cf_plnMissingDays c) of Some err \<Rightarrow> (Inl err, db)
      | None \<Rightarrow> (case requireFxRates (cf_gbpMissingDays c) of Some err \<Rightarrow> (Inl err, db)
      | None \<Rightarrow>
          if side_total AcctSideDebit (month_entries db m) \<noteq> side_total AcctSideCredit (month_entries db m)
          then notReady
          else (Inr (), db\<lparr>db_periods := (db_periods db)(m \<mapsto> PeriodClosed)\<rparr>)))"

section \<open>Cursors\<close>

definition GetCheckpoint :: "ledger_db \<Rightarrow> string \<Rightarrow> int option \<times> time option" where
  "GetCheckpoint db source = (case db_checkpoints db source of Some c \<Rightarrow> c | None \<Rightarrow> (None, None))"

definition SetCheckpoint :: "string \<Rightarrow> int option \<Rightarrow> time option \<Rightarrow> ledger_db \<Rightarrow> ledger_db" where
  "SetCheckpoint source lastID lastTS db =
     db\<lparr>db_checkpoints := (db_checkpoints db)(source \<mapsto> (lastID, lastTS))\<rparr>"

text \<open>\<open>repo.Tx\<close>: an error rolls every effect of the body back.\<close>

definition repoTx :: "(ledger_db \<Rightarrow> ('e + 'a) \<times> ledger_db) \<Rightarrow> ledger_db \<Rightarrow> ('e + 'a) \<times> ledger_db" where
  "repoTx body db = (case body db of (Inl err, _) \<Rightarrow> (Inl err, db) | (Inr a, db') \<Rightarrow> (Inr a, db'))"

end
