(* ===== verification/Ledger_Props.thy ===== *)
theory Ledger_Props
  imports Ledger_Store Acct_Order
begin

text \<open>
  The ledger store keeps the books: the invariant of the journal, which every operation preserves,
  idempotence of posting under retries as an interface other components rely on, the period gate,
  and reversal.
\<close>

section \<open>Movements of stored lines\<close>

definition jl_net :: "int \<Rightarrow> AcctJournalLine list \<Rightarrow> decimal" where
  "jl_net i ls = sum_list (map (\<lambda>l. if jl_AccountId l = i
     then (if jl_Side l = AcctSideDebit then jl_Amount l else - jl_Amount l) else 0) ls)"

definition jl_debits :: "AcctJournalLine list \<Rightarrow> decimal" where
  "jl_debits ls = sum_list (map (\<lambda>l. if jl_Side l = AcctSideDebit then jl_Amount l else 0) ls)"

definition jl_credits :: "AcctJournalLine list \<Rightarrow> decimal" where
  "jl_credits ls = sum_list (map (\<lambda>l. if jl_Side l = AcctSideCredit then jl_Amount l else 0) ls)"

lemma jl_simps [simp]:
  "jl_net i [] = 0" "jl_debits [] = 0" "jl_credits [] = 0"
  "jl_net i (l # ls) = (if jl_AccountId l = i
     then (if jl_Side l = AcctSideDebit then jl_Amount l else - jl_Amount l) else 0) + jl_net i ls"
  "jl_debits (l # ls) = (if jl_Side l = AcctSideDebit then jl_Amount l else 0) + jl_debits ls"
  "jl_credits (l # ls) = (if jl_Side l = AcctSideCredit then jl_Amount l else 0) + jl_credits ls"
  by (simp_all add: jl_net_def jl_debits_def jl_credits_def)

lemma jl_append [simp]:
  "jl_debits (ls @ ms) = jl_debits ls + jl_debits ms" "jl_credits (ls @ ms) = jl_credits ls + jl_credits ms"
  by (simp_all add: jl_debits_def jl_credits_def)

section \<open>The invariant\<close>

definition account_ids :: "ledger_db \<Rightarrow> int set" where
  "account_ids db = ac_Id ` set (db_accounts db)"

definition line_stored_ok :: "ledger_db \<Rightarrow> AcctJournalLine \<Rightarrow> bool" where
  "line_stored_ok db l \<longleftrightarrow> 0 < jl_Amount l \<and> on_grid 2 (jl_Amount l) \<and>
     (jl_Side l = AcctSideDebit \<or> jl_Side l = AcctSideCredit) \<and> jl_AccountId l \<in> account_ids db"

definition entry_stored_ok :: "ledger_db \<Rightarrow> AcctJournalEntry \<Rightarrow> bool" where
  "entry_stored_ok db e \<longleftrightarrow> 2 \<le> length (en_Lines e) \<and> list_all (line_stored_ok db) (en_Lines e) \<and>
     jl_debits (en_Lines e) = jl_credits (en_Lines e)"

definition source_of :: "AcctJournalEntry \<Rightarrow> AcctSourceType \<times> string" where
  "source_of e = (en_SourceType e, en_SourceKey e)"

definition accounts_ok :: "ledger_db \<Rightarrow> bool" where
  "accounts_ok db \<longleftrightarrow> distinct (map ac_Id (db_accounts db)) \<and> distinct (map ac_Code (db_accounts db)) \<and>
     (\<forall>a \<in> set (db_accounts db). ac_Id a < db_next_account db)"

definition entries_ok :: "ledger_db \<Rightarrow> bool" where
  "entries_ok db \<longleftrightarrow> distinct (map en_Id (db_entries db)) \<and>
     (\<forall>e \<in> set (db_entries db). en_Id e < db_next_entry db) \<and>
     distinct (map source_of (db_entries db)) \<and> list_all (entry_stored_ok db) (db_entries db)"

text \<open>A reversal and the entry it reverses point at each other and cancel on every account.\<close>

definition reverses :: "AcctJournalEntry \<Rightarrow> AcctJournalEntry \<Rightarrow> bool" where
  "reverses x e \<longleftrightarrow> en_SourceType x = AcctSourceReversal \<and> en_SourceKey x = ''rev:'' @ Itoa (en_Id e) \<and>
     en_ReversalOf x = Some (en_Id e) \<and> en_ReversedBy e = Some (en_Id x) \<and>
     (\<forall>i. jl_net i (en_Lines x) = - jl_net i (en_Lines e))"

definition reversals_ok :: "ledger_db \<Rightarrow> bool" where
  "reversals_ok db \<longleftrightarrow>
     (\<forall>e \<in> set (db_entries db).
        (en_SourceType e = AcctSourceReversal \<longrightarrow>
           en_ReversedBy e = None \<and> (\<exists>o' \<in> set (db_entries db). reverses e o')) \<and>
        (en_ReversedBy e \<noteq> None \<longrightarrow> (\<exists>x \<in> set (db_entries db). reverses x e)))"

definition ledger_ok :: "ledger_db \<Rightarrow> bool" where
  "ledger_ok db \<longleftrightarrow> accounts_ok db \<and> entries_ok db \<and> reversals_ok db"

lemmas ledger_defs = ledger_ok_def accounts_ok_def entries_ok_def reversals_ok_def

section \<open>The loop and the lookups\<close>

definition roundLine :: "decimal_lib \<Rightarrow> AcctJournalLineInsert \<Rightarrow> AcctJournalLineInsert" where
  "roundLine L l = l\<lparr>ln_Amount := dl_Round L (ln_Amount l) 2\<rparr>"

lemma roundLine_simps [simp]:
  "ln_AccountCode (roundLine L l) = ln_AccountCode l" "ln_Side (roundLine L l) = ln_Side l"
  "ln_Amount (roundLine L l) = dl_Round L (ln_Amount l) 2"
  by (simp_all add: roundLine_def)

lemma lineLoop_Inr:
  "lineLoop L d c cs as ls = Inr (d', c', cs', as') \<Longrightarrow>
     list_all line_ok (map (roundLine L) ls) \<and>
     d' = d + debits (map (roundLine L) ls) \<and> c' = c + credits (map (roundLine L) ls) \<and>
     set cs' = set cs \<union> ln_AccountCode ` set ls \<and> as' = as @ map (\<lambda>l. dl_Round L (ln_Amount l) 2) ls"
proof (induction ls arbitrary: d c cs as)
  case (Cons l ls)
  let ?a = "dl_Round L (ln_Amount l) 2" and ?l = "roundLine L l"
  let ?cs = "if ln_AccountCode l \<in> set cs then cs else cs @ [ln_AccountCode l]"
  have "line_ok ?l \<and> lineLoop L (d + debit_of ?l) (c + credit_of ?l) ?cs (as @ [?a]) ls = Inr (d', c', cs', as')"
    using Cons.prems
    by (cases "ln_Side l") (simp_all add: Let_def line_ok_def debit_of_def credit_of_def split: if_split_asm)
  then have ok: "line_ok ?l"
    and eq: "lineLoop L (d + debit_of ?l) (c + credit_of ?l) ?cs (as @ [?a]) ls = Inr (d', c', cs', as')"
    by auto
  from Cons.IH [OF eq] ok show ?case by (auto simp: add.assoc)
qed simp

lemma lineLoop_ok:
  "list_all line_ok (map (roundLine L) ls) \<Longrightarrow>
     \<exists>cs'. lineLoop L d c cs as ls = Inr (d + debits (map (roundLine L) ls), c + credits (map (roundLine L) ls),
        cs', as @ map (\<lambda>l. dl_Round L (ln_Amount l) 2) ls) \<and> set cs' = set cs \<union> ln_AccountCode ` set ls"
proof (induction ls arbitrary: d c cs as)
  case (Cons l ls)
  let ?cs = "if ln_AccountCode l \<in> set cs then cs else cs @ [ln_AccountCode l]"
  from Cons.prems have l: "0 < dl_Round L (ln_Amount l) 2" "ln_Side l = AcctSideDebit \<or> ln_Side l = AcctSideCredit"
    by (simp_all add: line_ok_def)
  obtain cs' where "lineLoop L (d + debit_of (roundLine L l)) (c + credit_of (roundLine L l)) ?cs
        (as @ [dl_Round L (ln_Amount l) 2]) ls
      = Inr (d + debit_of (roundLine L l) + debits (map (roundLine L) ls),
             c + credit_of (roundLine L l) + credits (map (roundLine L) ls), cs',
             (as @ [dl_Round L (ln_Amount l) 2]) @ map (\<lambda>l. dl_Round L (ln_Amount l) 2) ls)"
      "set cs' = set ?cs \<union> ln_AccountCode ` set ls"
    using Cons.IH [of "d + debit_of (roundLine L l)" "c + credit_of (roundLine L l)" ?cs
        "as @ [dl_Round L (ln_Amount l) 2]"] Cons.prems by auto
  with l show ?case
    by (intro exI [of _ cs']) (auto simp: Let_def debit_of_def credit_of_def add.assoc)
qed simp

lemma resolveAccounts_Inr:
  assumes "resolveAccounts db codes = Inr m" and "c \<in> set codes"
  obtains a where "a \<in> set (db_accounts db)" "ac_Code a = c" "m c = Some (ac_Id a)" "\<not> ac_Archived a"
proof -
  let ?rows = "filter (\<lambda>a. ac_Code a \<in> set codes) (db_accounts db)"
  from assms(1) have arch: "\<forall>a \<in> set ?rows. \<not> ac_Archived a"
    and fnd: "find (\<lambda>c. c \<notin> ac_Code ` set ?rows) codes = None"
    and m: "m = map_of (map (\<lambda>a. (ac_Code a, ac_Id a)) ?rows)"
    by (auto simp: resolveAccounts_def Let_def split: if_splits option.splits)
  from fnd assms(2) have "c \<in> ac_Code ` set ?rows" by (auto simp: find_None_iff)
  then have "c \<in> fst ` set (map (\<lambda>a. (ac_Code a, ac_Id a)) ?rows)" by force
  then obtain i where "m c = Some i" unfolding m by (meson map_of_eq_None_iff not_None_eq)
  moreover from this have "(c, i) \<in> set (map (\<lambda>a. (ac_Code a, ac_Id a)) ?rows)"
    unfolding m by (rule map_of_SomeD)
  ultimately show ?thesis using that arch by auto
qed

lemma resolveAccounts_usable:
  assumes "resolveAccounts db codes = Inr m" and "a \<in> set (db_accounts db)" and "ac_Code a \<in> set codes"
  shows "\<not> ac_Archived a"
  using assms by (auto simp: resolveAccounts_def Let_def split: if_splits)

lemma resolveAccounts_ok:
  assumes "\<And>c. c \<in> set codes \<Longrightarrow> (\<exists>a \<in> set (db_accounts db). ac_Code a = c) \<and>
     (\<forall>a \<in> set (db_accounts db). ac_Code a = c \<longrightarrow> \<not> ac_Archived a)"
  shows "\<exists>m. resolveAccounts db codes = Inr m"
proof -
  let ?rows = "filter (\<lambda>a. ac_Code a \<in> set codes) (db_accounts db)"
  have "\<not> (\<exists>a \<in> set ?rows. ac_Archived a)" using assms by auto
  moreover have "find (\<lambda>c. c \<notin> ac_Code ` set ?rows) codes = None"
    using assms by (auto simp: find_None_iff)
  ultimately show ?thesis by (simp add: resolveAccounts_def Let_def)
qed

lemma find_key_unique:
  "distinct (map f xs) \<Longrightarrow> x \<in> set xs \<Longrightarrow> find (\<lambda>y. f y = f x) xs = Some x"
  by (induction xs) auto

lemma accountCode_id:
  "accounts_ok db \<Longrightarrow> a \<in> set (db_accounts db) \<Longrightarrow> accountCode db (ac_Id a) = Some (ac_Code a)"
  by (simp add: accountCode_def accounts_ok_def find_key_unique)

lemma accountCode_Some:
  "accountCode db i = Some c \<Longrightarrow> \<exists>a \<in> set (db_accounts db). ac_Id a = i \<and> ac_Code a = c"
  by (auto simp: accountCode_def find_Some_iff)

lemma lookupSource_None:
  "lookupSource db st sk = None \<longleftrightarrow> (st, sk) \<notin> source_of ` set (db_entries db)"
  by (auto simp: lookupSource_def find_None_iff source_of_def)

lemma lookupSource_Some:
  "entries_ok db \<Longrightarrow> e \<in> set (db_entries db) \<Longrightarrow> lookupSource db (en_SourceType e) (en_SourceKey e) = Some (en_Id e)"
  using find_key_unique [of source_of "db_entries db" e]
  by (simp add: lookupSource_def entries_ok_def source_of_def)

lemma lookupSource_SomeD:
  "lookupSource db st sk = Some i \<Longrightarrow> \<exists>e \<in> set (db_entries db). en_Id e = i \<and> en_SourceType e = st \<and> en_SourceKey e = sk"
  by (auto simp: lookupSource_def find_Some_iff)

lemma EnsurePeriodOpen_simps [simp]:
  "db_entries (snd (EnsurePeriodOpen t db)) = db_entries db"
  "db_accounts (snd (EnsurePeriodOpen t db)) = db_accounts db"
  "db_next_entry (snd (EnsurePeriodOpen t db)) = db_next_entry db"
  "db_next_account (snd (EnsurePeriodOpen t db)) = db_next_account db"
  "db_receipts (snd (EnsurePeriodOpen t db)) = db_receipts db"
  by (simp_all add: EnsurePeriodOpen_def Let_def split: option.split)

lemma EnsurePeriodOpen_ok:
  assumes "db_periods db (firstOfMonthUTC t) \<noteq> Some PeriodClosed"
  obtains db0 where "EnsurePeriodOpen t db = (Inr (), db0)"
  using assms by (cases "db_periods db (firstOfMonthUTC t)") (simp_all add: EnsurePeriodOpen_def Let_def)

lemma EnsurePeriodOpen_Inr:
  "EnsurePeriodOpen t db = (Inr u, db') \<Longrightarrow> db_periods db' (firstOfMonthUTC t) = Some PeriodOpen \<and>
     db' = db\<lparr>db_periods := db_periods db'\<rparr> \<and> db_periods db \<subseteq>\<^sub>m db_periods db'
     \<and> db_periods db (firstOfMonthUTC t) \<noteq> Some PeriodClosed"
  by (cases "db_periods db (firstOfMonthUTC t)"; cases "the (db_periods db (firstOfMonthUTC t))")
     (auto simp: EnsurePeriodOpen_def Let_def map_le_def split: if_splits)

section \<open>Inserting an entry\<close>

text \<open>What makes a call succeed apart from the period: shape, rounding, accounts.\<close>

definition account_usable :: "ledger_db \<Rightarrow> string \<Rightarrow> bool" where
  "account_usable db c \<longleftrightarrow> (\<exists>a \<in> set (db_accounts db). ac_Code a = c) \<and>
     (\<forall>a \<in> set (db_accounts db). ac_Code a = c \<longrightarrow> \<not> ac_Archived a)"

definition insert_valid :: "decimal_lib \<Rightarrow> AcctJournalEntryInsert \<Rightarrow> ledger_db \<Rightarrow> bool" where
  "insert_valid L ins db \<longleftrightarrow> 2 \<le> length (je_Lines ins) \<and> TrimSpace (je_SourceKey ins) \<noteq> [] \<and>
     lines_ok (map (roundLine L) (je_Lines ins)) \<and>
     (\<forall>l \<in> set (je_Lines ins). account_usable db (ln_AccountCode l))"

definition stored_lines :: "decimal_lib \<Rightarrow> (string \<rightharpoonup> int) \<Rightarrow> AcctJournalLineInsert list \<Rightarrow> AcctJournalLine list" where
  "stored_lines L m ls = map (storeLine m) (zip ls (map (\<lambda>l. dl_Round L (ln_Amount l) 2) ls))"

lemma stored_lines_simps [simp]:
  "stored_lines L m [] = []"
  "stored_lines L m (l # ls) = storeLine m (l, dl_Round L (ln_Amount l) 2) # stored_lines L m ls"
  by (simp_all add: stored_lines_def)

lemma stored_lines_length [simp]: "length (stored_lines L m ls) = length ls"
  by (simp add: stored_lines_def)

lemma storeLine_simps [simp]:
  "jl_Side (storeLine m (l, a)) = ln_Side l" "jl_Amount (storeLine m (l, a)) = a"
  by (simp_all add: storeLine_def)

lemma stored_lines_sums:
  "jl_debits (stored_lines L m ls) = debits (map (roundLine L) ls)"
  "jl_credits (stored_lines L m ls) = credits (map (roundLine L) ls)"
  by (induction ls) (simp_all add: debit_of_def credit_of_def)

text \<open>A successful call either found the key or appended one entry.\<close>

lemma CreateJournalEntry_cases:
  assumes "CreateJournalEntry L tx ins db = (Inr (i, dup), db')"
  obtains (dup) "dup" "lookupSource db (je_SourceType ins) (je_SourceKey ins) = Some i"
      "EnsurePeriodOpen (je_OccurredAt ins) db = (Inr (), db')" "tx" "insert_valid L ins db"
  | (new) m db0 e where "\<not> dup" "lookupSource db (je_SourceType ins) (je_SourceKey ins) = None"
      "EnsurePeriodOpen (je_OccurredAt ins) db = (Inr (), db0)" "tx" "insert_valid L ins db"
      "i = db_next_entry db" "db' = db0\<lparr>db_entries := db_entries db @ [e], db_next_entry := i + 1\<rparr>"
      "en_Id e = i" "en_SourceType e = je_SourceType ins" "en_SourceKey e = je_SourceKey ins"
      "en_ReversalOf e = None" "en_ReversedBy e = None"
      "en_OccurredAt e = day_of_time (je_OccurredAt ins)"
      "en_Lines e = stored_lines L m (je_Lines ins)"
      "\<And>l. l \<in> set (je_Lines ins) \<Longrightarrow>
         \<exists>a \<in> set (db_accounts db). ac_Code a = ln_AccountCode l \<and> m (ln_AccountCode l) = Some (ac_Id a)"
proof -
  from assms obtain d c cs as m db0 where
    c: "tx" "2 \<le> length (je_Lines ins)" "TrimSpace (je_SourceKey ins) \<noteq> []"
      "lineLoop L 0 0 [] [] (je_Lines ins) = Inr (d, c, cs, as)" "d = c"
      "resolveAccounts db cs = Inr m" "EnsurePeriodOpen (je_OccurredAt ins) db = (Inr (), db0)"
    by (auto simp: CreateJournalEntry_def split: if_splits sum.splits prod.splits)
  note loop = lineLoop_Inr [OF c(4)]
  have acc: "\<exists>a \<in> set (db_accounts db). ac_Code a = ln_AccountCode l \<and> m (ln_AccountCode l) = Some (ac_Id a)"
    if "l \<in> set (je_Lines ins)" for l
    using resolveAccounts_Inr [OF c(6), of "ln_AccountCode l"] loop that by auto
  have "account_usable db (ln_AccountCode l)" if "l \<in> set (je_Lines ins)" for l
    using resolveAccounts_usable [OF c(6)] acc [OF that] that loop by (auto simp: account_usable_def)
  then have valid: "insert_valid L ins db"
    using c(2,3,5) loop by (auto simp: insert_valid_def lines_ok_def)
  have ent: "db_entries db0 = db_entries db" "db_next_entry db0 = db_next_entry db"
    using EnsurePeriodOpen_simps(1,3) [of "je_OccurredAt ins" db] c(7) by simp_all
  then have look: "lookupSource db0 st sk = lookupSource db st sk" for st sk
    by (simp add: lookupSource_def)
  show ?thesis
  proof (cases "lookupSource db (je_SourceType ins) (je_SourceKey ins)")
    case (Some j)
    then show ?thesis using assms c valid look dup by (auto simp: CreateJournalEntry_def)
  next
    case None
    then show ?thesis using assms c loop valid ent acc look
      by (intro new) (auto simp: CreateJournalEntry_def Let_def stored_lines_def)
  qed
qed

lemma CreateJournalEntry_ok:
  assumes "tx" and "insert_valid L ins db" and "db_periods db (firstOfMonthUTC (je_OccurredAt ins)) \<noteq> Some PeriodClosed"
  shows "is_ok (fst (CreateJournalEntry L tx ins db))"
proof -
  from assms(2) have ok: "list_all line_ok (map (roundLine L) (je_Lines ins))" by (simp add: insert_valid_def lines_ok_def)
  obtain cs where loop: "lineLoop L 0 0 [] [] (je_Lines ins) = Inr (debits (map (roundLine L) (je_Lines ins)),
       credits (map (roundLine L) (je_Lines ins)), cs, map (\<lambda>l. dl_Round L (ln_Amount l) 2) (je_Lines ins))"
    and cs: "set cs = ln_AccountCode ` set (je_Lines ins)"
    using lineLoop_ok [OF ok, of 0 0 "[]" "[]"] by auto
  obtain m where m: "resolveAccounts db cs = Inr m"
    using resolveAccounts_ok [of cs db] assms(2) cs by (auto simp: insert_valid_def account_usable_def)
  obtain db0 where "EnsurePeriodOpen (je_OccurredAt ins) db = (Inr (), db0)"
    using EnsurePeriodOpen_ok [OF assms(3)] .
  with assms(1,2) loop m show ?thesis
    by (auto simp: CreateJournalEntry_def insert_valid_def lines_ok_def Let_def split: option.split)
qed

text \<open>An error leaves the journal and the accounts alone.\<close>

lemma CreateJournalEntry_Inl:
  assumes "CreateJournalEntry L tx ins db = (Inl err, db')"
  shows "db_entries db' = db_entries db \<and> db_accounts db' = db_accounts db \<and>
    db_next_entry db' = db_next_entry db \<and> db_next_account db' = db_next_account db"
proof -
  obtain r d where ens: "EnsurePeriodOpen (je_OccurredAt ins) db = (r, d)" by fastforce
  have d: "db_entries d = db_entries db" "db_accounts d = db_accounts db"
      "db_next_entry d = db_next_entry db" "db_next_account d = db_next_account db"
    using EnsurePeriodOpen_simps [of "je_OccurredAt ins" db] ens by simp_all
  show ?thesis
  proof (cases "\<exists>x. lineLoop L 0 0 [] [] (je_Lines ins) = Inr x")
    case False
    then obtain er where "lineLoop L 0 0 [] [] (je_Lines ins) = Inl er" by (meson Inl_Inr_False obj_sumE)
    with assms show ?thesis by (simp add: CreateJournalEntry_def split: if_split_asm)
  next
    case True
    then obtain a b cs as where "lineLoop L 0 0 [] [] (je_Lines ins) = Inr (a, b, cs, as)" by auto
    with assms ens d show ?thesis
      by (cases "resolveAccounts db cs"; cases r)
         (simp_all add: CreateJournalEntry_def Let_def split: if_split_asm option.split_asm)
  qed
qed

section \<open>The invariant is preserved\<close>

lemma entry_stored_ok_cong:
  "account_ids db = account_ids db' \<Longrightarrow> entry_stored_ok db e = entry_stored_ok db' e"
  by (simp add: entry_stored_ok_def line_stored_ok_def [abs_def])

lemma stored_lines_ok:
  assumes "decimal_ok L" and "list_all line_ok (map (roundLine L) ls)"
    and "\<And>l. l \<in> set ls \<Longrightarrow> \<exists>a \<in> set (db_accounts db). ac_Code a = ln_AccountCode l \<and> m (ln_AccountCode l) = Some (ac_Id a)"
  shows "list_all (line_stored_ok db) (stored_lines L m ls)"
  using assms(2,3)
proof (induction ls)
  case (Cons l ls)
  from Cons.prems(2) [of l] obtain a where "a \<in> set (db_accounts db)" "m (ln_AccountCode l) = Some (ac_Id a)" by auto
  with Cons show ?case
    using assms(1) by (auto simp: line_stored_ok_def line_ok_def account_ids_def storeLine_def Round_grid)
qed simp

lemma create_entries_ok:
  assumes "CreateJournalEntry L tx ins db = (Inr (i, dup), db')" and "decimal_ok L"
    and "accounts_ok db" and "entries_ok db"
  shows "accounts_ok db' \<and> entries_ok db'"
  using assms(1)
proof (cases rule: CreateJournalEntry_cases)
  case dup
  have "db_entries db' = db_entries db" "db_accounts db' = db_accounts db"
    "db_next_entry db' = db_next_entry db" "db_next_account db' = db_next_account db"
    using EnsurePeriodOpen_simps [of "je_OccurredAt ins" db] dup(3) by simp_all
  then show ?thesis
    using assms(3,4) entry_stored_ok_cong [of db' db]
    by (simp add: accounts_ok_def entries_ok_def account_ids_def list_all_iff)
next
  case (new m db0 e)
  have d: "db_entries db' = db_entries db @ [e]" "db_accounts db' = db_accounts db"
    "db_next_entry db' = i + 1" "db_next_account db' = db_next_account db"
    using EnsurePeriodOpen_simps [of "je_OccurredAt ins" db] new(3,7) by simp_all
  have cong: "entry_stored_ok db' x = entry_stored_ok db x" for x
    using d(2) by (intro entry_stored_ok_cong) (simp add: account_ids_def)
  have "entry_stored_ok db e"
    using stored_lines_ok [OF assms(2) _ new(15)] new(5)
    by (simp add: entry_stored_ok_def new(14) stored_lines_sums insert_valid_def lines_ok_def)
  moreover have "source_of e \<notin> source_of ` set (db_entries db)"
    using new(2) by (simp add: source_of_def [of e] new(9,10) lookupSource_None)
  moreover have "en_Id e \<notin> en_Id ` set (db_entries db)"
    using assms(4) new(6,8) by (auto simp: entries_ok_def)
  ultimately show ?thesis
    using assms(3,4) d new(6,8) unfolding accounts_ok_def entries_ok_def by (auto simp: cong list_all_iff)
qed

lemma create_appends:
  assumes "CreateJournalEntry L tx ins db = (r, db')"
  shows "\<exists>new. db_entries db' = db_entries db @ new \<and> length new \<le> 1 \<and>
    (\<forall>e \<in> set new. en_SourceType e = je_SourceType ins \<and> en_ReversedBy e = None)"
proof (cases r)
  case (Inl err)
  with CreateJournalEntry_Inl [of L tx ins db err db'] assms show ?thesis by simp
next
  case (Inr x)
  obtain i dup where x: "x = (i, dup)" by (cases x)
  from assms show ?thesis unfolding Inr x
  proof (cases rule: CreateJournalEntry_cases)
    case dup
    then show ?thesis using EnsurePeriodOpen_simps(1) [of "je_OccurredAt ins" db] by simp
  next
    case (new m db0 e)
    then show ?thesis by (intro exI [of _ "[e]"]) simp
  qed
qed

lemma reversals_ok_append:
  assumes "reversals_ok db" and "db_entries db' = db_entries db @ new"
    and "\<forall>e \<in> set new. en_SourceType e \<noteq> AcctSourceReversal \<and> en_ReversedBy e = None"
  shows "reversals_ok db'"
  unfolding reversals_ok_def
proof (intro ballI conjI impI)
  fix e assume e: "e \<in> set (db_entries db')"
  show "\<exists>o' \<in> set (db_entries db'). reverses e o'" if "en_SourceType e = AcctSourceReversal"
    using assms e that unfolding reversals_ok_def by auto
  show "en_ReversedBy e = None" if "en_SourceType e = AcctSourceReversal"
    using assms e that unfolding reversals_ok_def by auto
  show "\<exists>x \<in> set (db_entries db'). reverses x e" if "en_ReversedBy e \<noteq> None"
    using assms e that unfolding reversals_ok_def by auto
qed

lemma create_ledger_ok:
  assumes "CreateJournalEntry L tx ins db = (r, db')" and "decimal_ok L" and "ledger_ok db"
    and "je_SourceType ins \<noteq> AcctSourceReversal"
  shows "ledger_ok db'"
proof (cases r)
  case (Inl err)
  with CreateJournalEntry_Inl [of L tx ins db err db'] assms entry_stored_ok_cong [of db' db] show ?thesis
    by (simp add: ledger_defs account_ids_def list_all_iff)
next
  case (Inr x)
  obtain i dup where x: "x = (i, dup)" by (cases x)
  have "accounts_ok db' \<and> entries_ok db'"
    using create_entries_ok [of L tx ins db i dup db'] assms Inr x by (simp add: ledger_ok_def)
  moreover have "reversals_ok db'"
    using create_appends [OF assms(1)] reversals_ok_append [of db db'] assms(3,4)
    by (auto simp: ledger_ok_def)
  ultimately show ?thesis by (simp add: ledger_ok_def)
qed

section \<open>Reversal\<close>

lemma joined_lines:
  assumes "list_all (line_stored_ok db) ls"
  shows "List.map_filter (joinedLine db) ls = map (\<lambda>l. (the (accountCode db (jl_AccountId l)), l)) ls"
  using assms
proof (induction ls)
  case (Cons l ls)
  then have "accountCode db (jl_AccountId l) \<noteq> None"
    by (auto simp: line_stored_ok_def account_ids_def accountCode_def find_None_iff)
  with Cons show ?case by (auto simp: joinedLine_def List.map_filter_simps)
qed (simp add: List.map_filter_simps)

lemma GetJournalEntry_Inr:
  assumes "GetJournalEntry db i = Inr (orig, lines)" and "entries_ok db"
  shows "orig \<in> set (db_entries db)" "en_Id orig = i"
    "lines = map (\<lambda>l. (the (accountCode db (jl_AccountId l)), l)) (en_Lines orig)"
proof -
  from assms(1) have f: "find (\<lambda>e. en_Id e = i) (db_entries db) = Some orig"
    and l: "lines = List.map_filter (joinedLine db) (en_Lines orig)"
    by (auto simp: GetJournalEntry_def split: option.splits)
  from f show "orig \<in> set (db_entries db)" "en_Id orig = i" by (auto simp: find_Some_iff)
  then show "lines = map (\<lambda>l. (the (accountCode db (jl_AccountId l)), l)) (en_Lines orig)"
    using assms(2) joined_lines [of db "en_Lines orig"] l
    by (simp add: entries_ok_def list_all_iff entry_stored_ok_def)
qed

text \<open>The stored reversal of stored lines has the same accounts and the other side.\<close>

lemma stored_reversal_net:
  assumes "decimal_ok L" and "accounts_ok db" and "list_all (line_stored_ok db) ls"
    and "\<And>l. l \<in> set (map (\<lambda>l. reversalLine (the (accountCode db (jl_AccountId l)), l)) ls) \<Longrightarrow>
       \<exists>a \<in> set (db_accounts db). ac_Code a = ln_AccountCode l \<and> m (ln_AccountCode l) = Some (ac_Id a)"
  shows "jl_net i (stored_lines L m (map (\<lambda>l. reversalLine (the (accountCode db (jl_AccountId l)), l)) ls))
       = - jl_net i ls"
  using assms(3,4)
proof (induction ls)
  case (Cons l ls)
  let ?c = "the (accountCode db (jl_AccountId l))"
  from Cons.prems(1) obtain a where a: "a \<in> set (db_accounts db)" "ac_Id a = jl_AccountId l"
    by (auto simp: line_stored_ok_def account_ids_def)
  then have c: "?c = ac_Code a" using accountCode_id [OF assms(2) a(1)] by simp
  obtain b where b: "b \<in> set (db_accounts db)" "ac_Code b = ?c" "m ?c = Some (ac_Id b)"
    using Cons.prems(2) [of "reversalLine (?c, l)"] by (auto simp: reversalLine_def)
  have "b = a"
    using assms(2) a(1) b(1,2) c inj_on_eq_iff [of ac_Code "set (db_accounts db)" b a]
    by (simp add: accounts_ok_def distinct_map)
  then have "m ?c = Some (jl_AccountId l)" using b(3) a(2) by simp
  moreover have "dl_Round L (jl_Amount l) 2 = jl_Amount l"
    using Cons.prems(1) assms(1) by (simp add: line_stored_ok_def Round_id)
  moreover have "jl_Side l = AcctSideDebit \<or> jl_Side l = AcctSideCredit"
    using Cons.prems(1) by (simp add: line_stored_ok_def)
  ultimately show ?case
    using Cons by (auto simp: storeLine_def reversalLine_def swapSide_def)
qed simp

lemma reversalInsert_simps [simp]:
  "je_SourceType (reversalInsert db orig ls reason who now) = AcctSourceReversal"
  "je_SourceKey (reversalInsert db orig ls reason who now) = ''rev:'' @ Itoa (en_Id orig)"
  "je_Lines (reversalInsert db orig ls reason who now) = map reversalLine ls"
  by (simp_all add: reversalInsert_def Let_def)

lemma linkReversal_simps [simp]:
  "db_accounts (linkReversal a b db) = db_accounts db" "db_next_entry (linkReversal a b db) = db_next_entry db"
  "db_next_account (linkReversal a b db) = db_next_account db" "db_periods (linkReversal a b db) = db_periods db"
  "map en_Id (db_entries (linkReversal a b db)) = map en_Id (db_entries db)"
  "map source_of (db_entries (linkReversal a b db)) = map source_of (db_entries db)"
  "map en_Lines (db_entries (linkReversal a b db)) = map en_Lines (db_entries db)"
  by (simp_all add: linkReversal_def Let_def source_of_def)

lemma clearReceipt_simps [simp]:
  "db_entries (clearReceiptPostedAmounts k db) = db_entries db"
  "db_accounts (clearReceiptPostedAmounts k db) = db_accounts db"
  "db_next_entry (clearReceiptPostedAmounts k db) = db_next_entry db"
  "db_next_account (clearReceiptPostedAmounts k db) = db_next_account db"
  "db_periods (clearReceiptPostedAmounts k db) = db_periods db"
  by (simp_all add: clearReceiptPostedAmounts_def clearPosted_def split: list.split option.split)

lemma ledger_ok_cong:
  "db_entries db = db_entries db' \<Longrightarrow> db_accounts db = db_accounts db' \<Longrightarrow> db_next_entry db = db_next_entry db'
    \<Longrightarrow> db_next_account db = db_next_account db' \<Longrightarrow> ledger_ok db = ledger_ok db'"
  using entry_stored_ok_cong [of db db'] by (simp add: ledger_defs account_ids_def list_all_iff)

definition link_entry :: "int \<Rightarrow> int \<Rightarrow> AcctJournalEntry \<Rightarrow> AcctJournalEntry" where
  "link_entry orig new e =
     (let e = (if en_Id e = new \<and> en_ReversalOf e = None then e\<lparr>en_ReversalOf := Some orig\<rparr> else e)
      in if en_Id e = orig then e\<lparr>en_ReversedBy := Some new\<rparr> else e)"

lemma link_entry_simps [simp]:
  "en_Id (link_entry a b e) = en_Id e" "en_SourceType (link_entry a b e) = en_SourceType e"
  "en_SourceKey (link_entry a b e) = en_SourceKey e" "en_Lines (link_entry a b e) = en_Lines e"
  "en_OccurredAt (link_entry a b e) = en_OccurredAt e"
  by (simp_all add: link_entry_def Let_def)

lemma link_entry_id: "en_Id e \<noteq> a \<Longrightarrow> en_Id e \<noteq> b \<Longrightarrow> link_entry a b e = e"
  by (simp add: link_entry_def Let_def)

lemma reverse_parts:
  assumes "ReverseJournalEntry L tx i reason who now db = (Inr n, db')" and "decimal_ok L" and "ledger_ok db"
  obtains orig e db1 where
    "orig \<in> set (db_entries db)" "en_Id orig = i" "en_SourceType orig \<noteq> AcctSourceReversal"
    "en_ReversedBy orig = None" "n = db_next_entry db" "i \<noteq> n"
    "db_entries db' = map (link_entry i n) (db_entries db) @ [link_entry i n e]"
    "db_accounts db' = db_accounts db" "db_next_entry db' = n + 1" "db_next_account db' = db_next_account db"
    "en_Id e = n" "en_SourceType e = AcctSourceReversal" "en_SourceKey e = ''rev:'' @ Itoa i"
    "en_ReversalOf e = None" "en_ReversedBy e = None"
    "\<And>a. jl_net a (en_Lines e) = - jl_net a (en_Lines orig)"
    "entries_ok db1" "db_entries db1 = db_entries db @ [e]" "db_accounts db1 = db_accounts db" "db_next_entry db1 = n + 1"
proof -
  note inv = assms(3)[unfolded ledger_ok_def]
  from assms(1) obtain orig lines where g: "GetJournalEntry db i = Inr (orig, lines)"
    by (auto simp: ReverseJournalEntry_def split: sum.splits)
  note G = GetJournalEntry_Inr [OF g conjunct1 [OF conjunct2 [OF inv]]]
  let ?ins = "reversalInsert db orig lines reason who now"
  from assms(1) g obtain d db1 where
    c: "CreateJournalEntry L tx ?ins db = (Inr (n, d), db1)"
    and guards: "en_SourceType orig \<noteq> AcctSourceReversal" "en_ReversedBy orig = None"
    and db': "db' = (if en_SourceType orig = AcctSourceProductionReceive
        then clearReceiptPostedAmounts (en_SourceKey orig) (linkReversal i n db1) else linkReversal i n db1)"
    by (auto simp: ReverseJournalEntry_def Let_def split: if_split_asm sum.split_asm prod.split_asm)
  note ok1 = create_entries_ok [OF c assms(2)] 
  show ?thesis
    using c
  proof (cases rule: CreateJournalEntry_cases)
    case dup
    then obtain x where x: "x \<in> set (db_entries db)" "en_SourceType x = AcctSourceReversal"
        "en_SourceKey x = ''rev:'' @ Itoa i"
      using lookupSource_SomeD [of db AcctSourceReversal "''rev:'' @ Itoa i" n] G(2) by auto
    then obtain o' where o': "o' \<in> set (db_entries db)" "reverses x o'"
      using inv unfolding reversals_ok_def by blast
    then have "en_Id o' = en_Id orig" using x G(2) by (simp add: reverses_def)
    then have "o' = orig"
      using inv o'(1) G(1) by (auto simp: entries_ok_def distinct_map dest: inj_onD)
    with o'(2) guards(2) show ?thesis by (simp add: reverses_def)
  next
    case (new m db0 e)
    have ent: "db_entries db1 = db_entries db @ [e]" "db_accounts db1 = db_accounts db"
      "db_next_entry db1 = n + 1" "db_next_account db1 = db_next_account db"
      using new(3,7) EnsurePeriodOpen_simps [of "je_OccurredAt ?ins" db] by simp_all
    have net: "jl_net a (en_Lines e) = - jl_net a (en_Lines orig)" for a
    proof -
      have "list_all (line_stored_ok db) (en_Lines orig)"
        using inv G(1) by (auto simp: entries_ok_def list_all_iff entry_stored_ok_def)
      from stored_reversal_net [OF assms(2) conjunct1 [OF inv] this, of m a] new(14,15) G(3)
      show ?thesis by (simp add: comp_def)
    qed
    have link: "db_entries (linkReversal i n db1) = map (link_entry i n) (db_entries db1)"
      by (simp add: linkReversal_def link_entry_def [abs_def])
    have "i \<noteq> n" using inv G(1,2) new(6) by (auto simp: entries_ok_def)
    then show ?thesis
      using that [of orig e db1] G(1,2) guards new ent net link ok1 inv
      by (simp add: db')
  qed
qed

lemma reverse_ledger_ok:
  assumes "ReverseJournalEntry L tx i reason who now db = (Inr n, db')" and "decimal_ok L" and "ledger_ok db"
  shows "ledger_ok db'"
  using assms
proof (cases rule: reverse_parts)
  case (1 orig e db1)
  note inv = assms(3)[unfolded ledger_ok_def]
  let ?f = "link_entry i n"
  have uniq: "x = orig" if "x \<in> set (db_entries db)" "en_Id x = i" for x
    using inv that 1(1,2) by (auto simp: entries_ok_def distinct_map dest: inj_onD)
  have old: "?f x = x" if "x \<in> set (db_entries db)" "x \<noteq> orig" for x
    using inv that uniq 1(5) by (intro link_entry_id) (auto simp: entries_ok_def)
  have fe: "?f e = e\<lparr>en_ReversalOf := Some i\<rparr>" using 1(6,11,14) by (simp add: link_entry_def)
  have fo: "?f orig = orig\<lparr>en_ReversedBy := Some n\<rparr>" using 1(2,6) by (simp add: link_entry_def)
  have rev: "reverses (?f e) (?f orig)"
    using 1(2,11-13,16) by (simp add: fe fo reverses_def)
  have acc: "accounts_ok db'" using inv 1(8,10) by (simp add: accounts_ok_def)
  have cong: "entry_stored_ok db' (?f x) = entry_stored_ok db1 x" for x
    using entry_stored_ok_cong [of db' db1 "?f x"] 1(8,19) by (simp add: account_ids_def entry_stored_ok_def)
  have ents: "db_entries db' = map ?f (db_entries db1)" using 1(7,18) by simp
  have "map en_Id (db_entries db') = map en_Id (db_entries db1)"
    "map source_of (db_entries db') = map source_of (db_entries db1)"
    by (simp_all add: ents source_of_def)
  moreover have "\<forall>x \<in> set (db_entries db'). en_Id x < db_next_entry db'"
    using 1(9,17,20) by (auto simp: ents entries_ok_def)
  moreover have "list_all (entry_stored_ok db') (db_entries db')"
    using 1(17) by (simp add: ents list_all_iff cong entries_ok_def)
  ultimately have "entries_ok db'" using 1(17) by (simp add: entries_ok_def)
  moreover have "reversals_ok db'"
    unfolding reversals_ok_def
  proof (intro ballI conjI impI)
    fix y assume y: "y \<in> set (db_entries db')"
    have ye: "y = ?f e \<or> y = ?f orig \<or> (y \<in> set (db_entries db) \<and> y \<noteq> orig)"
    proof -
      from y have "y = ?f e \<or> (\<exists>x. x \<in> set (db_entries db) \<and> y = ?f x)" unfolding 1(7) by auto
      then show ?thesis using old by metis
    qed
    have keep: "z \<in> set (db_entries db')" if "z \<in> set (db_entries db)" "z \<noteq> orig" for z
    proof -
      have "?f z \<in> set (db_entries db')" using that(1) unfolding 1(7) by auto
      then show ?thesis using old [OF that] by simp
    qed
    have fin: "?f e \<in> set (db_entries db')" "?f orig \<in> set (db_entries db')" using 1(1) by (simp_all add: 1(7))
    show "en_ReversedBy y = None" if "en_SourceType y = AcctSourceReversal"
      using ye that 1(3,15) inv by (auto simp: fe fo reversals_ok_def)
    show "\<exists>o' \<in> set (db_entries db'). reverses y o'" if t: "en_SourceType y = AcctSourceReversal"
    proof (cases "y = ?f e")
      case False
      then have yd: "y \<in> set (db_entries db)" using ye t 1(3) by (auto simp: fo)
      then obtain o' where o': "o' \<in> set (db_entries db)" "reverses y o'"
        using inv t unfolding reversals_ok_def by blast
      then have "o' \<noteq> orig" using 1(4) by (auto simp: reverses_def)
      with keep o' show ?thesis by blast
    qed (use rev fin in blast)
    show "\<exists>x \<in> set (db_entries db'). reverses x y" if r: "en_ReversedBy y \<noteq> None"
    proof (cases "y = ?f orig")
      case False
      then have yd: "y \<in> set (db_entries db)" using ye r 1(15) by (auto simp: fe)
      then obtain x where x: "x \<in> set (db_entries db)" "reverses x y"
        using inv r unfolding reversals_ok_def by blast
      then have "x \<noteq> orig" using 1(3) by (auto simp: reverses_def)
      with keep x show ?thesis by blast
    qed (use rev fin in blast)
  qed
  ultimately show ?thesis using acc by (simp add: ledger_ok_def)
qed

section \<open>Everything the store can do\<close>

text \<open>
  The states a ledger can reach from a seeded chart with an empty journal: every operation of the
  store, each posting and reversal in its own transaction, interleaved with whatever the
  production component does to its receipts.
\<close>

inductive ledger_reach :: "decimal_lib \<Rightarrow> ledger_db \<Rightarrow> bool" for L where
  init: "accounts_ok db \<Longrightarrow> db_entries db = [] \<Longrightarrow> ledger_reach L db"
| create: "ledger_reach L db \<Longrightarrow> je_SourceType ins \<noteq> AcctSourceReversal \<Longrightarrow>
    repoTx (CreateJournalEntry L True ins) db = (r, db') \<Longrightarrow> ledger_reach L db'"
| reverse: "ledger_reach L db \<Longrightarrow> repoTx (ReverseJournalEntry L True i reason who now) db = (r', db') \<Longrightarrow>
    ledger_reach L db'"
| newAccount: "ledger_reach L db \<Longrightarrow> CreateAccount a db = (ra, db') \<Longrightarrow> ledger_reach L db'"
| rename: "ledger_reach L db \<Longrightarrow> UpdateAccountName code name db = (ru, db') \<Longrightarrow> ledger_reach L db'"
| archive: "ledger_reach L db \<Longrightarrow> SetAccountArchived code b db = (ru, db') \<Longrightarrow> ledger_reach L db'"
| ensure: "ledger_reach L db \<Longrightarrow> EnsurePeriodOpen t db = (ru, db') \<Longrightarrow> ledger_reach L db'"
| close: "ledger_reach L db \<Longrightarrow> ClosePeriod c now t db = (ru, db') \<Longrightarrow> ledger_reach L db'"
| reopen: "ledger_reach L db \<Longrightarrow> ledger_reach L (ReopenPeriod t db)"
| checkpoint: "ledger_reach L db \<Longrightarrow> ledger_reach L (SetCheckpoint src lid lts db)"
| receipts: "ledger_reach L db \<Longrightarrow> ledger_reach L (db\<lparr>db_receipts := rs\<rparr>)"

lemma ledger_ok_accounts:
  assumes "ledger_ok db" and "db_entries db' = db_entries db" and "db_next_entry db' = db_next_entry db"
    and "accounts_ok db'" and "account_ids db \<subseteq> account_ids db'"
  shows "ledger_ok db'"
proof -
  have "entry_stored_ok db' e" if "entry_stored_ok db e" for e
    using that assms(5) by (auto simp: entry_stored_ok_def line_stored_ok_def list_all_iff)
  then show ?thesis using assms by (auto simp: ledger_defs list_all_iff)
qed

lemma CreateAccount_ok:
  assumes "CreateAccount a db = (r, db')" and "ledger_ok db"
  shows "ledger_ok db'"
proof (cases "\<exists>x \<in> set (db_accounts db). ac_Code x = ai_Code a")
  case False
  then obtain x where x: "db_accounts db' = db_accounts db @ [x]" "ac_Id x = db_next_account db"
      "ac_Code x = ai_Code a" "db_next_account db' = db_next_account db + 1"
    using assms(1) by (auto simp: CreateAccount_def Let_def)
  have "ac_Id x \<notin> ac_Id ` set (db_accounts db)" "ac_Code x \<notin> ac_Code ` set (db_accounts db)"
    using assms(2) False x by (force simp: ledger_ok_def accounts_ok_def)+
  then have acc: "accounts_ok db'" "account_ids db \<subseteq> account_ids db'"
    using assms(2) x by (auto simp: accounts_ok_def account_ids_def ledger_ok_def)
  show ?thesis
    by (rule ledger_ok_accounts [OF assms(2) _ _ acc])
       (use assms(1) False in \<open>auto simp: CreateAccount_def Let_def\<close>)
qed (use assms in \<open>auto simp: CreateAccount_def\<close>)

lemma map_accounts_ok:
  assumes "ledger_ok db" and "\<And>a. ac_Id (f a) = ac_Id a" and "\<And>a. ac_Code (f a) = ac_Code a"
  shows "ledger_ok (db\<lparr>db_accounts := map f (db_accounts db)\<rparr>)"
proof (rule ledger_ok_accounts [OF assms(1)])
  show "accounts_ok (db\<lparr>db_accounts := map f (db_accounts db)\<rparr>)"
    using assms by (simp add: ledger_ok_def accounts_ok_def comp_def)
  show "account_ids db \<subseteq> account_ids (db\<lparr>db_accounts := map f (db_accounts db)\<rparr>)"
    using assms(2) by (simp add: account_ids_def image_image)
qed simp_all

lemma ledger_reach_ok: "ledger_reach L db \<Longrightarrow> decimal_ok L \<Longrightarrow> ledger_ok db"
proof (induction rule: ledger_reach.induct)
  case (init db)
  then show ?case by (simp add: ledger_defs)
next
  case (create db ins r db')
  obtain r1 d1 where c: "CreateJournalEntry L True ins db = (r1, d1)" by fastforce
  from create_ledger_ok [OF c create.prems] create.IH create.hyps(2) create.prems create.hyps(3) c
  show ?case by (auto simp: repoTx_def split: sum.split_asm)
next
  case (reverse db i reason who now r' db')
  then show ?case
    using reverse_ledger_ok [of L True i reason who now db]
    by (auto simp: repoTx_def split: prod.split_asm sum.split_asm)
next
  case (newAccount db a ra db')
  then show ?case by (blast intro: CreateAccount_ok)
next
  case (rename db code name ru db')
  then show ?case
    by (auto simp: UpdateAccountName_def intro!: map_accounts_ok split: sum.split_asm if_split_asm)
next
  case (archive db code b ru db')
  then show ?case
    by (auto simp: SetAccountArchived_def intro!: map_accounts_ok split: sum.split_asm if_split_asm)
next
  case (ensure db t ru db')
  then show ?case using EnsurePeriodOpen_simps [of t db] ledger_ok_cong [of db db'] by simp
next
  case (close db c now t ru db')
  then have "db_entries db' = db_entries db \<and> db_accounts db' = db_accounts db \<and>
     db_next_entry db' = db_next_entry db \<and> db_next_account db' = db_next_account db"
    by (auto simp: ClosePeriod_def Let_def split: if_split_asm option.split_asm)
  with close ledger_ok_cong [of db db'] show ?case by simp
next
  case (reopen db t)
  then show ?case using ledger_ok_cong [of db "ReopenPeriod t db"] by (simp add: ReopenPeriod_def)
next
  case (checkpoint db src lid lts)
  then show ?case using ledger_ok_cong [of db "SetCheckpoint src lid lts db"] by (simp add: SetCheckpoint_def)
next
  case (receipts db rs)
  then show ?case using ledger_ok_cong [of db "db\<lparr>db_receipts := rs\<rparr>"] by simp
qed

lemma side_total_eq:
  "side_total AcctSideDebit es = sum_list (map (\<lambda>e. jl_debits (en_Lines e)) es)"
  "side_total AcctSideCredit es = sum_list (map (\<lambda>e. jl_credits (en_Lines e)) es)"
  by (induction es) (simp_all add: side_total_def jl_debits_def jl_credits_def)

lemma balanced_totals:
  assumes "ledger_ok db" and "set es \<subseteq> set (db_entries db)"
  shows "side_total AcctSideDebit es = side_total AcctSideCredit es"
proof -
  have "jl_debits (en_Lines e) = jl_credits (en_Lines e)" if "e \<in> set es" for e
    using assms that by (auto simp: ledger_defs list_all_iff entry_stored_ok_def)
  then show ?thesis unfolding side_total_eq by (metis (no_types, lifting) map_cong)
qed

text \<open>
  C15: The books are always right: in every reachable state of the ledger ids and idempotency keys
  are unique, every entry has at least two lines of positive cents on existing accounts and
  balances, a reversed entry and its reversal point at each other and cancel on every account, and
  the trial balance of any selection of entries is zero.
\<close>

theorem ledger_invariant:
  assumes "ledger_reach L db" and "decimal_ok L"
  shows "distinct (map source_of (db_entries db)) \<and> distinct (map en_Id (db_entries db)) \<and>
    list_all (entry_stored_ok db) (db_entries db) \<and>
    (\<forall>e \<in> set (db_entries db). en_ReversedBy e \<noteq> None \<longrightarrow> (\<exists>x \<in> set (db_entries db). reverses x e)) \<and>
    (\<forall>P. side_total AcctSideDebit (filter P (db_entries db)) = side_total AcctSideCredit (filter P (db_entries db)))"
  using ledger_reach_ok [OF assms] balanced_totals [of db]
  by (auto simp: ledger_defs)

section \<open>Posting as an interface\<close>

text \<open>
  What the posting worker relies on.  \<open>posted e i s\<close> says that entry \<open>e\<close> has been accepted under id
  \<open>i\<close>: posting it again finds it and changes nothing, and no other posting undoes it.
\<close>

primrec postAll :: "('e \<Rightarrow> 's \<Rightarrow> ('err + (int \<times> bool)) \<times> 's) \<Rightarrow> 'e list \<Rightarrow> 's \<Rightarrow> ('err + (int \<times> bool)) list \<times> 's" where
  "postAll post [] s = ([], s)"
| "postAll post (e # es) s = (let (r, s') = post e s; (rs, s'') = postAll post es s' in (r # rs, s''))"

locale journal =
  fixes post :: "'e \<Rightarrow> 's \<Rightarrow> ('err + (int \<times> bool)) \<times> 's" and posted :: "'e \<Rightarrow> int \<Rightarrow> 's \<Rightarrow> bool"
  assumes post_posted: "post e s = (Inr (i, d), s') \<Longrightarrow> posted e i s'"
    and posted_post: "posted e i s \<Longrightarrow> post e s = (Inr (i, True), s)"
    and posted_stable: "posted e i s \<Longrightarrow> post e' s = (r, s') \<Longrightarrow> posted e i s'"
begin

lemma postAll_stable: "posted e i s \<Longrightarrow> posted e i (snd (postAll post es s))"
proof (induction es arbitrary: s)
  case (Cons x xs)
  obtain r s' where "post x s = (r, s')" by fastforce
  with Cons posted_stable [of e i s x r s'] show ?case by (simp add: split_beta)
qed simp

lemma postAll_posted:
  "postAll post es s = (rs, s') \<Longrightarrow> list_all is_ok rs \<Longrightarrow>
     list_all2 (\<lambda>e r. \<exists>i d. r = Inr (i, d) \<and> posted e i s') es rs"
proof (induction es arbitrary: s rs)
  case (Cons e es)
  obtain r s1 where r: "post e s = (r, s1)" by fastforce
  obtain rs1 where rs1: "postAll post es s1 = (rs1, s')" "rs = r # rs1"
    using Cons.prems(1) r by (auto simp: split_beta prod_eq_iff)
  obtain i d where i: "r = Inr (i, d)" using Cons.prems(2) rs1(2) by (auto simp: is_ok_iff)
  have "posted e i s'"
    using postAll_stable [OF post_posted [OF r [unfolded i]], of es] rs1(1) by simp
  then show ?case using Cons.IH [OF rs1(1)] Cons.prems(2) rs1(2) i by auto
qed simp

lemma replay_posted:
  "list_all (\<lambda>e. \<exists>i. posted e i s) es \<Longrightarrow> snd (postAll post es s) = s"
  by (induction es) (auto simp: posted_post split_beta)

text \<open>Replaying accepted entries later, after any other postings, changes nothing.\<close>

lemma exactly_once:
  assumes "postAll post es s = (rs, s')" and "list_all is_ok rs"
  shows "snd (postAll post es (snd (postAll post fs s'))) = snd (postAll post fs s')"
proof (rule replay_posted)
  have "list_all (\<lambda>e. \<exists>i. posted e i s') es"
    using postAll_posted [OF assms] by (auto simp: list_all2_conv_all_nth list_all_length)
  then show "list_all (\<lambda>e. \<exists>i. posted e i (snd (postAll post fs s'))) es"
    unfolding list_all_iff using postAll_stable [of _ _ s' fs] by blast
qed

end

definition db_posted :: "decimal_lib \<Rightarrow> AcctJournalEntryInsert \<Rightarrow> int \<Rightarrow> ledger_db \<Rightarrow> bool" where
  "db_posted L ins i db \<longleftrightarrow> insert_valid L ins db \<and>
     lookupSource db (je_SourceType ins) (je_SourceKey ins) = Some i \<and>
     db_periods db (firstOfMonthUTC (je_OccurredAt ins)) = Some PeriodOpen"

definition postTx :: "decimal_lib \<Rightarrow> AcctJournalEntryInsert \<Rightarrow> ledger_db \<Rightarrow> (ledger_error + (int \<times> bool)) \<times> ledger_db" where
  "postTx L ins db = repoTx (CreateJournalEntry L True ins) db"

lemma postTx_Inr: "postTx L ins db = (Inr x, db') \<Longrightarrow> CreateJournalEntry L True ins db = (Inr x, db')"
  by (auto simp: postTx_def repoTx_def split: prod.split_asm sum.split_asm)

lemma find_append: "find P (xs @ ys) = (case find P xs of Some x \<Rightarrow> Some x | None \<Rightarrow> find P ys)"
  by (induction xs) auto

lemma lookupSource_append:
  "lookupSource db st sk = Some i \<Longrightarrow> db_entries db' = db_entries db @ new \<Longrightarrow> lookupSource db' st sk = Some i"
  by (auto simp: lookupSource_def find_append split: option.split)

lemma insert_valid_cong: "db_accounts db' = db_accounts db \<Longrightarrow> insert_valid L ins db' = insert_valid L ins db"
  by (simp add: insert_valid_def account_usable_def)

lemma postTx_frame:
  assumes "postTx L ins db = (r, db')"
  shows "db_accounts db' = db_accounts db" and "db_periods db \<subseteq>\<^sub>m db_periods db'"
    and "\<exists>new. db_entries db' = db_entries db @ new"
proof -
  have "db_accounts db' = db_accounts db \<and> db_periods db \<subseteq>\<^sub>m db_periods db' \<and> (\<exists>new. db_entries db' = db_entries db @ new)"
  proof (cases r)
    case (Inl err)
    then show ?thesis using assms by (auto simp: postTx_def repoTx_def split: prod.split_asm sum.split_asm)
  next
    case (Inr x)
    obtain i d where x: "x = (i, d)" by (cases x)
    from postTx_Inr [OF assms [unfolded Inr x]] show ?thesis
    proof (cases rule: CreateJournalEntry_cases)
      case dup
      then show ?thesis
        using EnsurePeriodOpen_simps [of "je_OccurredAt ins" db] EnsurePeriodOpen_Inr [OF dup(3)] by simp
    next
      case (new m db0 e)
      then show ?thesis
        using EnsurePeriodOpen_simps [of "je_OccurredAt ins" db] EnsurePeriodOpen_Inr [OF new(3)] by simp
    qed
  qed
  then show "db_accounts db' = db_accounts db" "db_periods db \<subseteq>\<^sub>m db_periods db'"
    "\<exists>new. db_entries db' = db_entries db @ new" by auto
qed

interpretation ledger: journal "postTx L" "db_posted L"
proof unfold_locales
  fix e s i d s'
  assume a: "postTx L e s = (Inr (i, d), s')"
  from postTx_Inr [OF a] show "db_posted L e i s'"
  proof (cases rule: CreateJournalEntry_cases)
    case dup
    then show ?thesis
      using EnsurePeriodOpen_simps [of "je_OccurredAt e" s] EnsurePeriodOpen_Inr [OF dup(3)]
        insert_valid_cong [of s' s L e] by (simp add: db_posted_def lookupSource_def)
  next
    case (new m db0 x)
    then show ?thesis
      using EnsurePeriodOpen_simps [of "je_OccurredAt e" s] EnsurePeriodOpen_Inr [OF new(3)]
        insert_valid_cong [of s' s L e]
      by (auto simp: db_posted_def lookupSource_def find_append)
  qed
next
  fix e i s
  assume p: "db_posted L e i s"
  then have "is_ok (fst (CreateJournalEntry L True e s))"
    by (intro CreateJournalEntry_ok) (auto simp: db_posted_def)
  then obtain j d s' where c: "CreateJournalEntry L True e s = (Inr (j, d), s')"
    by (metis is_ok_iff prod.collapse)
  have "s' = s \<and> j = i \<and> d"
    using c
  proof (cases rule: CreateJournalEntry_cases)
    case dup
    then show ?thesis using p by (auto simp: db_posted_def EnsurePeriodOpen_def Let_def)
  qed (use p in \<open>simp add: db_posted_def\<close>)
  then show "postTx L e s = (Inr (i, True), s)" using c by (simp add: postTx_def repoTx_def)
next
  fix e i s e' r s'
  assume p: "db_posted L e i s" and c: "postTx L e' s = (r, s')"
  note f = postTx_frame [OF c]
  from f(3) p have "lookupSource s' (je_SourceType e) (je_SourceKey e) = Some i"
    by (auto simp: db_posted_def intro: lookupSource_append)
  moreover have "db_periods s' (firstOfMonthUTC (je_OccurredAt e)) = Some PeriodOpen"
    using p f(2) unfolding db_posted_def map_le_def by (metis domI)
  ultimately show "db_posted L e i s'"
    using p insert_valid_cong [OF f(1)] by (simp add: db_posted_def)
qed

section \<open>Properties of the store\<close>

text \<open>A ledger with two accounts and an empty journal, and an entry for it.\<close>

definition ex_account :: "int \<Rightarrow> string \<Rightarrow> AcctAccount" where
  "ex_account i c = \<lparr>ac_Id = i, ac_Code = c, ac_Name = c, ac_Section = AcctSectionAsset, ac_Statement = ''BS'',
     ac_IsSystem = True, ac_Archived = False\<rparr>"

definition ex_ledger :: ledger_db where
  "ex_ledger = \<lparr>db_accounts = [ex_account 1 ''1110'', ex_account 2 ''2010''], db_entries = [],
     db_periods = Map.empty, db_receipts = [], db_checkpoints = Map.empty, db_next_entry = 1, db_next_account = 3\<rparr>"

definition ex_entry :: AcctJournalEntryInsert where
  "ex_entry = mkEntry 0 ''wool'' AcctSourceMaterialReceipt ''9'' ''system'' [Dr ''1110'' 60, Cr ''2010'' 60]"

lemma ex_ledger_reach: "ledger_reach L ex_ledger"
  by (rule ledger_reach.init) (simp_all add: ex_ledger_def ex_account_def accounts_ok_def)

lemma ex_entry_valid: "insert_valid decimal_std ex_entry ex_ledger"
proof -
  have "TrimSpace ''9'' = ''9''" by code_simp
  then show ?thesis
    by (simp add: insert_valid_def ex_entry_def ex_ledger_def ex_account_def account_usable_def lines_ok_def
          line_ok_def debit_of_def credit_of_def decimal_std_def round_half_away_def)
qed

lemma ex_posted:
  obtains db' where "postTx decimal_std ex_entry ex_ledger = (Inr (1, False), db')" "db_entries db' \<noteq> []"
proof -
  have "is_ok (fst (CreateJournalEntry decimal_std True ex_entry ex_ledger))"
    by (rule CreateJournalEntry_ok) (simp_all add: ex_entry_valid, simp add: ex_ledger_def)
  then obtain i d db' where c: "CreateJournalEntry decimal_std True ex_entry ex_ledger = (Inr (i, d), db')"
    by (metis is_ok_iff prod.collapse)
  have n: "db_next_entry ex_ledger = 1" "lookupSource ex_ledger st sk = None" for st sk
    by (simp_all add: ex_ledger_def lookupSource_def)
  have "\<not> d \<and> i = 1 \<and> db_entries db' \<noteq> []" using c
    by (cases rule: CreateJournalEntry_cases) (simp_all add: n)
  with c that show ?thesis by (simp add: postTx_def repoTx_def)
qed

text \<open>
  C1: Posting is exactly-once under retries: after a run of postings has succeeded, posting the
  same entries again - at any later time, after any other postings - changes nothing at all in the
  ledger and reports every one of them as already existing.
\<close>

theorem posting_exactly_once:
  assumes "postAll (postTx L) es db = (rs, db')" and "list_all is_ok rs"
  shows "snd (postAll (postTx L) es (snd (postAll (postTx L) fs db'))) = snd (postAll (postTx L) fs db')"
  using assms by (rule ledger.exactly_once)

theorem posting_exactly_once_witness:
  "\<exists>db'. postTx decimal_std ex_entry ex_ledger = (Inr (1, False), db') \<and> db' \<noteq> ex_ledger \<and>
     snd (postTx decimal_std ex_entry db') = db'"
proof -
  obtain db' where p: "postTx decimal_std ex_entry ex_ledger = (Inr (1, False), db')" "db_entries db' \<noteq> []"
    by (rule ex_posted)
  have "db' \<noteq> ex_ledger" using p(2) by (auto simp: ex_ledger_def)
  moreover have "postAll (postTx decimal_std) [ex_entry] ex_ledger = ([Inr (1, False)], db')"
    using p(1) by simp
  ultimately show ?thesis
    using posting_exactly_once [of decimal_std "[ex_entry]" ex_ledger "[Inr (1, False)]" db' "[]"] p(1)
    by (simp add: split_beta)
qed

theorem ledger_invariant_witness:
  "side_total AcctSideDebit (db_entries (snd (postTx decimal_std ex_entry ex_ledger)))
     = side_total AcctSideCredit (db_entries (snd (postTx decimal_std ex_entry ex_ledger)))"
proof -
  have "ledger_reach decimal_std (snd (postTx decimal_std ex_entry ex_ledger))"
    by (rule ledger_reach.create [OF ex_ledger_reach, where ins = ex_entry])
       (simp add: ex_entry_def, simp add: postTx_def prod_eq_iff)
  from ledger_invariant [OF this decimal_std_ok] show ?thesis
    by (elim conjE) (drule spec [of _ "\<lambda>_. True"], simp)
qed

lemma GetJournalEntry_id:
  "entries_ok db \<Longrightarrow> e \<in> set (db_entries db) \<Longrightarrow> \<exists>ls. GetJournalEntry db (en_Id e) = Inr (e, ls)"
  using find_key_unique [of en_Id "db_entries db" e] by (simp add: GetJournalEntry_def entries_ok_def)

text \<open>
  C16: A reversal undoes an entry exactly and once: it leaves the entry's lines as they were, adds
  one entry with the opposite movement on every account, links the two, and afterwards the entry
  cannot be reversed again and the reversal cannot be reversed at all.
\<close>

theorem reversal_cancels_once:
  assumes "ledger_reach L db" and "decimal_ok L"
    and "repoTx (ReverseJournalEntry L True i reason who now) db = (Inr n, db')"
  shows "\<exists>orig e x. orig \<in> set (db_entries db) \<and> e \<in> set (db_entries db') \<and> x \<in> set (db_entries db') \<and>
      en_Id orig = i \<and> en_Id e = i \<and> en_Lines e = en_Lines orig \<and> en_Id x = n \<and> reverses x e \<and>
      length (db_entries db') = length (db_entries db) + 1 \<and>
      fst (ReverseJournalEntry L True i reason' who' now' db') = Inl ErrAcctAlreadyReversed \<and>
      fst (ReverseJournalEntry L True n reason' who' now' db') = Inl ErrAcctCannotReverseReversal"
proof -
  have r: "ReverseJournalEntry L True i reason who now db = (Inr n, db')"
    using assms(3) by (auto simp: repoTx_def split: prod.split_asm sum.split_asm)
  have ok: "ledger_ok db" by (rule ledger_reach_ok [OF assms(1,2)])
  have ok': "entries_ok db'" using reverse_ledger_ok [OF r assms(2) ok] by (simp add: ledger_ok_def)
  from r assms(2) ok show ?thesis
  proof (cases rule: reverse_parts)
    case (1 orig e db1)
    let ?o = "link_entry i n orig" and ?x = "link_entry i n e"
    have fx: "?x = e\<lparr>en_ReversalOf := Some i\<rparr>" using 1(6,11,14) by (simp add: link_entry_def)
    have fo: "?o = orig\<lparr>en_ReversedBy := Some n\<rparr>" using 1(2,6) by (simp add: link_entry_def)
    have mem: "?o \<in> set (db_entries db')" "?x \<in> set (db_entries db')" using 1(1) by (simp_all add: 1(7))
    have rev: "reverses ?x ?o" using 1(2,11-13,16) by (simp add: fx fo reverses_def)
    obtain ls where "GetJournalEntry db' i = Inr (?o, ls)"
      using GetJournalEntry_id [OF ok' mem(1)] 1(2) by auto
    then have g1: "fst (ReverseJournalEntry L True i reason' who' now' db') = Inl ErrAcctAlreadyReversed"
      using 1(3) by (simp add: ReverseJournalEntry_def fo)
    obtain ls' where "GetJournalEntry db' n = Inr (?x, ls')"
      using GetJournalEntry_id [OF ok' mem(2)] 1(11) by auto
    then have g2: "fst (ReverseJournalEntry L True n reason' who' now' db') = Inl ErrAcctCannotReverseReversal"
      using 1(12) by (simp add: ReverseJournalEntry_def)
    show ?thesis
      by (rule exI [of _ orig], rule exI [of _ ?o], rule exI [of _ ?x])
         (use 1(1,2,7,11) mem rev g1 g2 in simp)
  qed
qed

theorem reversal_cancels_once_witness:
  "\<exists>n db'. repoTx (ReverseJournalEntry decimal_std True 1 [] [] 0) (snd (postTx decimal_std ex_entry ex_ledger)) = (Inr n, db') \<and>
     fst (ReverseJournalEntry decimal_std True 1 [] [] 0 db') = Inl ErrAcctAlreadyReversed"
proof -
  let ?db = "snd (postTx decimal_std ex_entry ex_ledger)"
  have reach: "ledger_reach decimal_std ?db"
    by (rule ledger_reach.create [OF ex_ledger_reach, where ins = ex_entry])
       (simp add: ex_entry_def, simp add: postTx_def prod_eq_iff)
  have "is_ok (fst (ReverseJournalEntry decimal_std True 1 [] [] 0 ?db))" by code_simp
  then obtain n db' where r: "repoTx (ReverseJournalEntry decimal_std True 1 [] [] 0) ?db = (Inr n, db')"
    by (cases "ReverseJournalEntry decimal_std True 1 [] [] 0 ?db") (auto simp: is_ok_iff repoTx_def)
  from reversal_cancels_once [OF reach decimal_std_ok r, of "[]" "[]" 0] r show ?thesis by blast
qed

text \<open>
  C17: Closing: a past month closes exactly when every gate is clear - no pending or unresolved
  event, no unposted movement, receipt, expense or bank line, no undocumented VAT, no missing
  exchange rate - the final balance check never being the obstacle; and once it is closed no entry
  dated in it is accepted, the journal staying as it is, until the month is reopened.
\<close>

theorem period_close:
  assumes "ledger_reach L db" and "decimal_ok L"
  shows "(fst (ClosePeriod c now t db) = Inr () \<longleftrightarrow>
      month_before (firstOfMonthUTC t) (firstOfMonthUTC now) \<and>
      cf_pendingEvents c = 0 \<and> cf_reviewEvents c = 0 \<and> cf_unpostedMovements c = 0 \<and> cf_unpostedReceipts c = 0 \<and>
      \<not> (0 < cf_costedOpexLines c \<and> \<not> opexPosted db (firstOfMonthUTC t)) \<and>
      cf_unmatchedBank c = 0 \<and> cf_undocVat c = 0 \<and> cf_plnMissingDays c = [] \<and> cf_gbpMissingDays c = []) \<and>
    (ClosePeriod c now t db = (Inr (), db') \<longrightarrow>
      (\<forall>ins. firstOfMonthUTC (je_OccurredAt ins) = firstOfMonthUTC t \<longrightarrow>
         \<not> is_ok (fst (postTx L ins db')) \<and> snd (postTx L ins db') = db'))"
proof -
  have "set (month_entries db m) \<subseteq> set (db_entries db)" for m by (auto simp: month_entries_def)
  then have bal: "side_total AcctSideDebit (month_entries db m) = side_total AcctSideCredit (month_entries db m)" for m
    by (rule balanced_totals [OF ledger_reach_ok [OF assms]])
  have rejected: "\<not> is_ok (fst (postTx L ins db')) \<and> snd (postTx L ins db') = db'"
    if cl: "ClosePeriod c now t db = (Inr (), db')" and m: "firstOfMonthUTC (je_OccurredAt ins) = firstOfMonthUTC t" for ins
  proof -
    have closed: "db_periods db' (firstOfMonthUTC (je_OccurredAt ins)) = Some PeriodClosed"
      using cl m by (auto simp: ClosePeriod_def Let_def requireFxRates_def split: if_split_asm)
    have "\<not> is_ok (fst (postTx L ins db'))"
    proof
      assume "is_ok (fst (postTx L ins db'))"
      then obtain i d db2 where "postTx L ins db' = (Inr (i, d), db2)" by (metis is_ok_iff prod.collapse)
      from postTx_Inr [OF this] show False
        by (cases rule: CreateJournalEntry_cases) (use EnsurePeriodOpen_Inr closed in blast)+
    qed
    then show ?thesis by (auto simp: postTx_def repoTx_def split: prod.split sum.split)
  qed
  show ?thesis
    using rejected by (simp add: ClosePeriod_def Let_def requireFxRates_def bal)
qed

definition ex_clear :: close_facts where
  "ex_clear = \<lparr>cf_pendingEvents = 0, cf_reviewEvents = 0, cf_unpostedMovements = 0, cf_unpostedReceipts = 0,
     cf_costedOpexLines = 0, cf_unmatchedBank = 0, cf_undocVat = 0, cf_plnMissingDays = [], cf_gbpMissingDays = []\<rparr>"

theorem period_close_witness:
  "fst (ClosePeriod ex_clear (Date_UTC 2024 6 1) (Date_UTC 2024 5 20) ex_ledger) = Inr ()"
  using period_close [OF ex_ledger_reach decimal_std_ok, of ex_clear "Date_UTC 2024 6 1" "Date_UTC 2024 5 20"]
    firstOfMonthUTC_Date [of 6 1 2024] firstOfMonthUTC_Date [of 5 20 2024]
  by (simp add: ex_clear_def month_before_def month_len_def)

text \<open>A balanced entry of whole cents on usable accounts is accepted while its month is open.\<close>

lemma balanced_entry_valid:
  assumes "decimal_ok L" and "entry_ok e" and "cent_lines (je_Lines e)" and "TrimSpace (je_SourceKey e) \<noteq> []"
    and "\<forall>l \<in> set (je_Lines e). account_usable db (ln_AccountCode l)"
  shows "insert_valid L e db"
proof -
  have "map (roundLine L) (je_Lines e) = map id (je_Lines e)"
    using assms(1,3) by (intro map_cong) (auto simp: roundLine_def cent_lines_def list_all_iff Round_id)
  then have lines: "map (roundLine L) (je_Lines e) = je_Lines e" by simp
  have "2 \<le> length (je_Lines e)"
  proof (rule ccontr)
    assume "\<not> 2 \<le> length (je_Lines e)"
    then have "length (je_Lines e) = 0 \<or> length (je_Lines e) = 1" by linarith
    then show False
      using assms(2) by (auto simp: entry_ok_def lines_ok_def line_ok_def length_Suc_conv debit_of_def credit_of_def)
  qed
  then show ?thesis using assms(2,4,5) lines by (simp add: insert_valid_def entry_ok_def)
qed

text \<open>
  C22: What the order rules build the ledger takes: an entry built from whole-cent facts, with its
  accounts usable, its key not blank and its month not closed, is posted - the ledger's own checks
  and rounding never refuse it.
\<close>

theorem order_entry_accepted:
  assumes "order_entry L f e" and "decimal_ok L" and "shipping_ok f" and "cents_ok f"
    and "TrimSpace (je_SourceKey e) \<noteq> []" and "\<forall>l \<in> set (je_Lines e). account_usable db (ln_AccountCode l)"
    and "db_periods db (firstOfMonthUTC (je_OccurredAt e)) \<noteq> Some PeriodClosed"
  shows "is_ok (fst (postTx L e db)) \<and>
    (\<exists>i. lookupSource (snd (postTx L e db)) (je_SourceType e) (je_SourceKey e) = Some i)"
proof -
  have "insert_valid L e db"
    using balanced_entry_valid order_entry_ok order_entry_cents assms by blast
  from CreateJournalEntry_ok [OF _ this assms(7)] obtain i d db'
    where c: "CreateJournalEntry L True e db = (Inr (i, d), db')" by (metis is_ok_iff prod.collapse)
  then have "postTx L e db = (Inr (i, d), db')" by (simp add: postTx_def repoTx_def)
  with ledger.post_posted [OF this] show ?thesis by (simp add: db_posted_def)
qed

theorem order_entry_accepted_witness:
  "\<exists>e. BuildOrderTransitEntry decimal_std ex_order 0 = Inr e \<and>
     is_ok (fst (postTx decimal_std e (ex_ledger\<lparr>db_accounts := [ex_account 1 ''1130'', ex_account 2 ''1140'']\<rparr>)))"
proof -
  let ?db = "ex_ledger\<lparr>db_accounts := [ex_account 1 ''1130'', ex_account 2 ''1140'']\<rparr>"
  obtain c u where cu: "saleCOGS decimal_std (of_Items ex_order) = (c, u)" by fastforce
  have c: "c = 30" using ex_values(7) cu by simp
  then obtain e where e: "BuildOrderTransitEntry decimal_std ex_order 0 = Inr e"
    by (simp add: BuildOrderTransitEntry_def cu)
  note E = BuildOrderTransitEntry_eq [OF e]
  have "TrimSpace ''o1'' = ''o1''" by code_simp
  then have k: "TrimSpace (je_SourceKey e) \<noteq> []" using E by (simp add: ex_order_def)
  have u: "\<forall>l \<in> set (je_Lines e). account_usable ?db (ln_AccountCode l)"
    using E by (simp add: account_usable_def ex_account_def)
  have p: "db_periods ?db (firstOfMonthUTC (je_OccurredAt e)) \<noteq> Some PeriodClosed" by (simp add: ex_ledger_def)
  show ?thesis
    using order_entry_accepted [OF order_entry.transit [OF e] decimal_std_ok ex_order_ok k u p] e by blast
qed

end
