(* ===== verification/Circuit_Breaker.thy ===== *)
theory Circuit_Breaker
  imports Go_Time
begin

text \<open>
  The circuit breaker in front of the external services (internal/circuitbreaker/breaker.go): its
  three states, the guard before a call, the bookkeeping after it and the manual reset, and the
  interleavings of calls that overlap.  The wall clock is an argument of every operation that
  reads it.  The notifications \<open>onStateChange\<close> receives are kept in the order they are sent.
\<close>

section \<open>State\<close>

datatype breaker_error = ErrCircuitOpen | ErrTooManyRequests

datatype State = StateClosed | StateOpen | StateHalfOpen

definition State_String :: "State \<Rightarrow> string" where
  "State_String s =
     (case s of StateClosed \<Rightarrow> ''closed'' | StateOpen \<Rightarrow> ''open'' | StateHalfOpen \<Rightarrow> ''half-open'')"

record Config =
  cf_MaxFailures :: int
  cf_OpenTimeout :: int
  cf_HalfOpenMaxRetries :: int

definition DefaultConfig :: Config where
  "DefaultConfig = \<lparr>cf_MaxFailures = 5, cf_OpenTimeout = 5 * 60 * 1000000000, cf_HalfOpenMaxRetries = 3\<rparr>"

record CircuitBreaker =
  cb_name :: string
  cb_config :: Config
  cb_state :: State
  cb_failures :: int
  cb_lastFailureTime :: time
  cb_halfOpenRetries :: int
  cb_inFlightProbe :: bool
  cb_notified :: "(State \<times> State \<times> string) list"

text \<open>The zero \<open>time.Time\<close>, 1 January of year 1.\<close>

definition time_zero :: time where
  "time_zero = Date_UTC 1 1 1"

definition New :: "string \<Rightarrow> Config \<Rightarrow> CircuitBreaker" where
  "New name cfg =
     (let cfg = (if cf_MaxFailures cfg = 0 then cfg\<lparr>cf_MaxFailures := cf_MaxFailures DefaultConfig\<rparr> else cfg);
          cfg = (if cf_OpenTimeout cfg = 0 then cfg\<lparr>cf_OpenTimeout := cf_OpenTimeout DefaultConfig\<rparr> else cfg);
          cfg = (if cf_HalfOpenMaxRetries cfg = 0
                 then cfg\<lparr>cf_HalfOpenMaxRetries := cf_HalfOpenMaxRetries DefaultConfig\<rparr> else cfg)
      in \<lparr>cb_name = name, cb_config = cfg, cb_state = StateClosed, cb_failures = 0,
          cb_lastFailureTime = time_zero, cb_halfOpenRetries = 0, cb_inFlightProbe = False, cb_notified = []\<rparr>)"

section \<open>Operations\<close>

definition transitionTo :: "State \<Rightarrow> string \<Rightarrow> CircuitBreaker \<Rightarrow> CircuitBreaker" where
  "transitionTo newState reason cb =
     (if cb_state cb = newState then cb
      else cb\<lparr>cb_state := newState, cb_notified := cb_notified cb @ [(cb_state cb, newState, reason)]\<rparr>)"

definition beforeCall :: "time \<Rightarrow> CircuitBreaker \<Rightarrow> breaker_error option \<times> CircuitBreaker" where
  "beforeCall now cb =
     (case cb_state cb of
        StateClosed \<Rightarrow> (None, cb)
      | StateOpen \<Rightarrow>
          if now - cb_lastFailureTime cb > cf_OpenTimeout (cb_config cb)
          then (None, (transitionTo StateHalfOpen ''open timeout expired, attempting recovery'' cb)
                        \<lparr>cb_halfOpenRetries := 1, cb_inFlightProbe := True\<rparr>)
          else (Some ErrCircuitOpen, cb)
      | StateHalfOpen \<Rightarrow>
          if cb_inFlightProbe cb then (Some ErrTooManyRequests, cb)
          else if cb_halfOpenRetries cb \<ge> cf_HalfOpenMaxRetries (cb_config cb)
          then (Some ErrTooManyRequests, cb)
          else (None, cb\<lparr>cb_halfOpenRetries := cb_halfOpenRetries cb + 1, cb_inFlightProbe := True\<rparr>))"

definition onSuccess :: "CircuitBreaker \<Rightarrow> CircuitBreaker" where
  "onSuccess cb =
     (case cb_state cb of
        StateClosed \<Rightarrow> cb\<lparr>cb_failures := 0\<rparr>
      | StateHalfOpen \<Rightarrow> (transitionTo StateClosed ''recovery successful'' cb)
                           \<lparr>cb_failures := 0, cb_halfOpenRetries := 0\<rparr>
      | StateOpen \<Rightarrow> cb)"

definition onFailure :: "time \<Rightarrow> string \<Rightarrow> CircuitBreaker \<Rightarrow> CircuitBreaker" where
  "onFailure now err cb =
     (let cb = cb\<lparr>cb_failures := cb_failures cb + 1, cb_lastFailureTime := now\<rparr>
      in case cb_state cb of
           StateClosed \<Rightarrow>
             if cb_failures cb \<ge> cf_MaxFailures (cb_config cb)
             then transitionTo StateOpen (''max failures reached ('' @ Itoa (cb_failures cb) @ ''): '' @ err) cb
             else cb
         | StateHalfOpen \<Rightarrow> (transitionTo StateOpen (''recovery attempt failed: '' @ err) cb)
                              \<lparr>cb_halfOpenRetries := 0\<rparr>
         | StateOpen \<Rightarrow> cb)"

definition afterCall :: "time \<Rightarrow> string option \<Rightarrow> CircuitBreaker \<Rightarrow> CircuitBreaker" where
  "afterCall now err cb =
     (let cb = cb\<lparr>cb_inFlightProbe := False\<rparr>
      in case err of None \<Rightarrow> onSuccess cb | Some e \<Rightarrow> onFailure now e cb)"

text \<open>
  A call that nothing overlaps.  The function called is its error, and the time at which it ends;
  the result tells a refusal of the breaker from the function's own error.
\<close>

definition Call :: "time \<Rightarrow> time \<Rightarrow> string option \<Rightarrow> CircuitBreaker
    \<Rightarrow> (breaker_error + string option) \<times> CircuitBreaker" where
  "Call start finish err cb =
     (case beforeCall start cb of
        (Some e, cb') \<Rightarrow> (Inl e, cb')
      | (None, cb') \<Rightarrow> (Inr err, afterCall finish err cb'))"

definition Reset :: "CircuitBreaker \<Rightarrow> CircuitBreaker" where
  "Reset cb =
     (let cb = (if cb_state cb \<noteq> StateClosed then transitionTo StateClosed ''manual reset'' cb else cb)
      in cb\<lparr>cb_failures := 0, cb_halfOpenRetries := 0, cb_inFlightProbe := False\<rparr>)"

section \<open>Overlapping calls\<close>

text \<open>
  The mutex makes \<open>beforeCall\<close>, \<open>afterCall\<close> and \<open>Reset\<close> atomic, so the runs of the program are the
  interleavings of these steps.  The number counts the admitted calls that have not come back.
  The one thing left out is a panic of the called function, which skips \<open>afterCall\<close>.
\<close>

inductive cb_step :: "CircuitBreaker \<times> nat \<Rightarrow> CircuitBreaker \<times> nat \<Rightarrow> bool" where
  admit: "beforeCall now cb = (None, cb') \<Longrightarrow> cb_step (cb, n) (cb', Suc n)"
| refuse: "beforeCall now cb = (Some e, cb') \<Longrightarrow> cb_step (cb, n) (cb', n)"
| finish: "cb_step (cb, Suc n) (afterCall now err cb, n)"
| reset: "cb_step (cb, n) (Reset cb, n)"

inductive cb_reach :: "Config \<Rightarrow> CircuitBreaker \<times> nat \<Rightarrow> bool" for cfg where
  start: "cb_reach cfg (New name cfg, 0)"
| step: "cb_reach cfg s \<Longrightarrow> cb_step s s' \<Longrightarrow> cb_reach cfg s'"

text \<open>
  The states of the breaker that occur: closed and open states have no probe and no retries counted,
  a half-open state has exactly one.
\<close>

definition cb_ok :: "CircuitBreaker \<Rightarrow> bool" where
  "cb_ok cb \<longleftrightarrow>
     0 \<le> cb_failures cb \<and>
     (case cb_state cb of
        StateClosed \<Rightarrow> \<not> cb_inFlightProbe cb \<and> cb_halfOpenRetries cb = 0 \<and>
                       (0 < cf_MaxFailures (cb_config cb) \<longrightarrow> cb_failures cb < cf_MaxFailures (cb_config cb))
      | StateOpen \<Rightarrow> \<not> cb_inFlightProbe cb \<and> cb_halfOpenRetries cb = 0 \<and> 0 < cb_failures cb
      | StateHalfOpen \<Rightarrow> cb_inFlightProbe cb \<and> cb_halfOpenRetries cb = 1)"

lemmas breaker_defs = beforeCall_def afterCall_def onSuccess_def onFailure_def Reset_def transitionTo_def Let_def

lemma transitionTo_simps [simp]:
  "cb_state (transitionTo s r cb) = s" "cb_config (transitionTo s r cb) = cb_config cb"
  "cb_failures (transitionTo s r cb) = cb_failures cb"
  "cb_lastFailureTime (transitionTo s r cb) = cb_lastFailureTime cb"
  "cb_halfOpenRetries (transitionTo s r cb) = cb_halfOpenRetries cb"
  "cb_inFlightProbe (transitionTo s r cb) = cb_inFlightProbe cb"
  by (auto simp: transitionTo_def)

lemma New_ok: "cb_ok (New name cfg)"
  by (simp add: cb_ok_def New_def DefaultConfig_def Let_def)

lemma beforeCall_ok: "cb_ok cb \<Longrightarrow> cb_ok (snd (beforeCall now cb))"
  by (auto simp: cb_ok_def beforeCall_def split: State.splits)

lemma afterCall_ok: "cb_ok cb \<Longrightarrow> cb_ok (afterCall now err cb)"
  by (auto simp: cb_ok_def afterCall_def onSuccess_def onFailure_def Let_def
        split: State.splits option.splits)

lemma Reset_ok: "cb_ok (Reset cb)"
  by (auto simp: cb_ok_def Reset_def Let_def)

lemma cb_config_const [simp]:
  "cb_config (snd (beforeCall now cb)) = cb_config cb"
  "cb_config (afterCall now err cb) = cb_config cb"
  "cb_config (Reset cb) = cb_config cb"
  by (auto simp: breaker_defs split: State.splits option.splits)


section \<open>Reachable states\<close>

text \<open>A half-open breaker has a probe out: one of the admitted calls is still to come back.\<close>

definition cb_inv :: "Config \<Rightarrow> CircuitBreaker \<times> nat \<Rightarrow> bool" where
  "cb_inv cfg s \<longleftrightarrow>
     cb_ok (fst s) \<and> cb_config (fst s) = cb_config (New [] cfg) \<and>
     (cb_state (fst s) = StateHalfOpen \<longrightarrow> 0 < snd s)"

lemma New_config: "cb_config (New name cfg) = cb_config (New [] cfg)"
  by (simp add: New_def Let_def)

lemma beforeCall_halfopen:
  "cb_state (snd (beforeCall now cb)) = StateHalfOpen \<Longrightarrow>
   cb_state cb = StateHalfOpen \<or> fst (beforeCall now cb) = None"
  by (auto simp: beforeCall_def split: State.splits if_splits)

lemma beforeCall_refused: "beforeCall now cb = (Some e, cb') \<Longrightarrow> cb' = cb"
  by (auto simp: beforeCall_def split: State.splits if_splits)

lemma afterCall_not_halfopen: "cb_state (afterCall now err cb) \<noteq> StateHalfOpen"
  by (auto simp: breaker_defs split: State.splits option.splits)

lemma Reset_closed [simp]: "cb_state (Reset cb) = StateClosed" "cb_failures (Reset cb) = 0"
  by (simp_all add: Reset_def Let_def)

lemma cb_step_inv: "cb_step s s' \<Longrightarrow> cb_inv cfg s \<Longrightarrow> cb_inv cfg s'"
proof (induction rule: cb_step.induct)
  case (admit now cb cb' n)
  then show ?case using beforeCall_ok [of cb now] cb_config_const(1) [of now cb] by (simp add: cb_inv_def)
next
  case (refuse now cb e cb' n)
  then show ?case using beforeCall_refused [OF refuse.hyps] by simp
next
  case (finish cb n now err)
  then show ?case by (simp add: cb_inv_def afterCall_ok afterCall_not_halfopen)
next
  case (reset cb n)
  then show ?case by (simp add: cb_inv_def Reset_ok)
qed

lemma cb_reach_inv: "cb_reach cfg s \<Longrightarrow> cb_inv cfg s"
proof (induction rule: cb_reach.induct)
  case (start name)
  show ?case using New_ok [of name cfg] New_config [of name cfg]
    by (simp add: cb_inv_def) (simp add: New_def Let_def)
qed (rule cb_step_inv)

lemma halfopen_refuses:
  "cb_ok cb \<Longrightarrow> cb_state cb = StateHalfOpen \<Longrightarrow> beforeCall now cb = (Some ErrTooManyRequests, cb)"
  by (simp add: cb_ok_def beforeCall_def)

lemma open_admits:
  "cb_state cb = StateOpen \<Longrightarrow> start - cb_lastFailureTime cb > cf_OpenTimeout (cb_config cb) \<Longrightarrow>
   beforeCall start cb = (None, (transitionTo StateHalfOpen ''open timeout expired, attempting recovery'' cb)
                                  \<lparr>cb_halfOpenRetries := 1, cb_inFlightProbe := True\<rparr>)"
  by (simp add: beforeCall_def)

lemma success_closes:
  assumes "cb_state cb \<noteq> StateOpen"
  shows "cb_state (afterCall t None cb) = StateClosed" and "cb_failures (afterCall t None cb) = 0"
  using assms by (auto simp: afterCall_def onSuccess_def Let_def split: State.splits)

lemma quiescent_recovers:
  assumes "cb_ok cb" and "cb_state cb \<noteq> StateHalfOpen"
    and "cb_state cb = StateOpen \<longrightarrow> start - cb_lastFailureTime cb > cf_OpenTimeout (cb_config cb)"
  shows "\<exists>cb'. Call start finish None cb = (Inr None, cb') \<and> cb_state cb' = StateClosed \<and> cb_failures cb' = 0"
proof (cases "cb_state cb")
  case StateClosed
  then show ?thesis by (simp add: Call_def beforeCall_def success_closes)
next
  case StateOpen
  then show ?thesis using assms(3) by (simp add: Call_def open_admits success_closes)
qed (use assms in simp)

section \<open>Sequences of calls\<close>

primrec callAll :: "(time \<times> time \<times> string option) list \<Rightarrow> CircuitBreaker
    \<Rightarrow> (breaker_error + string option) list \<times> CircuitBreaker" where
  "callAll [] cb = ([], cb)"
| "callAll (c # cs) cb =
     (let (r, cb1) = Call (fst c) (fst (snd c)) (snd (snd c)) cb; (rs, cb2) = callAll cs cb1 in (r # rs, cb2))"

lemma Call_closed_fail:
  assumes "cb_state cb = StateClosed" and "cb_failures cb + 1 < cf_MaxFailures (cb_config cb)"
  shows "Call a b (Some e) cb =
     (Inr (Some e), cb\<lparr>cb_inFlightProbe := False, cb_failures := cb_failures cb + 1, cb_lastFailureTime := b\<rparr>)"
  using assms by (simp add: Call_def breaker_defs)

lemma Call_closed_opens:
  assumes "cb_state cb = StateClosed" and "cf_MaxFailures (cb_config cb) \<le> cb_failures cb + 1"
  shows "\<exists>cb'. Call a b (Some e) cb = (Inr (Some e), cb') \<and> cb_state cb' = StateOpen \<and>
     cb_failures cb' = cb_failures cb + 1 \<and> cb_lastFailureTime cb' = b \<and> cb_config cb' = cb_config cb"
  using assms by (simp add: Call_def beforeCall_def afterCall_def onFailure_def Let_def)

lemma open_refuses:
  "cb_state cb = StateOpen \<Longrightarrow> start - cb_lastFailureTime cb \<le> cf_OpenTimeout (cb_config cb) \<Longrightarrow>
   Call start fin err cb = (Inl ErrCircuitOpen, cb)"
  by (simp add: Call_def beforeCall_def)

lemma callAll_closed:
  assumes "cb_state cb = StateClosed" and "cb_failures cb + int (length cs) < cf_MaxFailures (cb_config cb)"
    and "\<forall>c\<in>set cs. snd (snd c) \<noteq> None"
  shows "\<exists>cb'. callAll cs cb = (map (\<lambda>c. Inr (snd (snd c))) cs, cb') \<and> cb_state cb' = StateClosed \<and>
     cb_failures cb' = cb_failures cb + int (length cs) \<and> cb_config cb' = cb_config cb"
  using assms
proof (induction cs arbitrary: cb)
  case (Cons c cs)
  obtain a b e where c: "c = (a, b, Some e)" using Cons.prems(3) by (cases c) auto
  let ?cb = "cb\<lparr>cb_inFlightProbe := False, cb_failures := cb_failures cb + 1, cb_lastFailureTime := b\<rparr>"
  have "Call a b (Some e) cb = (Inr (Some e), ?cb)" using Cons.prems by (intro Call_closed_fail) auto
  with Cons.IH [of ?cb] Cons.prems c show ?case by auto
qed simp

lemma callAll_append:
  "callAll (cs @ ds) cb = (fst (callAll cs cb) @ fst (callAll ds (snd (callAll cs cb))),
                          snd (callAll ds (snd (callAll cs cb))))"
  by (induction cs arbitrary: cb) (simp_all add: Let_def split_beta)

section \<open>Properties\<close>

text \<open>
  C36: Consecutive failures open the breaker exactly at MaxFailures.  From a closed breaker with no
  failures counted, failing calls are all let through and return their own error; while there are
  fewer than MaxFailures of them the breaker stays closed, and the one that makes them MaxFailures
  opens it.  From then on every call that starts no later than OpenTimeout after that failure is
  refused with ErrCircuitOpen, without calling the function and without changing the breaker.
\<close>

theorem breaker_opens:
  assumes "cb_state cb = StateClosed" and "cb_failures cb = 0"
    and "int (length cs) + 1 = cf_MaxFailures (cb_config cb)"
    and "\<forall>c\<in>set (cs @ [(a, b, Some e)]). snd (snd c) \<noteq> None"
  shows "cb_state (snd (callAll cs cb)) = StateClosed \<and>
    fst (callAll (cs @ [(a, b, Some e)]) cb) = map (\<lambda>c. Inr (snd (snd c))) (cs @ [(a, b, Some e)]) \<and>
    cb_state (snd (callAll (cs @ [(a, b, Some e)]) cb)) = StateOpen \<and>
    (\<forall>start fin err. start \<le> b + cf_OpenTimeout (cb_config cb) \<longrightarrow>
       Call start fin err (snd (callAll (cs @ [(a, b, Some e)]) cb))
         = (Inl ErrCircuitOpen, snd (callAll (cs @ [(a, b, Some e)]) cb)))"
proof -
  obtain cb1 where 1: "callAll cs cb = (map (\<lambda>c. Inr (snd (snd c))) cs, cb1)" "cb_state cb1 = StateClosed"
      "cb_failures cb1 = int (length cs)" "cb_config cb1 = cb_config cb"
    using callAll_closed [of cb cs] assms by auto
  obtain cb2 where 2: "Call a b (Some e) cb1 = (Inr (Some e), cb2)" "cb_state cb2 = StateOpen"
      "cb_lastFailureTime cb2 = b" "cb_config cb2 = cb_config cb"
    using Call_closed_opens [of cb1 a b e] 1 assms(3) by auto
  have 3: "callAll (cs @ [(a, b, Some e)]) cb = (map (\<lambda>c. Inr (snd (snd c))) (cs @ [(a, b, Some e)]), cb2)"
    using 1 2 by (simp add: callAll_append)
  have "Call start fin err cb2 = (Inl ErrCircuitOpen, cb2)"
    if "start \<le> b + cf_OpenTimeout (cb_config cb)" for start fin err
    using open_refuses [of cb2 start fin err] 2 that by simp
  then show ?thesis using 1 2 unfolding 3 by simp
qed

theorem breaker_opens_witness:
  "cb_state (snd (callAll [(1, 2, Some ''timeout''), (3, 4, Some ''timeout'')]
     (New ''stripe'' \<lparr>cf_MaxFailures = 2, cf_OpenTimeout = 0, cf_HalfOpenMaxRetries = 0\<rparr>))) = StateOpen"
proof -
  let ?cb = "New ''stripe'' \<lparr>cf_MaxFailures = 2, cf_OpenTimeout = 0, cf_HalfOpenMaxRetries = 0\<rparr>"
  have "cb_state ?cb = StateClosed" "cb_failures ?cb = 0" "cf_MaxFailures (cb_config ?cb) = 2"
    by (simp_all add: New_def DefaultConfig_def Let_def)
  then show ?thesis
    using breaker_opens [of ?cb "[(1, 2, Some ''timeout'')]" 3 4 "''timeout''"] by simp
qed

text \<open>
  C37: The breaker recovers, and probes are one at a time.  However calls overlap, in every reachable
  state: a half-open breaker is waiting for one of the calls it admitted, so it refuses every other
  call, and it leaves that state as soon as any admitted call comes back; when no call is out the
  breaker is not half-open, and once OpenTimeout has passed since the last failure a call is let
  through whose success closes the breaker and clears its failures.
\<close>

theorem breaker_recovers:
  assumes "cb_reach cfg (cb, n)"
  shows "(cb_state cb = StateHalfOpen \<longrightarrow>
            0 < n \<and> (\<forall>now. beforeCall now cb = (Some ErrTooManyRequests, cb)) \<and>
            (\<forall>now err. cb_state (afterCall now err cb) \<noteq> StateHalfOpen))
    \<and> (n = 0 \<longrightarrow> cb_state cb \<noteq> StateHalfOpen \<and>
         (\<forall>start fin. start > cb_lastFailureTime cb + cf_OpenTimeout (cb_config cb) \<longrightarrow>
            (\<exists>cb'. Call start fin None cb = (Inr None, cb') \<and> cb_state cb' = StateClosed \<and>
                   cb_failures cb' = 0)))"
proof -
  have ok: "cb_ok cb" and half: "cb_state cb = StateHalfOpen \<longrightarrow> 0 < n"
    using cb_reach_inv [OF assms] by (simp_all add: cb_inv_def)
  show ?thesis
  proof (intro conjI impI allI)
    fix start fin assume n: "n = 0" and "start > cb_lastFailureTime cb + cf_OpenTimeout (cb_config cb)"
    then show "\<exists>cb'. Call start fin None cb = (Inr None, cb') \<and> cb_state cb' = StateClosed \<and> cb_failures cb' = 0"
      using half by (intro quiescent_recovers [OF ok]) auto
  qed (use half ok in \<open>auto simp: halfopen_refuses afterCall_not_halfopen\<close>)
qed

theorem breaker_recovers_witness:
  "\<exists>cb'. Call 10 11 None (New ''mail'' DefaultConfig) = (Inr None, cb') \<and> cb_state cb' = StateClosed \<and>
         cb_failures cb' = 0"
proof -
  have "(10::int) > cb_lastFailureTime (New ''mail'' DefaultConfig)
          + cf_OpenTimeout (cb_config (New ''mail'' DefaultConfig))" by code_simp
  then show ?thesis
    using breaker_recovers [OF cb_reach.start [of DefaultConfig "''mail''"]] by blast
qed

section \<open>What serialising the probes does not give\<close>

text \<open>
  A call admitted while the breaker was closed, and coming back late, is taken for the probe: its
  success closes a half-open breaker whose probe is still out, and the failure of that probe is
  then counted in the closed state.
\<close>

theorem stale_success_closes:
  "\<exists>cb1 cb2. cb_reach cfg (cb1, 2) \<and> cb_state cb1 = StateHalfOpen \<and>
     cb_step (cb1, 2) (cb2, 1) \<and> cb_state cb2 = StateClosed"
  if "cfg = \<lparr>cf_MaxFailures = 1, cf_OpenTimeout = 1, cf_HalfOpenMaxRetries = 1\<rparr>"
proof -
  let ?c0 = "New [] cfg" and ?c1 = "afterCall 0 (Some []) (New [] cfg)"
  let ?c2 = "snd (beforeCall 9 ?c1)"
  have b0: "beforeCall 0 ?c0 = (None, ?c0)" by (simp add: beforeCall_def New_def Let_def)
  have b1: "beforeCall 9 ?c1 = (None, ?c2)" and h: "cb_state ?c2 = StateHalfOpen"
    unfolding that by code_simp+
  have "cb_reach cfg (?c0, 0)" by (rule cb_reach.start)
  from cb_reach.step [OF this cb_step.admit [OF b0]] have "cb_reach cfg (?c0, 1)" by simp
  from cb_reach.step [OF this cb_step.admit [OF b0]] have "cb_reach cfg (?c0, Suc 1)" by simp
  from cb_reach.step [OF this cb_step.finish] have "cb_reach cfg (?c1, 1)" .
  from cb_reach.step [OF this cb_step.admit [OF b1]] have r: "cb_reach cfg (?c2, 2)" by (simp add: numeral_2_eq_2)
  have "cb_step (?c2, 2) (afterCall 10 None ?c2, 1)" using cb_step.finish [of ?c2 1 10 None] by (simp add: numeral_2_eq_2)
  moreover have "cb_state (afterCall 10 None ?c2) = StateClosed" using h by (intro success_closes) simp
  ultimately show ?thesis using r h by (intro exI conjI)
qed

end
