(* ===== verification/Rate_Limit.thy ===== *)
theory Rate_Limit
  imports Go_Time
begin

text \<open>
  The in-memory request limiter of the public API (internal/ratelimit/ratelimit.go): one sliding
  window per key, the minute-by-minute cleanup, and the table of limiters behind the checks of the
  handlers.  Every read of the wall clock is an argument.  A limiter's mutex makes \<open>Allow\<close> and a
  cleanup tick atomic.
\<close>

section \<open>One limiter\<close>

record Limiter =
  li_counters :: "string \<rightharpoonup> time list"
  li_window :: int
  li_max :: int

definition NewLimiter :: "int \<Rightarrow> int \<Rightarrow> Limiter" where
  "NewLimiter window mx = \<lparr>li_counters = (\<lambda>_. None), li_window = window, li_max = mx\<rparr>"

definition pruneBefore :: "time list \<Rightarrow> time \<Rightarrow> time list" where
  "pruneBefore ts cutoff = filter (\<lambda>t. cutoff < t) ts"

definition Allow :: "time \<Rightarrow> string \<Rightarrow> Limiter \<Rightarrow> bool \<times> Limiter" where
  "Allow now key l =
     (let c = (case li_counters l key of None \<Rightarrow> [] | Some ts \<Rightarrow> ts);
          c = pruneBefore c (now - li_window l)
      in if int (length c) \<ge> li_max l
         then (False, l\<lparr>li_counters := (li_counters l)(key \<mapsto> c)\<rparr>)
         else (True, l\<lparr>li_counters := (li_counters l)(key \<mapsto> c @ [now])\<rparr>))"

definition GetRemaining :: "time \<Rightarrow> string \<Rightarrow> Limiter \<Rightarrow> int" where
  "GetRemaining now key l =
     (case li_counters l key of
        None \<Rightarrow> li_max l
      | Some ts \<Rightarrow>
          let active = length (filter (\<lambda>t. now - li_window l < t) ts);
              remaining = li_max l - int active
          in if remaining < 0 then 0 else remaining)"

text \<open>One tick of the cleanup goroutine.\<close>

definition cleanup :: "time \<Rightarrow> Limiter \<Rightarrow> Limiter" where
  "cleanup now l =
     l\<lparr>li_counters := (\<lambda>key. case li_counters l key of
          None \<Rightarrow> None
        | Some ts \<Rightarrow> (let c = pruneBefore ts (now - li_window l) in if c = [] then None else Some c))\<rparr>"

section \<open>The limiters of the API\<close>

type_synonym MultiKeyLimiter = "string \<rightharpoonup> Limiter"

abbreviation second :: int where "second \<equiv> 1000000000"
abbreviation minute :: int where "minute \<equiv> 60 * second"
abbreviation hour :: int where "hour \<equiv> 60 * minute"

definition NewMultiKeyLimiter :: MultiKeyLimiter where
  "NewMultiKeyLimiter = map_of
     [(''ip_order'', NewLimiter (10 * minute) 100),
      (''email_order'', NewLimiter (10 * minute) 100),
      (''ip_validate'', NewLimiter minute 20),
      (''ip_support'', NewLimiter (10 * minute) 5),
      (''email_support'', NewLimiter (10 * minute) 10),
      (''email_account_login'', NewLimiter (10 * minute) 10),
      (''ip_account_login'', NewLimiter (10 * minute) 10),
      (''ip_account_verify'', NewLimiter (10 * minute) 30),
      (''email_account_verify'', NewLimiter (10 * minute) 10),
      (''challenge_account_verify'', NewLimiter (10 * minute) 10),
      (''ip_subscribe'', NewLimiter (10 * minute) 10),
      (''email_subscribe'', NewLimiter (10 * minute) 5)]"

definition NewCustomMultiKeyLimiter :: "int \<Rightarrow> int \<Rightarrow> int \<Rightarrow> MultiKeyLimiter" where
  "NewCustomMultiKeyLimiter ipOrderLimit emailOrderLimit ipValidateLimit = map_of
     [(''ip_order'', NewLimiter hour ipOrderLimit),
      (''email_order'', NewLimiter hour emailOrderLimit),
      (''ip_validate'', NewLimiter minute ipValidateLimit)]"

text \<open>
  A check passes, is refused with a message, or panics: a name missing from the table is a nil
  limiter, whose mutex cannot be taken.
\<close>

datatype check = Passed | Refused string | NilLimiter

definition passLimit :: "string \<Rightarrow> string \<Rightarrow> string \<Rightarrow> time \<Rightarrow> (MultiKeyLimiter \<Rightarrow> check \<times> MultiKeyLimiter)
    \<Rightarrow> MultiKeyLimiter \<Rightarrow> check \<times> MultiKeyLimiter" where
  "passLimit name key msg now rest m =
     (case m name of
        None \<Rightarrow> (NilLimiter, m)
      | Some l \<Rightarrow>
          let (ok, l') = Allow now key l; m' = m(name \<mapsto> l')
          in if ok then rest m' else (Refused msg, m'))"

abbreviation passed :: "MultiKeyLimiter \<Rightarrow> check \<times> MultiKeyLimiter" where
  "passed m \<equiv> (Passed, m)"

text \<open>The times are those of the successive limiters a check asks.\<close>

definition CheckOrderCreation :: "string \<Rightarrow> string \<Rightarrow> time \<Rightarrow> time \<Rightarrow> MultiKeyLimiter \<Rightarrow> check \<times> MultiKeyLimiter" where
  "CheckOrderCreation ip email t1 t2 =
     passLimit ''ip_order'' ip ''too many orders from this IP address, please try again later'' t1
       (\<lambda>m. if email \<noteq> []
            then passLimit ''email_order'' email ''too many orders from this email address, please try again later'' t2 passed m
            else passed m)"

definition CheckValidation :: "string \<Rightarrow> time \<Rightarrow> MultiKeyLimiter \<Rightarrow> check \<times> MultiKeyLimiter" where
  "CheckValidation ip t1 =
     passLimit ''ip_validate'' ip ''too many validation requests, please slow down'' t1 passed"

definition CheckSupportTicket :: "string \<Rightarrow> string \<Rightarrow> time \<Rightarrow> time \<Rightarrow> MultiKeyLimiter \<Rightarrow> check \<times> MultiKeyLimiter" where
  "CheckSupportTicket ip email t1 t2 =
     passLimit ''ip_support'' ip ''too many support tickets from this IP address, please try again later'' t1
       (\<lambda>m. if email \<noteq> []
            then passLimit ''email_support'' email ''too many support tickets from this email address, please try again later'' t2 passed m
            else passed m)"

definition CheckSubscribe :: "string \<Rightarrow> string \<Rightarrow> time \<Rightarrow> time \<Rightarrow> MultiKeyLimiter \<Rightarrow> check \<times> MultiKeyLimiter" where
  "CheckSubscribe ip email t1 t2 =
     passLimit ''ip_subscribe'' ip ''too many subscription requests from this IP address, please try again later'' t1
       (\<lambda>m. if email \<noteq> []
            then passLimit ''email_subscribe'' email ''too many subscription requests for this email, please try again later'' t2 passed m
            else passed m)"

definition CheckOrderInvoiceIP :: "string \<Rightarrow> time \<Rightarrow> MultiKeyLimiter \<Rightarrow> check \<times> MultiKeyLimiter" where
  "CheckOrderInvoiceIP ip t1 =
     passLimit ''ip_support'' ip ''too many requests from this IP address, please try again later'' t1 passed"

definition CheckAccountLoginRequest :: "string \<Rightarrow> string \<Rightarrow> time \<Rightarrow> time \<Rightarrow> MultiKeyLimiter \<Rightarrow> check \<times> MultiKeyLimiter" where
  "CheckAccountLoginRequest ip email t1 t2 =
     passLimit ''ip_account_login'' ip ''too many login requests from this network, please try again later'' t1
       (\<lambda>m. if email \<noteq> []
            then passLimit ''email_account_login'' email ''too many login requests for this email, please try again later'' t2 passed m
            else passed m)"

definition CheckAccountVerify :: "string \<Rightarrow> string \<Rightarrow> string \<Rightarrow> time \<Rightarrow> time \<Rightarrow> time \<Rightarrow> MultiKeyLimiter
    \<Rightarrow> check \<times> MultiKeyLimiter" where
  "CheckAccountVerify ip email challengeKey t1 t2 t3 =
     (let challenge = (\<lambda>m. if challengeKey \<noteq> []
            then passLimit ''challenge_account_verify'' challengeKey ''too many attempts, please try again later'' t3 passed m
            else passed m)
      in passLimit ''ip_account_verify'' ip ''too many attempts, please try again later'' t1
       (\<lambda>m. if email \<noteq> []
            then passLimit ''email_account_verify'' email ''too many attempts for this email, please try again later'' t2 challenge m
            else challenge m))"

definition GetOrderLimits :: "string \<Rightarrow> string \<Rightarrow> time \<Rightarrow> time \<Rightarrow> MultiKeyLimiter \<Rightarrow> (int \<times> int) option" where
  "GetOrderLimits ip email t1 t2 m =
     (case m ''ip_order'' of
        None \<Rightarrow> None
      | Some l \<Rightarrow>
          let ipRemaining = GetRemaining t1 ip l
          in if email \<noteq> [] then map_option (\<lambda>l. (ipRemaining, GetRemaining t2 email l)) (m ''email_order'')
             else Some (ipRemaining, -1))"

section \<open>The specification: a history of admissions\<close>

text \<open>
  What a limiter promises, without counters, pruning or cleanup: it remembers every request it has
  admitted, and admits a request when fewer than \<open>max\<close> of the same key lie in the window that
  ends now.
\<close>

type_synonym history = "(string \<times> time) list"

definition in_window :: "int \<Rightarrow> string \<Rightarrow> time \<Rightarrow> history \<Rightarrow> nat" where
  "in_window w key now h = length (filter (\<lambda>a. fst a = key \<and> now - w < snd a \<and> snd a \<le> now) h)"

datatype limiter_op = AllowOp string | RemainingOp string | CleanupTick

datatype answer = Allowed bool | Left int | NoAnswer

fun limiter_step :: "time \<Rightarrow> limiter_op \<Rightarrow> Limiter \<Rightarrow> answer \<times> Limiter" where
  "limiter_step now (AllowOp key) l = (let (b, l') = Allow now key l in (Allowed b, l'))"
| "limiter_step now (RemainingOp key) l = (Left (GetRemaining now key l), l)"
| "limiter_step now CleanupTick l = (NoAnswer, cleanup now l)"

fun spec_step :: "int \<Rightarrow> int \<Rightarrow> time \<Rightarrow> limiter_op \<Rightarrow> history \<Rightarrow> answer \<times> history" where
  "spec_step w mx now (AllowOp key) h =
     (if int (in_window w key now h) < mx then (Allowed True, h @ [(key, now)]) else (Allowed False, h))"
| "spec_step w mx now (RemainingOp key) h =
     (Left (max 0 (mx - int (in_window w key now h))), h)"
| "spec_step w mx now CleanupTick h = (NoAnswer, h)"

primrec limiter_run :: "(time \<times> limiter_op) list \<Rightarrow> Limiter \<Rightarrow> answer list \<times> Limiter" where
  "limiter_run [] l = ([], l)"
| "limiter_run (o1 # os) l =
     (let (a, l1) = limiter_step (fst o1) (snd o1) l; (as, l2) = limiter_run os l1 in (a # as, l2))"

primrec spec_run :: "int \<Rightarrow> int \<Rightarrow> (time \<times> limiter_op) list \<Rightarrow> history \<Rightarrow> answer list \<times> history" where
  "spec_run w mx [] h = ([], h)"
| "spec_run w mx (o1 # os) h =
     (let (a, h1) = spec_step w mx (fst o1) (snd o1) h; (as, h2) = spec_run w mx os h1 in (a # as, h2))"


section \<open>Simulation\<close>

definition stamps :: "Limiter \<Rightarrow> string \<Rightarrow> time list" where
  "stamps l key = (case li_counters l key of None \<Rightarrow> [] | Some ts \<Rightarrow> ts)"

definition kept :: "string \<Rightarrow> time \<Rightarrow> history \<Rightarrow> time list" where
  "kept key cutoff h = map snd (filter (\<lambda>a. fst a = key \<and> cutoff < snd a) h)"

text \<open>
  At any time from \<open>t0\<close> on, the stamps of a key above the cutoff are those of the history: what has
  been pruned was below a cutoff that has only moved up.
\<close>

definition sim :: "int \<Rightarrow> int \<Rightarrow> time \<Rightarrow> Limiter \<Rightarrow> history \<Rightarrow> bool" where
  "sim w mx t0 l h \<longleftrightarrow>
     li_window l = w \<and> li_max l = mx \<and> (\<forall>a\<in>set h. snd a \<le> t0) \<and>
     (\<forall>key cutoff. t0 - w \<le> cutoff \<longrightarrow> pruneBefore (stamps l key) cutoff = kept key cutoff h)"

lemma simI:
  assumes "li_window l = w" and "li_max l = mx" and "\<And>a. a \<in> set h \<Longrightarrow> snd a \<le> t0"
    and "\<And>key cutoff. t0 - w \<le> cutoff \<Longrightarrow> pruneBefore (stamps l key) cutoff = kept key cutoff h"
  shows "sim w mx t0 l h"
  using assms by (simp add: sim_def)

lemma simD:
  assumes "sim w mx t0 l h"
  shows "li_window l = w" "li_max l = mx" "a \<in> set h \<Longrightarrow> snd a \<le> t0"
    "t0 - w \<le> cutoff \<Longrightarrow> pruneBefore (stamps l key) cutoff = kept key cutoff h"
  using assms by (auto simp: sim_def)

lemma sim_New: "sim w mx t0 (NewLimiter w mx) []"
  by (simp add: sim_def NewLimiter_def stamps_def kept_def pruneBefore_def)

lemma pruneBefore_idem [simp]: "c \<le> d \<Longrightarrow> pruneBefore (pruneBefore ts c) d = pruneBefore ts d"
  by (induction ts) (auto simp: pruneBefore_def)

lemma pruneBefore_append [simp]: "pruneBefore (xs @ ys) c = pruneBefore xs c @ pruneBefore ys c"
  by (simp add: pruneBefore_def)

lemma kept_append [simp]: "kept key c (h @ h') = kept key c h @ kept key c h'"
  by (simp add: kept_def)

lemma in_window_kept:
  "\<forall>a\<in>set h. snd a \<le> now \<Longrightarrow> in_window w key now h = length (kept key (now - w) h)"
  unfolding in_window_def kept_def by (auto intro!: arg_cong [where f = length] filter_cong)

lemma Allow_stamps:
  "Allow now key l =
     (let c = pruneBefore (stamps l key) (now - li_window l)
      in if int (length c) \<ge> li_max l then (False, l\<lparr>li_counters := (li_counters l)(key \<mapsto> c)\<rparr>)
         else (True, l\<lparr>li_counters := (li_counters l)(key \<mapsto> c @ [now])\<rparr>))"
  by (simp add: Allow_def stamps_def)

lemma stamps_upd [simp]:
  "stamps (l\<lparr>li_counters := (li_counters l)(key \<mapsto> c)\<rparr>) key' = (if key' = key then c else stamps l key')"
  by (simp add: stamps_def)

lemma sim_Allow:
  assumes "sim w mx t0 l h" and "t0 \<le> now"
  shows "fst (Allow now key l) = (int (in_window w key now h) < mx)"
    and "sim w mx now (snd (Allow now key l)) (if fst (Allow now key l) then h @ [(key, now)] else h)"
proof -
  let ?c = "pruneBefore (stamps l key) (now - w)"
  have c: "?c = kept key (now - w) h" using assms(2) by (intro simD(4) [OF assms(1)]) simp
  have le: "\<forall>a\<in>set h. snd a \<le> now" using simD(3) [OF assms(1)] assms(2) by fastforce
  show a: "fst (Allow now key l) = (int (in_window w key now h) < mx)"
    using simD(1,2) [OF assms(1)] c le by (simp add: Allow_stamps Let_def in_window_kept not_le)
  have pr: "pruneBefore (stamps l k) cutoff = kept k cutoff h" if "now - w \<le> cutoff" for k cutoff
    using assms(2) that by (intro simD(4) [OF assms(1)]) simp
  have up: "sim w mx now (l\<lparr>li_counters := (li_counters l)(key \<mapsto> ?c @ ts)\<rparr>) (h @ map (Pair key) ts)"
    if "\<forall>t\<in>set ts. t = now" for ts
  proof (rule simI)
    fix k cutoff assume k: "now - w \<le> cutoff"
    have "pruneBefore ts cutoff = kept key cutoff (map (Pair key) ts)"
      by (induction ts) (auto simp: pruneBefore_def kept_def)
    moreover have "kept k cutoff (map (Pair key) ts) = []" if "k \<noteq> key"
      using that by (auto simp: kept_def)
    ultimately show "pruneBefore (stamps (l\<lparr>li_counters := (li_counters l)(key \<mapsto> ?c @ ts)\<rparr>) k) cutoff
        = kept k cutoff (h @ map (Pair key) ts)"
      using k pr [OF k] by simp
  qed (use simD(1,2) [OF assms(1)] le that in auto)
  show "sim w mx now (snd (Allow now key l)) (if fst (Allow now key l) then h @ [(key, now)] else h)"
    using up [of "[]"] up [of "[now]"] simD(1,2) [OF assms(1)] by (simp add: Allow_stamps Let_def)
qed

lemma sim_later: "sim w mx t0 l h \<Longrightarrow> t0 \<le> now \<Longrightarrow> sim w mx now l h"
  by (fastforce simp: sim_def)

lemma sim_cleanup:
  assumes "sim w mx t0 l h" and "t0 \<le> now"
  shows "sim w mx now (cleanup now l) h"
proof (rule simI)
  fix key cutoff assume cut: "now - w \<le> cutoff"
  have "stamps (cleanup now l) key = pruneBefore (stamps l key) (now - w)"
    using simD(1) [OF assms(1)]
    by (auto simp: stamps_def cleanup_def Let_def pruneBefore_def split: option.splits)
  then have "pruneBefore (stamps (cleanup now l) key) cutoff = pruneBefore (stamps l key) cutoff"
    using cut by simp
  also have "\<dots> = kept key cutoff h" using simD(4) [OF sim_later [OF assms] cut] .
  finally show "pruneBefore (stamps (cleanup now l) key) cutoff = kept key cutoff h" .
qed (use simD(1-3) [OF sim_later [OF assms]] in \<open>auto simp: cleanup_def\<close>)

lemma sim_Remaining:
  assumes "sim w mx t0 l h" and "t0 \<le> now" and "0 \<le> mx"
  shows "GetRemaining now key l = max 0 (mx - int (in_window w key now h))"
proof -
  have "\<forall>a\<in>set h. snd a \<le> now" using simD(3) [OF assms(1)] assms(2) by fastforce
  then have "in_window w key now h = length (pruneBefore (stamps l key) (now - w))"
    using simD(4) [OF sim_later [OF assms(1,2)]] by (simp add: in_window_kept)
  then show ?thesis using simD(1,2) [OF assms(1)] assms(3)
    by (auto simp: GetRemaining_def stamps_def pruneBefore_def Let_def split: option.splits)
qed

lemma sim_step:
  assumes "sim w mx t0 l h" and "t0 \<le> now" and "0 \<le> mx"
  shows "fst (limiter_step now op l) = fst (spec_step w mx now op h) \<and>
    sim w mx now (snd (limiter_step now op l)) (snd (spec_step w mx now op h))"
proof (cases op)
  case (AllowOp key)
  then show ?thesis using sim_Allow [OF assms(1,2), of key]
    by (cases "fst (Allow now key l)") (auto simp: split_beta)
next
  case (RemainingOp key)
  then show ?thesis using sim_Remaining [OF assms, of key] sim_later [OF assms(1,2)] by simp
next
  case CleanupTick
  then show ?thesis using sim_cleanup [OF assms(1,2)] by simp
qed

lemma sim_run:
  assumes "sim w mx t0 l h" and "sorted (t0 # map fst os)" and "0 \<le> mx"
  shows "fst (limiter_run os l) = fst (spec_run w mx os h) \<and>
    (\<exists>t. sim w mx t (snd (limiter_run os l)) (snd (spec_run w mx os h)))"
  using assms(1,2)
proof (induction os arbitrary: t0 l h)
  case (Cons o1 os)
  have "t0 \<le> fst o1" using Cons.prems(2) by simp
  from sim_step [OF Cons.prems(1) this assms(3), of "snd o1"]
  have s: "fst (limiter_step (fst o1) (snd o1) l) = fst (spec_step w mx (fst o1) (snd o1) h)"
    "sim w mx (fst o1) (snd (limiter_step (fst o1) (snd o1) l)) (snd (spec_step w mx (fst o1) (snd o1) h))"
    by simp_all
  show ?case using Cons.IH [OF s(2)] s(1) Cons.prems(2) by (simp add: split_beta Let_def)
qed auto

section \<open>The window bound\<close>

text \<open>The history of the specification never has more than \<open>max\<close> of one key in any window.\<close>

definition bounded_history :: "int \<Rightarrow> int \<Rightarrow> history \<Rightarrow> bool" where
  "bounded_history w mx h \<longleftrightarrow> (\<forall>key s. int (in_window w key s h) \<le> max 0 mx)"

lemma bounded_snoc:
  assumes "bounded_history w mx h" and "\<forall>a\<in>set h. snd a \<le> now" and "int (in_window w key now h) < mx"
  shows "bounded_history w mx (h @ [(key, now)])"
  unfolding bounded_history_def
proof (intro allI)
  fix k s
  show "int (in_window w k s (h @ [(key, now)])) \<le> max 0 mx"
  proof (cases "k = key \<and> s - w < now \<and> now \<le> s")
    case True
    have "in_window w k s h \<le> in_window w k now h"
    proof -
      have "filter (\<lambda>a. fst a = k \<and> s - w < snd a \<and> snd a \<le> s) h =
            filter (\<lambda>a. s - w < snd a) (filter (\<lambda>a. fst a = k \<and> now - w < snd a \<and> snd a \<le> now) h)"
        using True assms(2) by (auto intro!: filter_cong)
      then show ?thesis unfolding in_window_def by (simp only: length_filter_le)
    qed
    then show ?thesis using True assms(3) by (simp add: in_window_def)
  next
    case False
    then have "in_window w k s (h @ [(key, now)]) = in_window w k s h" by (auto simp: in_window_def)
    then show ?thesis using assms(1) by (simp add: bounded_history_def)
  qed
qed

lemma bounded_Nil [simp]: "bounded_history w mx []"
  by (simp add: bounded_history_def in_window_def)

lemma sim_bounded_Allow:
  assumes "sim w mx t0 l h" and "t0 \<le> now" and "bounded_history w mx h"
  shows "bounded_history w mx (if fst (Allow now key l) then h @ [(key, now)] else h)"
proof -
  have "\<forall>a\<in>set h. snd a \<le> now" using simD(3) [OF assms(1)] assms(2) by fastforce
  then show ?thesis using bounded_snoc [OF assms(3)] sim_Allow(1) [OF assms(1,2)] assms(3) by simp
qed

lemma bounded_spec_run:
  assumes "bounded_history w mx h" and "\<forall>a\<in>set h. snd a \<le> t0" and "sorted (t0 # map fst os)"
  shows "bounded_history w mx (snd (spec_run w mx os h))"
  using assms
proof (induction os arbitrary: t0 h)
  case (Cons o1 os)
  obtain now op where o1: "o1 = (now, op)" by (cases o1)
  have now: "t0 \<le> now" "sorted (now # map fst os)" using Cons.prems(3) o1 by auto
  have le: "\<forall>a\<in>set h. snd a \<le> now" using Cons.prems(2) now(1) by fastforce
  have "bounded_history w mx (snd (spec_step w mx now op h))"
    using Cons.prems(1) le by (cases op) (auto intro: bounded_snoc)
  moreover have "\<forall>a\<in>set (snd (spec_step w mx now op h)). snd a \<le> now"
    using le by (cases op) auto
  ultimately show ?case using Cons.IH now(2) by (simp add: o1 split_beta Let_def)
qed simp


text \<open>The requests a run admits, read off its answers.\<close>

definition admitted :: "(time \<times> limiter_op) list \<Rightarrow> answer list \<Rightarrow> history" where
  "admitted os as = concat (map (\<lambda>((t, op), a). case op of
     AllowOp key \<Rightarrow> (if a = Allowed True then [(key, t)] else []) | _ \<Rightarrow> []) (zip os as))"

lemma spec_run_admitted: "snd (spec_run w mx os h) = h @ admitted os (fst (spec_run w mx os h))"
proof (induction os arbitrary: h)
  case (Cons o1 os)
  obtain t op where o1: "o1 = (t, op)" by (cases o1)
  show ?case using Cons.IH [of "snd (spec_step w mx t op h)"]
    by (cases op) (auto simp: o1 split_beta Let_def admitted_def)
qed (simp add: admitted_def)

section \<open>Sequences of checks\<close>

datatype request =
    OrderCreation string string | Validation string | SupportTicket string string | Subscribe string string
  | OrderInvoiceIP string | AccountLoginRequest string string | AccountVerify string string string
  | LimiterCleanup string

text \<open>The handlers, and the limiters each asks: name, key, refusal and time.\<close>

fun handle :: "time \<Rightarrow> time \<Rightarrow> time \<Rightarrow> request \<Rightarrow> MultiKeyLimiter \<Rightarrow> check \<times> MultiKeyLimiter" where
  "handle t1 t2 t3 (OrderCreation ip email) m = CheckOrderCreation ip email t1 t2 m"
| "handle t1 t2 t3 (Validation ip) m = CheckValidation ip t1 m"
| "handle t1 t2 t3 (SupportTicket ip email) m = CheckSupportTicket ip email t1 t2 m"
| "handle t1 t2 t3 (Subscribe ip email) m = CheckSubscribe ip email t1 t2 m"
| "handle t1 t2 t3 (OrderInvoiceIP ip) m = CheckOrderInvoiceIP ip t1 m"
| "handle t1 t2 t3 (AccountLoginRequest ip email) m = CheckAccountLoginRequest ip email t1 t2 m"
| "handle t1 t2 t3 (AccountVerify ip email key) m = CheckAccountVerify ip email key t1 t2 t3 m"
| "handle t1 t2 t3 (LimiterCleanup name) m =
     (Passed, case m name of None \<Rightarrow> m | Some l \<Rightarrow> m(name \<mapsto> cleanup t1 l))"

definition asked :: "string \<Rightarrow> string \<Rightarrow> time \<Rightarrow> (string \<times> string \<times> time) list" where
  "asked name key t = (if key = [] then [] else [(name, key, t)])"

fun asks :: "time \<Rightarrow> time \<Rightarrow> time \<Rightarrow> request \<Rightarrow> (string \<times> string \<times> time) list" where
  "asks t1 t2 t3 (OrderCreation ip email) = (''ip_order'', ip, t1) # asked ''email_order'' email t2"
| "asks t1 t2 t3 (Validation ip) = [(''ip_validate'', ip, t1)]"
| "asks t1 t2 t3 (SupportTicket ip email) = (''ip_support'', ip, t1) # asked ''email_support'' email t2"
| "asks t1 t2 t3 (Subscribe ip email) = (''ip_subscribe'', ip, t1) # asked ''email_subscribe'' email t2"
| "asks t1 t2 t3 (OrderInvoiceIP ip) = [(''ip_support'', ip, t1)]"
| "asks t1 t2 t3 (AccountLoginRequest ip email) =
     (''ip_account_login'', ip, t1) # asked ''email_account_login'' email t2"
| "asks t1 t2 t3 (AccountVerify ip email key) =
     (''ip_account_verify'', ip, t1) # asked ''email_account_verify'' email t2
       @ asked ''challenge_account_verify'' key t3"
| "asks t1 t2 t3 (LimiterCleanup name) = []"

primrec handle_all :: "(time \<times> time \<times> time \<times> request) list \<Rightarrow> MultiKeyLimiter
    \<Rightarrow> check list \<times> MultiKeyLimiter" where
  "handle_all [] m = ([], m)"
| "handle_all (r # rs) m =
     (case r of (t1, t2, t3, q) \<Rightarrow>
        let (c, m1) = handle t1 t2 t3 q m; (cs, m2) = handle_all rs m1 in (c # cs, m2))"

text \<open>What the requests that passed were counted against.\<close>

definition passed_asks :: "(time \<times> time \<times> time \<times> request) list \<Rightarrow> check list \<Rightarrow> (string \<times> string \<times> time) list" where
  "passed_asks rs cs = concat (map (\<lambda>((t1, t2, t3, q), c). if c = Passed then asks t1 t2 t3 q else []) (zip rs cs))"

definition request_times :: "(time \<times> time \<times> time \<times> request) list \<Rightarrow> time list" where
  "request_times rs = concat (map (\<lambda>(t1, t2, t3, q). [t1, t2, t3]) rs)"

subsection \<open>Every check is a list of limiters asked in turn\<close>

primrec passAll :: "(string \<times> string \<times> string \<times> time) list \<Rightarrow> MultiKeyLimiter \<Rightarrow> check \<times> MultiKeyLimiter" where
  "passAll [] m = (Passed, m)"
| "passAll (a # as) m = (case a of (name, key, msg, t) \<Rightarrow> passLimit name key msg t (passAll as) m)"

definition ask_of :: "string \<times> string \<times> string \<times> time \<Rightarrow> string \<times> string \<times> time" where
  "ask_of a = (fst a, fst (snd a), snd (snd (snd a)))"

lemma passLimit_cong: "(\<And>m. f m = g m) \<Longrightarrow> passLimit n k msg t f m = passLimit n k msg t g m"
  by (rule arg_cong [where f = "\<lambda>h. passLimit n k msg t h m"]) (rule ext)

lemma handle_passAll:
  assumes "\<And>name. q \<noteq> LimiterCleanup name"
  shows "\<exists>as. handle t1 t2 t3 q m = passAll as m \<and> map ask_of as = asks t1 t2 t3 q"
proof -
  have one: "\<exists>as. passLimit n k msg t (\<lambda>m. (Passed, m)) m = passAll as m \<and> map ask_of as = [(n, k, t)]"
    for n k msg t
    by (rule exI [of _ "[(n, k, msg, t)]"]) (auto simp: ask_of_def intro: passLimit_cong)
  have opt: "\<exists>as. \<forall>m. (if e \<noteq> [] then passLimit n e msg t (\<lambda>m. (Passed, m)) m else (Passed, m)) = passAll as m
      \<and> map ask_of as = asked n e t" for n e msg t
    by (rule exI [of _ "if e = [] then [] else [(n, e, msg, t)]"])
      (auto simp: ask_of_def asked_def intro: passLimit_cong)
  have opt2: "\<exists>as. \<forall>m. (if e \<noteq> [] then passLimit n e msg t (passAll bs) m else passAll bs m) = passAll as m
      \<and> map ask_of as = asked n e t @ map ask_of bs" for n e msg t bs
    by (rule exI [of _ "if e = [] then bs else (n, e, msg, t) # bs"]) (auto simp: ask_of_def asked_def)
  have two: "\<exists>as. passLimit n k msg t f m = passAll as m \<and> map ask_of as = (n, k, t) # cs"
    if ex: "\<exists>bs. \<forall>m. f m = passAll bs m \<and> map ask_of bs = cs" for n k msg t f cs
  proof -
    obtain bs where "\<And>m. f m = passAll bs m" "map ask_of bs = cs" using ex by blast
    then show ?thesis
      by (intro exI [of _ "(n, k, msg, t) # bs"]) (auto simp: ask_of_def intro: passLimit_cong)
  qed
  show ?thesis
  proof (cases q)
    case (AccountVerify ip email key)
    let ?msg = "''too many attempts, please try again later''"
    obtain bs where bs: "\<And>m. (if key \<noteq> [] then passLimit ''challenge_account_verify'' key ?msg t3 (\<lambda>m. (Passed, m)) m
        else (Passed, m)) = passAll bs m" "map ask_of bs = asked ''challenge_account_verify'' key t3"
      using opt [of key _ ?msg t3] by blast
    show ?thesis unfolding AccountVerify handle.simps asks.simps CheckAccountVerify_def Let_def bs(1)
      using opt2 [of email _ _ t2 bs] unfolding bs(2) by (rule two)
  qed (use assms one in \<open>auto simp: CheckOrderCreation_def CheckValidation_def CheckSupportTicket_def
        CheckSubscribe_def CheckOrderInvoiceIP_def CheckAccountLoginRequest_def intro!: two opt\<close>)
qed


subsection \<open>The table keeps every limiter's promise\<close>

type_synonym histories = "string \<Rightarrow> history"

definition tbl_ok :: "MultiKeyLimiter \<Rightarrow> MultiKeyLimiter \<Rightarrow> histories \<Rightarrow> time \<Rightarrow> bool" where
  "tbl_ok m0 m H t0 \<longleftrightarrow> dom m = dom m0 \<and>
     (\<forall>name l l0. m name = Some l \<longrightarrow> m0 name = Some l0 \<longrightarrow>
        sim (li_window l0) (li_max l0) t0 l (H name) \<and> bounded_history (li_window l0) (li_max l0) (H name))"

lemma tbl_ok_later: "tbl_ok m0 m H t0 \<Longrightarrow> t0 \<le> t \<Longrightarrow> tbl_ok m0 m H t"
  unfolding tbl_ok_def by (blast intro: sim_later)

lemma tbl_ok_upd:
  assumes "tbl_ok m0 m H t0" and "t0 \<le> t" and "m0 name = Some l0"
    and "sim (li_window l0) (li_max l0) t l h" and "bounded_history (li_window l0) (li_max l0) h"
  shows "tbl_ok m0 (m(name \<mapsto> l)) (H(name := h)) t"
  using tbl_ok_later [OF assms(1,2)] assms(3-) by (auto simp: tbl_ok_def)

text \<open>What one history adds to another, per limiter, seen through any predicate.\<close>

definition of_name :: "string \<Rightarrow> (string \<times> string \<times> time) list \<Rightarrow> history" where
  "of_name name as = map snd (filter (\<lambda>a. fst a = name) as)"

definition covers :: "histories \<Rightarrow> (string \<times> string \<times> time) list \<Rightarrow> histories \<Rightarrow> bool" where
  "covers H as H' \<longleftrightarrow>
     (\<forall>name P. length (filter P (H name)) + length (filter P (of_name name as)) \<le> length (filter P (H' name)))"

lemma of_name_append [simp]: "of_name n (as @ bs) = of_name n as @ of_name n bs"
  by (simp add: of_name_def)

lemma of_name_simps [simp]:
  "of_name n [] = []" "of_name n (a # as) = (if fst a = n then snd a # of_name n as else of_name n as)"
  by (simp_all add: of_name_def)

lemma covers_refl [simp]: "covers H [] H"
  by (simp add: covers_def)

lemma covers_trans: "covers H as H' \<Longrightarrow> covers H' bs H'' \<Longrightarrow> covers H (as @ bs) H''"
  unfolding covers_def of_name_append filter_append length_append
  by (metis (no_types, lifting) add.assoc add_le_mono1 order_trans)

lemma covers_Nil: "covers H as H' \<Longrightarrow> covers H [] H'"
  by (auto simp: covers_def intro: add_leD1)

lemma covers_snoc: "covers H [(n, k, t)] (H(n := H n @ [(k, t)]))"
  by (auto simp: covers_def)

lemma passAll_tbl:
  assumes "tbl_ok m0 m H t0" and "sorted (t0 # map (snd \<circ> snd \<circ> ask_of) as)" and "\<forall>a\<in>set as. fst a \<in> dom m0"
    and "\<forall>a\<in>set as. snd (snd (ask_of a)) \<le> t3" and "t0 \<le> t3"
  shows "\<exists>H'. tbl_ok m0 (snd (passAll as m)) H' t3 \<and> fst (passAll as m) \<noteq> NilLimiter \<and>
    covers H (if fst (passAll as m) = Passed then map ask_of as else []) H'"
  using assms
proof (induction as arbitrary: m H t0)
  case Nil
  then show ?case using tbl_ok_later [OF Nil.prems(1,5)] by (auto intro!: exI [of _ H])
next
  case (Cons a as)
  obtain n k msg t where a: "a = (n, k, msg, t)" by (cases a)
  have t: "t0 \<le> t" "t \<le> t3" "sorted (t # map (snd \<circ> snd \<circ> ask_of) as)"
    using Cons.prems(2,4) by (auto simp: a ask_of_def comp_def)
  obtain l0 where l0: "m0 n = Some l0" using Cons.prems(3) by (auto simp: a)
  then obtain l where l: "m n = Some l" using Cons.prems(1) unfolding tbl_ok_def by blast
  have s: "sim (li_window l0) (li_max l0) t0 l (H n)" and b: "bounded_history (li_window l0) (li_max l0) (H n)"
    using Cons.prems(1) l0 l unfolding tbl_ok_def by blast+
  let ?h = "if fst (Allow t k l) then H n @ [(k, t)] else H n" and ?m = "m(n \<mapsto> snd (Allow t k l))"
  have ok: "tbl_ok m0 ?m (H(n := ?h)) t"
    using Cons.prems(1) t(1) l0 sim_Allow(2) [OF s t(1)] sim_bounded_Allow [OF s t(1) b] by (rule tbl_ok_upd)
  show ?case
  proof (cases "fst (Allow t k l)")
    case True
    have p: "passAll (a # as) m = passAll as ?m" using True l by (simp add: a passLimit_def split_beta Let_def)
    from True ok have ok': "tbl_ok m0 ?m (H(n := H n @ [(k, t)])) t" by simp
    have A: "\<forall>a\<in>set as. fst a \<in> dom m0" "\<forall>a\<in>set as. snd (snd (ask_of a)) \<le> t3"
      using Cons.prems(3,4) by simp_all
    obtain H' where H': "tbl_ok m0 (snd (passAll as ?m)) H' t3" "fst (passAll as ?m) \<noteq> NilLimiter"
        "covers (H(n := H n @ [(k, t)])) (if fst (passAll as ?m) = Passed then map ask_of as else []) H'"
      using Cons.IH [OF ok' t(3) A t(2)] by blast
    have "covers H (if fst (passAll as ?m) = Passed then map ask_of (a # as) else []) H'"
      using covers_trans [OF covers_snoc [of H n k t] H'(3)] by (auto simp: a ask_of_def dest: covers_Nil)
    then show ?thesis unfolding p using H'(1,2) by blast
  next
    case False
    then have p: "passAll (a # as) m = (Refused msg, ?m)" using l by (simp add: a passLimit_def split_beta Let_def)
    have "tbl_ok m0 ?m H t3" using tbl_ok_later [OF ok t(2)] False by (simp only: if_False fun_upd_triv)
    moreover have "covers H (if Refused msg = Passed then map ask_of (a # as) else []) H" by simp
    ultimately show ?thesis unfolding p fst_conv snd_conv by blast
  qed
qed

lemma cleanup_tbl:
  assumes "tbl_ok m0 m H t0" and "t0 \<le> t1"
  shows "tbl_ok m0 (snd (handle t1 t2 t3 (LimiterCleanup name) m)) H t1"
proof (cases "m name")
  case None
  then show ?thesis using tbl_ok_later [OF assms] by simp
next
  case (Some l)
  then obtain l0 where l0: "m0 name = Some l0" using assms(1) unfolding tbl_ok_def by blast
  then have "tbl_ok m0 (m(name \<mapsto> cleanup t1 l)) (H(name := H name)) t1"
    using assms Some sim_cleanup [OF _ assms(2)] by (intro tbl_ok_upd) (auto simp: tbl_ok_def)
  then show ?thesis using Some by simp
qed

lemma handle_tbl:
  assumes "tbl_ok m0 m H t0" and "t0 \<le> t1" and "t1 \<le> t2" and "t2 \<le> t3"
    and "fst ` set (asks t1 t2 t3 q) \<subseteq> dom m0"
  shows "\<exists>H'. tbl_ok m0 (snd (handle t1 t2 t3 q m)) H' t3 \<and> fst (handle t1 t2 t3 q m) \<noteq> NilLimiter \<and>
    covers H (if fst (handle t1 t2 t3 q m) = Passed then asks t1 t2 t3 q else []) H'"
proof (cases "\<exists>name. q = LimiterCleanup name")
  case True
  then obtain name where q: "q = LimiterCleanup name" by blast
  have "tbl_ok m0 (snd (handle t1 t2 t3 q m)) H t3"
    unfolding q using tbl_ok_later [OF cleanup_tbl [OF assms(1,2)]] assms(3,4) by force
  then show ?thesis unfolding q by auto
next
  case False
  then obtain as where as: "handle t1 t2 t3 q m = passAll as m" "map ask_of as = asks t1 t2 t3 q"
    using handle_passAll by blast
  have times: "map (snd \<circ> snd \<circ> ask_of) as = map (snd \<circ> snd) (asks t1 t2 t3 q)"
    using as(2) by (metis map_map comp_assoc)
  have "sorted (t0 # map (snd \<circ> snd \<circ> ask_of) as)"
    unfolding times using assms(2-4) by (cases q) (auto simp: asked_def)
  moreover have "fst ` set (map ask_of as) = fst ` set as" by (simp add: image_image ask_of_def)
  then have "\<forall>a\<in>set as. fst a \<in> dom m0" using assms(5) unfolding as(2) by blast
  moreover have "\<forall>t\<in>set (map (snd \<circ> snd \<circ> ask_of) as). t \<le> t3"
    unfolding times using assms(2-4) by (cases q) (auto simp: asked_def)
  then have "\<forall>a\<in>set as. snd (snd (ask_of a)) \<le> t3" by auto
  ultimately show ?thesis using passAll_tbl [OF assms(1)] assms(2-4) unfolding as(1) as(2) [symmetric] by auto
qed

lemma handle_all_tbl:
  assumes "tbl_ok m0 m H t0" and "sorted (t0 # request_times rs)"
    and "\<forall>t1 t2 t3 q. fst ` set (asks t1 t2 t3 q) \<subseteq> dom m0"
  shows "\<exists>H' t. tbl_ok m0 (snd (handle_all rs m)) H' t \<and> NilLimiter \<notin> set (fst (handle_all rs m)) \<and>
    covers H (passed_asks rs (fst (handle_all rs m))) H'"
  using assms(1,2)
proof (induction rs arbitrary: m H t0)
  case Nil
  then show ?case by (auto simp: passed_asks_def)
next
  case (Cons r rs)
  obtain t1 t2 t3 q where r: "r = (t1, t2, t3, q)" by (cases r)
  have t: "t0 \<le> t1" "t1 \<le> t2" "t2 \<le> t3" "sorted (t3 # request_times rs)"
    using Cons.prems(2) by (auto simp: r request_times_def)
  obtain H1 where 1: "tbl_ok m0 (snd (handle t1 t2 t3 q m)) H1 t3" "fst (handle t1 t2 t3 q m) \<noteq> NilLimiter"
      "covers H (if fst (handle t1 t2 t3 q m) = Passed then asks t1 t2 t3 q else []) H1"
    using handle_tbl [OF Cons.prems(1) t(1-3)] assms(3) by blast
  obtain H2 tt where 2: "tbl_ok m0 (snd (handle_all rs (snd (handle t1 t2 t3 q m)))) H2 tt"
      "NilLimiter \<notin> set (fst (handle_all rs (snd (handle t1 t2 t3 q m))))"
      "covers H1 (passed_asks rs (fst (handle_all rs (snd (handle t1 t2 t3 q m))))) H2"
    using Cons.IH [OF 1(1) t(4)] by blast
  have "passed_asks (r # rs) (c # cs) = (if c = Passed then asks t1 t2 t3 q else []) @ passed_asks rs cs" for c cs
    by (simp add: passed_asks_def r)
  then show ?case using 1(2) 2(1,2) covers_trans [OF 1(3) 2(3)]
    by (auto simp: r split_beta Let_def)
qed

lemma asks_default: "fst ` set (asks t1 t2 t3 q) \<subseteq> dom NewMultiKeyLimiter"
  by (cases q) (auto simp: asked_def NewMultiKeyLimiter_def)

lemma NewMulti_fresh: "NewMultiKeyLimiter name = Some l \<Longrightarrow> l = NewLimiter (li_window l) (li_max l) \<and> 0 < li_max l"
  unfolding NewMultiKeyLimiter_def by (drule map_of_SomeD) (auto simp: NewLimiter_def)

lemma tbl_ok_New: "tbl_ok NewMultiKeyLimiter NewMultiKeyLimiter (\<lambda>_. []) t0"
  unfolding tbl_ok_def using NewMulti_fresh sim_New by (metis bounded_Nil option.inject)

section \<open>Properties\<close>

text \<open>
  C38: The limiter is a sliding window.  On any sequence of requests, remaining-quota queries and
  cleanup ticks at times that do not go back, a new limiter gives the answers of the specification
  that keeps every admission for ever and looks at those of the same key in the window ending now:
  pruning, the cleanup and other keys are invisible.  And in no window, wherever it starts, has a
  key been admitted more than max times.
\<close>

theorem limiter_is_sliding_window:
  assumes "sorted (map fst os)" and "0 \<le> mx"
  shows "fst (limiter_run os (NewLimiter w mx)) = fst (spec_run w mx os [])
    \<and> (\<forall>key s. int (in_window w key s (admitted os (fst (limiter_run os (NewLimiter w mx))))) \<le> mx)"
proof -
  define t0 where "t0 = (if os = [] then 0 else fst (hd os))"
  have so: "sorted (t0 # map fst os)" using assms(1) by (cases os) (auto simp: t0_def)
  have run: "fst (limiter_run os (NewLimiter w mx)) = fst (spec_run w mx os [])"
    using sim_run [OF sim_New so assms(2)] by blast
  have "bounded_history w mx (admitted os (fst (spec_run w mx os [])))"
    using bounded_spec_run [of w mx "[]" t0 os] so spec_run_admitted [of w mx os "[]"] by simp
  then show ?thesis using run assms(2) by (auto simp: bounded_history_def)
qed

theorem limiter_is_sliding_window_witness:
  "fst (limiter_run [(0, AllowOp ''a''), (1, AllowOp ''a''), (5, CleanupTick), (10, AllowOp ''a''), (10, RemainingOp ''a'')]
     (NewLimiter 10 2)) = [Allowed True, Allowed True, NoAnswer, Allowed True, Left 0]"
  using conjunct1 [OF limiter_is_sliding_window
    [of "[(0, AllowOp ''a''), (1, AllowOp ''a''), (5, CleanupTick), (10, AllowOp ''a''), (10, RemainingOp ''a'')]" 2 10]]
  by (simp add: in_window_def)

text \<open>
  The checks of the API, over the default table.  Whatever requests arrive, in any order and mixed
  with cleanups, no check meets a missing limiter, and no window of a limiter (name, window, max)
  contains more than max requests that passed and that the limiter counts under the same IP, email
  or challenge key, whichever endpoints they came through.
\<close>

theorem api_limits:
  assumes "sorted (request_times rs)"
  shows "NilLimiter \<notin> set (fst (handle_all rs NewMultiKeyLimiter))
    \<and> (\<forall>name l key s. NewMultiKeyLimiter name = Some l \<longrightarrow>
         int (in_window (li_window l) key s
                (of_name name (passed_asks rs (fst (handle_all rs NewMultiKeyLimiter))))) \<le> li_max l)"
proof -
  define t0 where "t0 = (if request_times rs = [] then 0 else hd (request_times rs))"
  have so: "sorted (t0 # request_times rs)" using assms by (cases "request_times rs") (auto simp: t0_def)
  obtain H t where H: "tbl_ok NewMultiKeyLimiter (snd (handle_all rs NewMultiKeyLimiter)) H t"
      "NilLimiter \<notin> set (fst (handle_all rs NewMultiKeyLimiter))"
      "covers (\<lambda>_. []) (passed_asks rs (fst (handle_all rs NewMultiKeyLimiter))) H"
    using handle_all_tbl [OF tbl_ok_New so] asks_default by blast
  have "int (in_window (li_window l) key s (of_name name (passed_asks rs (fst (handle_all rs NewMultiKeyLimiter)))))
      \<le> li_max l" if l: "NewMultiKeyLimiter name = Some l" for name l key s
  proof -
    obtain l' where "snd (handle_all rs NewMultiKeyLimiter) name = Some l'"
      using H(1) l unfolding tbl_ok_def by blast
    then have "bounded_history (li_window l) (li_max l) (H name)" using H(1) l unfolding tbl_ok_def by blast
    then have "int (in_window (li_window l) key s (H name)) \<le> max 0 (li_max l)" by (simp add: bounded_history_def)
    moreover have "in_window (li_window l) key s (of_name name (passed_asks rs (fst (handle_all rs NewMultiKeyLimiter))))
        \<le> in_window (li_window l) key s (H name)"
      using H(3) by (auto simp: covers_def in_window_def)
    ultimately show ?thesis using NewMulti_fresh [OF l] by simp
  qed
  with H(2) show ?thesis by blast
qed

theorem api_limits_witness:
  "NilLimiter \<notin> set (fst (handle_all [(0, 1, 2, OrderCreation ''10.0.0.1'' ''a@b.c''), (3, 3, 3, OrderInvoiceIP ''10.0.0.1'')]
     NewMultiKeyLimiter))"
  using api_limits [of "[(0, 1, 2, OrderCreation ''10.0.0.1'' ''a@b.c''), (3, 3, 3, OrderInvoiceIP ''10.0.0.1'')]"]
  by (simp add: request_times_def)

text \<open>The custom table has only three limiters: a check of another endpoint on it panics.\<close>

theorem custom_table_panics:
  "fst (CheckSubscribe ip email t1 t2 (NewCustomMultiKeyLimiter a b c)) = NilLimiter"
  by (simp add: CheckSubscribe_def passLimit_def NewCustomMultiKeyLimiter_def)

end
