(* ===== verification/Stock_Reserve.thy ===== *)
theory Stock_Reserve
  imports Prelude Go_Time "HOL-Library.AList"
begin

text \<open>
  The in-memory stock holds of carts and orders (internal/stockreserve/reserve.go): the reservation
  map with its indexes by session, by order and by product and size, the abuse limits, and the
  operations under the manager's mutex.  A Go map is an association list with distinct keys; the
  order in which Go ranges over one is not specified, here it is that of the list.  Every read of
  the wall clock is an argument.
\<close>

section \<open>State\<close>

record Limits =
  lm_MaxItemsPerSession :: int
  lm_MaxQtyPerItem :: decimal
  lm_MaxTotalReservations :: int
  lm_MaxTTLRefreshes :: int
  lm_ReserveRatePerSession :: int

definition DefaultLimits :: Limits where
  "DefaultLimits = \<lparr>lm_MaxItemsPerSession = 10, lm_MaxQtyPerItem = 5, lm_MaxTotalReservations = 10000,
     lm_MaxTTLRefreshes = 3, lm_ReserveRatePerSession = 30\<rparr>"

record Reservation =
  rs_ProductID :: int
  rs_SizeID :: int
  rs_Quantity :: decimal
  rs_ExpiresAt :: time
  rs_CreatedAt :: time
  rs_OrderUUID :: string
  rs_SessionID :: string
  rs_RefreshCount :: int

type_synonym productSizeKey = "int \<times> int"

record sessionRateEntry =
  se_count :: int
  se_expiresAt :: time

record Manager =
  rm_reservations :: "(string \<times> Reservation) list"
  rm_bySession :: "(string \<times> string list) list"
  rm_byOrder :: "(string \<times> string list) list"
  rm_byProductSize :: "(productSizeKey \<times> string list) list"
  rm_sessionRates :: "(string \<times> sessionRateEntry) list"
  rm_cartTTL :: int
  rm_orderTTL :: int
  rm_limits :: Limits

definition NewManager :: "int \<Rightarrow> int \<Rightarrow> Limits \<Rightarrow> Manager" where
  "NewManager cartTTL orderTTL limits =
     \<lparr>rm_reservations = [], rm_bySession = [], rm_byOrder = [], rm_byProductSize = [], rm_sessionRates = [],
      rm_cartTTL = cartTTL, rm_orderTTL = orderTTL, rm_limits = limits\<rparr>"

definition NewDefaultManager :: Manager where
  "NewDefaultManager = NewManager (15 * 60 * 1000000000) (30 * 60 * 1000000000) DefaultLimits"

datatype reserve_error = ErrQuantityNotPositive | ErrQuantityExceeds decimal decimal | ErrReserveRate
  | ErrMaxItems int | ErrServiceBusy

text \<open>Indexing a map of slices gives the nil slice for a missing key.\<close>

definition keys_at :: "('k \<times> string list) list \<Rightarrow> 'k \<Rightarrow> string list" where
  "keys_at idx k = (case map_of idx k of None \<Rightarrow> [] | Some ks \<Rightarrow> ks)"

definition append_key :: "'k \<Rightarrow> string \<Rightarrow> ('k \<times> string list) list \<Rightarrow> ('k \<times> string list) list" where
  "append_key k key idx = AList.update k (keys_at idx k @ [key]) idx"

definition removeKey :: "string list \<Rightarrow> string \<Rightarrow> string list" where
  "removeKey slice key = filter (\<lambda>s. s \<noteq> key) slice"

text \<open>The clean-up of one index: the key leaves its slice, and an empty slice leaves the index.\<close>

definition drop_key :: "'k \<Rightarrow> string \<Rightarrow> ('k \<times> string list) list \<Rightarrow> ('k \<times> string list) list" where
  "drop_key k key idx =
     (case map_of idx k of
        None \<Rightarrow> idx
      | Some ks \<Rightarrow> if removeKey ks key = [] then AList.delete k idx else AList.update k (removeKey ks key) idx)"

definition reservation_key :: "int \<Rightarrow> int \<Rightarrow> string \<Rightarrow> string" where
  "reservation_key productID sizeID sessionID = Itoa productID @ ''-'' @ Itoa sizeID @ ''-'' @ sessionID"

section \<open>Operations\<close>

definition allowSessionRate :: "time \<Rightarrow> string \<Rightarrow> Manager \<Rightarrow> bool \<times> Manager" where
  "allowSessionRate now sessionID rm =
     (let put = (\<lambda>e. rm\<lparr>rm_sessionRates := AList.update sessionID e (rm_sessionRates rm)\<rparr>);
          fresh = \<lparr>se_count = 1, se_expiresAt = now + 60 * 1000000000\<rparr>
      in case map_of (rm_sessionRates rm) sessionID of
           None \<Rightarrow> (True, put fresh)
         | Some entry \<Rightarrow>
             if se_expiresAt entry < now then (True, put fresh)
             else if se_count entry \<ge> lm_ReserveRatePerSession (rm_limits rm) then (False, rm)
             else (True, put (entry\<lparr>se_count := se_count entry + 1\<rparr>)))"

text \<open>The insert or update at the end of \<open>reserveLocked\<close>; \<open>now\<close> is its own read of the clock.\<close>

definition refresh_reservation :: "string \<Rightarrow> int \<Rightarrow> int \<Rightarrow> string \<Rightarrow> decimal \<Rightarrow> Reservation \<Rightarrow> Manager \<Rightarrow> Manager" where
  "refresh_reservation key productID sizeID sessionID qty existing rm =
     rm\<lparr>rm_reservations := AList.update key
          (if rs_RefreshCount existing \<ge> lm_MaxTTLRefreshes (rm_limits rm)
           then existing\<lparr>rs_Quantity := qty\<rparr>
           else \<lparr>rs_ProductID = productID, rs_SizeID = sizeID, rs_Quantity = qty,
                 rs_ExpiresAt = rs_ExpiresAt existing, rs_CreatedAt = rs_CreatedAt existing,
                 rs_OrderUUID = [], rs_SessionID = sessionID,
                 rs_RefreshCount = rs_RefreshCount existing + 1\<rparr>)
          (rm_reservations rm)\<rparr>"

definition insert_reservation :: "time \<Rightarrow> string \<Rightarrow> int \<Rightarrow> int \<Rightarrow> string \<Rightarrow> decimal \<Rightarrow> Manager \<Rightarrow> Manager" where
  "insert_reservation now key productID sizeID sessionID qty rm =
     rm\<lparr>rm_reservations := AList.update key
          \<lparr>rs_ProductID = productID, rs_SizeID = sizeID, rs_Quantity = qty,
           rs_ExpiresAt = now + rm_cartTTL rm, rs_CreatedAt = now,
           rs_OrderUUID = [], rs_SessionID = sessionID, rs_RefreshCount = 0\<rparr>
          (rm_reservations rm),
        rm_bySession := append_key sessionID key (rm_bySession rm),
        rm_byProductSize := append_key (productID, sizeID) key (rm_byProductSize rm)\<rparr>"

definition reserveLocked :: "time \<Rightarrow> time \<Rightarrow> string \<Rightarrow> int \<Rightarrow> int \<Rightarrow> decimal \<Rightarrow> Manager
    \<Rightarrow> (reserve_error + unit) \<times> Manager" where
  "reserveLocked t1 t2 sessionID productID sizeID qty rm =
     (if qty \<le> 0 then (Inl ErrQuantityNotPositive, rm)
      else if qty > lm_MaxQtyPerItem (rm_limits rm)
      then (Inl (ErrQuantityExceeds qty (lm_MaxQtyPerItem (rm_limits rm))), rm)
      else case allowSessionRate t1 sessionID rm of
          (False, rm) \<Rightarrow> (Inl ErrReserveRate, rm)
        | (True, rm) \<Rightarrow>
            (let key = reservation_key productID sizeID sessionID
             in case map_of (rm_reservations rm) key of
                  Some existing \<Rightarrow> (Inr (), refresh_reservation key productID sizeID sessionID qty existing rm)
                | None \<Rightarrow>
                    if int (length (keys_at (rm_bySession rm) sessionID)) \<ge> lm_MaxItemsPerSession (rm_limits rm)
                    then (Inl (ErrMaxItems (lm_MaxItemsPerSession (rm_limits rm))), rm)
                    else if int (length (rm_reservations rm)) \<ge> lm_MaxTotalReservations (rm_limits rm)
                    then (Inl ErrServiceBusy, rm)
                    else (Inr (), insert_reservation t2 key productID sizeID sessionID qty rm)))"

definition Reserve :: "time \<Rightarrow> time \<Rightarrow> string \<Rightarrow> int \<Rightarrow> int \<Rightarrow> decimal \<Rightarrow> Manager
    \<Rightarrow> (reserve_error + unit) \<times> Manager" where
  "Reserve t1 t2 sessionID productID sizeID qty rm = reserveLocked t1 t2 sessionID productID sizeID qty rm"

definition reservedQuantityLocked :: "time \<Rightarrow> int \<Rightarrow> int \<Rightarrow> string \<Rightarrow> Manager \<Rightarrow> decimal" where
  "reservedQuantityLocked now productID sizeID excludeSessionID rm =
     foldl (\<lambda>total key.
         case map_of (rm_reservations rm) key of
           None \<Rightarrow> total
         | Some res \<Rightarrow>
             if now < rs_ExpiresAt res \<and> rs_SessionID res \<noteq> excludeSessionID then total + rs_Quantity res else total)
       0 (keys_at (rm_byProductSize rm) (productID, sizeID))"

definition ReserveIfAvailable :: "time \<Rightarrow> time \<Rightarrow> time \<Rightarrow> decimal \<Rightarrow> string \<Rightarrow> int \<Rightarrow> int \<Rightarrow> decimal \<Rightarrow> Manager
    \<Rightarrow> (decimal \<times> reserve_error option) \<times> Manager" where
  "ReserveIfAvailable t0 t1 t2 totalStock sessionID productID sizeID qty rm =
     (let available = totalStock - reservedQuantityLocked t0 productID sizeID sessionID rm
      in if available \<le> 0 then ((0, None), rm)
         else
           let reserveQty = (if qty > available then available else qty)
           in case reserveLocked t1 t2 sessionID productID sizeID reserveQty rm of
                (Inl err, rm) \<Rightarrow> ((available, Some err), rm)
              | (Inr _, rm) \<Rightarrow> ((available, None), rm))"

definition GetAvailableStock :: "time \<Rightarrow> decimal \<Rightarrow> int \<Rightarrow> int \<Rightarrow> string \<Rightarrow> Manager \<Rightarrow> decimal" where
  "GetAvailableStock now totalStock productID sizeID excludeSessionID rm =
     (let available = totalStock - reservedQuantityLocked now productID sizeID excludeSessionID rm
      in if available < 0 then 0 else available)"

definition commit_key :: "time \<Rightarrow> string \<Rightarrow> Manager \<Rightarrow> string \<Rightarrow> Manager" where
  "commit_key newExpiry orderUUID rm key =
     (case map_of (rm_reservations rm) key of
        None \<Rightarrow> rm
      | Some res \<Rightarrow>
          rm\<lparr>rm_reservations := AList.update key
               (res\<lparr>rs_OrderUUID := orderUUID, rs_ExpiresAt := newExpiry, rs_RefreshCount := 0\<rparr>)
               (rm_reservations rm),
             rm_byOrder := append_key orderUUID key (rm_byOrder rm)\<rparr>)"

definition Commit :: "time \<Rightarrow> string \<Rightarrow> string \<Rightarrow> Manager \<Rightarrow> Manager" where
  "Commit now sessionID orderUUID rm =
     foldl (commit_key (now + rm_orderTTL rm) orderUUID) rm (keys_at (rm_bySession rm) sessionID)"

definition removeReservation :: "string \<Rightarrow> Reservation \<Rightarrow> Manager \<Rightarrow> Manager" where
  "removeReservation key res rm =
     rm\<lparr>rm_reservations := AList.delete key (rm_reservations rm),
        rm_bySession := drop_key (rs_SessionID res) key (rm_bySession rm),
        rm_byProductSize := drop_key (rs_ProductID res, rs_SizeID res) key (rm_byProductSize rm)\<rparr>"

definition release_key :: "(Reservation \<Rightarrow> bool) \<Rightarrow> Manager \<Rightarrow> string \<Rightarrow> Manager" where
  "release_key cond rm key =
     (case map_of (rm_reservations rm) key of
        None \<Rightarrow> rm
      | Some res \<Rightarrow> if cond res then removeReservation key res rm else rm)"

definition Release :: "string \<Rightarrow> Manager \<Rightarrow> Manager" where
  "Release orderUUID rm =
     (let rm = foldl (release_key (\<lambda>_. True)) rm (keys_at (rm_byOrder rm) orderUUID)
      in rm\<lparr>rm_byOrder := AList.delete orderUUID (rm_byOrder rm)\<rparr>)"

definition ReleaseSession :: "string \<Rightarrow> Manager \<Rightarrow> Manager" where
  "ReleaseSession sessionID rm =
     (let rm = foldl (release_key (\<lambda>res. rs_OrderUUID res = [])) rm (keys_at (rm_bySession rm) sessionID)
      in rm\<lparr>rm_bySession := AList.delete sessionID (rm_bySession rm),
            rm_sessionRates := AList.delete sessionID (rm_sessionRates rm)\<rparr>)"

definition expire_key :: "time \<Rightarrow> Manager \<Rightarrow> string \<times> Reservation \<Rightarrow> Manager" where
  "expire_key now rm kr =
     (let (key, res) = kr
      in if rs_ExpiresAt res < now
         then let rm = removeReservation key res rm
              in if rs_OrderUUID res \<noteq> [] then rm\<lparr>rm_byOrder := drop_key (rs_OrderUUID res) key (rm_byOrder rm)\<rparr> else rm
         else rm)"

definition runCleanupOnce :: "time \<Rightarrow> Manager \<Rightarrow> Manager" where
  "runCleanupOnce now rm =
     (let rm = foldl (expire_key now) rm (rm_reservations rm)
      in rm\<lparr>rm_sessionRates := filter (\<lambda>e. \<not> se_expiresAt (snd e) < now) (rm_sessionRates rm)\<rparr>)"

text \<open>The counters of \<open>GetStats\<close>; its percentage is a float and left out.\<close>

record reserve_stats =
  st_total_reservations :: nat
  st_cart_reservations :: nat
  st_order_reservations :: nat
  st_active_sessions :: nat
  st_active_orders :: nat

definition GetStats :: "Manager \<Rightarrow> reserve_stats" where
  "GetStats rm =
     \<lparr>st_total_reservations = length (rm_reservations rm),
      st_cart_reservations = length (filter (\<lambda>e. rs_OrderUUID (snd e) = []) (rm_reservations rm)),
      st_order_reservations = length (filter (\<lambda>e. rs_OrderUUID (snd e) \<noteq> []) (rm_reservations rm)),
      st_active_sessions = length (rm_bySession rm),
      st_active_orders = length (rm_byOrder rm)\<rparr>"


section \<open>Keys, indexes and sums\<close>

lemma nat_str_no_minus: "CHR ''-'' \<notin> set (nat_str n)"
  using nat_str_digits [of n] by (auto simp: list_all_iff)

lemma Itoa_minus_inj: "Itoa a @ CHR ''-'' # u = Itoa b @ CHR ''-'' # v \<longleftrightarrow> a = b \<and> u = v"
proof -
  have hd: "nat_str n @ xs \<noteq> CHR ''-'' # ys" for n xs ys
    using nat_str_no_minus [of n] nat_str_not_Nil [of n] by (cases "nat_str n") auto
  note inj = append_sep_inj [OF nat_str_no_minus nat_str_no_minus]
  show ?thesis
  proof (cases a rule: Itoa_cases; cases b rule: Itoa_cases)
    assume "a < 0" "Itoa a = CHR ''-'' # nat_str (nat (- a))" "b < 0" "Itoa b = CHR ''-'' # nat_str (nat (- b))"
    then show ?thesis using inj by auto
  next
    assume "0 \<le> a" "Itoa a = nat_str (nat a)" "0 \<le> b" "Itoa b = nat_str (nat b)"
    then show ?thesis using inj by auto
  qed (use hd hd [symmetric] in auto)
qed

lemma reservation_key_inj [simp]:
  "reservation_key p s x = reservation_key p' s' x' \<longleftrightarrow> p = p' \<and> s = s' \<and> x = x'"
  by (auto simp: reservation_key_def Itoa_minus_inj)

lemma removeKey_simps [simp]:
  "set (removeKey ks key) = set ks - {key}" "distinct ks \<Longrightarrow> distinct (removeKey ks key)"
  "length (removeKey ks key) \<le> length ks"
  by (auto simp: removeKey_def)

lemma keys_at_append [simp]:
  "keys_at (append_key k key idx) k' = (if k' = k then keys_at idx k @ [key] else keys_at idx k')"
  by (simp add: append_key_def keys_at_def AList.update_conv')

lemma keys_at_drop [simp]:
  "keys_at (drop_key k key idx) k' = (if k' = k then removeKey (keys_at idx k) key else keys_at idx k')"
  by (auto simp: drop_key_def keys_at_def AList.update_conv' AList.delete_conv' removeKey_def split: option.splits)

lemma keys_at_delete [simp]: "keys_at (AList.delete k idx) k' = (if k' = k then [] else keys_at idx k')"
  by (simp add: keys_at_def AList.delete_conv')

lemma keys_at_Nil [simp]: "keys_at [] k = []"
  by (simp add: keys_at_def)

definition asum :: "('v \<Rightarrow> decimal) \<Rightarrow> ('k \<times> 'v) list \<Rightarrow> decimal" where
  "asum g al = sum_list (map (\<lambda>e. g (snd e)) al)"

definition val_at :: "('v \<Rightarrow> decimal) \<Rightarrow> 'v option \<Rightarrow> decimal" where
  "val_at g u = (case u of None \<Rightarrow> 0 | Some v \<Rightarrow> g v)"

lemma val_at_simps [simp]: "val_at g None = 0" "val_at g (Some v) = g v"
  by (simp_all add: val_at_def)

lemma map_of_absent: "k \<notin> fst ` set al \<Longrightarrow> map_of al k = None"
  by (simp add: map_of_eq_None_iff)

lemma asum_update: "distinct (map fst al) \<Longrightarrow> asum g (AList.update k v al) = asum g al - val_at g (map_of al k) + g v"
  by (induction al) (auto simp: asum_def map_of_absent)

lemma asum_delete: "distinct (map fst al) \<Longrightarrow> asum g (AList.delete k al) = asum g al - val_at g (map_of al k)"
proof (induction al)
  case (Cons e al)
  then show ?case by (cases e) (auto simp: asum_def map_of_absent AList.delete_id)
qed (simp add: asum_def)

lemma asum_mono: "(\<And>k v. (k, v) \<in> set al \<Longrightarrow> f v \<le> g v) \<Longrightarrow> asum f al \<le> asum g al"
  by (auto simp: asum_def intro!: sum_list_mono)

lemma asum_cong: "(\<And>k v. (k, v) \<in> set al \<Longrightarrow> f v = g v) \<Longrightarrow> asum f al = asum g al"
  by (auto simp: asum_def intro!: arg_cong [where f = sum_list])

lemma asum_add: "asum (\<lambda>v. f v + g v) al = asum f al + asum g al"
  by (simp add: asum_def sum_list_addf)

lemma asum_single:
  assumes "distinct (map fst al)" and "\<And>k' v. (k', v) \<in> set al \<Longrightarrow> k' \<noteq> k \<Longrightarrow> g v = 0"
  shows "asum g al = val_at g (map_of al k)"
  using assms
proof (induction al)
  case (Cons e al)
  have "asum g al = val_at g (map_of al k)" by (rule Cons.IH) (use Cons.prems in auto)
  then show ?case using Cons.prems(1) Cons.prems(2) [of "fst e" "snd e"]
    by (auto simp: asum_def map_of_absent)
qed (simp add: asum_def)

text \<open>Summing a distinct list of keys through the map is summing the entries at those keys.\<close>

lemma asum_keys:
  assumes "distinct (map fst al)" and "distinct ks" and "set ks \<subseteq> fst ` set al"
    and "\<And>k v. (k, v) \<in> set al \<Longrightarrow> k \<notin> set ks \<Longrightarrow> g v = 0"
  shows "sum_list (map (\<lambda>k. val_at g (map_of al k)) ks) = asum g al"
proof -
  have "asum g al = sum_list (map (\<lambda>k. val_at g (map_of al k)) (map fst al))"
    unfolding asum_def using assms(1) by (auto intro!: arg_cong [where f = sum_list] simp: map_of_is_SomeI)
  also have "\<dots> = (\<Sum>k\<in>fst ` set al. val_at g (map_of al k))"
    using assms(1) by (subst sum_list_distinct_conv_sum_set) auto
  also have "\<dots> = (\<Sum>k\<in>set ks. val_at g (map_of al k))"
    using assms(3,4) by (intro sum.mono_neutral_right) (auto simp: val_at_def split: option.splits dest: map_of_SomeD)
  also have "\<dots> = sum_list (map (\<lambda>k. val_at g (map_of al k)) ks)"
    using assms(2) by (subst sum_list_distinct_conv_sum_set) auto
  finally show ?thesis by simp
qed

section \<open>The invariant of the manager\<close>

definition entry_ok :: "Limits \<Rightarrow> string \<Rightarrow> Reservation \<Rightarrow> bool" where
  "entry_ok lm k r \<longleftrightarrow>
     k = reservation_key (rs_ProductID r) (rs_SizeID r) (rs_SessionID r) \<and>
     0 < rs_Quantity r \<and> rs_Quantity r \<le> lm_MaxQtyPerItem lm"

definition rm_ok :: "Manager \<Rightarrow> bool" where
  "rm_ok rm \<longleftrightarrow>
     distinct (map fst (rm_reservations rm)) \<and>
     (\<forall>k r. map_of (rm_reservations rm) k = Some r \<longrightarrow> entry_ok (rm_limits rm) k r) \<and>
     (\<forall>ps. distinct (keys_at (rm_byProductSize rm) ps) \<and>
        (\<forall>k. k \<in> set (keys_at (rm_byProductSize rm) ps) \<longleftrightarrow>
           (\<exists>r. map_of (rm_reservations rm) k = Some r \<and> (rs_ProductID r, rs_SizeID r) = ps))) \<and>
     (\<forall>sid. distinct (keys_at (rm_bySession rm) sid) \<and>
        int (length (keys_at (rm_bySession rm) sid)) \<le> max 0 (lm_MaxItemsPerSession (rm_limits rm)) \<and>
        (\<forall>k \<in> set (keys_at (rm_bySession rm) sid).
           \<exists>r. map_of (rm_reservations rm) k = Some r \<and> rs_SessionID r = sid)) \<and>
     int (length (rm_reservations rm)) \<le> max 0 (lm_MaxTotalReservations (rm_limits rm))"

lemma rm_okI:
  assumes "distinct (map fst (rm_reservations rm))"
    and "\<And>k r. map_of (rm_reservations rm) k = Some r \<Longrightarrow> entry_ok (rm_limits rm) k r"
    and "\<And>ps. distinct (keys_at (rm_byProductSize rm) ps)"
    and "\<And>ps k. k \<in> set (keys_at (rm_byProductSize rm) ps) \<longleftrightarrow>
           (\<exists>r. map_of (rm_reservations rm) k = Some r \<and> (rs_ProductID r, rs_SizeID r) = ps)"
    and "\<And>sid. distinct (keys_at (rm_bySession rm) sid)"
    and "\<And>sid. int (length (keys_at (rm_bySession rm) sid)) \<le> max 0 (lm_MaxItemsPerSession (rm_limits rm))"
    and "\<And>sid k. k \<in> set (keys_at (rm_bySession rm) sid) \<Longrightarrow>
           \<exists>r. map_of (rm_reservations rm) k = Some r \<and> rs_SessionID r = sid"
    and "int (length (rm_reservations rm)) \<le> max 0 (lm_MaxTotalReservations (rm_limits rm))"
  shows "rm_ok rm"
  unfolding rm_ok_def using assms by simp

lemma rm_okD:
  assumes "rm_ok rm"
  shows "distinct (map fst (rm_reservations rm))"
    and "map_of (rm_reservations rm) k = Some r \<Longrightarrow> entry_ok (rm_limits rm) k r"
    and "distinct (keys_at (rm_byProductSize rm) ps)"
    and "k \<in> set (keys_at (rm_byProductSize rm) ps) \<longleftrightarrow>
           (\<exists>r. map_of (rm_reservations rm) k = Some r \<and> (rs_ProductID r, rs_SizeID r) = ps)"
    and "distinct (keys_at (rm_bySession rm) sid)"
    and "int (length (keys_at (rm_bySession rm) sid)) \<le> max 0 (lm_MaxItemsPerSession (rm_limits rm))"
    and "k \<in> set (keys_at (rm_bySession rm) sid) \<Longrightarrow>
           \<exists>r. map_of (rm_reservations rm) k = Some r \<and> rs_SessionID r = sid"
    and "int (length (rm_reservations rm)) \<le> max 0 (lm_MaxTotalReservations (rm_limits rm))"
  using assms unfolding rm_ok_def by blast+

lemma rm_ok_New [simp]: "rm_ok (NewManager c ord lm)"
  by (simp add: rm_ok_def NewManager_def)

lemma rm_ok_more [simp]:
  "rm_ok (rm\<lparr>rm_sessionRates := x\<rparr>) = rm_ok rm" "rm_ok (rm\<lparr>rm_byOrder := y\<rparr>) = rm_ok rm"
  by (simp_all add: rm_ok_def)

lemma length_update: "length (AList.update k v al) = (if k \<in> fst ` set al then length al else Suc (length al))"
  by (induction al) auto

lemma key_present: "map_of al k = Some v \<Longrightarrow> k \<in> fst ` set al"
  by (metis map_of_SomeD fst_conv image_eqI)

text \<open>Replacing a reservation by one of the same key keeps the invariant.\<close>

lemma rm_ok_replace:
  assumes ok: "rm_ok rm" and k: "map_of (rm_reservations rm) key = Some r" and r': "entry_ok (rm_limits rm) key r'"
  shows "rm_ok (rm\<lparr>rm_reservations := AList.update key r' (rm_reservations rm)\<rparr>)"
proof -
  have same: "rs_ProductID r' = rs_ProductID r" "rs_SizeID r' = rs_SizeID r" "rs_SessionID r' = rs_SessionID r"
    using rm_okD(2) [OF ok k] r' by (auto simp: entry_ok_def)
  show ?thesis
  proof (rule rm_okI)
    fix ps k'
    show "k' \<in> set (keys_at (rm_byProductSize (rm\<lparr>rm_reservations := AList.update key r' (rm_reservations rm)\<rparr>)) ps) \<longleftrightarrow>
        (\<exists>ra. map_of (rm_reservations (rm\<lparr>rm_reservations := AList.update key r' (rm_reservations rm)\<rparr>)) k' = Some ra \<and>
           (rs_ProductID ra, rs_SizeID ra) = ps)"
      using rm_okD(4) [OF ok, of k' ps] k same by (auto simp: AList.update_conv')
  next
    fix sid k'
    assume "k' \<in> set (keys_at (rm_bySession (rm\<lparr>rm_reservations := AList.update key r' (rm_reservations rm)\<rparr>)) sid)"
    then show "\<exists>ra. map_of (rm_reservations (rm\<lparr>rm_reservations := AList.update key r' (rm_reservations rm)\<rparr>)) k' = Some ra \<and>
        rs_SessionID ra = sid"
      using rm_okD(7) [OF ok, of k' sid] k same by (auto simp: AList.update_conv')
  qed (use rm_okD [OF ok] r' key_present [OF k] in
      \<open>auto simp: AList.distinct_update AList.update_conv' length_update split: if_splits\<close>)
qed


lemma rm_ok_insert:
  assumes ok: "rm_ok rm" and k: "map_of (rm_reservations rm) key = None"
    and key: "key = reservation_key p s sid" and q: "0 < q" "q \<le> lm_MaxQtyPerItem (rm_limits rm)"
    and "int (length (keys_at (rm_bySession rm) sid)) < lm_MaxItemsPerSession (rm_limits rm)"
    and "int (length (rm_reservations rm)) < lm_MaxTotalReservations (rm_limits rm)"
  shows "rm_ok (insert_reservation now key p s sid q rm)"
proof -
  have new: "key \<notin> set (keys_at (rm_byProductSize rm) ps)" "key \<notin> set (keys_at (rm_bySession rm) sid')" for ps sid'
    using rm_okD(4,7) [OF ok, of key] k by auto
  show ?thesis
  proof (rule rm_okI)
    fix ps k'
    show "k' \<in> set (keys_at (rm_byProductSize (insert_reservation now key p s sid q rm)) ps) \<longleftrightarrow>
      (\<exists>r. map_of (rm_reservations (insert_reservation now key p s sid q rm)) k' = Some r \<and>
         (rs_ProductID r, rs_SizeID r) = ps)"
      using rm_okD(4) [OF ok, of k' ps] k new by (auto simp: insert_reservation_def AList.update_conv')
  next
    fix sid' k'
    assume "k' \<in> set (keys_at (rm_bySession (insert_reservation now key p s sid q rm)) sid')"
    then show "\<exists>r. map_of (rm_reservations (insert_reservation now key p s sid q rm)) k' = Some r \<and> rs_SessionID r = sid'"
      using rm_okD(7) [OF ok, of k' sid'] k new
      by (auto simp: insert_reservation_def AList.update_conv' split: if_splits)
  qed (use rm_okD(1-3,5,6,8) [OF ok] new assms in
      \<open>auto simp: insert_reservation_def AList.distinct_update AList.update_conv' length_update entry_ok_def
         split: if_splits\<close>)
qed

lemma rm_ok_remove:
  assumes ok: "rm_ok rm" and k: "map_of (rm_reservations rm) key = Some r"
  shows "rm_ok (removeReservation key r rm)"
proof (rule rm_okI)
  fix ps k'
  show "k' \<in> set (keys_at (rm_byProductSize (removeReservation key r rm)) ps) \<longleftrightarrow>
    (\<exists>ra. map_of (rm_reservations (removeReservation key r rm)) k' = Some ra \<and> (rs_ProductID ra, rs_SizeID ra) = ps)"
    using rm_okD(4) [OF ok, of k' ps] k by (auto simp: removeReservation_def AList.delete_conv')
next
  fix sid k'
  assume "k' \<in> set (keys_at (rm_bySession (removeReservation key r rm)) sid)"
  then show "\<exists>ra. map_of (rm_reservations (removeReservation key r rm)) k' = Some ra \<and> rs_SessionID ra = sid"
    using rm_okD(7) [OF ok, of k' sid] k
    by (auto simp: removeReservation_def AList.delete_conv' split: if_splits)
next
  fix sid
  have "length (keys_at (rm_bySession (removeReservation key r rm)) sid) \<le> length (keys_at (rm_bySession rm) sid)"
    by (simp add: removeReservation_def)
  then show "int (length (keys_at (rm_bySession (removeReservation key r rm)) sid))
      \<le> max 0 (lm_MaxItemsPerSession (rm_limits (removeReservation key r rm)))"
    using rm_okD(6) [OF ok, of sid] by (simp add: removeReservation_def)
next
  have "length (AList.delete key (rm_reservations rm)) \<le> length (rm_reservations rm)"
    by (rule AList.length_delete_le)
  then show "int (length (rm_reservations (removeReservation key r rm)))
      \<le> max 0 (lm_MaxTotalReservations (rm_limits (removeReservation key r rm)))"
    using rm_okD(8) [OF ok] by (simp add: removeReservation_def)
qed (use rm_okD(1-3,5) [OF ok] in
      \<open>auto simp: removeReservation_def AList.distinct_delete AList.delete_conv' split: if_splits\<close>)

lemma rm_ok_rate: "rm_ok (snd (allowSessionRate now sid rm)) = rm_ok rm"
  by (auto simp: allowSessionRate_def Let_def split: option.splits)

lemma rate_same [simp]:
  "rm_reservations (snd (allowSessionRate now sid rm)) = rm_reservations rm"
  "rm_bySession (snd (allowSessionRate now sid rm)) = rm_bySession rm"
  "rm_byProductSize (snd (allowSessionRate now sid rm)) = rm_byProductSize rm"
  "rm_byOrder (snd (allowSessionRate now sid rm)) = rm_byOrder rm"
  "rm_limits (snd (allowSessionRate now sid rm)) = rm_limits rm"
  "rm_cartTTL (snd (allowSessionRate now sid rm)) = rm_cartTTL rm"
  "rm_orderTTL (snd (allowSessionRate now sid rm)) = rm_orderTTL rm"
  by (auto simp: allowSessionRate_def Let_def split: option.splits)

text \<open>
  What a reservation attempt does to the holds: nothing, the replacement of the one at its key, or
  one more.
\<close>

lemma reserveLocked_cases:
  obtains (refused) e rm1 where "reserveLocked t1 t2 sid p s q rm = (Inl e, rm1)" "rm1 = rm \<or> rm1 = snd (allowSessionRate t1 sid rm)"
  | (refreshed) r where "0 < q" "q \<le> lm_MaxQtyPerItem (rm_limits rm)"
      "map_of (rm_reservations rm) (reservation_key p s sid) = Some r"
      "reserveLocked t1 t2 sid p s q rm =
         (Inr (), refresh_reservation (reservation_key p s sid) p s sid q r (snd (allowSessionRate t1 sid rm)))"
  | (inserted) "0 < q" "q \<le> lm_MaxQtyPerItem (rm_limits rm)"
      "map_of (rm_reservations rm) (reservation_key p s sid) = None"
      "int (length (keys_at (rm_bySession rm) sid)) < lm_MaxItemsPerSession (rm_limits rm)"
      "int (length (rm_reservations rm)) < lm_MaxTotalReservations (rm_limits rm)"
      "reserveLocked t1 t2 sid p s q rm =
         (Inr (), insert_reservation t2 (reservation_key p s sid) p s sid q (snd (allowSessionRate t1 sid rm)))"
proof (cases "q \<le> 0 \<or> q > lm_MaxQtyPerItem (rm_limits rm)")
  case True
  then show ?thesis using refused unfolding reserveLocked_def by (metis (full_types))
next
  case False
  then have q: "0 < q" "q \<le> lm_MaxQtyPerItem (rm_limits rm)" by auto
  obtain b rm1 where a: "allowSessionRate t1 sid rm = (b, rm1)" by (cases "allowSessionRate t1 sid rm")
  have 1: "rm_reservations rm1 = rm_reservations rm" "rm_bySession rm1 = rm_bySession rm" "rm_limits rm1 = rm_limits rm"
    using rate_same [of t1 sid rm] unfolding a by simp_all
  show ?thesis
  proof (cases b)
    case b: False
    then show ?thesis using q a by (intro refused) (auto simp: reserveLocked_def)
  next
    case b: True
    show ?thesis
    proof (cases "map_of (rm_reservations rm) (reservation_key p s sid)")
      case (Some r)
      then show ?thesis using q a b 1 by (intro refreshed) (auto simp: reserveLocked_def Let_def)
    next
      case None
      then show ?thesis
      proof (cases "int (length (keys_at (rm_bySession rm) sid)) \<ge> lm_MaxItemsPerSession (rm_limits rm) \<or>
          int (length (rm_reservations rm)) \<ge> lm_MaxTotalReservations (rm_limits rm)")
        case True
        then show ?thesis using q a b 1 None
          by (cases "int (length (keys_at (rm_bySession rm) sid)) \<ge> lm_MaxItemsPerSession (rm_limits rm)";
              intro refused) (auto simp: reserveLocked_def Let_def)
      next
        case False
        then show ?thesis using q a b 1 None by (intro inserted) (auto simp: reserveLocked_def Let_def)
      qed
    qed
  qed
qed

lemma refreshed_entry:
  assumes "entry_ok lm (reservation_key p s sid) r" and "0 < q" and "q \<le> lm_MaxQtyPerItem lm"
  shows "entry_ok lm (reservation_key p s sid)
    (if rs_RefreshCount r \<ge> n then r\<lparr>rs_Quantity := q\<rparr>
     else \<lparr>rs_ProductID = p, rs_SizeID = s, rs_Quantity = q, rs_ExpiresAt = rs_ExpiresAt r,
           rs_CreatedAt = rs_CreatedAt r, rs_OrderUUID = [], rs_SessionID = sid, rs_RefreshCount = rs_RefreshCount r + 1\<rparr>)"
  using assms by (auto simp: entry_ok_def)

lemma rm_ok_reserve:
  assumes ok: "rm_ok rm"
  shows "rm_ok (snd (reserveLocked t1 t2 sid p s q rm))"
proof (cases rule: reserveLocked_cases [where ?t1.0 = t1 and ?t2.0 = t2 and sid = sid and p = p and s = s and q = q and rm = rm])
  case (refused e rm1)
  then show ?thesis using ok rm_ok_rate by auto
next
  case (refreshed r)
  let ?rm = "snd (allowSessionRate t1 sid rm)"
  have "entry_ok (rm_limits ?rm) (reservation_key p s sid) r" using rm_okD(2) [OF ok refreshed(3)] by simp
  note e = refreshed_entry [OF this, of q "lm_MaxTTLRefreshes (rm_limits ?rm)"]
  show ?thesis unfolding refreshed(4) refresh_reservation_def snd_conv
    by (rule rm_ok_replace [where r = r]) (use refreshed ok rm_ok_rate e in simp_all)
next
  case inserted
  then show ?thesis using ok by (simp add: rm_ok_insert rm_ok_rate)
qed

lemma rm_ok_commit_key:
  assumes ok: "rm_ok rm"
  shows "rm_ok (commit_key x oid rm k)"
proof (cases "map_of (rm_reservations rm) k")
  case (Some r)
  let ?r = "r\<lparr>rs_OrderUUID := oid, rs_ExpiresAt := x, rs_RefreshCount := 0\<rparr>"
  have "entry_ok (rm_limits rm) k ?r" using rm_okD(2) [OF ok Some] by (simp add: entry_ok_def)
  then have "rm_ok (rm\<lparr>rm_reservations := AList.update k ?r (rm_reservations rm)\<rparr>)"
    by (rule rm_ok_replace [OF ok Some])
  then show ?thesis using Some rm_ok_more(2) by (simp add: commit_key_def)
qed (use ok in \<open>simp add: commit_key_def\<close>)


lemma foldl_preserves: "(\<And>s x. P s \<Longrightarrow> P (f s x)) \<Longrightarrow> P s \<Longrightarrow> P (foldl f s xs)"
  by (induction xs arbitrary: s) auto

lemma rm_ok_delete_session: "rm_ok rm \<Longrightarrow> rm_ok (rm\<lparr>rm_bySession := AList.delete sid (rm_bySession rm), rm_sessionRates := z\<rparr>)"
  by (rule rm_okI) (auto simp: rm_okD dest: rm_okD(7) simp del: map_of_eq_Some_iff split: if_splits)

lemma rm_ok_Commit: "rm_ok rm \<Longrightarrow> rm_ok (Commit now sid oid rm)"
  unfolding Commit_def by (intro foldl_preserves [where P = rm_ok] rm_ok_commit_key)



text \<open>The cleanup walks over a snapshot; each entry is still there when its turn comes.\<close>

lemma expire_fold:
  assumes "\<And>rm k r. I rm \<Longrightarrow> map_of (rm_reservations rm) k = Some r \<Longrightarrow> I (removeReservation k r rm)"
    and "\<And>rm x. I rm \<Longrightarrow> I (rm\<lparr>rm_byOrder := x\<rparr>)"
    and "distinct (map fst es)" and "\<forall>e\<in>set es. map_of (rm_reservations rm) (fst e) = Some (snd e)" and "I rm"
  shows "I (foldl (expire_key now) rm es)"
  using assms(3-)
proof (induction es arbitrary: rm)
  case (Cons e es)
  obtain k r where e: "e = (k, r)" by (cases e)
  have k: "map_of (rm_reservations rm) k = Some r" using Cons.prems(2) e by simp
  have res: "rm_reservations (expire_key now rm e) = (if rs_ExpiresAt r < now then AList.delete k (rm_reservations rm) else rm_reservations rm)"
    by (simp add: e expire_key_def removeReservation_def Let_def)
  have "\<forall>f\<in>set es. map_of (rm_reservations (expire_key now rm e)) (fst f) = Some (snd f)"
    unfolding res using Cons.prems(1,2) e by (auto simp: AList.delete_conv')
  moreover have "I (expire_key now rm e)"
    using assms(1) [OF Cons.prems(3) k] assms(2) Cons.prems(3) by (simp add: e expire_key_def Let_def)
  ultimately show ?case using Cons.IH [of "expire_key now rm e"] Cons.prems(1) by simp
qed simp

lemma cleanup_preserves:
  assumes "\<And>rm k r. I rm \<Longrightarrow> map_of (rm_reservations rm) k = Some r \<Longrightarrow> I (removeReservation k r rm)"
    and "\<And>rm x. I rm \<Longrightarrow> I (rm\<lparr>rm_byOrder := x\<rparr>)" and "\<And>rm x. I rm \<Longrightarrow> I (rm\<lparr>rm_sessionRates := x\<rparr>)"
    and "distinct (map fst (rm_reservations rm))" and "I rm"
  shows "I (runCleanupOnce now rm)"
  unfolding runCleanupOnce_def Let_def
  by (rule assms(3), rule expire_fold [where I = I, OF assms(1,2)]) (use assms(4,5) in auto)



section \<open>What is held\<close>

text \<open>The live holds of a product and size over all reservations, of the sessions a predicate selects.\<close>

definition hold_amt :: "time \<Rightarrow> int \<Rightarrow> int \<Rightarrow> (string \<Rightarrow> bool) \<Rightarrow> Reservation \<Rightarrow> decimal" where
  "hold_amt now p s P r =
     (if rs_ProductID r = p \<and> rs_SizeID r = s \<and> now < rs_ExpiresAt r \<and> P (rs_SessionID r) then rs_Quantity r else 0)"

definition held :: "time \<Rightarrow> int \<Rightarrow> int \<Rightarrow> (string \<Rightarrow> bool) \<Rightarrow> Manager \<Rightarrow> decimal" where
  "held now p s P rm = asum (hold_amt now p s P) (rm_reservations rm)"

lemma foldl_sum: "foldl (\<lambda>t k. t + h k) a ks = a + sum_list (map h ks)" for a :: decimal
  by (induction ks arbitrary: a) (simp_all add: add.assoc)

lemma entry_okD: "rm_ok rm \<Longrightarrow> (k, r) \<in> set (rm_reservations rm) \<Longrightarrow> entry_ok (rm_limits rm) k r"
  using rm_okD(1,2) by (metis map_of_is_SomeI)

lemma reserved_is_held:
  assumes ok: "rm_ok rm"
  shows "reservedQuantityLocked now p s x rm = held now p s (\<lambda>sid. sid \<noteq> x) rm"
proof -
  let ?g = "hold_amt now p s (\<lambda>sid. sid \<noteq> x)" and ?al = "rm_reservations rm"
  let ?ks = "keys_at (rm_byProductSize rm) (p, s)"
  have in_idx: "k \<in> set ?ks" if "(k, r) \<in> set ?al" "?g r \<noteq> 0" for k r
    using rm_okD(4) [OF ok, of k "(p, s)"] that rm_okD(1) [OF ok]
    by (auto simp: hold_amt_def split: if_splits)
  have eq: "(case map_of ?al k of None \<Rightarrow> t
      | Some r \<Rightarrow> if now < rs_ExpiresAt r \<and> rs_SessionID r \<noteq> x then t + rs_Quantity r else t)
      = t + val_at ?g (map_of ?al k)" if "k \<in> set ?ks" for t k
    using that rm_okD(4) [OF ok, of k "(p, s)"] by (auto simp: hold_amt_def)
  have "reservedQuantityLocked now p s x rm = foldl (\<lambda>t k. t + val_at ?g (map_of ?al k)) 0 ?ks"
    unfolding reservedQuantityLocked_def by (rule foldl_cong) (use eq in auto)
  also have "\<dots> = sum_list (map (\<lambda>k. val_at ?g (map_of ?al k)) ?ks)" by (simp add: foldl_sum)
  also have "\<dots> = asum ?g ?al"
  proof (rule asum_keys [OF rm_okD(1) [OF ok] rm_okD(3) [OF ok]])
    show "set ?ks \<subseteq> fst ` set ?al" using rm_okD(4) [OF ok] by (auto dest: key_present simp del: map_of_eq_Some_iff)
  qed (use in_idx in blast)
  finally show ?thesis by (simp add: held_def)
qed

lemma hold_amt_nonneg: "entry_ok lm k r \<Longrightarrow> 0 \<le> hold_amt now p s P r"
  by (simp add: hold_amt_def entry_ok_def)

lemma held_later: "rm_ok rm \<Longrightarrow> t \<le> t' \<Longrightarrow> held t' p s P rm \<le> held t p s P rm"
  unfolding held_def by (rule asum_mono) (auto dest!: entry_okD simp: hold_amt_def entry_ok_def)

lemma held_split: "held now p s (\<lambda>_. True) rm = held now p s (\<lambda>x. x \<noteq> sid) rm + held now p s (\<lambda>x. x = sid) rm"
  unfolding held_def asum_add [symmetric] by (rule asum_cong) (simp add: hold_amt_def)

text \<open>A session has at most one hold on a product and size, so its share is one entry.\<close>

lemma held_own:
  assumes ok: "rm_ok rm"
  shows "held now p s (\<lambda>x. x = sid) rm =
    val_at (hold_amt now p s (\<lambda>x. x = sid)) (map_of (rm_reservations rm) (reservation_key p s sid))"
  unfolding held_def
proof (rule asum_single [OF rm_okD(1) [OF ok]])
  fix k r assume "(k, r) \<in> set (rm_reservations rm)" "k \<noteq> reservation_key p s sid"
  then show "hold_amt now p s (\<lambda>x. x = sid) r = 0"
    using entry_okD [OF ok, of k r] by (auto simp: entry_ok_def hold_amt_def)
qed

lemma held_update:
  assumes ok: "rm_ok rm" and "map_of (rm_reservations rm) k = r0"
    and "\<And>r. r0 = Some r \<Longrightarrow> \<not> (rs_ProductID r = p \<and> rs_SizeID r = s \<and> P (rs_SessionID r))"
    and "\<not> (rs_ProductID r' = p \<and> rs_SizeID r' = s \<and> P (rs_SessionID r'))"
    and "rm_reservations rm' = AList.update k r' (rm_reservations rm)"
  shows "held now p s P rm' = held now p s P rm"
  unfolding held_def assms(5) using assms(2-4)
  by (cases r0) (auto simp: asum_update [OF rm_okD(1) [OF ok]] hold_amt_def)

lemma held_remove:
  assumes ok: "rm_ok rm" and k: "map_of (rm_reservations rm) k = Some r"
  shows "held now p s P (removeReservation k r rm) \<le> held now p s P rm"
proof -
  have "0 \<le> hold_amt now p s P r" using rm_okD(2) [OF ok k] by (rule hold_amt_nonneg)
  then show ?thesis using k by (simp add: held_def removeReservation_def asum_delete [OF rm_okD(1) [OF ok]])
qed

section \<open>Holds never exceed the stock\<close>

definition in_stock :: "(int \<Rightarrow> int \<Rightarrow> decimal) \<Rightarrow> time \<Rightarrow> Manager \<Rightarrow> bool" where
  "in_stock stock t rm \<longleftrightarrow> rm_ok rm \<and> (\<forall>p s. held t p s (\<lambda>_. True) rm \<le> max 0 (stock p s))"

lemma in_stock_later: "in_stock stock t rm \<Longrightarrow> t \<le> t' \<Longrightarrow> in_stock stock t' rm"
  unfolding in_stock_def using held_later order_trans by blast

lemma held_cong: "rm_reservations rm' = rm_reservations rm \<Longrightarrow> held now p s P rm' = held now p s P rm"
  by (simp add: held_def)

lemma in_stock_cong:
  "in_stock stock t rm \<Longrightarrow> rm_reservations rm' = rm_reservations rm \<Longrightarrow> rm_ok rm' \<Longrightarrow> in_stock stock t rm'"
  unfolding in_stock_def by (simp add: held_def)

lemma in_stock_remove:
  "in_stock stock t rm \<Longrightarrow> map_of (rm_reservations rm) k = Some r \<Longrightarrow> in_stock stock t (removeReservation k r rm)"
  unfolding in_stock_def using rm_ok_remove held_remove order_trans by blast

lemma in_stock_release_key: "in_stock stock t rm \<Longrightarrow> in_stock stock t (release_key c rm k)"
  by (auto simp: release_key_def in_stock_remove split: option.splits)

lemma in_stock_more [simp]:
  "in_stock stock t (rm\<lparr>rm_byOrder := x\<rparr>) = in_stock stock t rm"
  "in_stock stock t (rm\<lparr>rm_sessionRates := y\<rparr>) = in_stock stock t rm"
  by (simp_all add: in_stock_def held_def)

lemma in_stock_delete_session:
  "in_stock stock t rm \<Longrightarrow> in_stock stock t (rm\<lparr>rm_bySession := AList.delete sid (rm_bySession rm), rm_sessionRates := z\<rparr>)"
  using rm_ok_delete_session by (auto simp: in_stock_def held_def)

lemma in_stock_Release: "in_stock stock t rm \<Longrightarrow> in_stock stock t (Release oid rm)"
  unfolding Release_def Let_def in_stock_more
  by (intro foldl_preserves [where P = "in_stock stock t"] in_stock_release_key)

lemma in_stock_ReleaseSession: "in_stock stock t rm \<Longrightarrow> in_stock stock t (ReleaseSession sid rm)"
  unfolding ReleaseSession_def Let_def
  by (intro in_stock_delete_session foldl_preserves [where P = "in_stock stock t"] in_stock_release_key)

lemma in_stock_cleanup:
  assumes "in_stock stock t rm"
  shows "in_stock stock t (runCleanupOnce now rm)"
proof (rule cleanup_preserves [where I = "in_stock stock t"])
  show "distinct (map fst (rm_reservations rm))" using assms by (auto simp: in_stock_def rm_okD(1))
qed (use assms in \<open>simp_all add: in_stock_remove del: map_of_eq_Some_iff\<close>)

lemma in_stock_reserve:
  assumes w: "in_stock stock t0 rm" and t: "t0 \<le> t1" "t1 \<le> t2"
    and q: "q + held t0 p s (\<lambda>x. x \<noteq> sid) rm \<le> stock p s"
  shows "in_stock stock t2 (snd (reserveLocked t1 t2 sid p s q rm))"
proof -
  have ok: "rm_ok rm" and le: "\<And>p s. held t0 p s (\<lambda>_. True) rm \<le> max 0 (stock p s)"
    using w by (auto simp: in_stock_def)
  let ?k = "reservation_key p s sid" and ?rm = "snd (reserveLocked t1 t2 sid p s q rm)"
  have ok': "rm_ok ?rm" by (rule rm_ok_reserve [OF ok])
  have t02: "t0 \<le> t2" using t by simp
  show ?thesis
  proof (cases "rm_reservations ?rm = rm_reservations rm")
    case True
    then show ?thesis using in_stock_cong [OF in_stock_later [OF w t02]] ok' by blast
  next
    case False
    then obtain r' where r': "rm_reservations ?rm = AList.update ?k r' (rm_reservations rm)"
        "rs_ProductID r' = p" "rs_SizeID r' = s" "rs_SessionID r' = sid" "rs_Quantity r' = q"
    proof (cases rule: reserveLocked_cases [where ?t1.0 = t1 and ?t2.0 = t2 and sid = sid and p = p and s = s and q = q and rm = rm])
      case (refreshed r)
      let ?r = "if rs_RefreshCount r \<ge> lm_MaxTTLRefreshes (rm_limits rm) then r\<lparr>rs_Quantity := q\<rparr>
          else \<lparr>rs_ProductID = p, rs_SizeID = s, rs_Quantity = q, rs_ExpiresAt = rs_ExpiresAt r,
                rs_CreatedAt = rs_CreatedAt r, rs_OrderUUID = [], rs_SessionID = sid,
                rs_RefreshCount = rs_RefreshCount r + 1\<rparr>"
      have "rm_reservations ?rm = AList.update ?k ?r (rm_reservations rm)"
        using refreshed(4) by (simp only: refresh_reservation_def snd_conv rate_same) simp
      then show ?thesis
        by (rule that) (use rm_okD(2) [OF ok refreshed(3)] in \<open>auto simp: entry_ok_def\<close>)
    next
      case inserted
      let ?r = "\<lparr>rs_ProductID = p, rs_SizeID = s, rs_Quantity = q, rs_ExpiresAt = t2 + rm_cartTTL rm,
          rs_CreatedAt = t2, rs_OrderUUID = [], rs_SessionID = sid, rs_RefreshCount = 0\<rparr>"
      have "rm_reservations ?rm = AList.update ?k ?r (rm_reservations rm)"
        using inserted(6) by (simp add: insert_reservation_def)
      then show ?thesis by (rule that) simp_all
    qed auto
    have old: "rs_ProductID r = p \<and> rs_SizeID r = s \<and> rs_SessionID r = sid"
      if "map_of (rm_reservations rm) ?k = Some r" for r
      using rm_okD(2) [OF ok that] by (simp add: entry_ok_def)
    have "held t2 p' s' (\<lambda>_. True) ?rm \<le> max 0 (stock p' s')" for p' s'
    proof (cases "p' = p \<and> s' = s")
      case False
      then have "held t2 p' s' (\<lambda>_. True) ?rm = held t2 p' s' (\<lambda>_. True) rm"
        using old r' by (intro held_update [OF ok refl _ _ r'(1)]) auto
      then show ?thesis using held_later [OF ok t02, of p' s' "\<lambda>_. True"] le [of p' s'] by linarith
    next
      case True
      have "held t2 p s (\<lambda>x. x \<noteq> sid) ?rm = held t2 p s (\<lambda>x. x \<noteq> sid) rm"
        using old r' by (intro held_update [OF ok refl _ _ r'(1)]) auto
      moreover have at: "map_of (rm_reservations ?rm) ?k = Some r'" by (simp add: r'(1) AList.update_conv')
      have "entry_ok (rm_limits ?rm) ?k r'" by (rule rm_okD(2) [OF ok' at])
      then have "0 < q" using r'(5) by (simp add: entry_ok_def)
      then have "held t2 p s (\<lambda>x. x = sid) ?rm \<le> q"
        unfolding held_own [OF ok', of t2 p s sid] at val_at_simps by (simp add: hold_amt_def r'(5))
      ultimately have "held t2 p s (\<lambda>_. True) ?rm \<le> stock p s"
        using held_split [of t2 p s ?rm sid] held_later [OF ok t02, of p s "\<lambda>x. x \<noteq> sid"] q by linarith
      then show ?thesis using True by simp
    qed
    then show ?thesis using ok' by (simp add: in_stock_def)
  qed
qed

lemma in_stock_ReserveIfAvailable:
  assumes w: "in_stock stock t0 rm" and "t0 \<le> t1" "t1 \<le> t2" and level: "lvl \<le> stock p s"
  shows "in_stock stock t2 (snd (ReserveIfAvailable t0 t1 t2 lvl sid p s q rm))"
proof -
  define a where "a = lvl - reservedQuantityLocked t0 p s sid rm"
  have ok: "rm_ok rm" using w by (simp add: in_stock_def)
  show ?thesis
  proof (cases "a \<le> 0")
    case True
    then show ?thesis using in_stock_later [OF w] assms(2,3) by (simp add: ReserveIfAvailable_def a_def Let_def)
  next
    case False
    let ?q = "if q > a then a else q"
    have "in_stock stock t2 (snd (reserveLocked t1 t2 sid p s ?q rm))"
      using w assms(2,3) by (rule in_stock_reserve) (use level in \<open>simp add: a_def reserved_is_held [OF ok]\<close>)
    moreover have "snd (ReserveIfAvailable t0 t1 t2 lvl sid p s q rm) = snd (reserveLocked t1 t2 sid p s ?q rm)"
      using False by (simp add: ReserveIfAvailable_def a_def [symmetric] Let_def split_beta split: sum.splits prod.splits)
    ultimately show ?thesis by simp
  qed
qed

lemma in_stock_mono: "in_stock stock t rm \<Longrightarrow> (\<And>p s. stock p s \<le> stock' p s) \<Longrightarrow> in_stock stock' t rm"
  unfolding in_stock_def by (meson max.mono order_refl order_trans)

text \<open>
  Committing moves the expiry of every hold of the session.  A hold that is alive counts before and after; one
  that has expired but was not cleaned up yet counts again: its quantity is what the commit revives.
\<close>

definition expired_amt :: "time \<Rightarrow> int \<Rightarrow> int \<Rightarrow> Reservation \<Rightarrow> decimal" where
  "expired_amt now p s r =
     (if rs_ProductID r = p \<and> rs_SizeID r = s \<and> rs_ExpiresAt r \<le> now then rs_Quantity r else 0)"

definition revived :: "time \<Rightarrow> string \<Rightarrow> int \<Rightarrow> int \<Rightarrow> Manager \<Rightarrow> decimal" where
  "revived now sid p s rm =
     (\<Sum>k\<leftarrow>keys_at (rm_bySession rm) sid. val_at (expired_amt now p s) (map_of (rm_reservations rm) k))"

lemma expired_amt_nonneg: "rm_ok rm \<Longrightarrow> 0 \<le> val_at (expired_amt now p s) (map_of (rm_reservations rm) k)"
  using rm_okD(2) [of rm k] by (cases "map_of (rm_reservations rm) k") (auto simp: expired_amt_def entry_ok_def)

lemma revived_nonneg: "rm_ok rm \<Longrightarrow> 0 \<le> revived now sid p s rm"
  unfolding revived_def by (rule sum_list_nonneg) (auto simp: expired_amt_nonneg)

lemma revived_live:
  assumes "\<And>k r. k \<in> set (keys_at (rm_bySession rm) sid) \<Longrightarrow> map_of (rm_reservations rm) k = Some r \<Longrightarrow> now < rs_ExpiresAt r"
  shows "revived now sid p s rm = 0"
proof -
  have "val_at (expired_amt now p s) (map_of (rm_reservations rm) k) = 0" if "k \<in> set (keys_at (rm_bySession rm) sid)" for k
    using assms [OF that] by (cases "map_of (rm_reservations rm) k") (auto simp: expired_amt_def)
  then show ?thesis unfolding revived_def by (simp add: sum_list_0 cong: map_cong)
qed

lemma held_commit_key:
  assumes ok: "rm_ok rm"
  shows "held t p s (\<lambda>_. True) (commit_key x oid rm k) \<le>
    held t p s (\<lambda>_. True) rm + val_at (expired_amt t p s) (map_of (rm_reservations rm) k)"
proof (cases "map_of (rm_reservations rm) k")
  case (Some r)
  have "0 < rs_Quantity r" using rm_okD(2) [OF ok Some] by (simp add: entry_ok_def)
  then show ?thesis using Some
    by (simp add: held_def commit_key_def asum_update [OF rm_okD(1) [OF ok]] hold_amt_def expired_amt_def)
qed (simp add: commit_key_def)

lemma commit_key_other:
  "k' \<noteq> k \<Longrightarrow> map_of (rm_reservations (commit_key x oid rm k)) k' = map_of (rm_reservations rm) k'"
  by (auto simp: commit_key_def AList.update_conv' split: option.splits)

lemma held_commit_keys:
  assumes "rm_ok rm" and "distinct ks"
  shows "held t p s (\<lambda>_. True) (foldl (commit_key x oid) rm ks) \<le>
    held t p s (\<lambda>_. True) rm + (\<Sum>k\<leftarrow>ks. val_at (expired_amt t p s) (map_of (rm_reservations rm) k))"
  using assms
proof (induction ks arbitrary: rm)
  case (Cons k ks)
  let ?rm = "commit_key x oid rm k"
  have eq: "(\<Sum>k'\<leftarrow>ks. val_at (expired_amt t p s) (map_of (rm_reservations ?rm) k')) =
      (\<Sum>k'\<leftarrow>ks. val_at (expired_amt t p s) (map_of (rm_reservations rm) k'))"
    using Cons.prems(2) commit_key_other [of _ k x oid rm]
    by (intro arg_cong [where f = sum_list] map_cong refl) (metis distinct.simps(2))
  have "held t p s (\<lambda>_. True) (foldl (commit_key x oid) ?rm ks) \<le> held t p s (\<lambda>_. True) ?rm +
      (\<Sum>k'\<leftarrow>ks. val_at (expired_amt t p s) (map_of (rm_reservations rm) k'))"
    using Cons.IH [OF rm_ok_commit_key [OF Cons.prems(1), of x oid k]] Cons.prems(2) unfolding eq by simp
  also have "\<dots> \<le> held t p s (\<lambda>_. True) rm + val_at (expired_amt t p s) (map_of (rm_reservations rm) k) +
      (\<Sum>k'\<leftarrow>ks. val_at (expired_amt t p s) (map_of (rm_reservations rm) k'))"
    using held_commit_key [OF Cons.prems(1), of t p s x oid k] by simp
  finally show ?case by (simp add: add.assoc)
qed simp

lemma in_stock_Commit:
  assumes w: "in_stock stock t rm"
  shows "in_stock (\<lambda>p s. max 0 (stock p s) + revived t sid p s rm) t (Commit t sid oid rm)"
proof -
  have ok: "rm_ok rm" and le: "held t p s (\<lambda>_. True) rm \<le> max 0 (stock p s)" for p s
    using w by (auto simp: in_stock_def)
  have "held t p s (\<lambda>_. True) (Commit t sid oid rm) \<le> max 0 (max 0 (stock p s) + revived t sid p s rm)" for p s
    using held_commit_keys [OF ok rm_okD(5) [OF ok], of t p s "t + rm_orderTTL rm" oid sid] le [of p s]
    unfolding Commit_def revived_def by linarith
  then show ?thesis using rm_ok_Commit [OF ok] by (simp add: in_stock_def)
qed


section \<open>Runs\<close>





text \<open>The two limits that the invariant of the indexes leaves out: refreshes of a hold and requests of a session.\<close>

definition caps_ok :: "Manager \<Rightarrow> bool" where
  "caps_ok rm \<longleftrightarrow>
     (\<forall>r \<in> snd ` set (rm_reservations rm). 0 \<le> rs_RefreshCount r \<and> rs_RefreshCount r \<le> max 0 (lm_MaxTTLRefreshes (rm_limits rm))) \<and>
     (\<forall>e \<in> snd ` set (rm_sessionRates rm). se_count e \<le> max 1 (lm_ReserveRatePerSession (rm_limits rm)))"






lemma caps_New [simp]: "caps_ok (NewManager c ord lm)"
  by (simp add: caps_ok_def NewManager_def)













text \<open>
  Runs of the shop: carts are reserved through ReserveIfAvailable, time does not go back, and everything else
  happens at any moment.  \<open>stock\<close> bounds the stock levels that the reservations read, and \<open>again\<close> counts, per product
  and size, the units of expired holds that commits have revived.
\<close>

inductive shop_reach :: "(int \<Rightarrow> int \<Rightarrow> decimal) \<Rightarrow> (int \<Rightarrow> int \<Rightarrow> decimal) \<Rightarrow> time \<Rightarrow> Manager \<Rightarrow> bool" for stock where
  new: "shop_reach stock (\<lambda>_ _. 0) t (NewManager c ord lm)"
| later: "shop_reach stock again t rm \<Longrightarrow> t \<le> t' \<Longrightarrow> shop_reach stock again t' rm"
| reserve: "shop_reach stock again t0 rm \<Longrightarrow> t0 \<le> t1 \<Longrightarrow> t1 \<le> t2 \<Longrightarrow> level \<le> stock p s \<Longrightarrow>
    shop_reach stock again t2 (snd (ReserveIfAvailable t0 t1 t2 level sid p s q rm))"
| commit: "shop_reach stock again t rm \<Longrightarrow>
    shop_reach stock (\<lambda>p s. again p s + revived t sid p s rm) t (Commit t sid oid rm)"
| release: "shop_reach stock again t rm \<Longrightarrow> shop_reach stock again t (Release oid rm)"
| release_session: "shop_reach stock again t rm \<Longrightarrow> shop_reach stock again t (ReleaseSession sid rm)"
| cleanup: "shop_reach stock again t rm \<Longrightarrow> shop_reach stock again t (runCleanupOnce t rm)"

lemma shop_reach_in_stock:
  "shop_reach stock again t rm \<Longrightarrow> (\<forall>p s. 0 \<le> again p s) \<and> in_stock (\<lambda>p s. max 0 (stock p s) + again p s) t rm"
proof (induction rule: shop_reach.induct)
  case (new t c ord lm)
  show ?case using rm_ok_New [of c ord lm] by (simp add: in_stock_def held_def NewManager_def asum_def)
next
  case (reserve again t0 rm t1 t2 level p s sid q)
  have "level \<le> max 0 (stock p s) + again p s" using reserve.hyps(4) reserve.IH by (simp add: add_increasing2 le_max_iff_disj)
  then show ?case using reserve.IH reserve.hyps(2,3)
    by (intro conjI in_stock_ReserveIfAvailable [where ?t0.0 = t0 and ?t1.0 = t1]) simp_all
next
  case (commit again t rm sid oid)
  then have again: "0 \<le> again p s" for p s by blast
  have ok: "rm_ok rm" using commit.IH by (simp add: in_stock_def)
  have "in_stock (\<lambda>p s. max 0 (stock p s) + (again p s + revived t sid p s rm)) t (Commit t sid oid rm)"
    by (rule in_stock_mono [OF in_stock_Commit [OF conjunct2 [OF commit.IH], of sid oid]])
      (simp add: max_absorb2 again add.assoc)
  then show ?case using again revived_nonneg [OF ok] by simp
qed (auto simp: in_stock_later in_stock_Release in_stock_ReleaseSession in_stock_cleanup)

section \<open>Properties\<close>



text \<open>
  C40: What carts can hold.  Let every cart reserve through ReserveIfAvailable against a stock level within
  the bound given for its product and size, and let commits, releases and cleanups come at any moment and in any order.
  Then the live holds of all sessions on a product and size, at the time of the last operation and ever after, stay
  within that bound plus the units that commits revived after their hold had expired: reservations, releases and
  cleanups never oversell, and a commit does so by nothing but its expired holds.  When every commit finds the holds
  of its session alive the holds stay within the bound itself (revived_live).  The availability a session is shown is
  the stock less the live holds of the others, cut off at 0.
\<close>

theorem holds_within_stock:
  assumes "shop_reach stock again t rm" and "t \<le> t'"
  shows "held t' p s (\<lambda>_. True) rm \<le> max 0 (stock p s) + again p s
    \<and> GetAvailableStock t' level p s x rm = max 0 (level - held t' p s (\<lambda>sid. sid \<noteq> x) rm)"
proof -
  have again: "0 \<le> again p s" and w: "in_stock (\<lambda>p s. max 0 (stock p s) + again p s) t' rm"
    using shop_reach_in_stock [OF assms(1)] assms(2) in_stock_later by blast+
  then have "rm_ok rm" "held t' p s (\<lambda>_. True) rm \<le> max 0 (stock p s) + again p s"
    unfolding in_stock_def by (blast, metis add_nonneg_nonneg max.cobounded1 max_absorb2)
  then show ?thesis by (simp add: GetAvailableStock_def reserved_is_held Let_def max_def)
qed

theorem holds_within_stock_witness:
  "held 3 7 1 (\<lambda>_. True) (Commit 2 ''a'' ''order-1''
     (snd (ReserveIfAvailable 2 2 2 1 ''b'' 7 1 1 (snd (ReserveIfAvailable 0 0 0 1 ''a'' 7 1 1 NewDefaultManager))))) \<le> 1"
proof -
  let ?a = "snd (ReserveIfAvailable 0 0 0 1 ''a'' 7 1 1 NewDefaultManager)"
  let ?b = "snd (ReserveIfAvailable 2 2 2 1 ''b'' 7 1 1 ?a)"
  have "shop_reach (\<lambda>_ _. 1) (\<lambda>_ _. 0) 0 ?a"
    unfolding NewDefaultManager_def by (rule shop_reach.reserve [OF shop_reach.new]) simp_all
  then have "shop_reach (\<lambda>_ _. 1) (\<lambda>_ _. 0) 2 ?b"
    by (intro shop_reach.reserve [where ?t0.0 = 2] shop_reach.later [of _ _ 0 _ 2]) simp_all
  from holds_within_stock [OF shop_reach.commit [OF this, of "''a''" "''order-1''"], of 3 7 1 1 "''c''"]
  have "held 3 7 1 (\<lambda>_. True) (Commit 2 ''a'' ''order-1'' ?b) \<le> 1 + revived 2 ''a'' 7 1 ?b" by simp
  also have "revived 2 ''a'' 7 1 ?b = 0" by code_simp
  finally show ?thesis by simp
qed

section \<open>Where the bookkeeping breaks\<close>

text \<open>
  Committing a hold that has expired but was not cleaned up yet revives it: two sessions then hold
  the only piece.
\<close>

definition two_holders :: Manager where
  "two_holders =
     (let m = 60 * 1000000000; rm = snd (ReserveIfAvailable 0 0 0 1 ''a'' 7 1 1 NewDefaultManager);
          rm = snd (ReserveIfAvailable (15 * m + 1) (15 * m + 1) (15 * m + 1) 1 ''b'' 7 1 1 rm)
      in Commit (15 * m + 2) ''a'' ''order-1'' rm)"

theorem revived_hold_oversells: "held (15 * 60 * 1000000000 + 3) 7 1 (\<lambda>_. True) two_holders = 2"
  by code_simp

text \<open>
  A new cart request for an item that a pending order of the session holds turns the hold back into
  a cart hold, still under the order's key: abandoning the cart then frees the pending order's piece.
\<close>

theorem order_hold_lost:
  "rm_reservations (ReleaseSession ''a'' (snd (Reserve 2 2 ''a'' 7 1 1
     (Commit 1 ''a'' ''order-1'' (snd (Reserve 0 0 ''a'' 7 1 1 NewDefaultManager)))))) = []"
  by code_simp

text \<open>Without the second request the order keeps its hold.\<close>

theorem order_hold_kept:
  "map fst (rm_reservations (ReleaseSession ''a'' 
     (Commit 1 ''a'' ''order-1'' (snd (Reserve 0 0 ''a'' 7 1 1 NewDefaultManager))))) = [''7-1-a'']"
  by code_simp

text \<open>
  The cap per session counts what the session index lists.  With a cap of one item: reserve, commit, release the
  session, reserve another item, and the session has two reservations.
\<close>

theorem session_cap_passed:
  "map (\<lambda>(k, r). rs_SessionID r) (rm_reservations (snd (Reserve 4 4 ''a'' 8 1 1 (ReleaseSession ''a''
     (Commit 1 ''a'' ''order-1'' (snd (Reserve 0 0 ''a'' 7 1 1 (NewManager 100 100
        (DefaultLimits\<lparr>lm_MaxItemsPerSession := 1\<rparr>))))))))) = [''a'', ''a'']"
  by code_simp

end
