(* ===== verification/Outbox.thy ===== *)
theory Outbox
  imports Ledger_Store
begin

text \<open>
  The outbox of order events (internal/store/accounting/events.go): the \<open>acct_event\<close> table, its
  idempotent insert, the marks that move an event through its life, the operator's actions on an
  event that needs review, and the state of an order's postings the worker reads (ledger.go).
  \<open>now\<close> is the database clock.
\<close>

section \<open>Events\<close>

text \<open>
  A payload column is JSON.  One that decodes into the struct of its event type is the record of the
  keys those structs read, a missing key having its zero value; one that does not is the text of the
  decoding error.
\<close>

record event_payload =
  py_OrderUUID :: string
  py_Refund :: AcctOrderRefundPayload
  py_Dispute :: AcctOrderDisputePayload

record AcctEvent =
  ae_Id :: int
  ae_EventType :: AcctEventType
  ae_SourceKey :: string
  ae_Payload :: "string + event_payload"
  ae_OccurredAt :: time
  ae_CreatedAt :: time
  ae_ProcessedAt :: "time option"
  ae_Attempts :: int
  ae_NextRetryAt :: "time option"
  ae_LastError :: "string option"
  ae_NeedsReview :: bool

text \<open>The payload of an insert: a marshalling error, or what the JSON decodes to.\<close>

record AcctEventInsert =
  ei_EventType :: AcctEventType
  ei_SourceKey :: string
  ei_Payload :: "string + event_payload"
  ei_OccurredAt :: time

record event_db =
  ev_events :: "AcctEvent list"
  ev_next :: int

abbreviation defaultListLimit :: int where "defaultListLimit \<equiv> 50"

definition EnqueueEvent :: "time \<Rightarrow> AcctEventInsert \<Rightarrow> event_db \<Rightarrow> (string + unit) \<times> event_db" where
  "EnqueueEvent now ins db =
     (case ei_Payload ins of
        Inl err \<Rightarrow> (Inl err, db)
      | Inr p \<Rightarrow>
          if \<exists>e \<in> set (ev_events db). ae_EventType e = ei_EventType ins \<and> ae_SourceKey e = ei_SourceKey ins
          then (Inr (), db)
          else
            let e = \<lparr>ae_Id = ev_next db, ae_EventType = ei_EventType ins, ae_SourceKey = ei_SourceKey ins,
                     ae_Payload = Inr p, ae_OccurredAt = ei_OccurredAt ins, ae_CreatedAt = now,
                     ae_ProcessedAt = None, ae_Attempts = 0, ae_NextRetryAt = None, ae_LastError = None,
                     ae_NeedsReview = False\<rparr>
            in (Inr (), db\<lparr>ev_events := ev_events db @ [e], ev_next := ev_next db + 1\<rparr>))"

definition event_due :: "time \<Rightarrow> AcctEvent \<Rightarrow> bool" where
  "event_due now e \<longleftrightarrow>
     ae_ProcessedAt e = None \<and> (case ae_NextRetryAt e of None \<Rightarrow> True | Some t \<Rightarrow> t \<le> now)"

definition ListPendingEvents :: "time \<Rightarrow> int \<Rightarrow> event_db \<Rightarrow> AcctEvent list" where
  "ListPendingEvents now limit db =
     take (nat (if limit \<le> 0 then defaultListLimit else limit))
       (sort_key ae_Id (filter (event_due now) (ev_events db)))"

definition update_event :: "int \<Rightarrow> (AcctEvent \<Rightarrow> AcctEvent) \<Rightarrow> event_db \<Rightarrow> event_db" where
  "update_event i f db = db\<lparr>ev_events := map (\<lambda>e. if ae_Id e = i then f e else e) (ev_events db)\<rparr>"

definition MarkEventProcessed :: "time \<Rightarrow> int \<Rightarrow> event_db \<Rightarrow> event_db" where
  "MarkEventProcessed now i = update_event i (\<lambda>e. e\<lparr>ae_ProcessedAt := Some now\<rparr>)"

definition MarkEventFailed :: "time \<Rightarrow> int \<Rightarrow> string \<Rightarrow> int \<Rightarrow> event_db \<Rightarrow> event_db" where
  "MarkEventFailed now i errMsg retryAfter =
     (let secs = (if retryAfter < 0 then 0 else retryAfter div 1000000000)
      in update_event i (\<lambda>e. e\<lparr>ae_Attempts := ae_Attempts e + 1, ae_LastError := Some errMsg,
                                ae_NextRetryAt := Some (now + secs * 1000000000)\<rparr>))"

definition MarkEventNeedsReview :: "time \<Rightarrow> int \<Rightarrow> string \<Rightarrow> event_db \<Rightarrow> event_db" where
  "MarkEventNeedsReview now i reason =
     update_event i (\<lambda>e. e\<lparr>ae_ProcessedAt := Some (case ae_ProcessedAt e of Some t \<Rightarrow> t | None \<Rightarrow> now),
                           ae_NeedsReview := True, ae_LastError := Some reason, ae_NextRetryAt := None\<rparr>)"

definition ReprocessAcctEvent :: "int \<Rightarrow> event_db \<Rightarrow> event_db" where
  "ReprocessAcctEvent i =
     update_event i (\<lambda>e. e\<lparr>ae_ProcessedAt := None, ae_NeedsReview := False, ae_Attempts := 0,
                           ae_LastError := None, ae_NextRetryAt := None\<rparr>)"

definition ResolveAcctEvent :: "int \<Rightarrow> event_db \<Rightarrow> event_db" where
  "ResolveAcctEvent i = update_event i (\<lambda>e. e\<lparr>ae_NeedsReview := False\<rparr>)"

definition ListEventsNeedingReview :: "int \<Rightarrow> event_db \<Rightarrow> AcctEvent list" where
  "ListEventsNeedingReview limit db =
     take (nat (if limit \<le> 0 then defaultListLimit else limit))
       (sort_key ae_Id (filter ae_NeedsReview (ev_events db)))"

definition CountEventsNeedingReviewInPeriod :: "time \<Rightarrow> time \<Rightarrow> event_db \<Rightarrow> nat" where
  "CountEventsNeedingReviewInPeriod lo hi db =
     length (filter (\<lambda>e. ae_NeedsReview e \<and> lo \<le> ae_OccurredAt e \<and> ae_OccurredAt e < hi) (ev_events db))"

section \<open>The posting state of an order\<close>

text \<open>
  The entries of an order: their key is its UUID, or starts with the UUID and a colon.  UUIDs have no
  wildcard of LIKE and no letter whose case matters to the comparison.
\<close>

definition order_sources :: "AcctSourceType list" where
  "order_sources = [AcctSourceOrderSale, AcctSourceOrderPrepayment, AcctSourceOrderTransit,
     AcctSourceOrderDeliveredSale, AcctSourceOrderRefund]"

definition order_entries :: "string \<Rightarrow> ledger_db \<Rightarrow> AcctJournalEntry list" where
  "order_entries uuid db =
     filter (\<lambda>e. (en_SourceKey e = uuid \<or> take (length uuid + 1) (en_SourceKey e) = uuid @ '':'') \<and>
                 en_SourceType e \<in> set order_sources) (db_entries db)"

text \<open>The balance of an account over the lines of some entries, signed to one side.\<close>

definition signed_amount :: "AcctSide \<Rightarrow> AcctJournalLine \<Rightarrow> decimal" where
  "signed_amount side l = (if jl_Side l = side then jl_Amount l else - jl_Amount l)"

definition balance_of :: "ledger_db \<Rightarrow> string \<Rightarrow> AcctSide \<Rightarrow> AcctJournalEntry list \<Rightarrow> decimal" where
  "balance_of db code side es =
     sum_list (map (\<lambda>l. if accountCode db (jl_AccountId l) = Some code then signed_amount side l else 0)
       (concat (map en_Lines es)))"

definition has_source :: "AcctSourceType \<Rightarrow> AcctJournalEntry list \<Rightarrow> bool" where
  "has_source st es \<longleftrightarrow> (\<exists>e \<in> set es. en_SourceType e = st)"

definition GetOrderPostingState :: "string \<Rightarrow> ledger_db \<Rightarrow> event_db \<Rightarrow> AcctOrderPostingState" where
  "GetOrderPostingState orderUUID db evs =
     (let es = order_entries orderUUID db in
      \<lparr>ps_LegacySale = has_source AcctSourceOrderSale es,
       ps_Prepayment = has_source AcctSourceOrderPrepayment es,
       ps_Transit = has_source AcctSourceOrderTransit es,
       ps_DeliveredSale = has_source AcctSourceOrderDeliveredSale es,
       ps_DeliveredEvent = (\<exists>e \<in> set (ev_events evs).
          ae_EventType e = AcctEventOrderDelivered \<and> ae_SourceKey e = orderUUID),
       ps_Remaining2090 = balance_of db Acc2090 AcctSideCredit es,
       ps_Remaining1140 = balance_of db Acc1140 AcctSideDebit es\<rparr>)"

text \<open>The header of the entry of a source (banktxn.go).\<close>

definition GetEntryBySource :: "AcctSourceType \<Rightarrow> string \<Rightarrow> ledger_db \<Rightarrow> AcctJournalEntry option" where
  "GetEntryBySource st sk db = find (\<lambda>e. en_SourceType e = st \<and> en_SourceKey e = sk) (db_entries db)"

section \<open>The life of an event\<close>

lemmas event_ops = MarkEventProcessed_def MarkEventFailed_def MarkEventNeedsReview_def ReprocessAcctEvent_def
  ResolveAcctEvent_def Let_def

definition find_event :: "int \<Rightarrow> event_db \<Rightarrow> AcctEvent option" where
  "find_event i db = find (\<lambda>e. ae_Id e = i) (ev_events db)"

definition keeps_key :: "(AcctEvent \<Rightarrow> AcctEvent) \<Rightarrow> bool" where
  "keeps_key f \<longleftrightarrow> (\<forall>e. ae_Id (f e) = ae_Id e \<and> ae_EventType (f e) = ae_EventType e \<and> ae_SourceKey (f e) = ae_SourceKey e
     \<and> ae_OccurredAt (f e) = ae_OccurredAt e \<and> ae_Payload (f e) = ae_Payload e)"

lemma find_map_id:
  "(\<And>e. ae_Id (f e) = ae_Id e) \<Longrightarrow>
   find (\<lambda>e. ae_Id e = i) (map (\<lambda>e. if ae_Id e = j then f e else e) es) =
     map_option (\<lambda>e. if i = j then f e else e) (find (\<lambda>e. ae_Id e = i) es)"
  by (induction es) auto

lemma find_update_event:
  "keeps_key f \<Longrightarrow> find_event i (update_event j f db) = map_option (\<lambda>e. if i = j then f e else e) (find_event i db)"
  unfolding find_event_def update_event_def keeps_key_def by (simp add: find_map_id)

lemma find_marks [simp]:
  "find_event i (MarkEventProcessed now j db) =
     map_option (\<lambda>e. if i = j then e\<lparr>ae_ProcessedAt := Some now\<rparr> else e) (find_event i db)"
  "find_event i (MarkEventFailed now j err r db) =
     map_option (\<lambda>e. if i = j then e\<lparr>ae_Attempts := ae_Attempts e + 1, ae_LastError := Some err,
        ae_NextRetryAt := Some (now + (if r < 0 then 0 else r div 1000000000) * 1000000000)\<rparr> else e) (find_event i db)"
  "find_event i (MarkEventNeedsReview now j err db) =
     map_option (\<lambda>e. if i = j then e\<lparr>ae_ProcessedAt := Some (case ae_ProcessedAt e of Some t \<Rightarrow> t | None \<Rightarrow> now),
        ae_NeedsReview := True, ae_LastError := Some err, ae_NextRetryAt := None\<rparr> else e) (find_event i db)"
  by (simp_all add: event_ops find_update_event keeps_key_def)

end
