(* ===== verification/Posting_Worker.thy ===== *)
theory Posting_Worker
  imports Outbox Ledger_Props Acct_Accruals
begin

text \<open>
  The posting worker over the order outbox (internal/acctposting/outbox.go): the dispatch of an
  event, the handler of each event type with its deferrals, skips and reviews, and the one
  transaction that writes the entries and marks the event.  The tables the worker reads and writes
  are one record.  A failure of the database itself ends the tick and is not modelled.
\<close>

section \<open>Configuration and tables\<close>

text \<open>
  \<open>wk_deliveredRecognitionFrom\<close> is None when the date is zero.  The text of an error, which is only
  recorded on the event, is a parameter.
\<close>

datatype posting_error = BuildError acct_error | StoreError ledger_error

record Worker =
  wk_decimal :: decimal_lib
  wk_startDate :: time
  wk_deliveredRecognitionFrom :: "time option"
  wk_OriginCountry :: string
  wk_BatchSize :: int
  wk_Error :: "posting_error \<Rightarrow> string"

text \<open>
  The order table as the joined facts of an order, whose UUID is its key, and the table of VAT rates
  by upper-case country code.
\<close>

record posting_db =
  pd_ledger :: ledger_db
  pd_events :: event_db
  pd_orders :: "string \<rightharpoonup> AcctOrderFacts"
  pd_vatRates :: "string \<rightharpoonup> decimal"

definition GetVatRatesFor :: "string list \<Rightarrow> posting_db \<Rightarrow> string \<rightharpoonup> decimal" where
  "GetVatRatesFor codes db =
     (let norm = remdups (filter (\<lambda>c. length c = 2) (map (\<lambda>c. ToUpper (TrimSpace c)) codes))
      in (\<lambda>c. if c \<in> set norm then pd_vatRates db c else None))"

definition SetOrderVatRegime :: "string \<Rightarrow> string \<Rightarrow> posting_db \<Rightarrow> posting_db" where
  "SetOrderVatRegime orderUUID regime db =
     (case pd_orders db orderUUID of
        None \<Rightarrow> db
      | Some f \<Rightarrow> db\<lparr>pd_orders := (pd_orders db)(orderUUID \<mapsto> f\<lparr>of_VatRegime := Some regime\<rparr>)\<rparr>)"

definition on_events :: "(event_db \<Rightarrow> event_db) \<Rightarrow> posting_db \<Rightarrow> posting_db" where
  "on_events f db = db\<lparr>pd_events := f (pd_events db)\<rparr>"

section \<open>Pacing\<close>

definition settledRetryInterval :: int where "settledRetryInterval = 5 * 60 * 1000000000"
definition maxDeadLetterAttempts :: int where "maxDeadLetterAttempts = 12"
definition maxOrphanRefundAttempts :: int where "maxOrphanRefundAttempts = 24"

text \<open>The doubling loop with its early return, and the worker's own backoff after failed ticks.\<close>

fun doubling :: "nat \<Rightarrow> int \<Rightarrow> int \<Rightarrow> int" where
  "doubling 0 mx d = d"
| "doubling (Suc n) mx d = (let d = d * 2 in if d \<ge> mx then mx else doubling n mx d)"

definition eventBackoff :: "int \<Rightarrow> int" where
  "eventBackoff attempts = doubling (nat attempts) (6 * 3600 * 1000000000) (60 * 1000000000)"

definition backoffDelay :: "int \<Rightarrow> int" where
  "backoffDelay consecutiveFailures = doubling (nat (consecutiveFailures - 1)) (5 * 60 * 1000000000) (30 * 1000000000)"

section \<open>Dispositions\<close>

definition skipEvent :: "time \<Rightarrow> int \<Rightarrow> string \<Rightarrow> posting_db \<Rightarrow> posting_db" where
  "skipEvent now i reason = on_events (\<lambda>evs. MarkEventProcessed now i (MarkEventFailed now i reason 0 evs))"

definition needsReview :: "time \<Rightarrow> int \<Rightarrow> string \<Rightarrow> posting_db \<Rightarrow> posting_db" where
  "needsReview now i reason = on_events (MarkEventNeedsReview now i reason)"

definition deferEvent :: "time \<Rightarrow> int \<Rightarrow> string \<Rightarrow> int \<Rightarrow> posting_db \<Rightarrow> posting_db" where
  "deferEvent now i reason after = on_events (MarkEventFailed now i reason after)"

text \<open>The entries of the transaction, in order; the first error stops it.\<close>

primrec createEntries :: "decimal_lib \<Rightarrow> AcctJournalEntryInsert list \<Rightarrow> ledger_db \<Rightarrow> (ledger_error + unit) \<times> ledger_db" where
  "createEntries L [] db = (Inr (), db)"
| "createEntries L (e # es) db =
     (case CreateJournalEntry L True e db of
        (Inl err, db) \<Rightarrow> (Inl err, db)
      | (Inr _, db) \<Rightarrow> createEntries L es db)"

definition postEntries :: "Worker \<Rightarrow> time \<Rightarrow> int \<Rightarrow> AcctJournalEntryInsert list \<Rightarrow> string \<Rightarrow> string \<Rightarrow> posting_db
    \<Rightarrow> ledger_error + posting_db" where
  "postEntries w now i entries orderUUID vatRegime db =
     (case createEntries (wk_decimal w) entries (pd_ledger db) of
        (Inl err, _) \<Rightarrow> Inl err
      | (Inr _, ledger) \<Rightarrow>
          let db = db\<lparr>pd_ledger := ledger\<rparr>;
              db = (if vatRegime \<noteq> [] then SetOrderVatRegime orderUUID vatRegime db else db)
          in Inr (on_events (MarkEventProcessed now i) db))"

definition postOrDefer :: "Worker \<Rightarrow> time \<Rightarrow> AcctEvent \<Rightarrow> AcctJournalEntryInsert list \<Rightarrow> acct_error option
    \<Rightarrow> string \<Rightarrow> string \<Rightarrow> posting_db \<Rightarrow> posting_db" where
  "postOrDefer w now ev entries buildErr orderUUID vatRegime db =
     (case buildErr of
        Some err \<Rightarrow>
          if err = ErrNotReady then deferEvent now (ae_Id ev) ''settled pending'' settledRetryInterval db
          else if err = ErrSkipNonEUR
          then needsReview now (ae_Id ev) ''non-eur non-stripe order, manual entry required'' db
          else if err = ErrDegenerateAmounts
          then needsReview now (ae_Id ev) ''degenerate amounts, manual entry required'' db
          else if is_ErrSkipEmpty err
          then skipEvent now (ae_Id ev) ''nothing to post (uncosted or fully refunded)'' db
          else if ae_Attempts ev \<ge> maxDeadLetterAttempts
          then needsReview now (ae_Id ev) (''dead-letter (build): '' @ wk_Error w (BuildError err)) db
          else deferEvent now (ae_Id ev) (wk_Error w (BuildError err)) (eventBackoff (ae_Attempts ev)) db
      | None \<Rightarrow>
          (case postEntries w now (ae_Id ev) entries orderUUID vatRegime db of
             Inr db' \<Rightarrow> db'
           | Inl err \<Rightarrow>
               if err \<noteq> ErrAcctPeriodClosed \<and> ae_Attempts ev \<ge> maxDeadLetterAttempts
               then needsReview now (ae_Id ev) (''dead-letter (post): '' @ wk_Error w (StoreError err)) db
               else deferEvent now (ae_Id ev) (wk_Error w (StoreError err)) (eventBackoff (ae_Attempts ev)) db))"

text \<open>A handler hands one build result over.\<close>

definition postBuilt :: "Worker \<Rightarrow> time \<Rightarrow> AcctEvent \<Rightarrow> acct_error + AcctJournalEntryInsert \<Rightarrow> string \<Rightarrow> string
    \<Rightarrow> posting_db \<Rightarrow> posting_db" where
  "postBuilt w now ev built orderUUID vatRegime =
     (case built of
        Inl err \<Rightarrow> postOrDefer w now ev [] (Some err) orderUUID vatRegime
      | Inr entry \<Rightarrow> postOrDefer w now ev [entry] None orderUUID vatRegime)"

section \<open>VAT\<close>

definition vatDecisionForRegime :: "Worker \<Rightarrow> VatRegime \<Rightarrow> string list \<Rightarrow> string \<Rightarrow> posting_db \<Rightarrow> VatDecision \<times> string" where
  "vatDecisionForRegime w regime caveats destCountry db =
     (let vd = \<lparr>vd_Regime = regime, vd_RatePct = 0, vd_Caveats = caveats\<rparr>
      in if \<not> RegimeHasVAT regime then (vd, [])
         else
           let rateCountry = RegimeRateCountry regime destCountry (wk_OriginCountry w);
               rates = GetVatRatesFor [rateCountry] db
           in case rates (ToUpper (TrimSpace rateCountry)) of
                None \<Rightarrow> (vd, ''vat rate missing for '' @ rateCountry)
              | Some rate \<Rightarrow>
                  if \<not> 0 < rate then (vd, ''vat rate is non-positive for '' @ rateCountry)
                  else (vd\<lparr>vd_RatePct := rate\<rparr>, []))"

definition resolveVatDecision :: "Worker \<Rightarrow> AcctOrderFacts \<Rightarrow> posting_db \<Rightarrow> VatDecision \<times> string" where
  "resolveVatDecision w facts db =
     (let buyerVatID = (case of_BuyerVatID facts of Some s \<Rightarrow> TrimSpace s | None \<Rightarrow> []);
          (regime, caveats) = ResolveVatRegime
            \<lparr>vf_DestCountry = of_DestCountry facts, vf_OriginCountry = wk_OriginCountry w,
             vf_IsB2B = (buyerVatID \<noteq> []), vf_BuyerVatID = buyerVatID,
             vf_PaymentMethod = of_PaymentMethodName facts\<rparr>
      in vatDecisionForRegime w regime caveats (of_DestCountry facts) db)"

definition refundVatDecision :: "Worker \<Rightarrow> AcctOrderFacts \<Rightarrow> posting_db \<Rightarrow> VatDecision \<times> string" where
  "refundVatDecision w facts db =
     (case of_VatRegime facts of
        None \<Rightarrow> resolveVatDecision w facts db
      | Some s \<Rightarrow>
          if TrimSpace s = [] then resolveVatDecision w facts db
          else vatDecisionForRegime w (VatRegime_of (TrimSpace s)) [] (of_DestCountry facts) db)"

section \<open>Handlers\<close>

definition usesDeliveredPolicy :: "Worker \<Rightarrow> AcctOrderFacts \<Rightarrow> time \<Rightarrow> bool" where
  "usesDeliveredPolicy w f paidAt =
     (case wk_deliveredRecognitionFrom w of
        None \<Rightarrow> False
      | Some from \<Rightarrow>
          if of_PaymentMethodName f \<noteq> CARD \<and> of_PaymentMethodName f \<noteq> CARD_TEST then False
          else from \<le> paidAt)"

definition processOrderPaid :: "Worker \<Rightarrow> time \<Rightarrow> AcctEvent \<Rightarrow> posting_db \<Rightarrow> posting_db" where
  "processOrderPaid w now ev db =
     (case ae_Payload ev of
        Inl err \<Rightarrow> skipEvent now (ae_Id ev) (''invalid order_paid payload: '' @ err) db
      | Inr p \<Rightarrow>
          (case pd_orders db (py_OrderUUID p) of
             None \<Rightarrow> skipEvent now (ae_Id ev) ''order not found for order_paid'' db
           | Some facts \<Rightarrow>
               let (vd, skipReason) = resolveVatDecision w facts db
               in if skipReason \<noteq> [] then deferEvent now (ae_Id ev) skipReason settledRetryInterval db
                  else if usesDeliveredPolicy w facts (ae_OccurredAt ev)
                  then postBuilt w now ev (BuildOrderPrepaymentEntry (wk_decimal w) facts vd (ae_OccurredAt ev))
                         (of_UUID facts) (VatRegime_string (vd_Regime vd)) db
                  else postBuilt w now ev (BuildOrderSaleEntry (wk_decimal w) facts vd (ae_OccurredAt ev))
                         (of_UUID facts) (VatRegime_string (vd_Regime vd)) db))"

definition skipShippedDelivered :: "Worker \<Rightarrow> time \<Rightarrow> AcctEvent \<Rightarrow> AcctOrderPostingState \<Rightarrow> posting_db \<Rightarrow> posting_db" where
  "skipShippedDelivered w now ev st =
     (if ps_LegacySale st then skipEvent now (ae_Id ev) ''pre-policy order''
      else if wk_deliveredRecognitionFrom w = None
      then skipEvent now (ae_Id ev) ''delivered recognition off''
      else if ae_Attempts ev \<ge> maxOrphanRefundAttempts
      then skipEvent now (ae_Id ev) ''no prepayment posted (pre-policy/manual order)''
      else deferEvent now (ae_Id ev) ''awaiting prepayment posting'' settledRetryInterval)"

definition processOrderShipped :: "Worker \<Rightarrow> time \<Rightarrow> AcctEvent \<Rightarrow> posting_db \<Rightarrow> posting_db" where
  "processOrderShipped w now ev db =
     (case ae_Payload ev of
        Inl err \<Rightarrow> skipEvent now (ae_Id ev) (''invalid order_shipped payload: '' @ err) db
      | Inr p \<Rightarrow>
          let st = GetOrderPostingState (py_OrderUUID p) (pd_ledger db) (pd_events db)
          in if \<not> ps_Prepayment st then skipShippedDelivered w now ev st db
             else case pd_orders db (py_OrderUUID p) of
                 None \<Rightarrow> skipEvent now (ae_Id ev) ''order not found for order_shipped'' db
               | Some facts \<Rightarrow>
                   postBuilt w now ev (BuildOrderTransitEntry (wk_decimal w) facts (ae_OccurredAt ev)) [] [] db)"

definition lineAmount :: "AcctJournalEntryInsert \<Rightarrow> string \<Rightarrow> AcctSide \<Rightarrow> decimal" where
  "lineAmount entry code side =
     (case find (\<lambda>l. ln_AccountCode l = code \<and> ln_Side l = side) (je_Lines entry) of
        Some l \<Rightarrow> ln_Amount l | None \<Rightarrow> 0)"

text \<open>
  The transit leg of an order delivered without a shipped event: the entry to post first and the
  cost the sale drains, or the error to dispose of.
\<close>

definition transitLeg :: "Worker \<Rightarrow> AcctEvent \<Rightarrow> AcctOrderPostingState \<Rightarrow> AcctOrderFacts
    \<Rightarrow> acct_error + (AcctJournalEntryInsert list \<times> decimal)" where
  "transitLeg w ev st facts =
     (if ps_Transit st then Inr ([], ps_Remaining1140 st)
      else case BuildOrderTransitEntry (wk_decimal w) facts (ae_OccurredAt ev) of
          Inr tEntry \<Rightarrow> Inr ([tEntry], lineAmount tEntry Acc1140 AcctSideDebit)
        | Inl err \<Rightarrow> if is_ErrSkipEmpty err then Inr ([], 0) else Inl err)"

definition processOrderDelivered :: "Worker \<Rightarrow> time \<Rightarrow> AcctEvent \<Rightarrow> posting_db \<Rightarrow> posting_db" where
  "processOrderDelivered w now ev db =
     (case ae_Payload ev of
        Inl err \<Rightarrow> skipEvent now (ae_Id ev) (''invalid order_delivered payload: '' @ err) db
      | Inr p \<Rightarrow>
          let st = GetOrderPostingState (py_OrderUUID p) (pd_ledger db) (pd_events db)
          in if \<not> ps_Prepayment st then skipShippedDelivered w now ev st db
             else if ps_DeliveredSale st then skipEvent now (ae_Id ev) ''delivered sale already posted'' db
             else case pd_orders db (py_OrderUUID p) of
                 None \<Rightarrow> skipEvent now (ae_Id ev) ''order not found for order_delivered'' db
               | Some facts \<Rightarrow>
                   (case transitLeg w ev st facts of
                      Inl err \<Rightarrow> postOrDefer w now ev [] (Some err) [] [] db
                    | Inr (entries, transitCost) \<Rightarrow>
                        (case BuildOrderDeliveredSaleEntry (wk_decimal w) facts (ps_Remaining2090 st) transitCost
                                (ae_OccurredAt ev) of
                           Inl err \<Rightarrow> postOrDefer w now ev [] (Some err) [] [] db
                         | Inr sEntry \<Rightarrow> postOrDefer w now ev (entries @ [sEntry]) None [] [] db)))"

definition processOrderRefund :: "Worker \<Rightarrow> time \<Rightarrow> AcctEvent \<Rightarrow> posting_db \<Rightarrow> posting_db" where
  "processOrderRefund w now ev db =
     (case ae_Payload ev of
        Inl err \<Rightarrow> skipEvent now (ae_Id ev) (''invalid order_refund payload: '' @ err) db
      | Inr py \<Rightarrow>
          let p = py_Refund py;
              st = GetOrderPostingState (rp_OrderUUID p) (pd_ledger db) (pd_events db)
          in if ps_LegacySale st \<and> ps_Prepayment st
             then needsReview now (ae_Id ev) ''mixed old+new recognition chain, manual entry required'' db
             else if \<not> ps_LegacySale st \<and> \<not> ps_Prepayment st then
               (if ae_Attempts ev \<ge> maxOrphanRefundAttempts
                then needsReview now (ae_Id ev) ''orphan refund: recognition not posted, manual entry required'' db
                else deferEvent now (ae_Id ev) ''awaiting sale posting'' settledRetryInterval db)
             else if ps_Prepayment st \<and> \<not> ps_DeliveredSale st \<and> ps_DeliveredEvent st then
               (if ae_Attempts ev \<ge> maxOrphanRefundAttempts
                then needsReview now (ae_Id ev) ''refund awaiting delivered sale posting, manual entry required'' db
                else deferEvent now (ae_Id ev) ''awaiting delivered sale posting'' settledRetryInterval db)
             else case pd_orders db (rp_OrderUUID p) of
                 None \<Rightarrow> skipEvent now (ae_Id ev) ''order not found for order_refund'' db
               | Some facts \<Rightarrow>
                   let (vd, skipReason) = refundVatDecision w facts db
                   in if skipReason \<noteq> [] then deferEvent now (ae_Id ev) skipReason settledRetryInterval db
                      else if ps_LegacySale st \<or> ps_DeliveredSale st
                      then postBuilt w now ev (BuildOrderRefundEntry (wk_decimal w) facts p (of_Items facts) vd
                             (ae_SourceKey ev) (ae_OccurredAt ev)) [] [] db
                      else postBuilt w now ev (BuildOrderPreDeliveredRefundEntry (wk_decimal w) facts p (of_Items facts) vd
                             (ps_Transit st) (ae_SourceKey ev) (ae_OccurredAt ev)) [] [] db)"

text \<open>\<open>appendCaveat\<close> of pull.go: a note once, within the width of the column.\<close>

definition contains_string :: "string \<Rightarrow> string \<Rightarrow> bool" where
  "contains_string s t \<longleftrightarrow> (\<exists>i \<in> set [0..<length s + 1]. take (length t) (drop i s) = t)"

definition appendCaveat :: "string \<Rightarrow> AcctJournalEntryInsert \<Rightarrow> AcctJournalEntryInsert" where
  "appendCaveat note e =
     (let e = e\<lparr>je_HasCaveat := True\<rparr>
      in case je_Caveat e of
           Some c \<Rightarrow>
             if c \<noteq> [] then
               (if contains_string c note then e
                else e\<lparr>je_Caveat := Some (truncateRunes (c @ ''; '' @ note) caveatMaxLen)\<rparr>)
             else e\<lparr>je_Caveat := Some (truncateRunes note caveatMaxLen)\<rparr>
         | None \<Rightarrow> e\<lparr>je_Caveat := Some (truncateRunes note caveatMaxLen)\<rparr>)"

definition createdBySystemUser :: string where "createdBySystemUser = ''system''"

definition processDisputeClosed :: "Worker \<Rightarrow> time \<Rightarrow> AcctEvent \<Rightarrow> AcctOrderDisputePayload \<Rightarrow> posting_db \<Rightarrow> posting_db" where
  "processDisputeClosed w now ev p db =
     (if \<not> dp_Won p then skipEvent now (ae_Id ev) ''dispute lost; open entry stands'' db
      else case GetEntryBySource AcctSourceOrderDispute (''dispute:'' @ dp_DisputeID p) (pd_ledger db) of
          None \<Rightarrow>
            if ae_Attempts ev \<ge> maxDeadLetterAttempts
            then needsReview now (ae_Id ev) ''dispute won but open dispute entry never posted, manual entry required'' db
            else deferEvent now (ae_Id ev) ''dispute won; awaiting open dispute entry'' (eventBackoff (ae_Attempts ev)) db
        | Some opened \<Rightarrow>
            if en_ReversedBy opened \<noteq> None
            then skipEvent now (ae_Id ev) ''dispute won; open entry already reversed'' db
            else case ReverseJournalEntry (wk_decimal w) True (en_Id opened) (''dispute '' @ dp_DisputeID p @ '' won'')
                        createdBySystemUser now (pd_ledger db) of
                (Inr _, ledger) \<Rightarrow> on_events (MarkEventProcessed now (ae_Id ev)) (db\<lparr>pd_ledger := ledger\<rparr>)
              | (Inl err, _) \<Rightarrow>
                  if err = ErrAcctAlreadyReversed
                  then skipEvent now (ae_Id ev) ''dispute won; open entry already reversed'' db
                  else deferEvent now (ae_Id ev) (wk_Error w (StoreError err)) (eventBackoff (ae_Attempts ev)) db)"

text \<open>The amount of an opened dispute: Stripe's, else the settled base of the order.\<close>

definition disputeAmount :: "AcctOrderDisputePayload \<Rightarrow> posting_db \<Rightarrow> decimal \<times> bool" where
  "disputeAmount p db =
     (if \<not> dp_AmountBase p \<le> 0 then (dp_AmountBase p, False)
      else case pd_orders db (dp_OrderUUID p) of
          None \<Rightarrow> (dp_AmountBase p, False)
        | Some facts \<Rightarrow>
            (case of_TotalSettledBase facts of
               Some t \<Rightarrow> if 0 < t then (t, True) else (dp_AmountBase p, False)
             | None \<Rightarrow> (dp_AmountBase p, False)))"

definition processOrderDispute :: "Worker \<Rightarrow> time \<Rightarrow> AcctEvent \<Rightarrow> posting_db \<Rightarrow> posting_db" where
  "processOrderDispute w now ev db =
     (case ae_Payload ev of
        Inl err \<Rightarrow> skipEvent now (ae_Id ev) (''invalid order_dispute payload: '' @ err) db
      | Inr py \<Rightarrow>
          let p = py_Dispute py
          in if dp_Closed p then processDisputeClosed w now ev p db
             else
               let (amount, fallbackUsed) = disputeAmount p db;
                   built = BuildDisputeEntry (wk_decimal w) amount (dp_FeeBase p) (dp_FeeKnown p) (dp_OrderUUID p)
                             (dp_DisputeID p) (dp_Currency p) (ae_OccurredAt ev)
               in postBuilt w now ev
                    (map_sum id (\<lambda>e. if fallbackUsed
                       then appendCaveat ''disputed amount taken from order settled base (Stripe amount unavailable)'' e
                       else e) built) [] [] db)"

definition processEvent :: "Worker \<Rightarrow> time \<Rightarrow> AcctEvent \<Rightarrow> posting_db \<Rightarrow> posting_db" where
  "processEvent w now ev =
     (if ae_OccurredAt ev < wk_startDate w then skipEvent now (ae_Id ev) ''pre-start event''
      else case ae_EventType ev of
          AcctEventOrderPaid \<Rightarrow> processOrderPaid w now ev
        | AcctEventOrderShipped \<Rightarrow> processOrderShipped w now ev
        | AcctEventOrderDelivered \<Rightarrow> processOrderDelivered w now ev
        | AcctEventOrderDispute \<Rightarrow> processOrderDispute w now ev
        | AcctEventOrderRefund \<Rightarrow> processOrderRefund w now ev
        | OtherEvent t \<Rightarrow> skipEvent now (ae_Id ev) (''unknown event type '' @ t))"

text \<open>One pass over the due events; the events are read once, before the first is processed.\<close>

definition processOutbox :: "Worker \<Rightarrow> time \<Rightarrow> posting_db \<Rightarrow> posting_db" where
  "processOutbox w now db =
     foldl (\<lambda>db ev. processEvent w now ev db) db (ListPendingEvents now (wk_BatchSize w) (pd_events db))"

end
