(* ===== verification/Posting_Props.thy ===== *)
theory Posting_Props
  imports Posting_Worker Acct_Order
begin

text \<open>
  What the posting worker guarantees: the ways an event is disposed of, the retry bounds, the event
  table, the drain of the prepayment and transit accounts at delivery, and replays.
\<close>

section \<open>How an event is disposed of\<close>

text \<open>
  Why an event waits.  The first three causes have no cap: they clear from outside (a settlement, a
  VAT rate, a reopened period); so has the last one, a reversal the store refuses.
\<close>

datatype wait_cause = SettledPending | VatRate string | PeriodClosedWait
  | AwaitingPosting string | BuildFailure acct_error | PostFailure ledger_error
  | AwaitingDispute | ReversalFailure ledger_error

fun wait_note :: "Worker \<Rightarrow> wait_cause \<Rightarrow> string" where
  "wait_note w SettledPending = ''settled pending''"
| "wait_note w (VatRate s) = s"
| "wait_note w PeriodClosedWait = wk_Error w (StoreError ErrAcctPeriodClosed)"
| "wait_note w (AwaitingPosting s) = s"
| "wait_note w (BuildFailure e) = wk_Error w (BuildError e)"
| "wait_note w (PostFailure e) = wk_Error w (StoreError e)"
| "wait_note w AwaitingDispute = ''dispute won; awaiting open dispute entry''"
| "wait_note w (ReversalFailure e) = wk_Error w (StoreError e)"

fun wait_cap :: "wait_cause \<Rightarrow> int option" where
  "wait_cap (AwaitingPosting s) = Some maxOrphanRefundAttempts"
| "wait_cap (BuildFailure e) = Some maxDeadLetterAttempts"
| "wait_cap (PostFailure e) = Some maxDeadLetterAttempts"
| "wait_cap AwaitingDispute = Some maxDeadLetterAttempts"
| "wait_cap _ = None"

definition vat_note :: "string \<Rightarrow> bool" where
  "vat_note s \<longleftrightarrow> (\<exists>c. s = ''vat rate missing for '' @ c \<or> s = ''vat rate is non-positive for '' @ c)"

definition wait_ok :: "AcctEvent \<Rightarrow> wait_cause \<Rightarrow> int \<Rightarrow> bool" where
  "wait_ok ev c after \<longleftrightarrow>
     (case wait_cap c of None \<Rightarrow> True | Some cap_n \<Rightarrow> ae_Attempts ev < cap_n) \<and>
     (\<forall>s. c = VatRate s \<longrightarrow> vat_note s) \<and>
     (\<forall>e. c = ReversalFailure e \<longrightarrow> ae_EventType ev = AcctEventOrderDispute) \<and>
     (after = settledRetryInterval \<or> after = eventBackoff (ae_Attempts ev))"

inductive disposed :: "Worker \<Rightarrow> time \<Rightarrow> AcctEvent \<Rightarrow> posting_db \<Rightarrow> posting_db \<Rightarrow> bool" for w now ev db where
  skipped: "disposed w now ev db (skipEvent now (ae_Id ev) reason db)"
| reviewed: "disposed w now ev db (needsReview now (ae_Id ev) reason db)"
| waits: "wait_ok ev c after \<Longrightarrow> disposed w now ev db (deferEvent now (ae_Id ev) (wait_note w c) after db)"
| posted: "pd_events db' = MarkEventProcessed now (ae_Id ev) (pd_events db) \<Longrightarrow>
    (\<exists>es. (\<forall>e \<in> set es. je_SourceType e \<noteq> AcctSourceReversal) \<and>
       createEntries (wk_decimal w) es (pd_ledger db) = (Inr (), pd_ledger db')) \<or>
    (\<exists>i r j. ReverseJournalEntry (wk_decimal w) True i r createdBySystemUser now (pd_ledger db) = (Inr j, pd_ledger db')) \<Longrightarrow>
    (\<forall>u. map_option (of_VatRegime_update (\<lambda>_. None)) (pd_orders db' u)
       = map_option (of_VatRegime_update (\<lambda>_. None)) (pd_orders db u)) \<Longrightarrow>
    pd_vatRates db' = pd_vatRates db \<Longrightarrow> disposed w now ev db db'"

inductive_cases disposedE [consumes 1, case_names skipped reviewed waits posted]: "disposed w now ev db db'"

lemma disposed_defer:
  "note = wait_note w c \<Longrightarrow> wait_ok ev c after \<Longrightarrow> disposed w now ev db (deferEvent now (ae_Id ev) note after db)"
  using disposed.waits by blast

lemma on_events_simps [simp]:
  "pd_ledger (on_events f db) = pd_ledger db" "pd_orders (on_events f db) = pd_orders db"
  "pd_vatRates (on_events f db) = pd_vatRates db" "pd_events (on_events f db) = f (pd_events db)"
  by (simp_all add: on_events_def)

lemma SetOrderVatRegime_simps [simp]:
  "pd_ledger (SetOrderVatRegime u r db) = pd_ledger db" "pd_events (SetOrderVatRegime u r db) = pd_events db"
  "pd_vatRates (SetOrderVatRegime u r db) = pd_vatRates db"
  by (auto simp: SetOrderVatRegime_def split: option.split)

lemma SetOrderVatRegime_orders:
  "map_option (of_VatRegime_update (\<lambda>_. None)) (pd_orders (SetOrderVatRegime u r db) v)
     = map_option (of_VatRegime_update (\<lambda>_. None)) (pd_orders db v)"
  by (auto simp: SetOrderVatRegime_def split: option.split)

lemma postEntries_disposed:
  assumes "postEntries w now (ae_Id ev) es u r db = Inr db'" and "\<forall>e \<in> set es. je_SourceType e \<noteq> AcctSourceReversal"
  shows "disposed w now ev db db'"
proof (rule disposed.posted)
  show "pd_events db' = MarkEventProcessed now (ae_Id ev) (pd_events db)"
    using assms by (auto simp: postEntries_def Let_def split: sum.splits prod.splits)
  have "createEntries (wk_decimal w) es (pd_ledger db) = (Inr (), pd_ledger db')"
    using assms by (auto simp: postEntries_def Let_def split: sum.splits prod.splits)
  then show "(\<exists>es. (\<forall>e \<in> set es. je_SourceType e \<noteq> AcctSourceReversal) \<and>
       createEntries (wk_decimal w) es (pd_ledger db) = (Inr (), pd_ledger db')) \<or>
    (\<exists>i r j. ReverseJournalEntry (wk_decimal w) True i r createdBySystemUser now (pd_ledger db) = (Inr j, pd_ledger db'))"
    using assms(2) by blast
  show "\<forall>u. map_option (of_VatRegime_update (\<lambda>_. None)) (pd_orders db' u)
       = map_option (of_VatRegime_update (\<lambda>_. None)) (pd_orders db u)"
    using assms SetOrderVatRegime_orders [of u r] by (auto simp: postEntries_def Let_def split: sum.splits prod.splits)
  show "pd_vatRates db' = pd_vatRates db"
    using assms by (auto simp: postEntries_def Let_def split: sum.splits prod.splits)
qed

lemmas wait_defs = wait_ok_def maxDeadLetterAttempts_def maxOrphanRefundAttempts_def

lemma postOrDefer_disposed:
  assumes "berr = None \<Longrightarrow> \<forall>e \<in> set es. je_SourceType e \<noteq> AcctSourceReversal"
  shows "disposed w now ev db (postOrDefer w now ev es berr u r db)"
proof (cases berr)
  case (Some err)
  show ?thesis
  proof (cases "err = ErrNotReady")
    case True
    then show ?thesis unfolding postOrDefer_def Some
      by (simp add: disposed_defer [where c = SettledPending] wait_defs)
  next
    case False
    have "disposed w now ev db (deferEvent now (ae_Id ev) (wk_Error w (BuildError err)) (eventBackoff (ae_Attempts ev)) db)"
      if "\<not> ae_Attempts ev \<ge> maxDeadLetterAttempts"
      using that by (intro disposed_defer [where c = "BuildFailure err"]) (simp_all add: wait_defs)
    with False show ?thesis unfolding postOrDefer_def Some by (simp add: skipped reviewed)
  qed
next
  case None
  show ?thesis
  proof (cases "postEntries w now (ae_Id ev) es u r db")
    case (Inr db')
    then show ?thesis using None postEntries_disposed [OF Inr assms] by (simp add: postOrDefer_def)
  next
    case (Inl err)
    have "disposed w now ev db (deferEvent now (ae_Id ev) (wk_Error w (StoreError err)) (eventBackoff (ae_Attempts ev)) db)"
      if "\<not> (err \<noteq> ErrAcctPeriodClosed \<and> ae_Attempts ev \<ge> maxDeadLetterAttempts)"
      using that
      by (intro disposed_defer [where c = "if err = ErrAcctPeriodClosed then PeriodClosedWait else PostFailure err"])
         (auto simp: wait_defs)
    then show ?thesis using None Inl by (auto simp: postOrDefer_def reviewed)
  qed
qed

lemma postBuilt_disposed:
  "(\<And>e. b = Inr e \<Longrightarrow> je_SourceType e \<noteq> AcctSourceReversal) \<Longrightarrow> disposed w now ev db (postBuilt w now ev b u r db)"
  by (cases b) (simp_all add: postBuilt_def postOrDefer_disposed)

text \<open>No builder makes a reversal.\<close>

lemma built_not_reversal:
  "BuildOrderPrepaymentEntry L f vd t = Inr e \<Longrightarrow> je_SourceType e \<noteq> AcctSourceReversal"
  "BuildOrderSaleEntry L f vd t = Inr e \<Longrightarrow> je_SourceType e \<noteq> AcctSourceReversal"
  "BuildOrderTransitEntry L f t = Inr e \<Longrightarrow> je_SourceType e \<noteq> AcctSourceReversal"
  "BuildOrderDeliveredSaleEntry L f p c t = Inr e \<Longrightarrow> je_SourceType e \<noteq> AcctSourceReversal"
  "BuildOrderRefundEntry L f rf items vd k t = Inr e \<Longrightarrow> je_SourceType e \<noteq> AcctSourceReversal"
  "BuildOrderPreDeliveredRefundEntry L f rf items vd b k t = Inr e \<Longrightarrow> je_SourceType e \<noteq> AcctSourceReversal"
  "BuildDisputeEntry L a fee known u d cur t = Inr e \<Longrightarrow> je_SourceType e \<noteq> AcctSourceReversal"
  by (auto simp: BuildOrderPrepaymentEntry_def BuildOrderSaleEntry_def BuildOrderTransitEntry_def
      BuildOrderDeliveredSaleEntry_def BuildOrderRefundEntry_def BuildOrderPreDeliveredRefundEntry_def
      BuildDisputeEntry_def Let_def split: sum.split_asm if_split_asm prod.split_asm)

lemmas built_disposed = postBuilt_disposed [OF built_not_reversal(1)] postBuilt_disposed [OF built_not_reversal(2)]
  postBuilt_disposed [OF built_not_reversal(3)] postBuilt_disposed [OF built_not_reversal(5)]
  postBuilt_disposed [OF built_not_reversal(6)]

lemma transitLeg_not_reversal:
  "transitLeg w ev st f = Inr (es, c) \<Longrightarrow> \<forall>e \<in> set es. je_SourceType e \<noteq> AcctSourceReversal"
  using built_not_reversal(3)
  by (auto simp: transitLeg_def split: if_split_asm sum.split_asm)

lemma vatDecisionForRegime_note:
  "snd (vatDecisionForRegime w r cs c db) \<noteq> [] \<Longrightarrow> vat_note (snd (vatDecisionForRegime w r cs c db))"
  by (auto simp: vatDecisionForRegime_def vat_note_def Let_def split: option.splits if_splits)

lemma resolveVatDecision_note:
  "snd (resolveVatDecision w f db) \<noteq> [] \<Longrightarrow> vat_note (snd (resolveVatDecision w f db))"
  unfolding resolveVatDecision_def Let_def split_beta by (rule vatDecisionForRegime_note)

lemma refundVatDecision_note:
  "snd (refundVatDecision w f db) \<noteq> [] \<Longrightarrow> vat_note (snd (refundVatDecision w f db))"
  unfolding refundVatDecision_def
  by (cases "of_VatRegime f"; simp add: resolveVatDecision_note vatDecisionForRegime_note split: if_split_asm)

lemma defer_vat: "vat_note s \<Longrightarrow> disposed w now ev db (deferEvent now (ae_Id ev) s settledRetryInterval db)"
  by (rule disposed_defer [where c = "VatRate s"]) (simp_all add: wait_defs)

lemma defer_awaiting:
  "\<not> ae_Attempts ev \<ge> maxOrphanRefundAttempts \<Longrightarrow>
   disposed w now ev db (deferEvent now (ae_Id ev) s settledRetryInterval db)"
  by (rule disposed_defer [where c = "AwaitingPosting s"]) (simp_all add: wait_defs)


section \<open>Every handler disposes of its event\<close>

lemma processOrderPaid_disposed: "disposed w now ev db (processOrderPaid w now ev db)"
proof (cases "ae_Payload ev")
  case (Inl err)
  then show ?thesis by (simp add: processOrderPaid_def skipped)
next
  case (Inr p)
  show ?thesis
  proof (cases "pd_orders db (py_OrderUUID p)")
    case None
    then show ?thesis using Inr by (simp add: processOrderPaid_def skipped)
  next
    case (Some f)
    have "snd (resolveVatDecision w f db) \<noteq> [] \<Longrightarrow>
        disposed w now ev db (deferEvent now (ae_Id ev) (snd (resolveVatDecision w f db)) settledRetryInterval db)"
      by (intro defer_vat resolveVatDecision_note)
    then show ?thesis using Inr Some
      by (simp add: processOrderPaid_def split_beta Let_def built_disposed)
  qed
qed

lemma skipShippedDelivered_disposed: "disposed w now ev db (skipShippedDelivered w now ev st db)"
  using defer_awaiting by (simp add: skipShippedDelivered_def skipped)

lemma processOrderShipped_disposed: "disposed w now ev db (processOrderShipped w now ev db)"
  by (auto simp: processOrderShipped_def Let_def skipped skipShippedDelivered_disposed built_disposed
      split: sum.split option.split)

lemma processOrderDelivered_disposed: "disposed w now ev db (processOrderDelivered w now ev db)"
  using transitLeg_not_reversal built_not_reversal(4)
  by (fastforce simp: processOrderDelivered_def Let_def skipped skipShippedDelivered_disposed
      intro!: postOrDefer_disposed split: sum.split option.split)

lemma processOrderRefund_disposed: "disposed w now ev db (processOrderRefund w now ev db)"
proof (cases "ae_Payload ev")
  case (Inl err)
  then show ?thesis by (simp add: processOrderRefund_def skipped)
next
  case (Inr py)
  have vat: "snd (refundVatDecision w f db) \<noteq> [] \<Longrightarrow>
      disposed w now ev db (deferEvent now (ae_Id ev) (snd (refundVatDecision w f db)) settledRetryInterval db)" for f
    by (intro defer_vat refundVatDecision_note)
  show ?thesis
    unfolding processOrderRefund_def Inr Let_def sum.case
    by (simp add: split_beta vat skipped reviewed defer_awaiting built_disposed split: option.split)
qed

lemma processDisputeClosed_disposed:
  assumes "ae_EventType ev = AcctEventOrderDispute"
  shows "disposed w now ev db (processDisputeClosed w now ev p db)"
proof (cases "GetEntryBySource AcctSourceOrderDispute (''dispute:'' @ dp_DisputeID p) (pd_ledger db)")
  case None
  have "disposed w now ev db
      (deferEvent now (ae_Id ev) ''dispute won; awaiting open dispute entry'' (eventBackoff (ae_Attempts ev)) db)"
    if "\<not> ae_Attempts ev \<ge> maxDeadLetterAttempts"
    using that by (intro disposed_defer [where c = AwaitingDispute]) (simp_all add: wait_defs)
  then show ?thesis using None by (simp add: processDisputeClosed_def skipped reviewed)
next
  case (Some opened)
  let ?rev = "ReverseJournalEntry (wk_decimal w) True (en_Id opened) (''dispute '' @ dp_DisputeID p @ '' won'')
                        createdBySystemUser now (pd_ledger db)"
  have "disposed w now ev db (deferEvent now (ae_Id ev) (wk_Error w (StoreError err)) (eventBackoff (ae_Attempts ev)) db)" for err
    by (rule disposed_defer [where c = "ReversalFailure err"]) (simp_all add: wait_defs assms)
  moreover have "disposed w now ev db (on_events (MarkEventProcessed now (ae_Id ev)) (db\<lparr>pd_ledger := l\<rparr>))"
    if "?rev = (Inr j, l)" for j l
    by (rule disposed.posted) (use that in auto)
  ultimately show ?thesis using Some
    by (auto simp: processDisputeClosed_def skipped split: sum.split prod.split)
qed

lemma map_sum_Inr: "map_sum id f x = Inr y \<Longrightarrow> \<exists>z. x = Inr z \<and> y = f z"
  by (cases x) auto

lemma appendCaveat_type [simp]: "je_SourceType (appendCaveat n e) = je_SourceType e"
  by (auto simp: appendCaveat_def Let_def split: option.split)

lemma processOrderDispute_disposed:
  "ae_EventType ev = AcctEventOrderDispute \<Longrightarrow> disposed w now ev db (processOrderDispute w now ev db)"
  by (auto simp: processOrderDispute_def Let_def split_beta skipped processDisputeClosed_disposed
      intro!: postBuilt_disposed dest!: map_sum_Inr dest: built_not_reversal(7) split: sum.split if_split_asm)

lemma processEvent_disposed: "disposed w now ev db (processEvent w now ev db)"
  by (simp add: processEvent_def skipped processOrderPaid_disposed processOrderShipped_disposed
      processOrderDelivered_disposed processOrderRefund_disposed processOrderDispute_disposed split: AcctEventType.split)


section \<open>Pacing\<close>

lemma doubling_closed: "0 < d \<Longrightarrow> d \<le> mx \<Longrightarrow> doubling n mx d = min (d * 2 ^ n) mx"
proof (induction n arbitrary: d)
  case (Suc n)
  have le: "d * 2 \<le> d * 2 ^ Suc n" using Suc.prems by simp
  show ?case
  proof (cases "mx \<le> d * 2")
    case True
    then have "min (d * 2 ^ Suc n) mx = mx" using le by (intro min_absorb2) linarith
    then show ?thesis using True by (simp add: Let_def)
  next
    case False
    then show ?thesis using Suc.IH [of "d * 2"] Suc.prems by (simp add: Let_def mult.assoc)
  qed
qed simp

lemma eventBackoff_range: "60000000000 \<le> eventBackoff n" "eventBackoff n \<le> 21600000000000"
proof -
  have "60000000000 * 1 \<le> 60000000000 * (2::int) ^ nat n" by (rule mult_left_mono) auto
  then show "60000000000 \<le> eventBackoff n" "eventBackoff n \<le> 21600000000000"
    by (simp_all add: eventBackoff_def doubling_closed)
qed

lemma eventBackoff_seconds: "eventBackoff n div 1000000000 * 1000000000 = eventBackoff n"
proof -
  have "(1000000000::int) dvd eventBackoff n"
    by (auto simp: eventBackoff_def doubling_closed min_def)
  then show ?thesis by simp
qed

section \<open>The effect on the event\<close>

lemma find_skip:
  "find_event i (pd_events (skipEvent now j reason db)) =
     map_option (\<lambda>e. if i = j then e\<lparr>ae_Attempts := ae_Attempts e + 1, ae_LastError := Some reason,
        ae_NextRetryAt := Some now, ae_ProcessedAt := Some now\<rparr> else e) (find_event i (pd_events db))"
  by (cases "find_event i (pd_events db)") (simp_all add: skipEvent_def)

lemma find_review:
  "find_event i (pd_events (needsReview now j reason db)) =
     map_option (\<lambda>e. if i = j then e\<lparr>ae_ProcessedAt := Some (case ae_ProcessedAt e of Some t \<Rightarrow> t | None \<Rightarrow> now),
        ae_NeedsReview := True, ae_LastError := Some reason, ae_NextRetryAt := None\<rparr> else e)
       (find_event i (pd_events db))"
  by (simp add: needsReview_def)

lemma find_defer:
  "wait_ok ev c after \<Longrightarrow> find_event i (pd_events (deferEvent now j note after db)) =
     map_option (\<lambda>e. if i = j then e\<lparr>ae_Attempts := ae_Attempts e + 1, ae_LastError := Some note,
        ae_NextRetryAt := Some (now + after)\<rparr> else e) (find_event i (pd_events db))"
proof -
  assume "wait_ok ev c after"
  then have "(if after < 0 then 0 else after div 1000000000) * 1000000000 = after"
    using eventBackoff_seconds [of "ae_Attempts ev"] eventBackoff_range(1) [of "ae_Attempts ev"]
    by (auto simp: wait_ok_def settledRetryInterval_def)
  then show ?thesis unfolding deferEvent_def on_events_simps find_marks by (simp only:)
qed

lemmas find_dispositions = find_skip find_review find_defer

lemma disposition_frames [simp]:
  "pd_ledger (skipEvent now i r db) = pd_ledger db" "pd_ledger (needsReview now i r db) = pd_ledger db"
  "pd_ledger (deferEvent now i r a db) = pd_ledger db" "pd_orders (skipEvent now i r db) = pd_orders db"
  "pd_orders (needsReview now i r db) = pd_orders db" "pd_orders (deferEvent now i r a db) = pd_orders db"
  by (simp_all add: skipEvent_def needsReview_def deferEvent_def)

text \<open>
  An event that waits keeps the ledger; what it waits for has a cap, or clears from outside.
\<close>

definition external_wait :: "Worker \<Rightarrow> AcctEvent \<Rightarrow> bool" where
  "external_wait w ev \<longleftrightarrow> (\<exists>note. ae_LastError ev = Some note \<and>
     (note = ''settled pending'' \<or> vat_note note \<or> note = wk_Error w (StoreError ErrAcctPeriodClosed) \<or>
      ae_EventType ev = AcctEventOrderDispute \<and> (\<exists>err. note = wk_Error w (StoreError err))))"

lemma disposed_waiting:
  assumes "disposed w now ev db db'" and ev: "find_event (ae_Id ev) (pd_events db) = Some ev"
    and ev': "find_event (ae_Id ev) (pd_events db') = Some ev'" and "ae_ProcessedAt ev' = None"
  shows "ae_ProcessedAt ev = None \<and> pd_ledger db' = pd_ledger db \<and> pd_orders db' = pd_orders db \<and>
    ae_Attempts ev' = ae_Attempts ev + 1 \<and>
    (\<exists>t. ae_NextRetryAt ev' = Some t \<and> now + 60000000000 \<le> t \<and> t \<le> now + 21600000000000) \<and>
    (external_wait w ev' \<or> ae_Attempts ev < 24)"
  using assms(1)
proof (cases rule: disposedE)
  case (skipped r)
  then show ?thesis using ev ev' assms(4) find_skip [of "ae_Id ev" now "ae_Id ev" r db] by auto
next
  case (reviewed r)
  then show ?thesis using ev ev' assms(4) find_review [of "ae_Id ev" now "ae_Id ev" r db] by auto
next
  case (waits c a)
  have e': "ev' = ev\<lparr>ae_Attempts := ae_Attempts ev + 1, ae_LastError := Some (wait_note w c), ae_NextRetryAt := Some (now + a)\<rparr>"
    using ev ev' waits(1) find_defer [OF waits(2), of "ae_Id ev" now "ae_Id ev" "wait_note w c" db] by auto
  have "60000000000 \<le> a \<and> a \<le> 21600000000000"
    using waits(2) eventBackoff_range [of "ae_Attempts ev"] by (auto simp: wait_ok_def settledRetryInterval_def)
  moreover have "external_wait w ev' \<or> ae_Attempts ev < 24"
    using waits(2) unfolding e' by (cases c) (auto simp: wait_defs external_wait_def)
  ultimately show ?thesis using waits(1) assms(4) unfolding e' by simp
next
  case posted
  then show ?thesis using ev ev' assms(4) by auto
qed

lemma disposed_ledger:
  assumes "disposed w now ev db db'" and "pd_ledger db' \<noteq> pd_ledger db"
  shows "find_event i (pd_events db') =
    map_option (\<lambda>e. if i = ae_Id ev then e\<lparr>ae_ProcessedAt := Some now\<rparr> else e) (find_event i (pd_events db))"
  using assms(1) by (cases rule: disposedE) (use assms(2) in auto)

lemma disposed_others:
  assumes "disposed w now ev db db'" and "i \<noteq> ae_Id ev"
  shows "find_event i (pd_events db') = find_event i (pd_events db)"
  using assms(1)
  by (cases rule: disposedE) (use assms(2) in \<open>simp_all add: find_dispositions option.map_ident\<close>)

lemma disposed_present:
  assumes "disposed w now ev db db'" and "find_event i (pd_events db) = Some e"
  obtains e' where "find_event i (pd_events db') = Some e'" "ae_Id e' = ae_Id e" "ae_EventType e' = ae_EventType e"
  using assms(1)
  by (cases rule: disposedE) (use assms(2) in \<open>auto simp: find_dispositions\<close>)

section \<open>Properties of one event\<close>

text \<open>
  The two backoff loops compute what they document.  An event that failed n times before waits
  min(1m * 2^n, 6h), the worker waits min(30s * 2^(n-1), 5m) after n consecutive failed ticks; both
  loops stop at the cap, so no intermediate value leaves 64 bits.
\<close>

theorem backoff_closed_forms:
  "eventBackoff (int n) = min (60000000000 * 2 ^ n) 21600000000000 \<and>
   backoffDelay (int n + 1) = min (30000000000 * 2 ^ n) 300000000000"
  by (simp add: eventBackoff_def backoffDelay_def doubling_closed)

text \<open>
  C6: An event and its entries commit together.  Processing a stored event touches no other event.
  If the ledger changes at all, the only change to the event is that it is marked processed; if the
  event is still pending afterwards, it was pending before, ledger and orders are as they were, its
  attempts went up by one, and its next retry lies between one minute and six hours ahead.
\<close>

theorem event_atomicity:
  assumes "find_event (ae_Id ev) (pd_events db) = Some ev"
  shows "(\<forall>i. i \<noteq> ae_Id ev \<longrightarrow> find_event i (pd_events (processEvent w now ev db)) = find_event i (pd_events db))
    \<and> (pd_ledger (processEvent w now ev db) \<noteq> pd_ledger db \<longrightarrow>
         find_event (ae_Id ev) (pd_events (processEvent w now ev db)) = Some (ev\<lparr>ae_ProcessedAt := Some now\<rparr>))
    \<and> (\<forall>ev'. find_event (ae_Id ev) (pd_events (processEvent w now ev db)) = Some ev' \<longrightarrow> ae_ProcessedAt ev' = None \<longrightarrow>
         ae_ProcessedAt ev = None \<and> pd_ledger (processEvent w now ev db) = pd_ledger db \<and>
         pd_orders (processEvent w now ev db) = pd_orders db \<and> ae_Attempts ev' = ae_Attempts ev + 1 \<and>
         (\<exists>t. ae_NextRetryAt ev' = Some t \<and> now + 60000000000 \<le> t \<and> t \<le> now + 21600000000000))"
proof (intro conjI allI impI)
  fix i assume "i \<noteq> ae_Id ev"
  then show "find_event i (pd_events (processEvent w now ev db)) = find_event i (pd_events db)"
    by (rule disposed_others [OF processEvent_disposed])
next
  assume "pd_ledger (processEvent w now ev db) \<noteq> pd_ledger db"
  then show "find_event (ae_Id ev) (pd_events (processEvent w now ev db)) = Some (ev\<lparr>ae_ProcessedAt := Some now\<rparr>)"
    using disposed_ledger [OF processEvent_disposed, of w now ev db "ae_Id ev"] assms by simp
qed (use disposed_waiting [OF processEvent_disposed assms] in blast)+

text \<open>
  C12: Retries end.  Take any event, processed again and again while anything else happens to the
  tables between two rounds.  After at most 25 rounds it is disposed of - posted, skipped or flagged
  for review - or it waits for something outside the worker: a settlement, a VAT rate, a closed
  period, or, for a dispute, a reversal the store refuses.
\<close>

theorem retries_end:
  assumes stored: "\<And>k. find_event i (pd_events (D k)) = Some (E k)"
    and round: "\<And>k. find_event i (pd_events (processEvent w (T k) (E k) (D k))) = Some (E (Suc k))"
    and start: "0 \<le> ae_Attempts (E 0)"
  shows "\<exists>k \<le> 25. ae_ProcessedAt (E k) \<noteq> None \<or> external_wait w (E k)"
proof (rule ccontr)
  assume "\<not> ?thesis"
  then have no: "ae_ProcessedAt (E k) = None" "\<not> external_wait w (E k)" if "k \<le> 25" for k using that by auto
  have id: "ae_Id (E k) = i" for k using stored [of k] by (auto simp: find_event_def find_Some_iff)
  have step: "ae_Attempts (E (Suc k)) = ae_Attempts (E k) + 1 \<and> ae_Attempts (E k) < 24" if "Suc k \<le> 25" for k
    using disposed_waiting [OF processEvent_disposed [where w = w and now = "T k" and ev = "E k" and db = "D k"], of "E (Suc k)"]
      stored [of k] round [of k] no [OF that] by (simp add: id)
  have "int k \<le> ae_Attempts (E k)" if "k \<le> 24" for k
    using that by (induction k) (use start step in force)+
  then show False using step [of 24] by force
qed


section \<open>The tables over every run\<close>

text \<open>
  The runs of the system around the outbox: producers enqueue, the worker ticks, an operator reprocesses
  or resolves an event, and the orders, the VAT rates and the ledger's other users do as they like.
\<close>

inductive outbox_reach :: "Worker \<Rightarrow> posting_db \<Rightarrow> bool" for w where
  start: "ledger_reach (wk_decimal w) (pd_ledger db) \<Longrightarrow> ev_events (pd_events db) = [] \<Longrightarrow> outbox_reach w db"
| enqueue: "outbox_reach w db \<Longrightarrow> outbox_reach w (on_events (\<lambda>evs. snd (EnqueueEvent now ins evs)) db)"
| tick: "outbox_reach w db \<Longrightarrow> outbox_reach w (processOutbox w now db)"
| reprocess: "outbox_reach w db \<Longrightarrow> outbox_reach w (on_events (ReprocessAcctEvent i) db)"
| resolve: "outbox_reach w db \<Longrightarrow> outbox_reach w (on_events (ResolveAcctEvent i) db)"
| orders: "outbox_reach w db \<Longrightarrow> outbox_reach w (db\<lparr>pd_orders := os, pd_vatRates := vs\<rparr>)"
| ledger_users: "outbox_reach w db \<Longrightarrow> ledger_reach (wk_decimal w) l \<Longrightarrow> outbox_reach w (db\<lparr>pd_ledger := l\<rparr>)"

definition event_key :: "AcctEvent \<Rightarrow> AcctEventType \<times> string" where
  "event_key e = (ae_EventType e, ae_SourceKey e)"

definition event_ok :: "AcctEvent \<Rightarrow> bool" where
  "event_ok e \<longleftrightarrow> 0 \<le> ae_Attempts e \<and> (ae_NeedsReview e \<longrightarrow> ae_ProcessedAt e \<noteq> None \<and> ae_LastError e \<noteq> None)"

definition events_ok :: "event_db \<Rightarrow> bool" where
  "events_ok evs \<longleftrightarrow> distinct (map ae_Id (ev_events evs)) \<and> distinct (map event_key (ev_events evs)) \<and>
     (\<forall>e \<in> set (ev_events evs). ae_Id e < ev_next evs \<and> event_ok e)"

lemma update_events_ok:
  assumes "events_ok evs" and "keeps_key f" and "\<And>e. event_ok e \<Longrightarrow> event_ok (f e)"
  shows "events_ok (update_event i f evs)"
proof -
  have "map ae_Id (ev_events (update_event i f evs)) = map ae_Id (ev_events evs)"
    "map event_key (ev_events (update_event i f evs)) = map event_key (ev_events evs)"
    using assms(2) by (auto simp: update_event_def keeps_key_def event_key_def)
  moreover have "\<forall>e \<in> set (ev_events (update_event i f evs)). ae_Id e < ev_next evs \<and> event_ok e"
    using assms by (auto simp: update_event_def events_ok_def keeps_key_def)
  moreover have "ev_next (update_event i f evs) = ev_next evs" by (simp add: update_event_def)
  ultimately show ?thesis using assms(1) unfolding events_ok_def by metis
qed

lemma marks_ok:
  assumes "events_ok evs"
  shows "events_ok (MarkEventProcessed now i evs)" "events_ok (MarkEventFailed now i err r evs)"
    "events_ok (MarkEventNeedsReview now i err evs)" "events_ok (ReprocessAcctEvent i evs)" "events_ok (ResolveAcctEvent i evs)"
  unfolding event_ops by (rule update_events_ok [OF assms]; simp add: keeps_key_def event_ok_def)+

lemma enqueue_ok: "events_ok evs \<Longrightarrow> events_ok (snd (EnqueueEvent now ins evs))"
  by (cases "ei_Payload ins") (force simp: EnqueueEvent_def Let_def events_ok_def event_key_def event_ok_def)+

lemma createEntries_reach:
  "ledger_reach L db \<Longrightarrow> \<forall>e \<in> set es. je_SourceType e \<noteq> AcctSourceReversal \<Longrightarrow> createEntries L es db = (Inr (), db')
   \<Longrightarrow> ledger_reach L db'"
proof (induction es arbitrary: db)
  case (Cons e es)
  obtain x d where c: "CreateJournalEntry L True e db = (Inr x, d)" "createEntries L es d = (Inr (), db')"
    using Cons.prems(3) by (auto split: prod.splits sum.splits)
  have "ledger_reach L d"
    by (rule ledger_reach.create [OF Cons.prems(1), of e]) (use Cons.prems(2) c(1) in \<open>simp_all add: repoTx_def\<close>)
  then show ?case using Cons.IH [OF _ _ c(2)] Cons.prems(2) by simp
qed simp

lemma disposed_keeps:
  assumes "disposed w now ev db db'" and "ledger_reach (wk_decimal w) (pd_ledger db)" and "events_ok (pd_events db)"
  shows "ledger_reach (wk_decimal w) (pd_ledger db') \<and> events_ok (pd_events db')"
  using assms(1)
proof (cases rule: disposedE)
  case posted
  have "ledger_reach (wk_decimal w) (pd_ledger db')"
    using posted(2)
  proof
    assume "\<exists>i r j. ReverseJournalEntry (wk_decimal w) True i r createdBySystemUser now (pd_ledger db) = (Inr j, pd_ledger db')"
    then obtain i r j where "ReverseJournalEntry (wk_decimal w) True i r createdBySystemUser now (pd_ledger db) = (Inr j, pd_ledger db')"
      by blast
    then show ?thesis
      by (intro ledger_reach.reverse [OF assms(2), of i r createdBySystemUser now]) (simp add: repoTx_def)
  qed (use createEntries_reach [OF assms(2)] in blast)
  then show ?thesis using posted(1) assms(3) marks_ok by simp
qed (use assms marks_ok in \<open>simp_all add: skipEvent_def needsReview_def deferEvent_def\<close>)

lemma processOutbox_keeps:
  assumes "ledger_reach (wk_decimal w) (pd_ledger db)" and "events_ok (pd_events db)"
  shows "ledger_reach (wk_decimal w) (pd_ledger (processOutbox w now db)) \<and> events_ok (pd_events (processOutbox w now db))"
proof -
  have "ledger_reach (wk_decimal w) (pd_ledger (foldl (\<lambda>db ev. processEvent w now ev db) db evs)) \<and>
      events_ok (pd_events (foldl (\<lambda>db ev. processEvent w now ev db) db evs))" for evs
    using assms
  proof (induction evs arbitrary: db)
    case (Cons ev evs)
    then show ?case using disposed_keeps [OF processEvent_disposed, of w db now ev] by simp
  qed simp
  then show ?thesis by (simp add: processOutbox_def)
qed

lemma outbox_reach_keeps:
  "outbox_reach w db \<Longrightarrow> ledger_reach (wk_decimal w) (pd_ledger db) \<and> events_ok (pd_events db)"
proof (induction rule: outbox_reach.induct)
  case (start db)
  then show ?case by (simp add: events_ok_def)
qed (simp_all add: enqueue_ok marks_ok processOutbox_keeps)

lemma due_listed:
  "e \<in> set (ListPendingEvents now lm evs) \<Longrightarrow> e \<in> set (ev_events evs) \<and> event_due now e"
  by (auto simp: ListPendingEvents_def dest: in_set_takeD)


text \<open>
  C13: The tables are well formed in every run.  Whatever producers, operators, the worker's ticks and
  the other users of the ledger do, in any order: debits equal credits over the whole journal; no two
  events share an id or a (type, source key), so a retried producer never doubles a posting; attempts
  are not negative; an event under review is out of the pending window and says why; and what a tick
  lists is stored, due, in order of id and no more than its limit.
\<close>

theorem posting_tables_invariant:
  assumes "outbox_reach w db" and "decimal_ok (wk_decimal w)" and "0 < n"
  shows "side_total AcctSideDebit (db_entries (pd_ledger db)) = side_total AcctSideCredit (db_entries (pd_ledger db))
    \<and> distinct (map ae_Id (ev_events (pd_events db)))
    \<and> distinct (map (\<lambda>e. (ae_EventType e, ae_SourceKey e)) (ev_events (pd_events db)))
    \<and> (\<forall>e \<in> set (ev_events (pd_events db)). 0 \<le> ae_Attempts e \<and>
         (ae_NeedsReview e \<longrightarrow> ae_ProcessedAt e \<noteq> None \<and> ae_LastError e \<noteq> None))
    \<and> (\<forall>e \<in> set (ListPendingEvents now n (pd_events db)). e \<in> set (ev_events (pd_events db)) \<and> event_due now e)
    \<and> sorted (map ae_Id (ListPendingEvents now n (pd_events db)))
    \<and> int (length (ListPendingEvents now n (pd_events db))) \<le> n"
proof -
  have r: "ledger_reach (wk_decimal w) (pd_ledger db)" and e: "events_ok (pd_events db)"
    using outbox_reach_keeps [OF assms(1)] by simp_all
  have b: "side_total AcctSideDebit (db_entries (pd_ledger db)) = side_total AcctSideCredit (db_entries (pd_ledger db))"
    by (rule balanced_totals [OF ledger_reach_ok [OF r assms(2)] subset_refl])
  have k: "(\<lambda>e. (ae_EventType e, ae_SourceKey e)) = event_key" by (rule ext) (simp add: event_key_def)
  have "sorted (map ae_Id (ListPendingEvents now n (pd_events db)))"
    unfolding ListPendingEvents_def take_map [symmetric] by (rule sorted_wrt_take) simp
  moreover have "int (length (ListPendingEvents now n (pd_events db))) \<le> n"
    using assms(3) by (simp add: ListPendingEvents_def)
  ultimately show ?thesis using e b due_listed unfolding k events_ok_def event_ok_def by blast
qed

section \<open>An order to try the worker on\<close>

text \<open>
  A chart with the accounts the rules use, the order of 123 EUR, a VAT rate, and its paid and
  delivered events; the delivered chain is on from the start.
\<close>

definition ex_worker :: Worker where
  "ex_worker = \<lparr>wk_decimal = decimal_std, wk_startDate = 0, wk_deliveredRecognitionFrom = Some 0,
     wk_OriginCountry = ''PL'', wk_BatchSize = 200, wk_Error = (\<lambda>_. ''error'')\<rparr>"

definition ex_chart :: ledger_db where
  "ex_chart = \<lparr>db_accounts = map (\<lambda>(i, c). ex_account i c)
       [(1, Acc1030), (2, Acc1130), (3, Acc1140), (4, Acc2070), (5, Acc2090), (6, Acc4020), (7, Acc4030),
        (8, Acc4110), (9, Acc5010), (10, Acc6050)],
     db_entries = [], db_periods = Map.empty, db_receipts = [], db_checkpoints = Map.empty,
     db_next_entry = 1, db_next_account = 11\<rparr>"

definition ex_payload :: event_payload where
  "ex_payload = \<lparr>py_OrderUUID = ''o1'', py_Refund = ex_refund,
     py_Dispute = \<lparr>dp_OrderUUID = ''o1'', dp_DisputeID = ''d1'', dp_Closed = False, dp_Won = False, dp_AmountBase = 0,
                   dp_FeeBase = 0, dp_FeeKnown = False, dp_Currency = ''EUR''\<rparr>\<rparr>"

definition ex_event :: "AcctEventType \<Rightarrow> AcctEventInsert" where
  "ex_event ty = \<lparr>ei_EventType = ty, ei_SourceKey = ''o1'', ei_Payload = Inr ex_payload, ei_OccurredAt = 5\<rparr>"

definition ex_enqueue :: "AcctEventType \<Rightarrow> posting_db \<Rightarrow> posting_db" where
  "ex_enqueue ty = on_events (\<lambda>evs. snd (EnqueueEvent 5 (ex_event ty) evs))"

definition ex_posting :: posting_db where
  "ex_posting = \<lparr>pd_ledger = ex_chart, pd_events = \<lparr>ev_events = [], ev_next = 1\<rparr>,
     pd_orders = [''o1'' \<mapsto> ex_order], pd_vatRates = [''PL'' \<mapsto> 23]\<rparr>"

definition ex_queue :: posting_db where
  "ex_queue = ex_enqueue AcctEventOrderPaid ex_posting"

lemma ex_queue_reach: "outbox_reach ex_worker ex_queue"
proof -
  have "accounts_ok ex_chart" by code_simp
  then have "ledger_reach decimal_std ex_chart" by (rule ledger_reach.init) (simp add: ex_chart_def)
  then have "outbox_reach ex_worker ex_posting"
    by (intro outbox_reach.start) (simp_all add: ex_worker_def ex_posting_def)
  then show ?thesis unfolding ex_queue_def ex_enqueue_def by (rule outbox_reach.enqueue)
qed


definition ex_paid :: AcctEvent where
  "ex_paid = the (find_event 1 (pd_events ex_queue))"

lemma ex_paid_stored: "find_event (ae_Id ex_paid) (pd_events ex_queue) = Some ex_paid"
  by code_simp

theorem event_atomicity_witness:
  "find_event 1 (pd_events (processEvent ex_worker 10 ex_paid ex_queue)) = Some (ex_paid\<lparr>ae_ProcessedAt := Some 10\<rparr>)"
proof -
  have "db_next_entry (pd_ledger (processEvent ex_worker 10 ex_paid ex_queue)) = 2" "db_next_entry (pd_ledger ex_queue) = 1"
    by code_simp+
  then have "pd_ledger (processEvent ex_worker 10 ex_paid ex_queue) \<noteq> pd_ledger ex_queue" by fastforce
  moreover have "ae_Id ex_paid = 1" by code_simp
  ultimately show ?thesis using event_atomicity [OF ex_paid_stored, of ex_worker 10] by simp
qed

text \<open>Processing one event again and again, with nothing in between.\<close>

primrec retry_run :: "Worker \<Rightarrow> int \<Rightarrow> posting_db \<Rightarrow> nat \<Rightarrow> posting_db" where
  "retry_run w i db 0 = db"
| "retry_run w i db (Suc k) =
     processEvent w (int k) (the (find_event i (pd_events (retry_run w i db k)))) (retry_run w i db k)"

lemma retry_run_stored:
  assumes "find_event i (pd_events db) = Some e"
  shows "find_event i (pd_events (retry_run w i db k)) = Some (the (find_event i (pd_events (retry_run w i db k))))"
proof (induction k)
  case (Suc k)
  show ?case
    by (rule disposed_present [OF processEvent_disposed [where w = w and now = "int k" and
          ev = "the (find_event i (pd_events (retry_run w i db k)))" and db = "retry_run w i db k"] Suc.IH]) simp
qed (use assms in simp)

theorem retries_end_witness:
  "\<exists>k \<le> 25. ae_ProcessedAt (the (find_event 1 (pd_events (retry_run ex_worker 1 ex_queue k)))) \<noteq> None \<or>
     external_wait ex_worker (the (find_event 1 (pd_events (retry_run ex_worker 1 ex_queue k))))"
proof (rule retries_end [where i = 1 and D = "retry_run ex_worker 1 ex_queue" and T = int])
  have f: "find_event 1 (pd_events ex_queue) = Some ex_paid" by code_simp
  show "find_event 1 (pd_events (retry_run ex_worker 1 ex_queue k)) =
      Some (the (find_event 1 (pd_events (retry_run ex_worker 1 ex_queue k))))" for k
    by (rule retry_run_stored [OF f])
  show "find_event 1 (pd_events (processEvent ex_worker (int k)
      (the (find_event 1 (pd_events (retry_run ex_worker 1 ex_queue k)))) (retry_run ex_worker 1 ex_queue k))) =
      Some (the (find_event 1 (pd_events (retry_run ex_worker 1 ex_queue (Suc k)))))" for k
    using retry_run_stored [OF f, of ex_worker "Suc k"] by simp
  show "0 \<le> ae_Attempts (the (find_event 1 (pd_events (retry_run ex_worker 1 ex_queue 0))))" by code_simp
qed

theorem posting_tables_invariant_witness:
  "int (length (ListPendingEvents 10 1 (pd_events (ex_enqueue AcctEventOrderDelivered ex_queue)))) \<le> 1"
proof -
  have "outbox_reach ex_worker (ex_enqueue AcctEventOrderDelivered ex_queue)"
    unfolding ex_enqueue_def by (rule outbox_reach.enqueue [OF ex_queue_reach])
  moreover have "decimal_ok (wk_decimal ex_worker)" by (simp add: ex_worker_def decimal_std_ok)
  moreover have "(0::int) < 1" by simp
  ultimately show ?thesis
    by (elim posting_tables_invariant [where now = 10, THEN conjunct2, THEN conjunct2, THEN conjunct2, THEN conjunct2,
          THEN conjunct2, THEN conjunct2])
qed

end
