(* ===== verification/Posting_Chain.thy ===== *)
theory Posting_Chain
  imports Posting_Props
begin

text \<open>
  The chain of entries of one order in the ledger: what posting an entry does to the state the worker
  reads back, and what delivery leaves on the prepayment and transit accounts.
\<close>

section \<open>What an entry adds to a balance\<close>

lemma acct_net_other: "c \<notin> ln_AccountCode ` set ls \<Longrightarrow> acct_net c ls = 0"
  by (induction ls) auto

lemma acct_net_round_other: "c \<notin> ln_AccountCode ` set ls \<Longrightarrow> acct_net c (map (roundLine L) ls) = 0"
  by (rule acct_net_other) (auto simp: roundLine_def)

lemma balance_of_append: "balance_of db c s (es @ es') = balance_of db c s es + balance_of db c s es'"
  by (simp add: balance_of_def)

lemma balance_of_cong: "db_accounts db' = db_accounts db \<Longrightarrow> balance_of db' c s es = balance_of db c s es"
  by (simp add: balance_of_def accountCode_def)

lemma stored_contribution:
  assumes "accounts_ok db"
    and "\<And>l. l \<in> set ls \<Longrightarrow> \<exists>a \<in> set (db_accounts db). ac_Code a = ln_AccountCode l \<and> m (ln_AccountCode l) = Some (ac_Id a)"
    and "list_all line_ok (map (roundLine L) ls)"
  shows "sum_list (map (\<lambda>l. if accountCode db (jl_AccountId l) = Some c then signed_amount AcctSideDebit l else 0) (stored_lines L m ls))
       = acct_net c (map (roundLine L) ls)"
    and "sum_list (map (\<lambda>l. if accountCode db (jl_AccountId l) = Some c then signed_amount AcctSideCredit l else 0) (stored_lines L m ls))
       = - acct_net c (map (roundLine L) ls)"
proof -
  have "sum_list (map (\<lambda>l. if accountCode db (jl_AccountId l) = Some c then signed_amount AcctSideDebit l else 0) (stored_lines L m ls))
       = acct_net c (map (roundLine L) ls) \<and>
     sum_list (map (\<lambda>l. if accountCode db (jl_AccountId l) = Some c then signed_amount AcctSideCredit l else 0) (stored_lines L m ls))
       = - acct_net c (map (roundLine L) ls)"
    using assms(2,3)
  proof (induction ls)
    case (Cons l ls)
    obtain a where a: "a \<in> set (db_accounts db)" "ac_Code a = ln_AccountCode l" "m (ln_AccountCode l) = Some (ac_Id a)"
      using Cons.prems(1) [of l] by auto
    have "accountCode db (jl_AccountId (storeLine m (l, dl_Round L (ln_Amount l) 2))) = Some (ln_AccountCode l)"
      using accountCode_id [OF assms(1) a(1)] a by (simp add: storeLine_def)
    moreover have "ln_Side l = AcctSideDebit \<or> ln_Side l = AcctSideCredit"
      using Cons.prems(2) by (auto simp: line_ok_def roundLine_def)
    ultimately show ?case using Cons by (auto simp: signed_amount_def debit_of_def credit_of_def)
  qed simp
  then show "sum_list (map (\<lambda>l. if accountCode db (jl_AccountId l) = Some c then signed_amount AcctSideDebit l else 0) (stored_lines L m ls))
       = acct_net c (map (roundLine L) ls)"
    "sum_list (map (\<lambda>l. if accountCode db (jl_AccountId l) = Some c then signed_amount AcctSideCredit l else 0) (stored_lines L m ls))
       = - acct_net c (map (roundLine L) ls)" by auto
qed

lemma create_accounts_ok:
  assumes c: "CreateJournalEntry L tx ins db = (Inr x, db')" and ok: "accounts_ok db"
  shows "accounts_ok db'"
proof -
  obtain i d where x: "x = (i, d)" by (cases x)
  have "db_accounts db' = db_accounts db \<and> db_next_account db' = db_next_account db"
    using c unfolding x
  proof (cases rule: CreateJournalEntry_cases)
    case dup
    then show ?thesis using EnsurePeriodOpen_simps [of "je_OccurredAt ins" db] by simp
  next
    case (new m db0 e)
    then show ?thesis using EnsurePeriodOpen_simps [of "je_OccurredAt ins" db] by simp
  qed
  then show ?thesis using ok by (simp add: accounts_ok_def)
qed

text \<open>Posting an order entry whose source is not in the ledger yet.\<close>

lemma create_order_entry:
  assumes c: "CreateJournalEntry L True ins db = (Inr x, db')" and ok: "accounts_ok db"
    and key: "je_SourceKey ins = u" "je_SourceType ins \<in> set order_sources"
    and new: "\<not> has_source (je_SourceType ins) (order_entries u db)"
  obtains e where "order_entries u db' = order_entries u db @ [e]" "en_SourceType e = je_SourceType ins"
    "db_accounts db' = db_accounts db"
    "\<And>a. balance_of db' a AcctSideDebit [e] = acct_net a (map (roundLine L) (je_Lines ins))"
    "\<And>a. balance_of db' a AcctSideCredit [e] = - acct_net a (map (roundLine L) (je_Lines ins))"
proof -
  obtain i d where x: "x = (i, d)" by (cases x)
  show ?thesis using c unfolding x
  proof (cases rule: CreateJournalEntry_cases)
    case dup
    then obtain e where "e \<in> set (db_entries db)" "en_SourceType e = je_SourceType ins" "en_SourceKey e = u"
      using lookupSource_SomeD [OF dup(2)] key by auto
    then have "has_source (je_SourceType ins) (order_entries u db)"
      using key by (auto simp: has_source_def order_entries_def)
    then show ?thesis using new by simp
  next
    case (new m db0 e)
    have acc: "db_accounts db' = db_accounts db" using EnsurePeriodOpen_simps(2) [of "je_OccurredAt ins" db] new by simp
    have lines: "list_all line_ok (map (roundLine L) (je_Lines ins))" using new(5) by (simp add: insert_valid_def lines_ok_def)
    note sc = stored_contribution [OF ok new(15) lines]
    show ?thesis
    proof (rule that)
      show "order_entries u db' = order_entries u db @ [e]" using new key by (simp add: order_entries_def)
    qed (use new acc sc in \<open>simp_all add: balance_of_def accountCode_def\<close>)
  qed
qed


section \<open>Delivery drains the order's accounts\<close>

lemma balance_on_grid:
  assumes "entries_ok db" and "set es \<subseteq> set (db_entries db)"
  shows "on_grid 2 (balance_of db c s es)"
proof -
  have "on_grid 2 (jl_Amount l)" if "l \<in> set (concat (map en_Lines es))" for l
    using assms that by (fastforce simp: entries_ok_def list_all_iff entry_stored_ok_def line_stored_ok_def)
  then have "\<forall>x \<in> set (map (\<lambda>l. if accountCode db (jl_AccountId l) = Some c then signed_amount s l else 0)
      (concat (map en_Lines es))). on_grid 2 x"
    by (auto simp: signed_amount_def)
  moreover have "\<forall>x \<in> set xs. on_grid 2 x \<Longrightarrow> on_grid 2 (sum_list xs)" for xs
    by (induction xs) auto
  ultimately show ?thesis unfolding balance_of_def by blast
qed

lemma delivered_lines_net:
  assumes "BuildOrderDeliveredSaleEntry L f p c t = Inr e" and "decimal_ok L" and "on_grid 2 p"
  shows "acct_net Acc2090 (map (roundLine L) (je_Lines e)) = p"
    and "acct_net Acc1140 (map (roundLine L) (je_Lines e)) = - (if 0 < c then dl_Round L c 2 else 0)"
    and "je_SourceType e = AcctSourceOrderDeliveredSale" and "je_SourceKey e = of_UUID f"
proof -
  obtain g k ship where e: "je_Lines e = [Dr Acc2090 p]
       @ fst (revenueLines L (saleRevenueAccount f) (p - ship) (of_PromoDiscountPct f))
       @ line_if_pos (Cr Acc4110 ship) @ pair_if_pos Acc5010 Acc1140 c" and
    st: "je_SourceType e = AcctSourceOrderDeliveredSale" "je_SourceKey e = of_UUID f"
    by (rule BuildOrderDeliveredSaleEntry_Inr [OF assms(1)])
  have codes: "ln_AccountCode ` set (fst (revenueLines L (saleRevenueAccount f) (p - ship) (of_PromoDiscountPct f)))
      \<subseteq> {Acc4010, Acc4020, Acc4310, Acc4030}"
    by (auto simp: revenueLines_def saleRevenueAccount_def revenueAccount_def Let_def split: option.splits if_splits)
  have rev: "acct_net a (map (roundLine L) (fst (revenueLines L (saleRevenueAccount f) (p - ship) (of_PromoDiscountPct f)))) = 0"
    if "a = Acc2090 \<or> a = Acc1140" for a
    by (rule acct_net_round_other) (use codes that in auto)
  have "dl_Round L p 2 = p" using assms(2,3) by (simp add: Round_id)
  then show "acct_net Acc2090 (map (roundLine L) (je_Lines e)) = p"
    "acct_net Acc1140 (map (roundLine L) (je_Lines e)) = - (if 0 < c then dl_Round L c 2 else 0)"
    unfolding e map_append acct_net_simps
    by (simp_all add: rev line_if_pos_def pair_if_pos_def roundLine_def debit_of_def credit_of_def)
  show "je_SourceType e = AcctSourceOrderDeliveredSale" "je_SourceKey e = of_UUID f" by (rule st)+
qed

lemma transit_lines_net:
  assumes "BuildOrderTransitEntry L f t = Inr e"
  shows "acct_net Acc2090 (map (roundLine L) (je_Lines e)) = 0"
    and "acct_net Acc1140 (map (roundLine L) (je_Lines e)) = dl_Round L (lineAmount e Acc1140 AcctSideDebit) 2"
    and "0 < lineAmount e Acc1140 AcctSideDebit"
    and "je_SourceType e = AcctSourceOrderTransit" and "je_SourceKey e = of_UUID f"
  using BuildOrderTransitEntry_eq [OF assms]
  by (simp_all add: lineAmount_def roundLine_def debit_of_def credit_of_def)

lemma state_simps:
  "ps_Remaining2090 (GetOrderPostingState u db evs) = balance_of db Acc2090 AcctSideCredit (order_entries u db)"
  "ps_Remaining1140 (GetOrderPostingState u db evs) = balance_of db Acc1140 AcctSideDebit (order_entries u db)"
  "ps_DeliveredSale (GetOrderPostingState u db evs) = has_source AcctSourceOrderDeliveredSale (order_entries u db)"
  "ps_Transit (GetOrderPostingState u db evs) = has_source AcctSourceOrderTransit (order_entries u db)"
  "ps_Prepayment (GetOrderPostingState u db evs) = has_source AcctSourceOrderPrepayment (order_entries u db)"
  by (simp_all add: GetOrderPostingState_def Let_def)

lemma order_entries_subset: "set (order_entries u db) \<subseteq> set (db_entries db)"
  by (auto simp: order_entries_def)

lemma postOrDefer_ledger:
  "pd_ledger (postOrDefer w now ev es berr u r db) \<noteq> pd_ledger db \<Longrightarrow>
   berr = None \<and> createEntries (wk_decimal w) es (pd_ledger db) = (Inr (), pd_ledger (postOrDefer w now ev es berr u r db))"
  by (auto simp: postOrDefer_def postEntries_def Let_def
      split: option.split_asm sum.split_asm prod.split_asm if_split_asm)

text \<open>A delivered event that changed the ledger posted the sale, after the transit leg if it was missing.\<close>

lemma processOrderDelivered_posts:
  assumes "ae_Payload ev = Inr p" and "pd_ledger (processOrderDelivered w now ev db) \<noteq> pd_ledger db"
  obtains f es c s where "pd_orders db (py_OrderUUID p) = Some f"
    "transitLeg w ev (GetOrderPostingState (py_OrderUUID p) (pd_ledger db) (pd_events db)) f = Inr (es, c)"
    "BuildOrderDeliveredSaleEntry (wk_decimal w) f
       (ps_Remaining2090 (GetOrderPostingState (py_OrderUUID p) (pd_ledger db) (pd_events db))) c (ae_OccurredAt ev) = Inr s"
    "createEntries (wk_decimal w) (es @ [s]) (pd_ledger db) = (Inr (), pd_ledger (processOrderDelivered w now ev db))"
    "\<not> ps_DeliveredSale (GetOrderPostingState (py_OrderUUID p) (pd_ledger db) (pd_events db))"
proof -
  let ?st = "GetOrderPostingState (py_OrderUUID p) (pd_ledger db) (pd_events db)"
  have skip: "pd_ledger (skipShippedDelivered w now ev st db) = pd_ledger db" for st
    by (simp add: skipShippedDelivered_def)
  have st: "ps_Prepayment ?st" "\<not> ps_DeliveredSale ?st"
    using assms skip by (auto simp: processOrderDelivered_def Let_def split: if_split_asm)
  moreover have "pd_orders db (py_OrderUUID p) \<noteq> None"
  proof
    assume "pd_orders db (py_OrderUUID p) = None"
    then show False using assms st by (simp add: processOrderDelivered_def Let_def)
  qed
  ultimately obtain f where f: "pd_orders db (py_OrderUUID p) = Some f" by auto
  have eq: "processOrderDelivered w now ev db =
     (case transitLeg w ev ?st f of
        Inl err \<Rightarrow> postOrDefer w now ev [] (Some err) [] [] db
      | Inr (es, c) \<Rightarrow>
          (case BuildOrderDeliveredSaleEntry (wk_decimal w) f (ps_Remaining2090 ?st) c (ae_OccurredAt ev) of
             Inl err \<Rightarrow> postOrDefer w now ev [] (Some err) [] [] db
           | Inr s \<Rightarrow> postOrDefer w now ev (es @ [s]) None [] [] db))"
    using assms(1) st f by (simp add: processOrderDelivered_def Let_def)
  show ?thesis
  proof (cases "transitLeg w ev ?st f")
    case (Inl err)
    then have "processOrderDelivered w now ev db = postOrDefer w now ev [] (Some err) [] [] db" by (simp add: eq)
    then show ?thesis using assms(2) postOrDefer_ledger [of w now ev "[]" "Some err" "[]" "[]" db] by auto
  next
    case (Inr x)
    obtain es c where x: "x = (es, c)" by (cases x)
    show ?thesis
    proof (cases "BuildOrderDeliveredSaleEntry (wk_decimal w) f (ps_Remaining2090 ?st) c (ae_OccurredAt ev)")
      case (Inl err)
      then have "processOrderDelivered w now ev db = postOrDefer w now ev [] (Some err) [] [] db" using Inr x by (simp add: eq)
      then show ?thesis using assms(2) postOrDefer_ledger [of w now ev "[]" "Some err" "[]" "[]" db] by auto
    next
      case (Inr s)
      have e: "processOrderDelivered w now ev db = postOrDefer w now ev (es @ [s]) None [] [] db"
        using Inr \<open>transitLeg w ev ?st f = Inr x\<close> x by (simp add: eq)
      show ?thesis
        by (rule that [OF f _ Inr])
          (use \<open>transitLeg w ev ?st f = Inr x\<close> x e st assms(2)
             postOrDefer_ledger [of w now ev "es @ [s]" None "[]" "[]" db] in auto)
    qed
  qed
qed


text \<open>Posting the sale drains exactly what the state read.\<close>

lemma delivered_sale_drains:
  assumes c: "CreateJournalEntry L True s db = (Inr x, db')" and ok: "accounts_ok db" and dec: "decimal_ok L"
    and s: "BuildOrderDeliveredSaleEntry L f p cost t = Inr s" and u: "of_UUID f = u" and p: "on_grid 2 p"
    and new: "\<not> has_source AcctSourceOrderDeliveredSale (order_entries u db)"
  shows "balance_of db' Acc2090 AcctSideCredit (order_entries u db') =
      balance_of db Acc2090 AcctSideCredit (order_entries u db) - p"
    and "balance_of db' Acc1140 AcctSideDebit (order_entries u db') =
      balance_of db Acc1140 AcctSideDebit (order_entries u db) - (if 0 < cost then dl_Round L cost 2 else 0)"
    and "has_source AcctSourceOrderDeliveredSale (order_entries u db')"
proof -
  note net = delivered_lines_net [OF s dec p]
  have "je_SourceType s \<in> set order_sources" "je_SourceKey s = u"
    "\<not> has_source (je_SourceType s) (order_entries u db)"
    using net(3,4) u new by (simp_all add: order_sources_def)
  then obtain e where e: "order_entries u db' = order_entries u db @ [e]" "en_SourceType e = je_SourceType s"
      "db_accounts db' = db_accounts db"
      "\<And>a. balance_of db' a AcctSideDebit [e] = acct_net a (map (roundLine L) (je_Lines s))"
      "\<And>a. balance_of db' a AcctSideCredit [e] = - acct_net a (map (roundLine L) (je_Lines s))"
    using create_order_entry [OF c ok] by blast
  show "balance_of db' Acc2090 AcctSideCredit (order_entries u db') =
      balance_of db Acc2090 AcctSideCredit (order_entries u db) - p"
    "balance_of db' Acc1140 AcctSideDebit (order_entries u db') =
      balance_of db Acc1140 AcctSideDebit (order_entries u db) - (if 0 < cost then dl_Round L cost 2 else 0)"
    using balance_of_cong [OF e(3), of _ _ "order_entries u db"]
    by (simp_all add: e(1) balance_of_append e(4,5) net(1,2))
  show "has_source AcctSourceOrderDeliveredSale (order_entries u db')"
    using e(2) net(3) by (simp add: e(1) has_source_def)
qed

lemma transit_fills:
  assumes c: "CreateJournalEntry L True s db = (Inr x, db')" and ok: "accounts_ok db"
    and s: "BuildOrderTransitEntry L f t = Inr s" and u: "of_UUID f = u"
    and new: "\<not> has_source AcctSourceOrderTransit (order_entries u db)"
  shows "balance_of db' Acc2090 AcctSideCredit (order_entries u db') =
      balance_of db Acc2090 AcctSideCredit (order_entries u db)"
    and "balance_of db' Acc1140 AcctSideDebit (order_entries u db') =
      balance_of db Acc1140 AcctSideDebit (order_entries u db) + dl_Round L (lineAmount s Acc1140 AcctSideDebit) 2"
    and "has_source st (order_entries u db') = (st = AcctSourceOrderTransit \<or> has_source st (order_entries u db))"
    and "accounts_ok db'"
proof -
  note net = transit_lines_net [OF s]
  have "je_SourceType s \<in> set order_sources" "je_SourceKey s = u"
    "\<not> has_source (je_SourceType s) (order_entries u db)"
    using net(4,5) u new by (simp_all add: order_sources_def)
  then obtain e where e: "order_entries u db' = order_entries u db @ [e]" "en_SourceType e = je_SourceType s"
      "db_accounts db' = db_accounts db"
      "\<And>a. balance_of db' a AcctSideDebit [e] = acct_net a (map (roundLine L) (je_Lines s))"
      "\<And>a. balance_of db' a AcctSideCredit [e] = - acct_net a (map (roundLine L) (je_Lines s))"
    using create_order_entry [OF c ok] by blast
  show "balance_of db' Acc2090 AcctSideCredit (order_entries u db') =
      balance_of db Acc2090 AcctSideCredit (order_entries u db)"
    "balance_of db' Acc1140 AcctSideDebit (order_entries u db') =
      balance_of db Acc1140 AcctSideDebit (order_entries u db) + dl_Round L (lineAmount s Acc1140 AcctSideDebit) 2"
    using balance_of_cong [OF e(3), of _ _ "order_entries u db"]
    by (simp_all add: e(1) balance_of_append e(4,5) net(1,2))
  show "has_source st (order_entries u db') = (st = AcctSourceOrderTransit \<or> has_source st (order_entries u db))"
    using e(2) net(4) by (auto simp: e(1) has_source_def)
  show "accounts_ok db'"
    using create_accounts_ok [OF c ok] .
qed


section \<open>Properties of the chain\<close>

text \<open>
  C2: Delivery drains the prepayment.  Take any balanced ledger, whatever has been posted and refunded
  for the order before.  When the delivered event posts, the order's balance on the prepayment account
  2090 is exactly zero afterwards, whatever its sign and size were.  On the transit account 1140 the
  effect is exact too: if the goods had been booked in transit, a positive balance is drained to zero and
  a negative one (which the builder does not cost) stays as it is; if they had not, the transit leg that
  the handler synthesises goes in and out again, so the account keeps the balance it had.
\<close>

theorem delivery_drains:
  assumes dec: "decimal_ok (wk_decimal w)" and ok: "ledger_ok (pd_ledger db)"
    and keyed: "\<forall>u f. pd_orders db u = Some f \<longrightarrow> of_UUID f = u"
    and py: "ae_Payload ev = Inr p" "u = py_OrderUUID p"
    and posts: "pd_ledger (processOrderDelivered w now ev db) \<noteq> pd_ledger db"
    and st: "st = GetOrderPostingState u (pd_ledger db) (pd_events db)"
    and st': "st' = GetOrderPostingState u (pd_ledger (processOrderDelivered w now ev db)) evs"
  shows "ps_DeliveredSale st' \<and> ps_Remaining2090 st' = 0 \<and>
    ps_Remaining1140 st' = (if ps_Transit st then min 0 (ps_Remaining1140 st) else ps_Remaining1140 st)"
proof -
  let ?L = "wk_decimal w" and ?db = "pd_ledger db" and ?db' = "pd_ledger (processOrderDelivered w now ev db)"
  obtain f es c s where f: "pd_orders db u = Some f" and leg: "transitLeg w ev st f = Inr (es, c)"
    and s: "BuildOrderDeliveredSaleEntry ?L f (ps_Remaining2090 st) c (ae_OccurredAt ev) = Inr s"
    and post: "createEntries ?L (es @ [s]) ?db = (Inr (), ?db')" and new: "\<not> ps_DeliveredSale st"
    using processOrderDelivered_posts [OF py(1) posts] unfolding py(2) st by blast
  have u: "of_UUID f = u" using keyed f by blast
  have acc: "accounts_ok ?db" and ent: "entries_ok ?db" using ok by (simp_all add: ledger_ok_def)
  note grid = balance_on_grid [OF ent order_entries_subset]
  have p: "on_grid 2 (ps_Remaining2090 st)" "on_grid 2 (ps_Remaining1140 st)" unfolding st state_simps by (rule grid)+
  have new': "\<not> has_source AcctSourceOrderDeliveredSale (order_entries u ?db)" using new by (simp add: st state_simps)
  show ?thesis
  proof (cases "es = []")
    case True
    then obtain x where x: "CreateJournalEntry ?L True s ?db = (Inr x, ?db')"
      using post by (auto split: prod.splits sum.splits)
    have "(if 0 < c then dl_Round ?L c 2 else 0) = (if ps_Transit st then max 0 (ps_Remaining1140 st) else 0)"
      using leg True p(2) dec
      by (auto simp: transitLeg_def Round_id max_def split: if_split_asm sum.split_asm)
    then show ?thesis using delivered_sale_drains [OF x acc dec s u p(1) new']
      by (auto simp: st st' state_simps min_def max_def)
  next
    case False
    then obtain te where te: "es = [te]" "BuildOrderTransitEntry ?L f (ae_OccurredAt ev) = Inr te"
        "c = lineAmount te Acc1140 AcctSideDebit" and nt: "\<not> ps_Transit st"
      using leg by (auto simp: transitLeg_def split: if_split_asm sum.split_asm)
    from post obtain x db1 y where x: "CreateJournalEntry ?L True te ?db = (Inr x, db1)"
        "CreateJournalEntry ?L True s db1 = (Inr y, ?db')"
      by (auto simp: te(1) split: prod.splits sum.splits)
    have nt': "\<not> has_source AcctSourceOrderTransit (order_entries u ?db)" using nt by (simp add: st state_simps)
    note t = transit_fills [OF x(1) acc te(2) u nt']
    have "\<not> has_source AcctSourceOrderDeliveredSale (order_entries u db1)" using new' t(3) by simp
    from delivered_sale_drains [OF x(2) t(4) dec s u p(1) this]
    show ?thesis using t(1,2) te(3) transit_lines_net(3) [OF te(2)] nt
      by (simp add: st st' state_simps)
  qed
qed


lemma disposed_keyed:
  assumes "disposed w now ev db db'" and "\<forall>u f. pd_orders db u = Some f \<longrightarrow> of_UUID f = u"
  shows "\<forall>u f. pd_orders db' u = Some f \<longrightarrow> of_UUID f = u"
  using assms(1)
proof (cases rule: disposedE)
  case posted
  show ?thesis
  proof (intro allI impI)
    fix u f assume f: "pd_orders db' u = Some f"
    then obtain g where g: "pd_orders db u = Some g" "f\<lparr>of_VatRegime := None\<rparr> = g\<lparr>of_VatRegime := None\<rparr>"
      using posted(3) [rule_format, of u] by (cases "pd_orders db u") auto
    have "of_UUID f = of_UUID (f\<lparr>of_VatRegime := None\<rparr>)" by simp
    also have "\<dots> = of_UUID g" unfolding g(2) by simp
    finally show "of_UUID f = u" using assms(2) g(1) by simp
  qed
qed (use assms(2) in simp_all)

text \<open>The example: the paid event has been posted, the delivered event is the next to process.\<close>

definition ex_delivered_db :: posting_db where
  "ex_delivered_db = ex_enqueue AcctEventOrderDelivered (processEvent ex_worker 10 ex_paid ex_queue)"

definition ex_delivered :: AcctEvent where
  "ex_delivered = the (find_event 2 (pd_events ex_delivered_db))"

theorem delivery_drains_witness:
  "ps_Remaining2090 (GetOrderPostingState ''o1'' (pd_ledger ex_delivered_db) (pd_events ex_delivered_db)) = 100 \<and>
   ps_Remaining2090 (GetOrderPostingState ''o1''
     (pd_ledger (processOrderDelivered ex_worker 20 ex_delivered ex_delivered_db)) \<lparr>ev_events = [], ev_next = 0\<rparr>) = 0"
proof -
  let ?db = ex_delivered_db and ?st = "GetOrderPostingState ''o1'' (pd_ledger ex_delivered_db) (pd_events ex_delivered_db)"
  have "ledger_reach decimal_std (pd_ledger (processEvent ex_worker 10 ex_paid ex_queue))"
    using disposed_keeps [OF processEvent_disposed, of ex_worker ex_queue 10 ex_paid] outbox_reach_keeps [OF ex_queue_reach]
    by (simp add: ex_worker_def)
  then have ok: "ledger_ok (pd_ledger ?db)"
    unfolding ex_delivered_db_def ex_enqueue_def on_events_simps by (rule ledger_reach_ok [OF _ decimal_std_ok])
  have "\<forall>u f. pd_orders ex_queue u = Some f \<longrightarrow> of_UUID f = u"
    by (auto simp: ex_queue_def ex_enqueue_def ex_posting_def ex_order_def split: if_split_asm)
  from disposed_keyed [OF processEvent_disposed this, of ex_worker 10 ex_paid]
  have keyed: "\<forall>u f. pd_orders ?db u = Some f \<longrightarrow> of_UUID f = u" by (simp add: ex_delivered_db_def ex_enqueue_def)
  have py: "ae_Payload ex_delivered = Inr ex_payload" "''o1'' = py_OrderUUID ex_payload" by code_simp+
  have st: "ps_Remaining2090 ?st = 100" by code_simp
  have "db_next_entry (pd_ledger (processOrderDelivered ex_worker 20 ex_delivered ?db)) = 4"
    "db_next_entry (pd_ledger ?db) = 2" by code_simp+
  then have "pd_ledger (processOrderDelivered ex_worker 20 ex_delivered ?db) \<noteq> pd_ledger ?db" by fastforce
  from delivery_drains [OF _ ok keyed py this refl refl, of "\<lparr>ev_events = [], ev_next = 0\<rparr>"]
  show ?thesis using st decimal_std_ok by (simp add: ex_worker_def)
qed


section \<open>Replays\<close>

definition sources :: "ledger_db \<Rightarrow> (AcctSourceType \<times> string) set" where
  "sources db = source_of ` set (db_entries db)"

lemma create_known:
  assumes "(je_SourceType ins, je_SourceKey ins) \<in> sources db"
  shows "db_entries (snd (CreateJournalEntry L tx ins db)) = db_entries db"
proof -
  obtain r db' where c: "CreateJournalEntry L tx ins db = (r, db')" by fastforce
  show ?thesis
  proof (cases r)
    case (Inl err)
    then show ?thesis using CreateJournalEntry_Inl [of L tx ins db err db'] c by simp
  next
    case (Inr x)
    obtain i d where x: "x = (i, d)" by (cases x)
    have "lookupSource db (je_SourceType ins) (je_SourceKey ins) \<noteq> None"
      using assms unfolding lookupSource_None sources_def by simp
    have "db_entries db' = db_entries db" using c unfolding Inr x
      by (cases rule: CreateJournalEntry_cases)
        (use \<open>lookupSource db _ _ \<noteq> None\<close> EnsurePeriodOpen_simps(1) [of "je_OccurredAt ins" db] in simp_all)
    then show ?thesis using c by simp
  qed
qed

lemma create_sources:
  assumes "CreateJournalEntry L tx ins db = (Inr x, db')"
  shows "sources db' = insert (je_SourceType ins, je_SourceKey ins) (sources db)"
proof -
  obtain i d where x: "x = (i, d)" by (cases x)
  show ?thesis using assms unfolding x
  proof (cases rule: CreateJournalEntry_cases)
    case dup
    then have "(je_SourceType ins, je_SourceKey ins) \<in> sources db"
      using lookupSource_SomeD [OF dup(2)] by (force simp: sources_def source_of_def)
    then show ?thesis using EnsurePeriodOpen_simps(1) [of "je_OccurredAt ins" db] dup(3) by (auto simp: sources_def)
  next
    case (new m db0 e)
    then show ?thesis by (simp add: sources_def source_of_def)
  qed
qed

lemma postBuilt_posted:
  assumes "pd_ledger (postBuilt w now ev b u r db) \<noteq> pd_ledger db"
  obtains e where "b = Inr e" "(je_SourceType e, je_SourceKey e) \<in> sources (pd_ledger (postBuilt w now ev b u r db))"
proof (cases b)
  case (Inl err)
  then have "postBuilt w now ev b u r db = postOrDefer w now ev [] (Some err) u r db" by (simp add: postBuilt_def)
  then show ?thesis using assms postOrDefer_ledger [of w now ev "[]" "Some err" u r db] by simp
next
  case (Inr e)
  then have eq: "postBuilt w now ev b u r db = postOrDefer w now ev [e] None u r db" by (simp add: postBuilt_def)
  obtain x where "CreateJournalEntry (wk_decimal w) True e (pd_ledger db) = (Inr x, pd_ledger (postBuilt w now ev b u r db))"
    using postOrDefer_ledger [of w now ev "[e]" None u r db] assms unfolding eq
    by (auto split: prod.split_asm sum.split_asm)
  then show ?thesis using create_sources that Inr by blast
qed

lemma postBuilt_known:
  assumes "\<And>e. b = Inr e \<Longrightarrow> (je_SourceType e, je_SourceKey e) \<in> sources (pd_ledger db)"
  shows "db_entries (pd_ledger (postBuilt w now ev b u r db)) = db_entries (pd_ledger db)"
proof (cases "pd_ledger (postBuilt w now ev b u r db) = pd_ledger db")
  case False
  then obtain e where e: "b = Inr e" by (rule postBuilt_posted)
  then have eq: "postBuilt w now ev b u r db = postOrDefer w now ev [e] None u r db" by (simp add: postBuilt_def)
  obtain x where "CreateJournalEntry (wk_decimal w) True e (pd_ledger db) = (Inr x, pd_ledger (postBuilt w now ev b u r db))"
    using postOrDefer_ledger [of w now ev "[e]" None u r db] False unfolding eq
    by (auto split: prod.split_asm sum.split_asm)
  then show ?thesis using create_known [OF assms [OF e], of "wk_decimal w" True] by simp
qed simp

subsection \<open>The source an event posts under\<close>

lemma built_sources:
  "BuildOrderPrepaymentEntry L f vd t = Inr e \<Longrightarrow> je_SourceType e = AcctSourceOrderPrepayment \<and> je_SourceKey e = of_UUID f"
  "BuildOrderSaleEntry L f vd t = Inr e \<Longrightarrow> je_SourceType e = AcctSourceOrderSale \<and> je_SourceKey e = of_UUID f"
  "BuildOrderTransitEntry L f t = Inr e \<Longrightarrow> je_SourceType e = AcctSourceOrderTransit \<and> je_SourceKey e = of_UUID f"
  "BuildOrderRefundEntry L f rf items vd k t = Inr e \<Longrightarrow> je_SourceType e = AcctSourceOrderRefund \<and> je_SourceKey e = k"
  "BuildOrderPreDeliveredRefundEntry L f rf items vd b k t = Inr e \<Longrightarrow> je_SourceType e = AcctSourceOrderRefund \<and> je_SourceKey e = k"
  "BuildDisputeEntry L a fee known u d cur t = Inr e \<Longrightarrow>
     je_SourceType e = AcctSourceOrderDispute \<and> je_SourceKey e = ''dispute:'' @ d"
  by (auto simp: BuildOrderPrepaymentEntry_def BuildOrderSaleEntry_def BuildOrderTransitEntry_def
      BuildOrderRefundEntry_def BuildOrderPreDeliveredRefundEntry_def BuildDisputeEntry_def Let_def
      split: sum.split_asm if_split_asm prod.split_asm)

lemma skip_entries [simp]:
  "pd_ledger (skipShippedDelivered w now ev st db) = pd_ledger db"
  by (simp add: skipShippedDelivered_def)

definition paid_source :: "Worker \<Rightarrow> AcctEvent \<Rightarrow> AcctOrderFacts \<Rightarrow> AcctSourceType \<times> string" where
  "paid_source w ev f =
     (if usesDeliveredPolicy w f (ae_OccurredAt ev) then AcctSourceOrderPrepayment else AcctSourceOrderSale, of_UUID f)"

lemma paid_built:
  assumes "ae_Payload ev = Inr p" and "pd_orders db (py_OrderUUID p) = Some f" and "snd (resolveVatDecision w f db) = []"
  obtains b r where "processOrderPaid w now ev db = postBuilt w now ev b (of_UUID f) r db"
    "\<And>e. b = Inr e \<Longrightarrow> (je_SourceType e, je_SourceKey e) = paid_source w ev f"
  using assms built_sources(1,2)
  by (cases "usesDeliveredPolicy w f (ae_OccurredAt ev)")
     (force simp: processOrderPaid_def split_beta Let_def paid_source_def)+

lemma paid_posted:
  assumes "pd_ledger (processOrderPaid w now ev db) \<noteq> pd_ledger db"
  obtains p f where "ae_Payload ev = Inr p" "pd_orders db (py_OrderUUID p) = Some f"
    "paid_source w ev f \<in> sources (pd_ledger (processOrderPaid w now ev db))"
proof -
  obtain p f where pf: "ae_Payload ev = Inr p" "pd_orders db (py_OrderUUID p) = Some f" "snd (resolveVatDecision w f db) = []"
    using assms by (auto simp: processOrderPaid_def split_beta Let_def split: sum.split_asm option.split_asm if_split_asm)
  obtain b r where b: "processOrderPaid w now ev db = postBuilt w now ev b (of_UUID f) r db"
      "\<And>e. b = Inr e \<Longrightarrow> (je_SourceType e, je_SourceKey e) = paid_source w ev f"
    using paid_built [OF pf] by blast
  obtain e where "b = Inr e" "(je_SourceType e, je_SourceKey e) \<in> sources (pd_ledger (processOrderPaid w now ev db))"
    using postBuilt_posted [of w now ev b "of_UUID f" r db] assms unfolding b(1) by blast
  then show ?thesis using that pf b(2) by metis
qed

lemma paid_known:
  assumes "ae_Payload ev = Inr p" and "pd_orders db (py_OrderUUID p) = Some f" and "paid_source w ev f \<in> sources (pd_ledger db)"
  shows "db_entries (pd_ledger (processOrderPaid w now ev db)) = db_entries (pd_ledger db)"
proof (cases "snd (resolveVatDecision w f db) = []")
  case True
  obtain b r where b: "processOrderPaid w now ev db = postBuilt w now ev b (of_UUID f) r db"
      "\<And>e. b = Inr e \<Longrightarrow> (je_SourceType e, je_SourceKey e) = paid_source w ev f"
    using paid_built [OF assms(1,2) True] by blast
  show ?thesis unfolding b(1) by (rule postBuilt_known) (use b(2) assms(3) in simp)
qed (use assms in \<open>simp add: processOrderPaid_def split_beta Let_def\<close>)


text \<open>Shipped, delivered and refund events.\<close>

lemma shipped_posted:
  assumes "pd_ledger (processOrderShipped w now ev db) \<noteq> pd_ledger db"
  obtains p f where "ae_Payload ev = Inr p" "pd_orders db (py_OrderUUID p) = Some f"
    "(AcctSourceOrderTransit, of_UUID f) \<in> sources (pd_ledger (processOrderShipped w now ev db))"
proof -
  obtain p f where pf: "ae_Payload ev = Inr p" "pd_orders db (py_OrderUUID p) = Some f"
    and b: "processOrderShipped w now ev db =
      postBuilt w now ev (BuildOrderTransitEntry (wk_decimal w) f (ae_OccurredAt ev)) [] [] db"
    using assms by (auto simp: processOrderShipped_def Let_def split: sum.split_asm option.split_asm if_split_asm)
  show ?thesis using postBuilt_posted [OF assms [unfolded b]] built_sources(3) that pf unfolding b by metis
qed

lemma shipped_known:
  assumes "ae_Payload ev = Inr p" and "pd_orders db (py_OrderUUID p) = Some f"
    and "(AcctSourceOrderTransit, of_UUID f) \<in> sources (pd_ledger db)"
  shows "db_entries (pd_ledger (processOrderShipped w now ev db)) = db_entries (pd_ledger db)"
  using assms built_sources(3) by (auto simp: processOrderShipped_def Let_def intro!: postBuilt_known)

lemma createEntries_sources:
  "createEntries L es db = (Inr (), db') \<Longrightarrow>
   sources db' = (\<lambda>e. (je_SourceType e, je_SourceKey e)) ` set es \<union> sources db"
  by (induction es arbitrary: db) (auto dest!: create_sources split: prod.split_asm sum.split_asm)

lemma delivered_posted:
  assumes "pd_ledger (processOrderDelivered w now ev db) \<noteq> pd_ledger db" and "ae_Payload ev = Inr p"
  obtains f where "pd_orders db (py_OrderUUID p) = Some f"
    "(AcctSourceOrderDeliveredSale, of_UUID f) \<in> sources (pd_ledger (processOrderDelivered w now ev db))"
proof (rule processOrderDelivered_posts [OF assms(2,1)])
  fix f es c s
  assume f: "pd_orders db (py_OrderUUID p) = Some f"
    and s: "BuildOrderDeliveredSaleEntry (wk_decimal w) f
       (ps_Remaining2090 (GetOrderPostingState (py_OrderUUID p) (pd_ledger db) (pd_events db))) c (ae_OccurredAt ev) = Inr s"
    and c: "createEntries (wk_decimal w) (es @ [s]) (pd_ledger db) = (Inr (), pd_ledger (processOrderDelivered w now ev db))"
  have "je_SourceType s = AcctSourceOrderDeliveredSale \<and> je_SourceKey s = of_UUID f"
    by (rule BuildOrderDeliveredSaleEntry_Inr [OF s]) simp
  then show thesis using that [OF f] createEntries_sources [OF c] by force
qed

lemma delivered_known:
  assumes "ae_Payload ev = Inr p" and "(AcctSourceOrderDeliveredSale, py_OrderUUID p) \<in> sources (pd_ledger db)"
  shows "pd_ledger (processOrderDelivered w now ev db) = pd_ledger db"
proof -
  have "ps_DeliveredSale (GetOrderPostingState (py_OrderUUID p) (pd_ledger db) (pd_events db))"
    using assms(2) by (auto simp: state_simps has_source_def order_entries_def order_sources_def sources_def source_of_def)
  then show ?thesis using assms(1) by (simp add: processOrderDelivered_def Let_def)
qed

lemma if_chain:
  "X = (if a then A else if b then B else if d then D else if e then E else P) \<Longrightarrow> f X \<noteq> z \<Longrightarrow>
   f A = z \<Longrightarrow> f B = z \<Longrightarrow> f D = z \<Longrightarrow> f E = z \<Longrightarrow> X = P"
  by (simp split: if_split_asm)

lemma refund_cases:
  obtains "pd_ledger (processOrderRefund w now ev db) = pd_ledger db"
  | b where "processOrderRefund w now ev db = postBuilt w now ev b [] [] db"
      "\<And>e. b = Inr e \<Longrightarrow> je_SourceType e = AcctSourceOrderRefund \<and> je_SourceKey e = ae_SourceKey ev"
proof (cases "pd_ledger (processOrderRefund w now ev db) = pd_ledger db")
  case False
  then obtain py f where py: "ae_Payload ev = Inr py" "pd_orders db (rp_OrderUUID (py_Refund py)) = Some f"
    by (auto simp: processOrderRefund_def Let_def split: sum.split_asm option.split_asm if_split_asm)
  let ?st = "GetOrderPostingState (rp_OrderUUID (py_Refund py)) (pd_ledger db) (pd_events db)"
  let ?vd = "fst (refundVatDecision w f db)"
  have "processOrderRefund w now ev db =
      (if ps_LegacySale ?st \<or> ps_DeliveredSale ?st
       then postBuilt w now ev (BuildOrderRefundEntry (wk_decimal w) f (py_Refund py) (of_Items f) ?vd
              (ae_SourceKey ev) (ae_OccurredAt ev)) [] [] db
       else postBuilt w now ev (BuildOrderPreDeliveredRefundEntry (wk_decimal w) f (py_Refund py) (of_Items f) ?vd
              (ps_Transit ?st) (ae_SourceKey ev) (ae_OccurredAt ev)) [] [] db)" (is "_ = ?posts")
  proof -
    have start: "processOrderRefund w now ev db =
      (if ps_LegacySale ?st \<and> ps_Prepayment ?st
       then needsReview now (ae_Id ev) ''mixed old+new recognition chain, manual entry required'' db
       else if \<not> ps_LegacySale ?st \<and> \<not> ps_Prepayment ?st then
         (if ae_Attempts ev \<ge> maxOrphanRefundAttempts
          then needsReview now (ae_Id ev) ''orphan refund: recognition not posted, manual entry required'' db
          else deferEvent now (ae_Id ev) ''awaiting sale posting'' settledRetryInterval db)
       else if ps_Prepayment ?st \<and> \<not> ps_DeliveredSale ?st \<and> ps_DeliveredEvent ?st then
         (if ae_Attempts ev \<ge> maxOrphanRefundAttempts
          then needsReview now (ae_Id ev) ''refund awaiting delivered sale posting, manual entry required'' db
          else deferEvent now (ae_Id ev) ''awaiting delivered sale posting'' settledRetryInterval db)
       else if snd (refundVatDecision w f db) \<noteq> []
       then deferEvent now (ae_Id ev) (snd (refundVatDecision w f db)) settledRetryInterval db
       else ?posts)"
      unfolding processOrderRefund_def py(1) sum.case Let_def py(2) option.case split_beta by (rule refl)
    show ?thesis by (rule if_chain [where f = pd_ledger, OF start False]) simp_all
  qed
  then have eq: "processOrderRefund w now ev db = postBuilt w now ev
      (if ps_LegacySale ?st \<or> ps_DeliveredSale ?st
       then BuildOrderRefundEntry (wk_decimal w) f (py_Refund py) (of_Items f) ?vd (ae_SourceKey ev) (ae_OccurredAt ev)
       else BuildOrderPreDeliveredRefundEntry (wk_decimal w) f (py_Refund py) (of_Items f) ?vd
              (ps_Transit ?st) (ae_SourceKey ev) (ae_OccurredAt ev)) [] [] db"
    by (simp only: if_distrib if_distribR split: if_split)
  show ?thesis
    by (rule that(2) [OF eq]) (metis built_sources(4,5))
qed (rule that(1))

text \<open>Disputes: an opened one posts under its id, a closed one that was won reverses that entry.\<close>

lemma dispute_opened:
  assumes "ae_Payload ev = Inr py" and "\<not> dp_Closed (py_Dispute py)"
  obtains b where "processOrderDispute w now ev db = postBuilt w now ev b [] [] db"
    "\<And>e. b = Inr e \<Longrightarrow> je_SourceType e = AcctSourceOrderDispute \<and> je_SourceKey e = ''dispute:'' @ dp_DisputeID (py_Dispute py)"
proof -
  have key [simp]: "je_SourceKey (appendCaveat n e) = je_SourceKey e" for n e
    by (auto simp: appendCaveat_def Let_def split: option.split)
  let ?b = "map_sum id (\<lambda>e. if snd (disputeAmount (py_Dispute py) db)
       then appendCaveat ''disputed amount taken from order settled base (Stripe amount unavailable)'' e else e)
     (BuildDisputeEntry (wk_decimal w) (fst (disputeAmount (py_Dispute py) db)) (dp_FeeBase (py_Dispute py))
       (dp_FeeKnown (py_Dispute py)) (dp_OrderUUID (py_Dispute py)) (dp_DisputeID (py_Dispute py))
       (dp_Currency (py_Dispute py)) (ae_OccurredAt ev))"
  show ?thesis
  proof (rule that [of ?b])
    show "processOrderDispute w now ev db = postBuilt w now ev ?b [] [] db"
      using assms by (simp add: processOrderDispute_def Let_def split_beta)
    show "je_SourceType e = AcctSourceOrderDispute \<and> je_SourceKey e = ''dispute:'' @ dp_DisputeID (py_Dispute py)"
      if "?b = Inr e" for e
      using map_sum_Inr [OF that] by (auto dest: built_sources(6))
  qed
qed

definition dispute_reversed :: "string \<Rightarrow> ledger_db \<Rightarrow> bool" where
  "dispute_reversed d db \<longleftrightarrow> (\<exists>e \<in> set (db_entries db).
     source_of e = (AcctSourceOrderDispute, ''dispute:'' @ d) \<and> en_ReversedBy e \<noteq> None)"

lemma dispute_closed_posted:
  assumes "pd_ledger (processDisputeClosed w now ev p db) \<noteq> pd_ledger db" and "ledger_ok (pd_ledger db)"
    and "decimal_ok (wk_decimal w)"
  shows "dispute_reversed (dp_DisputeID p) (pd_ledger (processDisputeClosed w now ev p db))"
proof -
  obtain opened j where o: "GetEntryBySource AcctSourceOrderDispute (''dispute:'' @ dp_DisputeID p) (pd_ledger db) = Some opened"
    and r: "ReverseJournalEntry (wk_decimal w) True (en_Id opened) (''dispute '' @ dp_DisputeID p @ '' won'')
       createdBySystemUser now (pd_ledger db) = (Inr j, pd_ledger (processDisputeClosed w now ev p db))"
    using assms(1) by (auto simp: processDisputeClosed_def split: option.split_asm sum.split_asm prod.split_asm if_split_asm)
  have op: "opened \<in> set (db_entries (pd_ledger db))" "source_of opened = (AcctSourceOrderDispute, ''dispute:'' @ dp_DisputeID p)"
    using o by (auto simp: GetEntryBySource_def find_Some_iff source_of_def)
  show ?thesis
  proof (rule reverse_parts [OF r assms(3,2)])
    fix orig e db1
    assume orig: "orig \<in> set (db_entries (pd_ledger db))" "en_Id orig = en_Id opened" "en_Id opened \<noteq> j"
      and ents: "db_entries (pd_ledger (processDisputeClosed w now ev p db)) =
        map (link_entry (en_Id opened) j) (db_entries (pd_ledger db)) @ [link_entry (en_Id opened) j e]"
    have "link_entry (en_Id opened) j opened \<in> set (db_entries (pd_ledger (processDisputeClosed w now ev p db)))"
      unfolding ents using op(1) by simp
    moreover have "en_ReversedBy (link_entry (en_Id opened) j opened) = Some j" by (simp add: link_entry_def Let_def)
    moreover have "source_of (link_entry (en_Id opened) j opened) = source_of opened" by (simp add: source_of_def)
    ultimately show ?thesis using op(2) unfolding dispute_reversed_def by force
  qed
qed

lemma dispute_closed_known:
  assumes "dispute_reversed (dp_DisputeID p) (pd_ledger db)" and "entries_ok (pd_ledger db)"
  shows "pd_ledger (processDisputeClosed w now ev p db) = pd_ledger db"
proof -
  obtain e where e: "e \<in> set (db_entries (pd_ledger db))"
      "source_of e = (AcctSourceOrderDispute, ''dispute:'' @ dp_DisputeID p)" "en_ReversedBy e \<noteq> None"
    using assms(1) by (auto simp: dispute_reversed_def)
  have "GetEntryBySource AcctSourceOrderDispute (''dispute:'' @ dp_DisputeID p) (pd_ledger db) = Some e"
    using find_key_unique [of source_of "db_entries (pd_ledger db)" e] e assms(2)
    by (simp add: GetEntryBySource_def entries_ok_def source_of_def)
  then show ?thesis using e(3) by (simp add: processDisputeClosed_def)
qed


text \<open>
  C14: A replay posts nothing.  Suppose an event has changed the ledger.  Whenever the same event is
  processed again later - a crash before the mark, an operator's reprocess - by the same worker, on
  tables whose journal still has the posted sources and reversed disputes, and whose orders keep
  their payment method, no entry is added to the journal and none is changed.
\<close>

theorem replay_posts_nothing:
  assumes posts: "pd_ledger (processEvent w now ev db) \<noteq> pd_ledger db"
    and dec: "decimal_ok (wk_decimal w)" and ok: "ledger_ok (pd_ledger db)" and ok2: "ledger_ok (pd_ledger db2)"
    and keyed: "\<forall>u f. pd_orders db u = Some f \<longrightarrow> of_UUID f = u"
    and kept: "sources (pd_ledger (processEvent w now ev db)) \<subseteq> sources (pd_ledger db2)"
      "\<forall>d. dispute_reversed d (pd_ledger (processEvent w now ev db)) \<longrightarrow> dispute_reversed d (pd_ledger db2)"
      "\<forall>u f. pd_orders db u = Some f \<longrightarrow>
         (\<exists>f2. pd_orders db2 u = Some f2 \<and> of_UUID f2 = u \<and> of_PaymentMethodName f2 = of_PaymentMethodName f)"
    and same: "ae_EventType ev2 = ae_EventType ev" "ae_SourceKey ev2 = ae_SourceKey ev"
      "ae_Payload ev2 = ae_Payload ev" "ae_OccurredAt ev2 = ae_OccurredAt ev"
  shows "db_entries (pd_ledger (processEvent w now2 ev2 db2)) = db_entries (pd_ledger db2)"
proof -
  have started: "\<not> ae_OccurredAt ev < wk_startDate w" using posts by (auto simp: processEvent_def)
  show ?thesis
  proof (cases "ae_EventType ev")
    case AcctEventOrderPaid
    then have e: "processEvent w now ev db = processOrderPaid w now ev db"
        "processEvent w now2 ev2 db2 = processOrderPaid w now2 ev2 db2"
      using started same by (simp_all add: processEvent_def)
    obtain p f where pf: "ae_Payload ev = Inr p" "pd_orders db (py_OrderUUID p) = Some f"
        "paid_source w ev f \<in> sources (pd_ledger (processOrderPaid w now ev db))"
      using paid_posted [OF posts [unfolded e]] by blast
    obtain f2 where f2: "pd_orders db2 (py_OrderUUID p) = Some f2" "of_UUID f2 = py_OrderUUID p"
        "of_PaymentMethodName f2 = of_PaymentMethodName f" using kept(3) pf(2) by blast
    have pol: "usesDeliveredPolicy w f2 (ae_OccurredAt ev2) = usesDeliveredPolicy w f (ae_OccurredAt ev)"
      unfolding usesDeliveredPolicy_def f2(3) same(4) by (rule refl)
    have "of_UUID f = py_OrderUUID p" using keyed pf(2) by blast
    then have "paid_source w ev2 f2 = paid_source w ev f" by (simp add: paid_source_def pol f2(2))
    then show ?thesis unfolding e using paid_known [of ev2 p db2 f2 w now2] same(3) pf(1,3) f2(1) kept(1) e(1) by auto
  next
    case AcctEventOrderShipped
    then have e: "processEvent w now ev db = processOrderShipped w now ev db"
        "processEvent w now2 ev2 db2 = processOrderShipped w now2 ev2 db2"
      using started same by (simp_all add: processEvent_def)
    obtain p f where pf: "ae_Payload ev = Inr p" "pd_orders db (py_OrderUUID p) = Some f"
        "(AcctSourceOrderTransit, of_UUID f) \<in> sources (pd_ledger (processOrderShipped w now ev db))"
      using shipped_posted [OF posts [unfolded e]] by blast
    obtain f2 where f2: "pd_orders db2 (py_OrderUUID p) = Some f2" "of_UUID f2 = py_OrderUUID p" using kept(3) pf(2) by blast
    have "of_UUID f = py_OrderUUID p" using keyed pf(2) by blast
    then show ?thesis unfolding e using shipped_known [of ev2 p db2 f2 w now2] same(3) pf(1,3) f2 kept(1) e(1) by auto
  next
    case AcctEventOrderDelivered
    then have e: "processEvent w now ev db = processOrderDelivered w now ev db"
        "processEvent w now2 ev2 db2 = processOrderDelivered w now2 ev2 db2"
      using started same by (simp_all add: processEvent_def)
    obtain p where p: "ae_Payload ev = Inr p"
      using posts unfolding e by (cases "ae_Payload ev") (simp_all add: processOrderDelivered_def)
    obtain f where f: "pd_orders db (py_OrderUUID p) = Some f"
        "(AcctSourceOrderDeliveredSale, of_UUID f) \<in> sources (pd_ledger (processOrderDelivered w now ev db))"
      using delivered_posted [OF posts [unfolded e] p] by blast
    have "of_UUID f = py_OrderUUID p" using keyed f(1) by blast
    then show ?thesis unfolding e using delivered_known [of ev2 p db2 w now2] same(3) p f(2) kept(1) e(1) by auto
  next
    case AcctEventOrderRefund
    then have e: "processEvent w now ev db = processOrderRefund w now ev db"
        "processEvent w now2 ev2 db2 = processOrderRefund w now2 ev2 db2"
      using started same by (simp_all add: processEvent_def)
    have src: "(AcctSourceOrderRefund, ae_SourceKey ev) \<in> sources (pd_ledger (processOrderRefund w now ev db))"
    proof (rule refund_cases [of w now ev db])
      fix b assume b: "processOrderRefund w now ev db = postBuilt w now ev b [] [] db"
        "\<And>e. b = Inr e \<Longrightarrow> je_SourceType e = AcctSourceOrderRefund \<and> je_SourceKey e = ae_SourceKey ev"
      then show ?thesis using postBuilt_posted [of w now ev b "[]" "[]" db] posts unfolding e b(1) by metis
    qed (use posts e in simp)
    show ?thesis unfolding e
    proof (rule refund_cases [of w now2 ev2 db2])
      fix b assume b: "processOrderRefund w now2 ev2 db2 = postBuilt w now2 ev2 b [] [] db2"
        "\<And>e. b = Inr e \<Longrightarrow> je_SourceType e = AcctSourceOrderRefund \<and> je_SourceKey e = ae_SourceKey ev2"
      show "db_entries (pd_ledger (processOrderRefund w now2 ev2 db2)) = db_entries (pd_ledger db2)"
        unfolding b(1) by (rule postBuilt_known) (use b(2) src kept(1) same(2) e(1) in auto)
    qed simp
  next
    case AcctEventOrderDispute
    then have e: "processEvent w now ev db = processOrderDispute w now ev db"
        "processEvent w now2 ev2 db2 = processOrderDispute w now2 ev2 db2"
      using started same by (simp_all add: processEvent_def)
    obtain py where py: "ae_Payload ev = Inr py"
      using posts unfolding e by (cases "ae_Payload ev") (simp_all add: processOrderDispute_def)
    show ?thesis
    proof (cases "dp_Closed (py_Dispute py)")
      case True
      then have c: "processOrderDispute w now ev db = processDisputeClosed w now ev (py_Dispute py) db"
          "processOrderDispute w now2 ev2 db2 = processDisputeClosed w now2 ev2 (py_Dispute py) db2"
        using py same(3) by (simp_all add: processOrderDispute_def)
      have "dispute_reversed (dp_DisputeID (py_Dispute py)) (pd_ledger db2)"
        using dispute_closed_posted [OF posts [unfolded e c] ok dec] kept(2) unfolding e c by blast
      then show ?thesis unfolding e c using dispute_closed_known ok2 by (simp add: ledger_ok_def)
    next
      case False
      let ?s = "(AcctSourceOrderDispute, ''dispute:'' @ dp_DisputeID (py_Dispute py))"
      obtain b where b: "processOrderDispute w now ev db = postBuilt w now ev b [] [] db"
        "\<And>e. b = Inr e \<Longrightarrow> je_SourceType e = AcctSourceOrderDispute \<and> je_SourceKey e = ''dispute:'' @ dp_DisputeID (py_Dispute py)"
        using dispute_opened [OF py False, of w now db] by blast
      have src: "?s \<in> sources (pd_ledger db2)"
        using postBuilt_posted [of w now ev b "[]" "[]" db] posts b(2) kept(1) unfolding e b(1) by (metis in_mono)
      obtain b2 where b2: "processOrderDispute w now2 ev2 db2 = postBuilt w now2 ev2 b2 [] [] db2"
        "\<And>e. b2 = Inr e \<Longrightarrow> je_SourceType e = AcctSourceOrderDispute \<and> je_SourceKey e = ''dispute:'' @ dp_DisputeID (py_Dispute py)"
        using dispute_opened [of ev2 py w now2 db2] py False same(3) by metis
      show ?thesis unfolding e(2) b2(1) by (rule postBuilt_known) (use b2(2) src in auto)
    qed
  next
    case (OtherEvent t)
    then show ?thesis using posts started by (simp add: processEvent_def)
  qed
qed

text \<open>The paid event of the example, processed, then reset by an operator and processed again.\<close>

theorem replay_posts_nothing_witness:
  "db_entries (pd_ledger (processEvent ex_worker 30 (ex_paid\<lparr>ae_Attempts := 3\<rparr>) (processEvent ex_worker 10 ex_paid ex_queue)))
     = db_entries (pd_ledger (processEvent ex_worker 10 ex_paid ex_queue))"
proof (rule replay_posts_nothing [where db = ex_queue and now = 10 and ev = ex_paid])
  have r: "ledger_reach decimal_std (pd_ledger ex_queue)" "events_ok (pd_events ex_queue)"
    using outbox_reach_keeps [OF ex_queue_reach] by (simp_all add: ex_worker_def)
  have "db_next_entry (pd_ledger (processEvent ex_worker 10 ex_paid ex_queue)) = 2" "db_next_entry (pd_ledger ex_queue) = 1"
    by code_simp+
  then show "pd_ledger (processEvent ex_worker 10 ex_paid ex_queue) \<noteq> pd_ledger ex_queue" by fastforce
  show "ledger_ok (pd_ledger ex_queue)" by (rule ledger_reach_ok [OF r(1) decimal_std_ok])
  have "ledger_reach decimal_std (pd_ledger (processEvent ex_worker 10 ex_paid ex_queue))"
    using disposed_keeps [OF processEvent_disposed, of ex_worker ex_queue 10 ex_paid] r by (simp add: ex_worker_def)
  then show "ledger_ok (pd_ledger (processEvent ex_worker 10 ex_paid ex_queue))" by (rule ledger_reach_ok [OF _ decimal_std_ok])
  have o: "pd_orders ex_queue = [''o1'' \<mapsto> ex_order]" by (simp add: ex_queue_def ex_enqueue_def ex_posting_def)
  then show k: "\<forall>u f. pd_orders ex_queue u = Some f \<longrightarrow> of_UUID f = u" by (auto simp: ex_order_def split: if_split_asm)
  have "map_option (\<lambda>f. (of_UUID f, of_PaymentMethodName f)) (pd_orders (processEvent ex_worker 10 ex_paid ex_queue) ''o1'')
      = Some (''o1'', CARD)" by code_simp
  then show "\<forall>u f. pd_orders ex_queue u = Some f \<longrightarrow> (\<exists>f2. pd_orders (processEvent ex_worker 10 ex_paid ex_queue) u = Some f2 \<and>
      of_UUID f2 = u \<and> of_PaymentMethodName f2 = of_PaymentMethodName f)"
    unfolding o by (auto simp: ex_order_def split: if_split_asm)
qed (simp_all add: ex_worker_def decimal_std_ok)

end
