(* ===== verification/Opex_Store.thy ===== *)
theory Opex_Store
  imports Ledger_Store
begin

text \<open>
  Operating expenses (internal/store/metrics/opex_v2.go, and the two reads of the posting worker in
  internal/store/accounting/orderfacts.go): the line-item journal \<open>opex_line\<close>, its recurring
  templates, and the materialisation of a template into one line per month.

  A month column holds the first of a month and is that month.  Text columns compare and sort by
  the collation of the database, which is not part of the repository: \<open>ci\<close> gives the collation
  weight of a string, and two strings are equal to the database when their weights are.  Amounts
  arrive with the two decimals the columns store.  \<open>now\<close> is the clock.
\<close>

section \<open>Tables\<close>

record OpexLineInsert =
  ol_Month :: civil_month
  ol_Category :: string
  ol_Label :: string
  ol_Amount :: decimal
  ol_Currency :: string
  ol_AmountBase :: "decimal option"
  ol_RecurringId :: "int option"
  ol_Note :: "string option"
  ol_VatAmount :: "decimal option"
  ol_VatAmountBase :: "decimal option"
  ol_VatRegime :: "string option"
  ol_DocNumber :: "string option"
  ol_DocDate :: "time option"
  ol_SupplierVatId :: "string option"
  ol_SupplierName :: "string option"

record OpexLine =
  ox_Id :: int
  ox_Line :: OpexLineInsert
  ox_CreatedAt :: time
  ox_UpdatedAt :: time

record OpexRecurringInsert =
  or_Label :: string
  or_Category :: string
  or_Amount :: decimal
  or_Currency :: string
  or_ActiveFrom :: civil_month
  or_ActiveTo :: "civil_month option"
  or_Note :: "string option"
  or_EmployeeId :: "int option"

record OpexRecurring =
  ot_Id :: int
  ot_Template :: OpexRecurringInsert
  ot_Archived :: bool

record CostingFxRate =
  fx_Currency :: string
  fx_RateToBase :: decimal
  fx_ValidFrom :: int

record opex_db =
  od_lines :: "OpexLine list"
  od_next_line :: int
  od_templates :: "OpexRecurring list"
  od_next_template :: int
  od_fxRates :: "CostingFxRate list"

datatype opex_error = ErrOpexLineMaterialised

section \<open>Exchange rates\<close>

definition rateAsOf :: "CostingFxRate list \<Rightarrow> string \<Rightarrow> int \<Rightarrow> decimal option" where
  "rateAsOf hist currency asOf =
     map_option fx_RateToBase
       (foldl (\<lambda>best r.
           if fx_ValidFrom r > asOf then best
           else case best of None \<Rightarrow> Some r
              | Some b \<Rightarrow> if fx_ValidFrom r > fx_ValidFrom b then Some r else best)
         None (filter (\<lambda>r. ToUpper (fx_Currency r) = ToUpper currency) hist))"

definition foldOpexToBaseAsOf :: "decimal_lib \<Rightarrow> decimal \<Rightarrow> string \<Rightarrow> string \<Rightarrow> CostingFxRate list \<Rightarrow> int
    \<Rightarrow> decimal option" where
  "foldOpexToBaseAsOf L amount currency base hist asOf =
     (if base = [] then None
      else if currency = [] \<or> EqualFold currency base then Some (dl_Round L amount 2)
      else case rateAsOf hist currency asOf of
          None \<Rightarrow> None
        | Some r \<Rightarrow> Some (dl_Round L (amount * r) 2))"

text \<open>The last day of a month, as a day number.\<close>

definition lastDayOfMonth :: "civil_month \<Rightarrow> int" where
  "lastDayOfMonth m = unix_day (fst m) (snd m + 1) 0"

section \<open>Lines\<close>

text \<open>
  The two unique keys: a manual line by month, category and label, a materialised one by its template
  and month.
\<close>

definition same_key :: "(string \<Rightarrow> string) \<Rightarrow> OpexLineInsert \<Rightarrow> OpexLineInsert \<Rightarrow> bool" where
  "same_key ci a b \<longleftrightarrow> ol_Month a = ol_Month b \<and>
     (case (ol_RecurringId a, ol_RecurringId b) of
        (None, None) \<Rightarrow> ci (ol_Category a) = ci (ol_Category b) \<and> ci (ol_Label a) = ci (ol_Label b)
      | (Some r, Some s) \<Rightarrow> r = s
      | _ \<Rightarrow> False)"

text \<open>
  \<open>INSERT ... ON DUPLICATE KEY UPDATE\<close>: a row with the same key is updated by \<open>upd\<close>, and its
  \<open>updated_at\<close> moves only when a column changes.
\<close>

definition touch :: "time \<Rightarrow> (OpexLineInsert \<Rightarrow> OpexLineInsert) \<Rightarrow> OpexLine \<Rightarrow> OpexLine" where
  "touch now upd l = (if upd (ox_Line l) = ox_Line l then l
                      else l\<lparr>ox_Line := upd (ox_Line l), ox_UpdatedAt := now\<rparr>)"

definition insert_or_update :: "(string \<Rightarrow> string) \<Rightarrow> time \<Rightarrow> (OpexLineInsert \<Rightarrow> OpexLineInsert) \<Rightarrow> OpexLineInsert
    \<Rightarrow> opex_db \<Rightarrow> bool \<times> opex_db" where
  "insert_or_update ci now upd r db =
     (case find (\<lambda>l. same_key ci r (ox_Line l)) (od_lines db) of
        Some old \<Rightarrow> (False, db\<lparr>od_lines := map (\<lambda>l. if ox_Id l = ox_Id old then touch now upd l else l) (od_lines db)\<rparr>)
      | None \<Rightarrow> (True, db\<lparr>od_lines := od_lines db @ [\<lparr>ox_Id = od_next_line db, ox_Line = r,
                                                     ox_CreatedAt = now, ox_UpdatedAt = now\<rparr>],
                          od_next_line := od_next_line db + 1\<rparr>))"

text \<open>The update of \<open>UpsertOpexLines\<close> replaces everything but the key columns.\<close>

definition upsertLine :: "(string \<Rightarrow> string) \<Rightarrow> time \<Rightarrow> OpexLineInsert \<Rightarrow> opex_db \<Rightarrow> opex_db" where
  "upsertLine ci now r db =
     (let r = r\<lparr>ol_Currency := ToUpper (ol_Currency r)\<rparr>
      in snd (insert_or_update ci now
           (\<lambda>old. r\<lparr>ol_Month := ol_Month old, ol_Category := ol_Category old, ol_Label := ol_Label old\<rparr>) r db))"

definition UpsertOpexLines :: "(string \<Rightarrow> string) \<Rightarrow> time \<Rightarrow> OpexLineInsert list \<Rightarrow> opex_db \<Rightarrow> opex_db" where
  "UpsertOpexLines ci now rows db = foldl (\<lambda>db r. upsertLine ci now r db) db rows"

definition DeleteOpexLine :: "int \<Rightarrow> opex_db \<Rightarrow> (opex_error + unit) \<times> opex_db" where
  "DeleteOpexLine i db =
     (case find (\<lambda>l. ox_Id l = i) (od_lines db) of
        None \<Rightarrow> (Inr (), db)
      | Some l \<Rightarrow>
          if ol_RecurringId (ox_Line l) \<noteq> None then (Inl ErrOpexLineMaterialised, db)
          else (Inr (), db\<lparr>od_lines := filter (\<lambda>l. ox_Id l \<noteq> i) (od_lines db)\<rparr>))"

definition month_index :: "civil_month \<Rightarrow> int" where
  "month_index m = 12 * fst m + snd m - 1"

definition ListOpexLines :: "(string \<Rightarrow> string) \<Rightarrow> civil_month \<Rightarrow> civil_month \<Rightarrow> string \<Rightarrow> opex_db \<Rightarrow> OpexLine list" where
  "ListOpexLines ci lo hi category db =
     sort_key (\<lambda>l. - month_index (ol_Month (ox_Line l)))
       (sort_key (\<lambda>l. ci (ol_Category (ox_Line l)))
         (sort_key (\<lambda>l. ci (ol_Label (ox_Line l)))
           (sort_key ox_Id
             (filter (\<lambda>l. \<not> month_before (ol_Month (ox_Line l)) lo \<and> \<not> month_before hi (ol_Month (ox_Line l)) \<and>
                          (TrimSpace category \<noteq> [] \<longrightarrow> ci (ol_Category (ox_Line l)) = ci category))
               (od_lines db)))))"

section \<open>Templates\<close>

definition UpsertOpexRecurring :: "OpexRecurringInsert \<Rightarrow> int \<Rightarrow> opex_db \<Rightarrow> int \<times> opex_db" where
  "UpsertOpexRecurring ins i db =
     (let ins = ins\<lparr>or_Currency := ToUpper (or_Currency ins)\<rparr> in
      if i = 0 then
        (od_next_template db,
         db\<lparr>od_templates := od_templates db @ [\<lparr>ot_Id = od_next_template db, ot_Template = ins, ot_Archived = False\<rparr>],
            od_next_template := od_next_template db + 1\<rparr>)
      else (i, db\<lparr>od_templates := map (\<lambda>t. if ot_Id t = i then t\<lparr>ot_Template := ins\<rparr> else t) (od_templates db)\<rparr>))"

definition ArchiveOpexRecurring :: "int \<Rightarrow> opex_db \<Rightarrow> opex_db" where
  "ArchiveOpexRecurring i db =
     db\<lparr>od_templates := map (\<lambda>t. if ot_Id t = i then t\<lparr>ot_Archived := True\<rparr> else t) (od_templates db)\<rparr>"

definition ListOpexRecurring :: "bool \<Rightarrow> opex_db \<Rightarrow> OpexRecurring list" where
  "ListOpexRecurring includeArchived db =
     rev (sort_key (\<lambda>t. month_index (or_ActiveFrom (ot_Template t)))
       (sort_key ot_Id (filter (\<lambda>t. includeArchived \<or> \<not> ot_Archived t) (od_templates db))))"

section \<open>Materialisation\<close>

definition next_month :: "civil_month \<Rightarrow> civil_month" where
  "next_month m = (if snd m = 12 then (fst m + 1, 1) else (fst m, snd m + 1))"

text \<open>The months a template covers: from its first to the end, both included.\<close>

function months_between :: "civil_month \<Rightarrow> civil_month \<Rightarrow> civil_month list" where
  "months_between m end = (if month_index end < month_index m then [] else m # months_between (next_month m) end)"
  by pat_completeness auto
termination
  by (relation "measure (\<lambda>(m, e). nat (month_index e + 1 - month_index m))")
     (auto simp: month_index_def next_month_def)

declare months_between.simps [simp del]

definition template_end :: "civil_month \<Rightarrow> OpexRecurringInsert \<Rightarrow> civil_month" where
  "template_end upTo t =
     (case or_ActiveTo t of
        Some to \<Rightarrow> if month_before to upTo then to else upTo
      | None \<Rightarrow> upTo)"

definition template_line :: "decimal_lib \<Rightarrow> string \<Rightarrow> CostingFxRate list \<Rightarrow> OpexRecurring \<Rightarrow> civil_month \<Rightarrow> OpexLineInsert" where
  "template_line L base hist tpl m =
     (let t = ot_Template tpl in
      \<lparr>ol_Month = m, ol_Category = or_Category t, ol_Label = or_Label t, ol_Amount = or_Amount t,
       ol_Currency = ToUpper (or_Currency t),
       ol_AmountBase = foldOpexToBaseAsOf L (or_Amount t) (or_Currency t) base hist (lastDayOfMonth m),
       ol_RecurringId = Some (ot_Id tpl), ol_Note = or_Note t, ol_VatAmount = None, ol_VatAmountBase = None,
       ol_VatRegime = None, ol_DocNumber = None, ol_DocDate = None, ol_SupplierVatId = None,
       ol_SupplierName = None\<rparr>)"

text \<open>A line that is already booked is touched only to cost it when it was left uncosted.\<close>

definition recost :: "OpexLineInsert \<Rightarrow> OpexLineInsert \<Rightarrow> OpexLineInsert" where
  "recost r old = old\<lparr>ol_AmountBase := (case ol_AmountBase old of None \<Rightarrow> ol_AmountBase r | Some a \<Rightarrow> Some a)\<rparr>"

definition materialise_month :: "decimal_lib \<Rightarrow> (string \<Rightarrow> string) \<Rightarrow> string \<Rightarrow> time \<Rightarrow> OpexRecurring
    \<Rightarrow> nat \<times> opex_db \<Rightarrow> civil_month \<Rightarrow> nat \<times> opex_db" where
  "materialise_month L ci base now tpl st m =
     (let (created, db) = st;
          r = template_line L base (od_fxRates db) tpl m;
          (inserted, db) = insert_or_update ci now (recost r) r db
      in (if inserted then created + 1 else created, db))"

definition materialise_template :: "decimal_lib \<Rightarrow> (string \<Rightarrow> string) \<Rightarrow> string \<Rightarrow> civil_month \<Rightarrow> time
    \<Rightarrow> nat \<times> opex_db \<Rightarrow> OpexRecurring \<Rightarrow> nat \<times> opex_db" where
  "materialise_template L ci base upTo now st tpl =
     foldl (materialise_month L ci base now tpl) st
       (months_between (or_ActiveFrom (ot_Template tpl)) (template_end upTo (ot_Template tpl)))"

definition MaterializeOpexRecurring :: "decimal_lib \<Rightarrow> (string \<Rightarrow> string) \<Rightarrow> string \<Rightarrow> time \<Rightarrow> time \<Rightarrow> opex_db
    \<Rightarrow> nat \<times> opex_db" where
  "MaterializeOpexRecurring L ci base upTo now db =
     foldl (materialise_template L ci (ToUpper base) (firstOfMonthUTC upTo) now) (0, db)
       (ListOpexRecurring False db)"

section \<open>The reads of the posting worker\<close>

definition ListChangedOpexMonths :: "time \<Rightarrow> opex_db \<Rightarrow> civil_month list" where
  "ListChangedOpexMonths afterTS db =
     sort_key month_index (remdups (map (\<lambda>l. ol_Month (ox_Line l)) (filter (\<lambda>l. afterTS < ox_UpdatedAt l) (od_lines db))))"

definition month_lines :: "civil_month \<Rightarrow> opex_db \<Rightarrow> OpexLineInsert list" where
  "month_lines m db = filter (\<lambda>l. ol_Month l = m) (map ox_Line (od_lines db))"

definition null_sum :: "('a \<Rightarrow> decimal option) \<Rightarrow> 'a list \<Rightarrow> decimal" where
  "null_sum f xs = sum_list (List.map_filter f xs)"

definition category_sum :: "(string \<Rightarrow> string) \<Rightarrow> OpexLineInsert list \<Rightarrow> string \<Rightarrow> AcctOpexCategorySum" where
  "category_sum ci costed c =
     (let ls = filter (\<lambda>l. ci (ol_Category l) = ci c) costed
      in \<lparr>os_Category = c, os_AmountBase = null_sum ol_AmountBase ls, os_VatBase = null_sum ol_VatAmountBase ls,
          os_UncostedLabels = []\<rparr>)"

text \<open>The merge of the uncosted labels: appended to their category, or a placeholder of amount zero.\<close>

definition add_uncosted :: "AcctOpexCategorySum list \<Rightarrow> OpexLineInsert \<Rightarrow> AcctOpexCategorySum list" where
  "add_uncosted cats u =
     (if \<exists>s \<in> set cats. os_Category s = ol_Category u
      then map (\<lambda>s. if os_Category s = ol_Category u
                    then s\<lparr>os_UncostedLabels := os_UncostedLabels s @ [ol_Label u]\<rparr> else s) cats
      else cats @ [\<lparr>os_Category = ol_Category u, os_AmountBase = 0, os_VatBase = 0, os_UncostedLabels = [ol_Label u]\<rparr>])"

fun distinct_by :: "('a \<Rightarrow> 'b) \<Rightarrow> 'a list \<Rightarrow> 'a list" where
  "distinct_by f [] = []"
| "distinct_by f (x # xs) = x # filter (\<lambda>y. f y \<noteq> f x) (distinct_by f xs)"

definition GetOpexMonthFacts :: "(string \<Rightarrow> string) \<Rightarrow> civil_month \<Rightarrow> opex_db \<Rightarrow> AcctOpexCategorySum list" where
  "GetOpexMonthFacts ci m db =
     (let costed = filter (\<lambda>l. ol_AmountBase l \<noteq> None) (month_lines m db);
          cats = map (category_sum ci costed) (sort_key ci (distinct_by ci (map ol_Category costed)));
          uncosted = sort_key (\<lambda>l. ci (ol_Category l))
            (sort_key (\<lambda>l. ci (ol_Label l)) (filter (\<lambda>l. ol_AmountBase l = None) (month_lines m db)))
      in foldl add_uncosted cats uncosted)"


section \<open>One line per key\<close>

definition line_key :: "(string \<Rightarrow> string) \<Rightarrow> OpexLineInsert \<Rightarrow> civil_month \<times> (string \<times> string + int)" where
  "line_key ci l = (ol_Month l, case ol_RecurringId l of
      None \<Rightarrow> Inl (ci (ol_Category l), ci (ol_Label l)) | Some r \<Rightarrow> Inr r)"

lemma same_key_iff: "same_key ci a b \<longleftrightarrow> line_key ci a = line_key ci b"
  by (auto simp: same_key_def line_key_def split: option.split)

definition opex_ok :: "(string \<Rightarrow> string) \<Rightarrow> opex_db \<Rightarrow> bool" where
  "opex_ok ci db \<longleftrightarrow>
     distinct (map ox_Id (od_lines db)) \<and> (\<forall>l \<in> set (od_lines db). ox_Id l < od_next_line db) \<and>
     distinct (map (line_key ci \<circ> ox_Line) (od_lines db)) \<and>
     distinct (map ot_Id (od_templates db)) \<and> (\<forall>t \<in> set (od_templates db). ot_Id t < od_next_template db)"

text \<open>An update that keeps the key of the row it meets.\<close>

definition keeps_line_key :: "(string \<Rightarrow> string) \<Rightarrow> OpexLineInsert \<Rightarrow> (OpexLineInsert \<Rightarrow> OpexLineInsert) \<Rightarrow> bool" where
  "keeps_line_key ci r upd \<longleftrightarrow> (\<forall>old. line_key ci old = line_key ci r \<longrightarrow> line_key ci (upd old) = line_key ci old)"

lemma touch_simps [simp]: "ox_Id (touch now upd l) = ox_Id l" "ox_Line (touch now upd l) = upd (ox_Line l)"
  by (simp_all add: touch_def)

text \<open>The statement as it acts on the row of its key, and on the others.\<close>

lemma insert_or_update_cases:
  assumes ok: "opex_ok ci db"
  obtains (update) l where "l \<in> set (od_lines db)" "line_key ci (ox_Line l) = line_key ci r"
      "insert_or_update ci now upd r db =
         (False, db\<lparr>od_lines := map (\<lambda>k. if line_key ci (ox_Line k) = line_key ci r then touch now upd k else k) (od_lines db)\<rparr>)"
  | (insert) "\<forall>l \<in> set (od_lines db). line_key ci (ox_Line l) \<noteq> line_key ci r"
      "insert_or_update ci now upd r db =
         (True, db\<lparr>od_lines := od_lines db @ [\<lparr>ox_Id = od_next_line db, ox_Line = r, ox_CreatedAt = now, ox_UpdatedAt = now\<rparr>],
                   od_next_line := od_next_line db + 1\<rparr>)"
proof (cases "find (\<lambda>l. same_key ci r (ox_Line l)) (od_lines db)")
  case None
  have "\<forall>l \<in> set (od_lines db). line_key ci (ox_Line l) \<noteq> line_key ci r"
    using None by (auto simp: find_None_iff same_key_iff)
  then show thesis by (rule insert) (simp add: insert_or_update_def None)
next
  case (Some old)
  then have old: "old \<in> set (od_lines db)" "line_key ci (ox_Line old) = line_key ci r"
    by (auto simp: find_Some_iff same_key_iff)
  have "ox_Id k = ox_Id old \<longleftrightarrow> line_key ci (ox_Line k) = line_key ci r" if "k \<in> set (od_lines db)" for k
    using ok old that unfolding opex_ok_def distinct_map by (metis comp_apply inj_onD)
  then have "map (\<lambda>k. if ox_Id k = ox_Id old then touch now upd k else k) (od_lines db) =
      map (\<lambda>k. if line_key ci (ox_Line k) = line_key ci r then touch now upd k else k) (od_lines db)"
    by (intro map_cong) auto
  then show thesis using Some by (intro update [OF old]) (simp add: insert_or_update_def)
qed

lemma insert_or_update_ok:
  assumes ok: "opex_ok ci db" and keep: "keeps_line_key ci r upd"
  shows "opex_ok ci (snd (insert_or_update ci now upd r db))"
  using ok
proof (rule insert_or_update_cases [where r = r and now = now and upd = upd])
  fix l assume l: "l \<in> set (od_lines db)"
    and eq: "insert_or_update ci now upd r db =
      (False, db\<lparr>od_lines := map (\<lambda>k. if line_key ci (ox_Line k) = line_key ci r then touch now upd k else k) (od_lines db)\<rparr>)"
  have "map (line_key ci \<circ> ox_Line) (map (\<lambda>k. if line_key ci (ox_Line k) = line_key ci r then touch now upd k else k) (od_lines db))
      = map (line_key ci \<circ> ox_Line) (od_lines db)"
    using keep by (auto simp: keeps_line_key_def)
  moreover have "map ox_Id (map (\<lambda>k. if line_key ci (ox_Line k) = line_key ci r then touch now upd k else k) (od_lines db))
      = map ox_Id (od_lines db)" by auto
  ultimately show ?thesis using ok unfolding eq opex_ok_def by (auto simp del: map_map)
next
  assume "\<forall>l \<in> set (od_lines db). line_key ci (ox_Line l) \<noteq> line_key ci r"
    and eq: "insert_or_update ci now upd r db =
      (True, db\<lparr>od_lines := od_lines db @ [\<lparr>ox_Id = od_next_line db, ox_Line = r, ox_CreatedAt = now, ox_UpdatedAt = now\<rparr>],
                od_next_line := od_next_line db + 1\<rparr>)"
  then show ?thesis using ok unfolding eq opex_ok_def by fastforce
qed

lemma insert_or_update_frame [simp]:
  "od_templates (snd (insert_or_update ci now upd r db)) = od_templates db"
  "od_fxRates (snd (insert_or_update ci now upd r db)) = od_fxRates db"
  by (simp_all add: insert_or_update_def split: option.split)


lemma filter_unique: "distinct xs \<Longrightarrow> x \<in> set xs \<Longrightarrow> P x \<Longrightarrow> (\<And>y. y \<in> set xs \<Longrightarrow> P y \<Longrightarrow> y = x) \<Longrightarrow> filter P xs = [x]"
proof (induction xs)
  case (Cons a xs)
  show ?case
  proof (cases "a = x")
    case True
    then have "\<forall>y \<in> set xs. \<not> P y" using Cons.prems(1,4) by (metis distinct.simps(2) list.set_intros(2))
    then show ?thesis using True Cons.prems(3) by (simp add: filter_empty_conv)
  next
    case False
    then have "\<not> P a" using Cons.prems(4) [of a] by auto
    moreover have "filter P xs = [x]"
      by (rule Cons.IH) (use Cons.prems False in simp_all)
    ultimately show ?thesis by simp
  qed
qed simp

lemma upsertLine_keeps: "keeps_line_key ci r
   (\<lambda>old. r'\<lparr>ol_Month := ol_Month old, ol_Category := ol_Category old, ol_Label := ol_Label old\<rparr>)"
  if "ol_RecurringId r' = ol_RecurringId r"
  using that by (auto simp: keeps_line_key_def line_key_def split: option.splits)

lemma recost_simps [simp]:
  "ol_Month (recost r l) = ol_Month l" "ol_Category (recost r l) = ol_Category l" "ol_Label (recost r l) = ol_Label l"
  "ol_RecurringId (recost r l) = ol_RecurringId l"
  by (simp_all add: recost_def)

lemma recost_keeps: "keeps_line_key ci r (recost r')"
  unfolding keeps_line_key_def line_key_def recost_simps by blast

text \<open>The tables over every run of the operations; rates come and go as they like.\<close>

inductive opex_reach :: "(string \<Rightarrow> string) \<Rightarrow> opex_db \<Rightarrow> bool" for ci where
  start: "od_lines db = [] \<Longrightarrow> od_templates db = [] \<Longrightarrow> opex_reach ci db"
| upsert: "opex_reach ci db \<Longrightarrow> opex_reach ci (UpsertOpexLines ci now rows db)"
| delete: "opex_reach ci db \<Longrightarrow> opex_reach ci (snd (DeleteOpexLine i db))"
| upsert_template: "opex_reach ci db \<Longrightarrow> opex_reach ci (snd (UpsertOpexRecurring ins i db))"
| archive: "opex_reach ci db \<Longrightarrow> opex_reach ci (ArchiveOpexRecurring i db)"
| rates: "opex_reach ci db \<Longrightarrow> opex_reach ci (db\<lparr>od_fxRates := rs\<rparr>)"
| materialise: "opex_reach ci db \<Longrightarrow> opex_reach ci (snd (MaterializeOpexRecurring L ci base upTo now db))"

lemma upsertLine_ok: "opex_ok ci db \<Longrightarrow> opex_ok ci (upsertLine ci now r db)"
  unfolding upsertLine_def Let_def by (rule insert_or_update_ok) (auto intro: upsertLine_keeps)

lemma UpsertOpexLines_ok: "opex_ok ci db \<Longrightarrow> opex_ok ci (UpsertOpexLines ci now rows db)"
  unfolding UpsertOpexLines_def by (induction rows arbitrary: db) (simp_all add: upsertLine_ok)

lemma DeleteOpexLine_ok: "opex_ok ci db \<Longrightarrow> opex_ok ci (snd (DeleteOpexLine i db))"
  by (auto simp: DeleteOpexLine_def opex_ok_def distinct_map_filter split: option.split)

lemma UpsertOpexRecurring_ok: "opex_ok ci db \<Longrightarrow> opex_ok ci (snd (UpsertOpexRecurring ins i db))"
proof -
  have "map ot_Id (map (\<lambda>t. if ot_Id t = i then t\<lparr>ot_Template := f\<rparr> else t) ts) = map ot_Id ts" for ts :: "OpexRecurring list" and f by auto
  then show "opex_ok ci db \<Longrightarrow> ?thesis"
    by (auto simp: UpsertOpexRecurring_def opex_ok_def Let_def simp del: map_map)
qed

lemma ArchiveOpexRecurring_ok: "opex_ok ci db \<Longrightarrow> opex_ok ci (ArchiveOpexRecurring i db)"
proof -
  have "map ot_Id (map (\<lambda>t. if ot_Id t = i then t\<lparr>ot_Archived := True\<rparr> else t) ts) = map ot_Id ts" for ts :: "OpexRecurring list" by auto
  then show "opex_ok ci db \<Longrightarrow> ?thesis"
    by (auto simp: ArchiveOpexRecurring_def opex_ok_def simp del: map_map)
qed

subsection \<open>The materialisation as one pass over template and month\<close>

definition materialise_pairs :: "civil_month \<Rightarrow> opex_db \<Rightarrow> (OpexRecurring \<times> civil_month) list" where
  "materialise_pairs upTo db = concat (map (\<lambda>t. map (Pair t)
     (months_between (or_ActiveFrom (ot_Template t)) (template_end upTo (ot_Template t)))) (ListOpexRecurring False db))"

definition materialise_step :: "decimal_lib \<Rightarrow> (string \<Rightarrow> string) \<Rightarrow> string \<Rightarrow> time \<Rightarrow> nat \<times> opex_db
    \<Rightarrow> OpexRecurring \<times> civil_month \<Rightarrow> nat \<times> opex_db" where
  "materialise_step L ci base now st p = materialise_month L ci base now (fst p) st (snd p)"

lemma Materialize_pairs:
  "MaterializeOpexRecurring L ci base upTo now db =
     foldl (materialise_step L ci (ToUpper base) now) (0, db) (materialise_pairs (firstOfMonthUTC upTo) db)"
proof -
  have "materialise_template L ci b m now st t =
      foldl (materialise_step L ci b now) st (map (Pair t) (months_between (or_ActiveFrom (ot_Template t)) (template_end m (ot_Template t))))"
    for b m st t by (simp add: materialise_template_def foldl_map materialise_step_def)
  then have "foldl (materialise_template L ci b m now) st ts = foldl (materialise_step L ci b now) st
      (concat (map (\<lambda>t. map (Pair t) (months_between (or_ActiveFrom (ot_Template t)) (template_end m (ot_Template t)))) ts))"
    for b m st ts by (induction ts arbitrary: st) simp_all
  then show ?thesis by (simp add: MaterializeOpexRecurring_def materialise_pairs_def)
qed

text \<open>What one step leaves: the lines that were costed or belong elsewhere, and its own line, costed when a rate allows.\<close>

definition booked :: "decimal_lib \<Rightarrow> (string \<Rightarrow> string) \<Rightarrow> string \<Rightarrow> OpexRecurring \<times> civil_month \<Rightarrow> opex_db \<Rightarrow> bool" where
  "booked L ci base p db \<longleftrightarrow> (\<exists>l \<in> set (od_lines db).
     line_key ci (ox_Line l) = (snd p, Inr (ot_Id (fst p))) \<and>
     recost (template_line L base (od_fxRates db) (fst p) (snd p)) (ox_Line l) = ox_Line l)"

lemma template_line_key: "line_key ci (template_line L base hist t m) = (m, Inr (ot_Id t))"
  by (simp add: template_line_def line_key_def Let_def)

lemma template_line_base: "ol_AmountBase (template_line L base hist t m) =
    foldOpexToBaseAsOf L (or_Amount (ot_Template t)) (or_Currency (ot_Template t)) base hist (lastDayOfMonth m)"
  by (simp add: template_line_def Let_def)

lemma step_parts:
  obtains ins db' where "insert_or_update ci now (recost (template_line L base (od_fxRates db) (fst p) (snd p)))
      (template_line L base (od_fxRates db) (fst p) (snd p)) db = (ins, db')"
    "materialise_step L ci base now (k, db) p = (if ins then k + 1 else k, db')"
  by (cases "insert_or_update ci now (recost (template_line L base (od_fxRates db) (fst p) (snd p)))
      (template_line L base (od_fxRates db) (fst p) (snd p)) db")
     (auto simp: materialise_step_def materialise_month_def)

lemma recost_base: "ol_AmountBase (recost r l) = (case ol_AmountBase l of None \<Rightarrow> ol_AmountBase r | Some a \<Rightarrow> Some a)"
  by (simp add: recost_def)

lemma recost_fix: "recost r l = l \<longleftrightarrow> (ol_AmountBase l = None \<longrightarrow> ol_AmountBase r = None)"
proof
  assume "recost r l = l"
  then show "ol_AmountBase l = None \<longrightarrow> ol_AmountBase r = None" using recost_base [of r l] by (auto split: option.split_asm)
next
  assume "ol_AmountBase l = None \<longrightarrow> ol_AmountBase r = None"
  then have "(case ol_AmountBase l of None \<Rightarrow> ol_AmountBase r | Some a \<Rightarrow> Some a) = ol_AmountBase l" by (simp split: option.split)
  then show "recost r l = l" by (simp add: recost_def)
qed

lemma recost_idem: "recost r (recost r l) = recost r l"
  by (simp add: recost_fix recost_base split: option.split)

lemma recost_self: "recost r r = r"
  by (simp add: recost_fix)

lemma touch_recost_costed: "ol_AmountBase (ox_Line l) \<noteq> None \<Longrightarrow> touch now (recost r) l = l"
  by (auto simp: touch_def recost_def)

lemma touch_same: "upd (ox_Line l) = ox_Line l \<Longrightarrow> touch now upd l = l"
  by (simp add: touch_def)

lemma step_ok:
  assumes ok: "opex_ok ci db" and st: "materialise_step L ci base now (k, db) p = (k', db')"
  shows "opex_ok ci db'" "od_templates db' = od_templates db" "od_fxRates db' = od_fxRates db"
proof -
  obtain b where i: "insert_or_update ci now (recost (template_line L base (od_fxRates db) (fst p) (snd p)))
      (template_line L base (od_fxRates db) (fst p) (snd p)) db = (b, db')"
    using step_parts [of ci now L base db p k] st by (metis prod.inject)
  show "opex_ok ci db'" using insert_or_update_ok [OF ok recost_keeps] i by (metis snd_conv)
  show "od_templates db' = od_templates db" "od_fxRates db' = od_fxRates db"
    using insert_or_update_frame [of ci now _ _ db] i by (metis snd_conv)+
qed

lemma step_keeps:
  assumes ok: "opex_ok ci db" and st: "materialise_step L ci base now (k, db) p = (k', db')"
    and l: "l \<in> set (od_lines db)" and free: "ol_AmountBase (ox_Line l) \<noteq> None \<or> ol_RecurringId (ox_Line l) = None"
  shows "l \<in> set (od_lines db')"
proof -
  let ?r = "template_line L base (od_fxRates db) (fst p) (snd p)"
  obtain b where i: "insert_or_update ci now (recost ?r) ?r db = (b, db')"
    using step_parts [of ci now L base db p k] st by (metis prod.inject)
  have "line_key ci (ox_Line l) = line_key ci ?r \<Longrightarrow> touch now (recost ?r) l = l"
    using free by (auto simp: template_line_key touch_recost_costed) (simp add: line_key_def)
  then show ?thesis using ok i l
    by (cases rule: insert_or_update_cases [OF ok, where r = ?r and now = now and upd = "recost ?r"]) force+
qed

lemma step_books:
  assumes ok: "opex_ok ci db" and st: "materialise_step L ci base now (k, db) p = (k', db')"
  shows "booked L ci base p db'"
proof -
  let ?r = "template_line L base (od_fxRates db) (fst p) (snd p)"
  obtain b where i: "insert_or_update ci now (recost ?r) ?r db = (b, db')"
    using step_parts [of ci now L base db p k] st by (metis prod.inject)
  have fx: "od_fxRates db' = od_fxRates db" by (rule step_ok [OF ok st])
  show ?thesis using ok
  proof (cases rule: insert_or_update_cases [where r = ?r and now = now and upd = "recost ?r"])
    case (update l)
    then have "touch now (recost ?r) l \<in> set (od_lines db')" using i by force
    then show ?thesis unfolding booked_def fx
      by (rule bexI [rotated]) (use update recost_keeps [of ci ?r ?r] in
        \<open>simp add: recost_idem keeps_line_key_def template_line_key\<close>)
  next
    case insert
    then show ?thesis using i unfolding booked_def fx by (auto simp: recost_self template_line_key)
  qed
qed

lemma booked_step_same:
  assumes ok: "opex_ok ci db" and b: "booked L ci base p db"
  shows "materialise_step L ci base now (k, db) p = (k, db)"
proof -
  let ?r = "template_line L base (od_fxRates db) (fst p) (snd p)"
  obtain l where l: "l \<in> set (od_lines db)" "line_key ci (ox_Line l) = line_key ci ?r" "recost ?r (ox_Line l) = ox_Line l"
    using b by (auto simp: booked_def template_line_key)
  have same: "touch now (recost ?r) k = k" if "k \<in> set (od_lines db)" "line_key ci (ox_Line k) = line_key ci ?r" for k
  proof -
    have "k = l" using ok that l(1,2) unfolding opex_ok_def distinct_map by (metis comp_apply inj_onD)
    then show ?thesis using l(3) by (simp add: touch_same)
  qed
  have "insert_or_update ci now (recost ?r) ?r db = (False, db)" using ok
  proof (cases rule: insert_or_update_cases [where r = ?r and now = now and upd = "recost ?r"])
    case (update l)
    moreover have "map (\<lambda>k. if line_key ci (ox_Line k) = line_key ci ?r then touch now (recost ?r) k else k) (od_lines db) = od_lines db"
      using same by (intro map_idI) auto
    ultimately show ?thesis by simp
  qed (use l in auto)
  then show ?thesis by (simp add: materialise_step_def materialise_month_def)
qed


subsection \<open>The pass as a whole\<close>

lemma step_keeps_booked:
  assumes ok: "opex_ok ci db" and st: "materialise_step L ci base now (k, db) p = (k', db')" and b: "booked L ci base q db"
  shows "booked L ci base q db'"
proof -
  obtain l where l: "l \<in> set (od_lines db)" "line_key ci (ox_Line l) = (snd q, Inr (ot_Id (fst q)))"
      "recost (template_line L base (od_fxRates db) (fst q) (snd q)) (ox_Line l) = ox_Line l"
    using b by (auto simp: booked_def)
  let ?r = "template_line L base (od_fxRates db) (fst p) (snd p)"
  obtain i where i: "insert_or_update ci now (recost ?r) ?r db = (i, db')"
    using step_parts [of ci now L base db p k] st by (metis prod.inject)
  have "\<exists>l' \<in> set (od_lines db'). ox_Line l' = ox_Line l \<or> ox_Line l' = recost ?r (ox_Line l)"
    using ok
  proof (cases rule: insert_or_update_cases [where r = ?r and now = now and upd = "recost ?r"])
    case (update k)
    then have "(if line_key ci (ox_Line l) = line_key ci ?r then touch now (recost ?r) l else l) \<in> set (od_lines db')"
      using i l(1) by force
    then show ?thesis by (metis touch_simps(2))
  qed (use i l(1) in force)
  then obtain l' where l': "l' \<in> set (od_lines db')" "ox_Line l' = ox_Line l \<or> ox_Line l' = recost ?r (ox_Line l)" by blast
  have "line_key ci (ox_Line l') = line_key ci (ox_Line l)"
    using l'(2) recost_keeps [of ci "ox_Line l" ?r] by (auto simp: keeps_line_key_def)
  moreover have "recost s (recost r x) = recost r x" if "recost s x = x" for r s x
    using that by (simp add: recost_fix recost_base split: option.split)
  ultimately show ?thesis using l l' step_ok(3) [OF ok st] unfolding booked_def by metis
qed

text \<open>What holds after the pass: the tables stay well formed, free lines stay, every pair is booked.\<close>

lemma steps_facts:
  assumes "opex_ok ci db" and "foldl (materialise_step L ci base now) (k, db) ps = (k', db')"
  shows "opex_ok ci db' \<and> od_templates db' = od_templates db \<and> od_fxRates db' = od_fxRates db \<and>
    (\<forall>l \<in> set (od_lines db). ol_AmountBase (ox_Line l) \<noteq> None \<or> ol_RecurringId (ox_Line l) = None \<longrightarrow> l \<in> set (od_lines db')) \<and>
    (\<forall>p. p \<in> set ps \<or> booked L ci base p db \<longrightarrow> booked L ci base p db')"
  using assms
proof (induction ps arbitrary: k db)
  case (Cons p ps)
  obtain k1 db1 where s: "materialise_step L ci base now (k, db) p = (k1, db1)" by fastforce
  then have f: "foldl (materialise_step L ci base now) (k1, db1) ps = (k', db')" using Cons.prems(2) by simp
  note S = step_ok [OF Cons.prems(1) s] step_keeps [OF Cons.prems(1) s] step_books [OF Cons.prems(1) s]
    step_keeps_booked [OF Cons.prems(1) s]
  show ?case using Cons.IH [OF S(1) f] S by auto
qed auto

lemma steps_booked_same:
  "opex_ok ci db \<Longrightarrow> \<forall>p \<in> set ps. booked L ci base p db \<Longrightarrow> foldl (materialise_step L ci base now) (k, db) ps = (k, db)"
  by (induction ps) (auto simp: booked_step_same)

lemma Materialize_ok: "opex_ok ci db \<Longrightarrow> opex_ok ci (snd (MaterializeOpexRecurring L ci base upTo now db))"
  unfolding Materialize_pairs using steps_facts [where db = db and k = 0] by (metis prod.collapse)

lemma opex_reach_ok: "opex_reach ci db \<Longrightarrow> opex_ok ci db"
proof (induction rule: opex_reach.induct)
  case (start db) then show ?case by (simp add: opex_ok_def)
next
  case (rates db rs) then show ?case by (simp add: opex_ok_def)
qed (simp_all add: UpsertOpexLines_ok DeleteOpexLine_ok UpsertOpexRecurring_ok ArchiveOpexRecurring_ok Materialize_ok)

lemma month_index_inj: "month_ok m \<Longrightarrow> month_ok n \<Longrightarrow> month_index m = month_index n \<longleftrightarrow> m = n"
proof -
  have "12 * a + b = 12 * c + d \<Longrightarrow> 1 \<le> b \<Longrightarrow> b \<le> 12 \<Longrightarrow> 1 \<le> d \<Longrightarrow> d \<le> 12 \<Longrightarrow> a = c \<and> b = d" for a b c d :: int
    by (cases "a < c"; cases "c < a") linarith+
  then show "month_ok m \<Longrightarrow> month_ok n \<Longrightarrow> ?thesis" by (auto simp: month_ok_def month_index_def prod_eq_iff)
qed

lemma months_between_set:
  "month_ok a \<Longrightarrow> m \<in> set (months_between a b) \<longleftrightarrow> month_ok m \<and> month_index a \<le> month_index m \<and> month_index m \<le> month_index b"
proof (induction a b rule: months_between.induct)
  case (1 a b)
  have next_ok: "month_ok (next_month a)" "month_index (next_month a) = month_index a + 1"
    using 1(2) by (auto simp: month_ok_def next_month_def month_index_def)
  have eq: "month_index m = month_index a \<longleftrightarrow> m = a" if "month_ok m"
    using that 1(2) by (rule month_index_inj)
  show ?case
  proof (cases "month_index b < month_index a")
    case False
    have "m \<in> set (months_between a b) \<longleftrightarrow> m = a \<or>
        (month_ok m \<and> month_index a + 1 \<le> month_index m \<and> month_index m \<le> month_index b)"
      using False 1(1) [OF False next_ok(1)] by (subst months_between.simps) (simp add: next_ok(2))
    then show ?thesis using eq False 1(2) by force
  qed (simp add: months_between.simps)
qed

text \<open>
  C25: Recurring expenses are booked once.  Whatever was edited before, after the worker has
  materialised the templates up to a month every template that is not archived has exactly one line
  for every month from its first to its last or to that month; no manual line and no costed line has
  changed; a materialised line is uncosted only when no rate of its currency was in force; and running
  it again books and changes nothing.
\<close>

theorem materialise_once:
  fixes L ci base upTo now now2 db
  defines "db' \<equiv> snd (MaterializeOpexRecurring L ci base upTo now db)"
  assumes reach: "opex_reach ci db"
  shows "(\<forall>t \<in> set (od_templates db). \<forall>m. \<not> ot_Archived t \<longrightarrow> month_ok (or_ActiveFrom (ot_Template t)) \<longrightarrow>
       month_ok m \<longrightarrow> month_index (or_ActiveFrom (ot_Template t)) \<le> month_index m \<longrightarrow>
       month_index m \<le> month_index (template_end (firstOfMonthUTC upTo) (ot_Template t)) \<longrightarrow>
       (\<exists>l. filter (\<lambda>l. ol_RecurringId (ox_Line l) = Some (ot_Id t) \<and> ol_Month (ox_Line l) = m) (od_lines db') = [l] \<and>
          (ol_AmountBase (ox_Line l) = None \<longrightarrow> foldOpexToBaseAsOf L (or_Amount (ot_Template t)) (or_Currency (ot_Template t))
             (ToUpper base) (od_fxRates db) (lastDayOfMonth m) = None))) \<and>
    (\<forall>l \<in> set (od_lines db). ol_AmountBase (ox_Line l) \<noteq> None \<or> ol_RecurringId (ox_Line l) = None \<longrightarrow> l \<in> set (od_lines db')) \<and>
    MaterializeOpexRecurring L ci base upTo now2 db' = (0, db')"
proof -
  let ?m = "firstOfMonthUTC upTo" and ?b = "ToUpper base"
  obtain k where run: "foldl (materialise_step L ci ?b now) (0, db) (materialise_pairs ?m db) = (k, db')"
    unfolding db'_def Materialize_pairs by (metis prod.collapse)
  note F = steps_facts [OF opex_reach_ok [OF reach] run]
  have ok: "opex_ok ci db'" using F by blast
  have pairs: "materialise_pairs ?m db' = materialise_pairs ?m db"
    using F by (simp add: materialise_pairs_def ListOpexRecurring_def)
  have once: "\<exists>l. filter (\<lambda>l. ol_RecurringId (ox_Line l) = Some (ot_Id t) \<and> ol_Month (ox_Line l) = m) (od_lines db') = [l] \<and>
      (ol_AmountBase (ox_Line l) = None \<longrightarrow> foldOpexToBaseAsOf L (or_Amount (ot_Template t)) (or_Currency (ot_Template t))
             ?b (od_fxRates db) (lastDayOfMonth m) = None)" if b: "booked L ci ?b (t, m) db'" for t m
  proof -
    obtain l where l: "l \<in> set (od_lines db')" "line_key ci (ox_Line l) = (m, Inr (ot_Id t))"
        "recost (template_line L ?b (od_fxRates db') t m) (ox_Line l) = ox_Line l"
      using b by (auto simp: booked_def)
    have key: "ol_RecurringId (ox_Line k) = Some (ot_Id t) \<and> ol_Month (ox_Line k) = m \<longleftrightarrow> line_key ci (ox_Line k) = line_key ci (ox_Line l)" for k
      unfolding l(2) by (auto simp: line_key_def split: option.splits)
    have "distinct (od_lines db')" using ok by (auto simp: opex_ok_def distinct_map)
    moreover have "k = l" if "k \<in> set (od_lines db')" "line_key ci (ox_Line k) = line_key ci (ox_Line l)" for k
      using ok that l(1) unfolding opex_ok_def distinct_map by (metis comp_apply inj_onD)
    ultimately have "filter (\<lambda>k. line_key ci (ox_Line k) = line_key ci (ox_Line l)) (od_lines db') = [l]"
      using l(1) by (intro filter_unique) auto
    moreover have "ol_AmountBase (ox_Line l) = None \<longrightarrow> ol_AmountBase (template_line L ?b (od_fxRates db') t m) = None"
      using l(3) by (simp add: recost_fix)
    ultimately show ?thesis unfolding key template_line_base using F by auto
  qed
  show ?thesis
  proof (intro conjI ballI allI impI)
    fix t m
    assume "t \<in> set (od_templates db)" "\<not> ot_Archived t" "month_ok (or_ActiveFrom (ot_Template t))" "month_ok m"
      "month_index (or_ActiveFrom (ot_Template t)) \<le> month_index m"
      "month_index m \<le> month_index (template_end ?m (ot_Template t))"
    then have "(t, m) \<in> set (materialise_pairs ?m db)"
      by (auto simp: materialise_pairs_def ListOpexRecurring_def months_between_set intro!: bexI [of _ t])
    then show "\<exists>l. filter (\<lambda>l. ol_RecurringId (ox_Line l) = Some (ot_Id t) \<and> ol_Month (ox_Line l) = m) (od_lines db') = [l] \<and>
      (ol_AmountBase (ox_Line l) = None \<longrightarrow> foldOpexToBaseAsOf L (or_Amount (ot_Template t)) (or_Currency (ot_Template t))
             ?b (od_fxRates db) (lastDayOfMonth m) = None)"
      using F once by blast
  next
    show "MaterializeOpexRecurring L ci base upTo now2 db' = (0, db')"
      unfolding Materialize_pairs pairs using F by (intro steps_booked_same) auto
  qed (use F in auto)
qed


text \<open>A salary in a foreign currency from November on, with a rate from December on.\<close>

definition ex_salary :: OpexRecurringInsert where
  "ex_salary = \<lparr>or_Label = ''seamstress'', or_Category = ''salaries'', or_Amount = 1000, or_Currency = ''usd'',
     or_ActiveFrom = (2024, 11), or_ActiveTo = Some (2025, 2), or_Note = None, or_EmployeeId = Some 7\<rparr>"

definition ex_rate :: CostingFxRate where
  "ex_rate = \<lparr>fx_Currency = ''USD'', fx_RateToBase = 9 / 10, fx_ValidFrom = unix_day 2024 12 15\<rparr>"

definition ex_opex :: opex_db where
  "ex_opex = (snd (UpsertOpexRecurring ex_salary 0
     \<lparr>od_lines = [], od_next_line = 1, od_templates = [], od_next_template = 1, od_fxRates = []\<rparr>))\<lparr>od_fxRates := [ex_rate]\<rparr>"

lemma ex_opex_reach: "opex_reach ci ex_opex"
  unfolding ex_opex_def by (rule opex_reach.rates [OF opex_reach.upsert_template [OF opex_reach.start]]) simp_all

text \<open>The first line is uncosted, the others are not, and a second run changes nothing.\<close>

lemma ex_opex_lines:
  "map (\<lambda>l. (ol_Month (ox_Line l), ol_AmountBase (ox_Line l)))
     (od_lines (snd (MaterializeOpexRecurring decimal_std id ''eur'' (Date_UTC 2025 1 20) 5 ex_opex)))
   = [((2024, 11), None), ((2024, 12), Some 900), ((2025, 1), Some 900)]"
  by code_simp

theorem materialise_once_witness:
  "(\<exists>l. filter (\<lambda>l. ol_RecurringId (ox_Line l) = Some 1 \<and> ol_Month (ox_Line l) = (2025, 1))
      (od_lines (snd (MaterializeOpexRecurring decimal_std id ''eur'' (Date_UTC 2025 1 20) 5 ex_opex))) = [l])
   \<and> fst (MaterializeOpexRecurring decimal_std id ''eur'' (Date_UTC 2025 1 20) 6
        (snd (MaterializeOpexRecurring decimal_std id ''eur'' (Date_UTC 2025 1 20) 5 ex_opex))) = 0"
proof -
  note T = materialise_once [OF ex_opex_reach, where ci = id and L = decimal_std and base = "''eur''" and upTo = "Date_UTC 2025 1 20"
    and now = 5, where ?now2.0 = 6]
  let ?t = "\<lparr>ot_Id = 1, ot_Template = ex_salary\<lparr>or_Currency := ''USD''\<rparr>, ot_Archived = False\<rparr>"
  have t: "od_templates ex_opex = [?t]" by code_simp
  have m: "firstOfMonthUTC (Date_UTC 2025 1 20) = (2025, 1)" by (simp add: firstOfMonthUTC_Date month_len_def)
  from T have "\<forall>m. \<not> ot_Archived ?t \<longrightarrow> month_ok (or_ActiveFrom (ot_Template ?t)) \<longrightarrow>
       month_ok m \<longrightarrow> month_index (or_ActiveFrom (ot_Template ?t)) \<le> month_index m \<longrightarrow>
       month_index m \<le> month_index (template_end (2025, 1) (ot_Template ?t)) \<longrightarrow>
       (\<exists>l. filter (\<lambda>l. ol_RecurringId (ox_Line l) = Some (ot_Id ?t) \<and> ol_Month (ox_Line l) = m)
          (od_lines (snd (MaterializeOpexRecurring decimal_std id ''eur'' (Date_UTC 2025 1 20) 5 ex_opex))) = [l])"
    unfolding m t by fastforce
  from spec [OF this, of "(2025, 1)"] T [THEN conjunct2, THEN conjunct2] show ?thesis
    by (simp add: ex_salary_def month_ok_def month_index_def template_end_def month_before_def)
qed

end
