(* ===== verification/Result_State.thy ===== *)
theory Result_State
  imports Prelude
begin

text \<open>
  Code that reads and writes the tables and may fail: a function from the state to a result and the
  state it leaves behind.  Go's \<open>if err != nil { return err }\<close> is \<open>bindE\<close>: the first failure ends the
  body, with the writes done so far still in place; a transaction (\<open>txFunc\<close>, internal/store/db.go)
  takes them back.
\<close>

section \<open>Running\<close>

definition returnE :: "'a \<Rightarrow> 's \<Rightarrow> ('e + 'a) \<times> 's" where
  "returnE a s = (Inr a, s)"

definition failE :: "'e \<Rightarrow> 's \<Rightarrow> ('e + 'a) \<times> 's" where
  "failE err s = (Inl err, s)"

definition bindE :: "('s \<Rightarrow> ('e + 'a) \<times> 's) \<Rightarrow> ('a \<Rightarrow> 's \<Rightarrow> ('e + 'b) \<times> 's) \<Rightarrow> 's \<Rightarrow> ('e + 'b) \<times> 's" where
  "bindE m f s = (case m s of (Inl err, t) \<Rightarrow> (Inl err, t) | (Inr a, t) \<Rightarrow> f a t)"

definition thenE :: "('s \<Rightarrow> ('e + unit) \<times> 's) \<Rightarrow> ('s \<Rightarrow> ('e + 'b) \<times> 's) \<Rightarrow> 's \<Rightarrow> ('e + 'b) \<times> 's" where
  "thenE m k = bindE m (\<lambda>_. k)"

definition readE :: "('s \<Rightarrow> 'e + 'a) \<Rightarrow> 's \<Rightarrow> ('e + 'a) \<times> 's" where
  "readE f s = (f s, s)"

definition modifyE :: "('s \<Rightarrow> 's) \<Rightarrow> 's \<Rightarrow> ('e + unit) \<times> 's" where
  "modifyE f s = (Inr (), f s)"

definition checkE :: "bool \<Rightarrow> 'e \<Rightarrow> 's \<Rightarrow> ('e + unit) \<times> 's" where
  "checkE b err = (if b then returnE () else failE err)"

definition whenE :: "bool \<Rightarrow> ('s \<Rightarrow> ('e + unit) \<times> 's) \<Rightarrow> 's \<Rightarrow> ('e + unit) \<times> 's" where
  "whenE b m = (if b then m else returnE ())"

fun forE :: "'x list \<Rightarrow> ('x \<Rightarrow> 's \<Rightarrow> ('e + unit) \<times> 's) \<Rightarrow> 's \<Rightarrow> ('e + unit) \<times> 's" where
  "forE [] f = returnE ()"
| "forE (x # xs) f = thenE (f x) (forE xs f)"

fun mapE :: "('x \<Rightarrow> 's \<Rightarrow> ('e + 'a) \<times> 's) \<Rightarrow> 'x list \<Rightarrow> 's \<Rightarrow> ('e + 'a list) \<times> 's" where
  "mapE f [] = returnE []"
| "mapE f (x # xs) = bindE (f x) (\<lambda>a. bindE (mapE f xs) (\<lambda>as. returnE (a # as)))"

text \<open>An optional value that must be there.\<close>

definition requireE :: "'e \<Rightarrow> 'a option \<Rightarrow> 'e + 'a" where
  "requireE err x = (case x of None \<Rightarrow> Inl err | Some a \<Rightarrow> Inr a)"

text \<open>A failure wrapped in another one.\<close>

definition liftE :: "('e \<Rightarrow> 'f) \<Rightarrow> ('s \<Rightarrow> ('e + 'a) \<times> 's) \<Rightarrow> 's \<Rightarrow> ('f + 'a) \<times> 's" where
  "liftE g m s = (case m s of (Inl err, t) \<Rightarrow> (Inl (g err), t) | (Inr a, t) \<Rightarrow> (Inr a, t))"

definition txFunc :: "('s \<Rightarrow> ('e + 'a) \<times> 's) \<Rightarrow> 's \<Rightarrow> ('e + 'a) \<times> 's" where
  "txFunc body s = (case body s of (Inl err, _) \<Rightarrow> (Inl err, s) | (Inr a, t) \<Rightarrow> (Inr a, t))"

section \<open>What a successful run did\<close>

named_theorems ok_simps \<open>the steps of a run that ended in a result\<close>

lemma bindE_ok [ok_simps]:
  "bindE m f s = (Inr r, u) \<longleftrightarrow> (\<exists>a t. m s = (Inr a, t) \<and> f a t = (Inr r, u))"
  by (auto simp: bindE_def split: prod.split sum.split)

lemma thenE_ok [ok_simps]:
  "thenE m k s = (Inr r, u) \<longleftrightarrow> (\<exists>t. m s = (Inr (), t) \<and> k t = (Inr r, u))"
  by (simp add: thenE_def bindE_ok)

lemma returnE_ok [ok_simps]: "returnE a s = (Inr r, u) \<longleftrightarrow> r = a \<and> u = s"
  by (auto simp: returnE_def)

lemma failE_ok [ok_simps]: "\<not> failE err s = (Inr r, u)"
  by (simp add: failE_def)

lemma readE_ok [ok_simps]: "readE f s = (Inr r, u) \<longleftrightarrow> f s = Inr r \<and> u = s"
  by (auto simp: readE_def)

lemma modifyE_ok [ok_simps]: "modifyE f s = (Inr r, u) \<longleftrightarrow> u = f s"
  by (auto simp: modifyE_def)

lemma checkE_ok [ok_simps]: "checkE b err s = (Inr r, u) \<longleftrightarrow> b \<and> u = s"
  by (auto simp: checkE_def returnE_def failE_def)

lemma whenE_ok [ok_simps]:
  "whenE b m s = (Inr r, u) \<longleftrightarrow> (if b then m s = (Inr (), u) else u = s)"
  by (auto simp: whenE_def returnE_def)

lemma liftE_ok [ok_simps]: "liftE g m s = (Inr r, u) \<longleftrightarrow> m s = (Inr r, u)"
  by (auto simp: liftE_def split: prod.split sum.split)

lemma requireE_ok [ok_simps]: "requireE err x = Inr a \<longleftrightarrow> x = Some a"
  by (auto simp: requireE_def split: option.split)

lemma forE_ok [ok_simps]:
  "forE [] f s = (Inr r, u) \<longleftrightarrow> u = s"
  "forE (x # xs) f s = (Inr r, u) \<longleftrightarrow> (\<exists>t. f x s = (Inr (), t) \<and> forE xs f t = (Inr r, u))"
  by (auto simp: ok_simps)

lemma mapE_ok [ok_simps]:
  "mapE f [] s = (Inr r, u) \<longleftrightarrow> r = [] \<and> u = s"
  "mapE f (x # xs) s = (Inr r, u) \<longleftrightarrow> (\<exists>a t as. f x s = (Inr a, t) \<and> mapE f xs t = (Inr as, u) \<and> r = a # as)"
  by (auto simp: ok_simps)

lemma txFunc_ok [ok_simps]: "txFunc body s = (Inr r, u) \<longleftrightarrow> body s = (Inr r, u)"
  by (auto simp: txFunc_def split: prod.split sum.split)

text \<open>A transaction either did all of its body or nothing.\<close>

lemma txFunc_cases:
  assumes "txFunc body s = (r, u)"
  obtains (ok) a where "r = Inr a" and "body s = (Inr a, u)"
    | (err) e where "r = Inl e" and "u = s"
  using assms by (auto simp: txFunc_def split: prod.split_asm sum.split_asm)

text \<open>A relation that every step of a loop keeps is kept by the loop.\<close>

lemma forE_induct:
  assumes "forE xs f s = (Inr r, u)" and "P s"
    and "\<And>x t v. x \<in> set xs \<Longrightarrow> P t \<Longrightarrow> f x t = (Inr (), v) \<Longrightarrow> P v"
  shows "P u"
  using assms
proof (induction xs arbitrary: s)
  case (Cons x xs)
  from Cons.prems(1) obtain t where "f x s = (Inr (), t)" and t: "forE xs f t = (Inr r, u)"
    by (auto simp: ok_simps)
  then have "P t" using Cons.prems(2,3) by auto
  then show ?case by (rule Cons.IH [OF t]) (use Cons.prems(3) in auto)
qed (simp add: ok_simps)

lemma mapE_induct:
  assumes "mapE f xs s = (Inr as, u)" and "P s"
    and "\<And>x t a v. x \<in> set xs \<Longrightarrow> P t \<Longrightarrow> f x t = (Inr a, v) \<Longrightarrow> P v"
  shows "P u"
  using assms
proof (induction xs arbitrary: s as)
  case (Cons x xs)
  from Cons.prems(1) obtain a t as' where "f x s = (Inr a, t)" and t: "mapE f xs t = (Inr as', u)"
    by (auto simp: ok_simps)
  then have "P t" using Cons.prems(2,3) by auto
  then show ?case by (rule Cons.IH [OF t]) (use Cons.prems(3) in auto)
qed (simp add: ok_simps)

text \<open>A loop that only reads.\<close>

lemma mapE_read: "mapE (\<lambda>x. readE (g x)) xs s = (Inr as, t) \<longleftrightarrow> t = s \<and> list_all2 (\<lambda>x a. g x s = Inr a) xs as"
  by (induction xs arbitrary: as) (auto simp: ok_simps list_all2_Cons1)

end
