(* ===== verification/Shop_Types.thy ===== *)
theory Shop_Types
  imports Result_State Outbox Acct_Sale
begin

text \<open>
  The tables and structs of the shop side of the program: catalogue variants and their stock
  (internal/entity/product.go), orders with the rows that hang off them (internal/entity/order.go,
  shipment.go, promo.go), packaging claims, and the currency rules of internal/currency.

  An integer column is an \<open>int\<close>; the struct that is read from it has a decimal.  The rows of the
  tables keyed by an order (items, refunded units, history, shipment, payment, buyer) are kept with
  the order's row.  A status id is the name it stands for: the column is a foreign key into the
  dictionary the process caches.
\<close>

section \<open>Decimals and integer columns\<close>

text \<open>\<open>IntPart\<close> drops the fraction; a decimal written to an INT column is rounded to it.\<close>

definition sql_INT :: "decimal \<Rightarrow> int" where
  "sql_INT x = \<lfloor>round_half_away x 0\<rfloor>"

lemma sql_INT_of_int [simp]: "sql_INT (of_int n) = n"
proof -
  have "round_half_away (of_int n) 0 = of_int n" by (rule round_half_away_id) simp
  then show ?thesis by (simp add: sql_INT_def)
qed

lemma sql_INT_add [simp]: "sql_INT (of_int m + of_int n) = m + n" "sql_INT (of_int m - of_int n) = m - n"
  using sql_INT_of_int [of "m + n"] sql_INT_of_int [of "m - n"] by simp_all

lemma IntPart_of_int [simp]: "IntPart (of_int n) = n"
  by (simp add: IntPart_def)

section \<open>Currencies (internal/currency/currency.go)\<close>

definition zeroDecimalCurrencies :: "string list" where
  "zeroDecimalCurrencies = [''BIF'', ''CLP'', ''DJF'', ''GNF'', ''JPY'', ''KMF'', ''KRW'', ''MGA'',
     ''PYG'', ''RWF'', ''UGX'', ''VND'', ''VUV'', ''XAF'', ''XOF'', ''XPF'']"

definition threeDecimalCurrencies :: "string list" where
  "threeDecimalCurrencies = [''BHD'', ''IQD'', ''JOD'', ''KWD'', ''LYD'', ''OMR'', ''TND'']"

definition minimumAmounts :: "string \<rightharpoonup> decimal" where
  "minimumAmounts = map_of [(''EUR'', 1 / 2), (''USD'', 1 / 2), (''GBP'', 3 / 10), (''JPY'', 50), (''KRW'', 100),
     (''CNY'', 1), (''PLN'', 2)]"

definition requiredCurrencies :: "string list" where
  "requiredCurrencies = [''EUR'', ''USD'', ''GBP'', ''JPY'', ''CNY'', ''KRW'', ''PLN'']"

definition MissingRequired :: "(string \<Rightarrow> bool) \<Rightarrow> string list" where
  "MissingRequired provided = filter (\<lambda>c. \<not> provided c) requiredCurrencies"

definition IsZeroDecimal :: "string \<Rightarrow> bool" where
  "IsZeroDecimal c \<longleftrightarrow> ToUpper c \<in> set zeroDecimalCurrencies"

definition DecimalPlaces :: "string \<Rightarrow> nat" where
  "DecimalPlaces c =
     (if IsZeroDecimal c then 0
      else if ToUpper c \<in> set threeDecimalCurrencies then 3
      else 2)"

definition RoundCurrency :: "decimal_lib \<Rightarrow> decimal \<Rightarrow> string \<Rightarrow> decimal" where
  "RoundCurrency L amount c = dl_Round L amount (DecimalPlaces c)"

definition Minimum :: "string \<Rightarrow> decimal" where
  "Minimum c = (case minimumAmounts (ToUpper c) of Some mn \<Rightarrow> mn | None \<Rightarrow> 0)"

definition IsSupported :: "string \<Rightarrow> bool" where
  "IsSupported c \<longleftrightarrow> minimumAmounts (ToUpper c) \<noteq> None"

definition IsExpenseCurrency :: "string \<Rightarrow> bool" where
  "IsExpenseCurrency c \<longleftrightarrow> IsSupported c \<or> ToUpper c = ''USDT''"

definition nonStripeCurrencies :: "string list" where
  "nonStripeCurrencies = []"

definition IsStripeChargeable :: "string \<Rightarrow> bool" where
  "IsStripeChargeable c \<longleftrightarrow> IsSupported c \<and> ToUpper c \<notin> set nonStripeCurrencies"

datatype minimum_error = ErrUnsupportedCurrency string | ErrBelowMinimum string decimal decimal

definition ValidateMinimum :: "decimal \<Rightarrow> string \<Rightarrow> minimum_error + unit" where
  "ValidateMinimum price c =
     (case minimumAmounts (ToUpper c) of
        None \<Rightarrow> Inl (ErrUnsupportedCurrency c)
      | Some mn \<Rightarrow> if price < mn then Inl (ErrBelowMinimum c price mn) else Inr ())"

section \<open>Variants and the stock journal\<close>

abbreviation VariantGradeA :: string where "VariantGradeA \<equiv> ''A''"
abbreviation VariantGradeB :: string where "VariantGradeB \<equiv> ''B''"

definition NormalizeVariantGrade :: "string \<Rightarrow> string" where
  "NormalizeVariantGrade grade = (if grade = [] then VariantGradeA else grade)"

record Variant =
  vr_Id :: int
  vr_ProductId :: int
  vr_SizeId :: int
  vr_Grade :: string
  vr_Quantity :: int
  vr_SKU :: "string option"
  vr_Status :: int

record size_row =
  sz_Id :: int
  sz_SkuOrd :: int
  sz_SkuSystem :: string

record product_row =
  pr_Id :: int
  pr_SKU :: "string option"
  pr_SkuLockedAt :: "time option"
  pr_LifecycleStatus :: int
  pr_Prices :: "(string \<times> decimal) list"
  pr_SalePercentage :: "decimal option"
  pr_MinTier :: int
  pr_CostPrice :: "decimal option"
  pr_ThumbnailId :: "int option"

datatype StockChangeSource = StockChangeSourceAdminNewProduct | StockChangeSourceManualAdjustment
  | StockChangeSourceOrderPaid | StockChangeSourceOrderCustom | StockChangeSourceOrderReturned
  | StockChangeSourceOrderCancelled | StockChangeSourceProductionReceived
  | StockChangeSourceProductionReversed | OtherSource string

abbreviation StockChangeReasonInitialStock :: string where "StockChangeReasonInitialStock \<equiv> ''initial_stock''"
abbreviation StockChangeReasonStockCount :: string where "StockChangeReasonStockCount \<equiv> ''stock_count''"
abbreviation StockChangeReasonDamage :: string where "StockChangeReasonDamage \<equiv> ''damage''"
abbreviation StockChangeReasonLoss :: string where "StockChangeReasonLoss \<equiv> ''loss''"
abbreviation StockChangeReasonFound :: string where "StockChangeReasonFound \<equiv> ''found''"
abbreviation StockChangeReasonCorrection :: string where "StockChangeReasonCorrection \<equiv> ''correction''"
abbreviation StockChangeReasonReservedRelease :: string where "StockChangeReasonReservedRelease \<equiv> ''reserved_release''"
abbreviation StockChangeReasonOther :: string where "StockChangeReasonOther \<equiv> ''other''"
abbreviation StockChangeReasonOrder :: string where "StockChangeReasonOrder \<equiv> ''order''"
abbreviation StockChangeReasonCustomOrder :: string where "StockChangeReasonCustomOrder \<equiv> ''custom_order''"
abbreviation StockChangeReasonReturnToStock :: string where "StockChangeReasonReturnToStock \<equiv> ''return_to_stock''"
abbreviation StockChangeReasonOrderCancelled :: string where "StockChangeReasonOrderCancelled \<equiv> ''order_cancelled''"
abbreviation StockChangeReasonReceiptReversed :: string where "StockChangeReasonReceiptReversed \<equiv> ''receipt_reversed''"

text \<open>A journal row; its text columns other than the reason are one optional string each.\<close>

record StockChangeInsert =
  sc_ProductId :: int
  sc_SizeId :: int
  sc_Grade :: string
  sc_QuantityDelta :: decimal
  sc_QuantityBefore :: decimal
  sc_QuantityAfter :: decimal
  sc_Source :: StockChangeSource
  sc_OrderId :: "int option"
  sc_OrderUUID :: "string option"
  sc_AdminUsername :: "string option"
  sc_ReferenceId :: "string option"
  sc_Reason :: "string option"
  sc_Comment :: "string option"
  sc_OrderComment :: "string option"
  sc_PriceBeforeDiscount :: "decimal option"
  sc_DiscountAmount :: "decimal option"
  sc_PaidCurrency :: "string option"
  sc_PaidAmount :: "decimal option"
  sc_PayoutBaseAmount :: "decimal option"
  sc_PayoutBaseCurrency :: "string option"

text \<open>The zero value of the struct.\<close>

definition no_stock_change :: StockChangeInsert where
  "no_stock_change = \<lparr>sc_ProductId = 0, sc_SizeId = 0, sc_Grade = [], sc_QuantityDelta = 0, sc_QuantityBefore = 0,
     sc_QuantityAfter = 0, sc_Source = OtherSource [], sc_OrderId = None, sc_OrderUUID = None,
     sc_AdminUsername = None, sc_ReferenceId = None, sc_Reason = None, sc_Comment = None,
     sc_OrderComment = None, sc_PriceBeforeDiscount = None, sc_DiscountAmount = None,
     sc_PaidCurrency = None, sc_PaidAmount = None, sc_PayoutBaseAmount = None, sc_PayoutBaseCurrency = None\<rparr>"

record StockHistoryParams =
  hp_Source :: StockChangeSource
  hp_OrderId :: int
  hp_OrderUUID :: string
  hp_OrderCurrency :: string
  hp_OrderComment :: string
  hp_PromoDiscount :: decimal
  hp_PayoutBaseAmount :: decimal

section \<open>Orders\<close>

datatype OrderStatusName = Placed | AwaitingPayment | Confirmed | Shipped | Delivered | Cancelled
  | PendingReturn | RefundInProgress | Refunded | PartiallyRefunded

record OrderItemInsert =
  oi_ProductId :: int
  oi_ProductPrice :: decimal
  oi_ProductSalePercentage :: decimal
  oi_ProductPriceWithSale :: decimal
  oi_Quantity :: decimal
  oi_SizeId :: int
  oi_VariantID :: int
  oi_VariantSKU :: string
  oi_Grade :: string

text \<open>The struct with the row's id; the columns shown to the customer only are left out.\<close>

record OrderItem =
  ot_Id :: int
  ot_Insert :: OrderItemInsert

definition QuantityDecimal :: "decimal_lib \<Rightarrow> OrderItemInsert \<Rightarrow> decimal" where
  "QuantityDecimal L it = dl_Round L (oi_Quantity it) 0"

definition ProductPriceDecimal :: "decimal_lib \<Rightarrow> OrderItemInsert \<Rightarrow> decimal" where
  "ProductPriceDecimal L it = dl_Round L (oi_ProductPrice it) 2"

definition ProductPriceWithSaleDecimal :: "decimal_lib \<Rightarrow> OrderItemInsert \<Rightarrow> decimal" where
  "ProductPriceWithSaleDecimal L it = dl_Round L (oi_ProductPriceWithSale it) 2"

definition ProductSalePercentageDecimal :: "decimal_lib \<Rightarrow> OrderItemInsert \<Rightarrow> decimal" where
  "ProductSalePercentageDecimal L it = dl_Round L (oi_ProductSalePercentage it) 2"

text \<open>A row of \<open>order_item\<close>.\<close>

record order_item_row =
  ir_Id :: int
  ir_ProductId :: int
  ir_ProductPrice :: decimal
  ir_SalePercentage :: "decimal option"
  ir_Quantity :: int
  ir_SizeId :: int
  ir_VariantId :: int
  ir_Grade :: string
  ir_CostPriceAtSale :: "decimal option"
  ir_ProductPriceBase :: "decimal option"
  ir_VariantSKUSnapshot :: string
  ir_BaseSKUSnapshot :: "string option"

record status_history_row =
  hs_Status :: OrderStatusName
  hs_ChangedBy :: string
  hs_Notes :: string

record shipment_row =
  sm_CarrierId :: int
  sm_Cost :: decimal
  sm_FreeShipping :: bool
  sm_TrackingCode :: "string option"
  sm_ShippingDate :: "time option"
  sm_EstimatedArrivalDate :: "time option"
  sm_DeliveredAt :: "time option"
  sm_ActualCost :: "decimal option"
  sm_ReturnShippingCost :: "decimal option"


record PaymentInsert =
  pi_PaymentMethodID :: int
  pi_TransactionID :: "string option"
  pi_TransactionAmount :: decimal
  pi_TransactionAmountPaymentCurrency :: decimal
  pi_ClientSecret :: "string option"
  pi_IsTransactionDone :: bool
  pi_ExpiredAt :: "time option"
  pi_PaymentMethodType :: "string option"

record PaymentMethod =
  pm_Id :: int
  pm_Name :: PaymentMethodName
  pm_Allowed :: bool

record PromoCode =
  pc_Id :: int
  pc_Code :: string
  pc_FreeShipping :: bool
  pc_Discount :: decimal
  pc_Expiration :: time
  pc_Start :: time
  pc_Voucher :: bool
  pc_Allowed :: bool

record AddressInsert =
  ad_Country :: string
  ad_State :: "string option"
  ad_City :: string
  ad_AddressLineOne :: string
  ad_AddressLineTwo :: "string option"
  ad_Company :: "string option"
  ad_PostalCode :: string

text \<open>The columns of the row of \<open>buyer\<close> beside the address for mail.\<close>

record buyer_row =
  by_FirstName :: string
  by_LastName :: string
  by_Phone :: string
  by_BillingAddressId :: int
  by_ShippingAddressId :: int

record customer_order =
  co_Id :: int
  co_UUID :: string
  co_Status :: OrderStatusName
  co_TotalPrice :: decimal
  co_Currency :: string
  co_PromoId :: "int option"
  co_RefundReason :: "string option"
  co_RefundReasonCode :: "string option"
  co_RefundedAmount :: decimal
  co_ShippingRefunded :: bool
  co_OrderComment :: "string option"
  co_TotalPriceEUR :: "decimal option"
  co_TotalSettledBase :: "decimal option"
  co_PaymentFee :: "decimal option"
  co_Promo :: "(decimal \<times> bool \<times> string) option"
  co_VatRatePct :: "decimal option"
  co_VatAmount :: "decimal option"
  co_BuyerVatID :: "string option"
  co_GAClientID :: "string option"
  co_Locale :: "string option"
  co_Items :: "order_item_row list"
  co_RefundedItems :: "(int \<times> int) list"
  co_History :: "status_history_row list"
  co_Shipment :: "shipment_row option"
  co_Payment :: "PaymentInsert option"
  co_BuyerEmail :: "string option"
  co_Buyer :: "buyer_row option"

section \<open>Packaging claims\<close>

datatype MaterialReservationEvent = MaterialReservationReserve | MaterialReservationConsume
  | MaterialReservationRelease

record MaterialReservation =
  mr_MaterialId :: int
  mr_OrderId :: "int option"
  mr_Qty :: decimal
  mr_Event :: MaterialReservationEvent
  mr_ClaimKey :: string
  mr_CreatedBy :: string

section \<open>The tables\<close>

record shop_db =
  sh_orders :: "customer_order list"
  sh_variants :: "Variant list"
  sh_products :: "product_row list"
  sh_sizes :: "size_row list"
  sh_variantPrices :: "(int \<times> string \<times> decimal) list"
  sh_journal :: "StockChangeInsert list"
  sh_claims :: "MaterialReservation list"
  sh_promos :: "PromoCode list"
  sh_vatRates :: "(string \<times> decimal) list"
  sh_addresses :: "(int \<times> AddressInsert) list"
  sh_subscribers :: "(string \<times> bool) list"
  sh_events :: event_db
  sh_nextOrder :: int
  sh_nextItem :: int
  sh_nextVariant :: int
  sh_nextAddress :: int

text \<open>The refusals that the code marks as validation errors, and those of a checkout that it does not.\<close>

datatype input_error =
    ErrNothingToValidate | ErrQuantityNotPositive int int | ErrLineQuantityNotPositive int
  | ErrPriceMissing int string | ErrPriceNotPositive int decimal | ErrSecondsUnpriced string string
  | ErrNoValidItems | ErrTotalAmountIsZero | ErrTierLocked string int
  | ErrNotForCustomOrders | ErrCurrencyUnsupported string | ErrInconsistentPrices int int decimal decimal
  | ErrNegativeShipmentCost | ErrItemsUnavailable "(int \<times> int) list" | ErrSubtotalNotPositive | ErrTotalNotPositive

datatype checkout_error =
    ErrNoItemsToTotal | ErrNoOrderItems | ErrAddressesRequired | ErrBuyerRequired
  | ErrPaymentMethodUnknown | ErrCarrierUnknown int | ErrCarrierNotAllowed int
  | ErrCountryUnmapped string | ErrRegionNotServed string | ErrNoCarrierPrice int string
  | ErrInvalidPhone nat | ErrLineWithoutSKU int int | ErrGradeChanged int string string
  | ErrSecondsWithoutBasePrice string | ErrDuplicateKey | ErrCheckConstraint | ErrForeignKey | ErrOrderItemsUpdated

datatype shop_error =
    ErrOrderNotFound
  | ErrBadOrderStatus OrderStatusName
  | ErrInvalidTransition OrderStatusName OrderStatusName
  | ErrNoShipment | ErrNoBuyer | ErrNoPayment
  | ErrUnknownDisposition string
  | ErrDispositionNeedsShippedGoods
  | ErrConfirmedOnlyFull
  | ErrOrderHasNoItems
  | ErrAlreadyFullyRefunded int
  | ErrRefundExceedsRemaining int
  | ErrNoValidItemsToRefund
  | ErrVariantNotFound int int string
  | ErrInsufficientStock int int string
  | ErrStockSourceUnknown | ErrStockReasonInvalid | ErrStockSignInvalid
  | ErrNoSuchSize int | ErrNoSuchProduct int
  | ErrInvalidSizeSystem int | ErrInvalidSizeOrdinal int | ErrMixedSizeSystems | ErrSharedOrdinal int int
  | ErrProductHasNoSize int int | ErrColorwayNotPublished int | ErrBaseSKUNotCanonical string
  | ErrNegativeStock
  | ErrNoLiveVariantSKU int
  | ErrEnqueue string
  | ErrTotalIsZero | ErrBelowCurrencyMinimum minimum_error
  | ErrPaymentMethodNotAllowed int | ErrUnsupportedPaymentMethod
  | ErrPaymentRecordNotFound | ErrPaymentIntentAlreadyAssociated
  | ErrInput input_error | ErrCheckout checkout_error

section \<open>Rows of the tables\<close>

definition find_order :: "string \<Rightarrow> shop_db \<Rightarrow> customer_order option" where
  "find_order uuid db = find (\<lambda>o'. co_UUID o' = uuid) (sh_orders db)"

definition update_order :: "int \<Rightarrow> (customer_order \<Rightarrow> customer_order) \<Rightarrow> shop_db \<Rightarrow> shop_db" where
  "update_order i f db = db\<lparr>sh_orders := map (\<lambda>o'. if co_Id o' = i then f o' else o') (sh_orders db)\<rparr>"

definition is_variant :: "int \<Rightarrow> int \<Rightarrow> string \<Rightarrow> Variant \<Rightarrow> bool" where
  "is_variant p s g v \<longleftrightarrow> vr_ProductId v = p \<and> vr_SizeId v = s \<and> vr_Grade v = g"

definition find_variant :: "int \<Rightarrow> int \<Rightarrow> string \<Rightarrow> shop_db \<Rightarrow> Variant option" where
  "find_variant p s g db = find (is_variant p s g) (sh_variants db)"

definition find_product :: "int \<Rightarrow> shop_db \<Rightarrow> product_row option" where
  "find_product i db = find (\<lambda>p. pr_Id p = i) (sh_products db)"

end
