(* ===== verification/Product_Stock.thy ===== *)
theory Product_Stock
  imports Shop_Types
begin

text \<open>
  Stock of the catalogue's variants (internal/store/product/stock.go, stock_history.go): every write
  of \<open>product_size.quantity\<close> with the journal row that records it, the vocabulary of the journal
  (internal/entity/product.go), and the minting of the SKU of a variant that a stock write creates
  (sku.go, sku_resolve.go).  What the operations do to the stock is in \<open>Stock_Effects\<close>.
\<close>

section \<open>The vocabulary of the journal\<close>

fun ValidReasonsForSource :: "StockChangeSource \<Rightarrow> string list option" where
  "ValidReasonsForSource StockChangeSourceAdminNewProduct = Some [StockChangeReasonInitialStock]"
| "ValidReasonsForSource StockChangeSourceManualAdjustment = Some [StockChangeReasonStockCount,
     StockChangeReasonDamage, StockChangeReasonLoss, StockChangeReasonFound, StockChangeReasonCorrection,
     StockChangeReasonReservedRelease, StockChangeReasonOther]"
| "ValidReasonsForSource StockChangeSourceOrderPaid = Some [StockChangeReasonOrder]"
| "ValidReasonsForSource StockChangeSourceOrderCustom = Some [StockChangeReasonCustomOrder]"
| "ValidReasonsForSource StockChangeSourceOrderReturned = Some [StockChangeReasonReturnToStock]"
| "ValidReasonsForSource StockChangeSourceOrderCancelled = Some [StockChangeReasonOrderCancelled]"
| "ValidReasonsForSource StockChangeSourceProductionReceived = Some []"
| "ValidReasonsForSource StockChangeSourceProductionReversed = Some [StockChangeReasonReceiptReversed]"
| "ValidReasonsForSource (OtherSource _) = None"

datatype StockChangeSign = StockChangeSignPositive | StockChangeSignNegative | StockChangeSignBoth

fun AllowedSignForSource :: "StockChangeSource \<Rightarrow> StockChangeSign option" where
  "AllowedSignForSource StockChangeSourceAdminNewProduct = Some StockChangeSignPositive"
| "AllowedSignForSource StockChangeSourceManualAdjustment = Some StockChangeSignBoth"
| "AllowedSignForSource StockChangeSourceOrderPaid = Some StockChangeSignNegative"
| "AllowedSignForSource StockChangeSourceOrderCustom = Some StockChangeSignNegative"
| "AllowedSignForSource StockChangeSourceOrderReturned = Some StockChangeSignPositive"
| "AllowedSignForSource StockChangeSourceOrderCancelled = Some StockChangeSignPositive"
| "AllowedSignForSource StockChangeSourceProductionReceived = Some StockChangeSignPositive"
| "AllowedSignForSource StockChangeSourceProductionReversed = Some StockChangeSignNegative"
| "AllowedSignForSource (OtherSource _) = None"

definition IsValidReasonForSource :: "StockChangeSource \<Rightarrow> string \<Rightarrow> bool" where
  "IsValidReasonForSource src reason =
     (case ValidReasonsForSource src of None \<Rightarrow> False | Some rs \<Rightarrow> reason \<in> set rs)"

definition ValidateStockChange :: "StockChangeSource \<Rightarrow> string option \<Rightarrow> decimal \<Rightarrow> shop_error + unit" where
  "ValidateStockChange src reason delta =
     (case AllowedSignForSource src of
        None \<Rightarrow> Inl ErrStockSourceUnknown
      | Some sign \<Rightarrow>
          if (case reason of None \<Rightarrow> False
              | Some r \<Rightarrow> TrimSpace r \<noteq> [] \<and> \<not> IsValidReasonForSource src (TrimSpace r))
          then Inl ErrStockReasonInvalid
          else if delta = 0 then Inr ()
          else if sign = StockChangeSignPositive \<and> delta < 0 then Inl ErrStockSignInvalid
          else if sign = StockChangeSignNegative \<and> delta > 0 then Inl ErrStockSignInvalid
          else Inr ())"

fun validate_entries :: "StockChangeInsert list \<Rightarrow> shop_error + unit" where
  "validate_entries [] = Inr ()"
| "validate_entries (e # es) =
     (case ValidateStockChange (sc_Source e) (sc_Reason e) (sc_QuantityDelta e) of
        Inl err \<Rightarrow> Inl err
      | Inr _ \<Rightarrow> validate_entries es)"

definition journal_row :: "StockChangeInsert \<Rightarrow> StockChangeInsert" where
  "journal_row e = e\<lparr>sc_Grade := (if sc_Grade e = [] then VariantGradeA else sc_Grade e)\<rparr>"

definition RecordStockChange :: "StockChangeInsert list \<Rightarrow> shop_db \<Rightarrow> (shop_error + unit) \<times> shop_db" where
  "RecordStockChange entries db =
     (case validate_entries entries of
        Inl err \<Rightarrow> (Inl err, db)
      | Inr _ \<Rightarrow> (Inr (), db\<lparr>sh_journal := sh_journal db @ map journal_row entries\<rparr>))"

section \<open>Reading and writing a quantity\<close>

definition getProductSizeStockGrade :: "int \<Rightarrow> int \<Rightarrow> string \<Rightarrow> shop_db \<Rightarrow> decimal option" where
  "getProductSizeStockGrade p s grade db =
     map_option (\<lambda>v. of_int (vr_Quantity v)) (find_variant p s (NormalizeVariantGrade grade) db)"

definition GetProductSizeStock :: "int \<Rightarrow> int \<Rightarrow> shop_db \<Rightarrow> decimal option" where
  "GetProductSizeStock p s = getProductSizeStockGrade p s VariantGradeA"

definition lockProductSizeQuantity :: "int \<Rightarrow> int \<Rightarrow> string \<Rightarrow> shop_db \<Rightarrow> decimal" where
  "lockProductSizeQuantity p s grade db =
     (case find_variant p s grade db of None \<Rightarrow> 0 | Some v \<Rightarrow> of_int (vr_Quantity v))"

definition GetVariantByID :: "int \<Rightarrow> shop_db \<Rightarrow> Variant option" where
  "GetVariantByID i db = find (\<lambda>v. vr_Id v = i \<and> vr_Grade v = VariantGradeA) (sh_variants db)"

definition GetVariantBySKU :: "string \<Rightarrow> shop_db \<Rightarrow> Variant option" where
  "GetVariantBySKU sku db = find (\<lambda>v. vr_SKU v = Some sku \<and> vr_Grade v = VariantGradeA) (sh_variants db)"

definition update_variant :: "int \<Rightarrow> int \<Rightarrow> string \<Rightarrow> (Variant \<Rightarrow> Variant) \<Rightarrow> shop_db \<Rightarrow> shop_db" where
  "update_variant p s g f db =
     db\<lparr>sh_variants := map (\<lambda>v. if is_variant p s g v then f v else v) (sh_variants db)\<rparr>"

text \<open>
  The decrement of a sale.  The driver counts the rows an UPDATE changed, so the row must be there,
  active, hold enough, and end with another quantity.
\<close>

definition decrease_quantity :: "int \<Rightarrow> int \<Rightarrow> string \<Rightarrow> decimal \<Rightarrow> shop_db \<Rightarrow> (shop_error + unit) \<times> shop_db" where
  "decrease_quantity p s g q db =
     (let short = (Inl (ErrInsufficientStock p s g), db)
      in case find_variant p s g db of
           None \<Rightarrow> short
         | Some v \<Rightarrow>
             let rest = sql_INT (of_int (vr_Quantity v) - q)
             in if q \<le> of_int (vr_Quantity v) \<and> vr_Status v = 1 \<and> rest \<noteq> vr_Quantity v
                then (Inr (), update_variant p s g (\<lambda>v. v\<lparr>vr_Quantity := rest\<rparr>) db)
                else short)"

definition increase_quantity :: "int \<Rightarrow> int \<Rightarrow> string \<Rightarrow> decimal \<Rightarrow> shop_db \<Rightarrow> shop_db" where
  "increase_quantity p s g q =
     update_variant p s g (\<lambda>v. v\<lparr>vr_Quantity := sql_INT (of_int (vr_Quantity v) + q)\<rparr>)"

definition upsert_quantity :: "int \<Rightarrow> int \<Rightarrow> string \<Rightarrow> int \<Rightarrow> shop_db \<Rightarrow> shop_db" where
  "upsert_quantity p s g n db =
     (case find_variant p s g db of
        Some _ \<Rightarrow> update_variant p s g (\<lambda>v. v\<lparr>vr_Quantity := n\<rparr>) db
      | None \<Rightarrow>
          db\<lparr>sh_variants := sh_variants db @
               [\<lparr>vr_Id = sh_nextVariant db, vr_ProductId = p, vr_SizeId = s, vr_Grade = g, vr_Quantity = n,
                 vr_SKU = None, vr_Status = 1\<rparr>],
             sh_nextVariant := sh_nextVariant db + 1\<rparr>)"

section \<open>SKUs of variants\<close>

abbreviation BaseSKULen :: nat where "BaseSKULen \<equiv> 14"
definition minSizeOrd :: int where "minSizeOrd = 1"
definition maxSizeOrd :: int where "maxSizeOrd = 99"

definition ValidSizeSKUSystems :: "string list" where
  "ValidSizeSKUSystems = [''apparel'', ''shoe'', ''composite_ta'', ''composite_bo'']"

definition strictSizeSegment :: "int \<Rightarrow> shop_error + string" where
  "strictSizeSegment ord =
     (if ord < minSizeOrd \<or> ord > maxSizeOrd then Inl (ErrInvalidSizeOrdinal ord) else Inr (zero_pad 2 (nat ord)))"

definition BuildVariantSKU :: "string \<Rightarrow> int \<Rightarrow> shop_error + string" where
  "BuildVariantSKU base sizeOrd =
     (if length base \<noteq> BaseSKULen then Inl (ErrBaseSKUNotCanonical base)
      else case strictSizeSegment sizeOrd of Inl err \<Rightarrow> Inl err | Inr size' \<Rightarrow> Inr (base @ ''-'' @ size'))"

record sizeOrdinalFact =
  so_SizeID :: int
  so_SKUOrd :: int
  so_SKUSystem :: string
  so_SKU :: "string option"

fun validate_facts :: "string option \<Rightarrow> (int \<times> int) list \<Rightarrow> sizeOrdinalFact list \<Rightarrow> shop_error + unit" where
  "validate_facts system ordSize [] = Inr ()"
| "validate_facts system ordSize (f # fs) =
     (if so_SKUSystem f \<notin> set ValidSizeSKUSystems then Inl (ErrInvalidSizeSystem (so_SizeID f))
      else if so_SKUOrd f < 1 \<or> so_SKUOrd f > 99 then Inl (ErrInvalidSizeOrdinal (so_SKUOrd f))
      else if (case system of None \<Rightarrow> False | Some sy \<Rightarrow> so_SKUSystem f \<noteq> sy) then Inl ErrMixedSizeSystems
      else case map_of ordSize (so_SKUOrd f) of
          Some prev \<Rightarrow> Inl (ErrSharedOrdinal prev (so_SizeID f))
        | None \<Rightarrow> validate_facts (Some (case system of None \<Rightarrow> so_SKUSystem f | Some sy \<Rightarrow> sy))
                    ((so_SKUOrd f, so_SizeID f) # ordSize) fs)"

definition validateSizeOrdinalFacts :: "sizeOrdinalFact list \<Rightarrow> shop_error + unit" where
  "validateSizeOrdinalFacts = validate_facts None []"

definition size_facts :: "int \<Rightarrow> shop_db \<Rightarrow> sizeOrdinalFact list" where
  "size_facts productID db =
     sort_key so_SizeID
       (concat (map (\<lambda>v. map (\<lambda>z. \<lparr>so_SizeID = vr_SizeId v, so_SKUOrd = sz_SkuOrd z,
                                  so_SKUSystem = sz_SkuSystem z, so_SKU = vr_SKU v\<rparr>)
                           (filter (\<lambda>z. sz_Id z = vr_SizeId v) (sh_sizes db)))
         (filter (\<lambda>v. vr_ProductId v = productID \<and> vr_Grade v = VariantGradeA) (sh_variants db))))"

definition loadValidatedSizeOrdinalFacts :: "int \<Rightarrow> shop_db \<Rightarrow> shop_error + sizeOrdinalFact list" where
  "loadValidatedSizeOrdinalFacts productID db =
     (case validateSizeOrdinalFacts (size_facts productID db) of
        Inl err \<Rightarrow> Inl err | Inr _ \<Rightarrow> Inr (size_facts productID db))"

definition set_variant_sku :: "int \<Rightarrow> int \<Rightarrow> string \<Rightarrow> string \<Rightarrow> shop_db \<Rightarrow> shop_db" where
  "set_variant_sku p s g sku = update_variant p s g (\<lambda>v. v\<lparr>vr_SKU := Some sku\<rparr>)"

definition no_sku :: "string option \<Rightarrow> bool" where
  "no_sku sku \<longleftrightarrow> sku = None \<or> sku = Some []"

definition ensureVariantSKU :: "int \<Rightarrow> int \<Rightarrow> shop_db \<Rightarrow> (shop_error + unit) \<times> shop_db" where
  "ensureVariantSKU productID sizeID =
     bindE (readE (loadValidatedSizeOrdinalFacts productID)) (\<lambda>facts.
     case find (\<lambda>f. so_SizeID f = sizeID) facts of
       None \<Rightarrow> failE (ErrProductHasNoSize productID sizeID)
     | Some target \<Rightarrow>
         if \<not> no_sku (so_SKU target) then returnE ()
         else bindE (readE (\<lambda>db. requireE (ErrNoSuchProduct productID) (find_product productID db))) (\<lambda>prod.
           case pr_SKU prod of
             None \<Rightarrow> failE (ErrColorwayNotPublished productID)
           | Some base \<Rightarrow>
               if base = [] then failE (ErrColorwayNotPublished productID)
               else case BuildVariantSKU base (so_SKUOrd target) of
                   Inl err \<Rightarrow> failE err
                 | Inr sku \<Rightarrow> modifyE (set_variant_sku productID sizeID VariantGradeA sku)))"

section \<open>Stock operations\<close>

definition UpdateProductSizeStock :: "int \<Rightarrow> int \<Rightarrow> int \<Rightarrow> shop_db \<Rightarrow> (shop_error + unit) \<times> shop_db" where
  "UpdateProductSizeStock productId sizeId quantity =
     bindE (readE (\<lambda>db. requireE (ErrNoSuchSize sizeId) (find (\<lambda>z. sz_Id z = sizeId) (sh_sizes db)))) (\<lambda>_.
     thenE (modifyE (upsert_quantity productId sizeId VariantGradeA quantity))
       (ensureVariantSKU productId sizeId))"

text \<open>The B row takes the SKU of the A row with its suffix, when it has none of its own.\<close>

definition mint_seconds_sku :: "int \<Rightarrow> int \<Rightarrow> shop_db \<Rightarrow> shop_db" where
  "mint_seconds_sku p s db =
     (case find_variant p s VariantGradeA db of
        None \<Rightarrow> db
      | Some a \<Rightarrow>
          case vr_SKU a of
            None \<Rightarrow> db
          | Some sku \<Rightarrow>
              if sku = [] then db
              else update_variant p s VariantGradeB
                     (\<lambda>v. if no_sku (vr_SKU v) then v\<lparr>vr_SKU := Some (sku @ ''-B'')\<rparr> else v) db)"

definition updateSecondsStock :: "int \<Rightarrow> int \<Rightarrow> int \<Rightarrow> shop_db \<Rightarrow> (shop_error + unit) \<times> shop_db" where
  "updateSecondsStock productId sizeId quantity =
     thenE (modifyE (upsert_quantity productId sizeId VariantGradeB quantity))
     (thenE (ensureVariantSKU productId sizeId)
       (modifyE (mint_seconds_sku productId sizeId)))"

definition some_int :: "int \<Rightarrow> int option" where "some_int i = (if i \<noteq> 0 then Some i else None)"
definition some_str :: "string \<Rightarrow> string option" where "some_str s = (if s \<noteq> [] then Some s else None)"

text \<open>The journal row of one sold line; the money columns are set when the order has a currency.\<close>

definition reduce_entry :: "decimal_lib \<Rightarrow> StockHistoryParams \<Rightarrow> OrderItemInsert \<Rightarrow> string \<Rightarrow> decimal \<Rightarrow> StockChangeInsert" where
  "reduce_entry L h it grade before =
     (let qty = QuantityDecimal L it;
          e = no_stock_change\<lparr>sc_ProductId := oi_ProductId it, sc_SizeId := oi_SizeId it, sc_Grade := grade,
                sc_QuantityDelta := - qty, sc_QuantityBefore := before, sc_QuantityAfter := before - qty,
                sc_Source := hp_Source h, sc_OrderId := some_int (hp_OrderId h),
                sc_OrderUUID := some_str (hp_OrderUUID h), sc_OrderComment := some_str (hp_OrderComment h)\<rparr>;
          e = (if hp_OrderCurrency h = [] then e
               else
                 let price = ProductPriceDecimal L it;
                     withSale = ProductPriceWithSaleDecimal L it;
                     promo = (if hp_PromoDiscount h > 0 then dl_Div L (withSale * hp_PromoDiscount h) 100 else 0);
                     total = (price - withSale) + promo;
                     e = e\<lparr>sc_PriceBeforeDiscount := Some (price * qty), sc_DiscountAmount := Some (total * qty),
                           sc_PaidCurrency := Some (hp_OrderCurrency h), sc_PaidAmount := Some ((price - total) * qty)\<rparr>
                 in if hp_PayoutBaseAmount h > 0
                    then e\<lparr>sc_PayoutBaseAmount := Some (hp_PayoutBaseAmount h), sc_PayoutBaseCurrency := Some ''EUR''\<rparr>
                    else e)
      in case hp_Source h of
           StockChangeSourceOrderPaid \<Rightarrow> e\<lparr>sc_Reason := Some StockChangeReasonOrder\<rparr>
         | StockChangeSourceOrderCustom \<Rightarrow> e\<lparr>sc_Reason := Some StockChangeReasonCustomOrder\<rparr>
         | _ \<Rightarrow> e)"

definition reduce_line :: "decimal_lib \<Rightarrow> StockHistoryParams option \<Rightarrow> OrderItemInsert \<Rightarrow> shop_db
    \<Rightarrow> (shop_error + StockChangeInsert list) \<times> shop_db" where
  "reduce_line L history it =
     (let grade = NormalizeVariantGrade (oi_Grade it)
      in bindE (readE (\<lambda>db. requireE (ErrVariantNotFound (oi_ProductId it) (oi_SizeId it) grade)
                              (getProductSizeStockGrade (oi_ProductId it) (oi_SizeId it) grade db))) (\<lambda>before.
         thenE (decrease_quantity (oi_ProductId it) (oi_SizeId it) grade (QuantityDecimal L it))
           (returnE (case history of None \<Rightarrow> [] | Some h \<Rightarrow> [reduce_entry L h it grade before]))))"

definition ReduceStockForProductSizes :: "decimal_lib \<Rightarrow> OrderItemInsert list \<Rightarrow> StockHistoryParams option
    \<Rightarrow> shop_db \<Rightarrow> (shop_error + unit) \<times> shop_db" where
  "ReduceStockForProductSizes L items history =
     bindE (mapE (reduce_line L history) items) (\<lambda>ess.
       whenE (concat ess \<noteq> []) (RecordStockChange (concat ess)))"

definition restore_entry :: "decimal_lib \<Rightarrow> StockHistoryParams \<Rightarrow> OrderItemInsert \<Rightarrow> string \<Rightarrow> decimal \<Rightarrow> StockChangeInsert" where
  "restore_entry L h it grade before =
     (let qty = QuantityDecimal L it;
          e = no_stock_change\<lparr>sc_ProductId := oi_ProductId it, sc_SizeId := oi_SizeId it, sc_Grade := grade,
                sc_QuantityDelta := qty, sc_QuantityBefore := before, sc_QuantityAfter := before + qty,
                sc_Source := hp_Source h, sc_OrderId := some_int (hp_OrderId h),
                sc_OrderUUID := some_str (hp_OrderUUID h)\<rparr>
      in case hp_Source h of
           StockChangeSourceOrderReturned \<Rightarrow> e\<lparr>sc_Reason := Some StockChangeReasonReturnToStock\<rparr>
         | StockChangeSourceOrderCancelled \<Rightarrow> e\<lparr>sc_Reason := Some StockChangeReasonOrderCancelled\<rparr>
         | _ \<Rightarrow> e)"

definition restore_line :: "decimal_lib \<Rightarrow> StockHistoryParams option \<Rightarrow> OrderItemInsert \<Rightarrow> shop_db
    \<Rightarrow> (shop_error + StockChangeInsert list) \<times> shop_db" where
  "restore_line L history it =
     (let grade = NormalizeVariantGrade (oi_Grade it)
      in bindE (readE (\<lambda>db. Inr (lockProductSizeQuantity (oi_ProductId it) (oi_SizeId it) grade db))) (\<lambda>before.
         thenE (modifyE (increase_quantity (oi_ProductId it) (oi_SizeId it) grade (QuantityDecimal L it)))
           (returnE (case history of None \<Rightarrow> [] | Some h \<Rightarrow> [restore_entry L h it grade before]))))"

definition RestoreStockForProductSizes :: "decimal_lib \<Rightarrow> OrderItemInsert list \<Rightarrow> StockHistoryParams option
    \<Rightarrow> shop_db \<Rightarrow> (shop_error + unit) \<times> shop_db" where
  "RestoreStockForProductSizes L items history =
     bindE (mapE (restore_line L history) items) (\<lambda>ess.
       whenE (concat ess \<noteq> []) (RecordStockChange (concat ess)))"

definition seconds_entry :: "decimal_lib \<Rightarrow> StockHistoryParams \<Rightarrow> OrderItemInsert \<Rightarrow> decimal \<Rightarrow> StockChangeInsert" where
  "seconds_entry L h it before =
     no_stock_change\<lparr>sc_ProductId := oi_ProductId it, sc_SizeId := oi_SizeId it, sc_Grade := VariantGradeB,
       sc_QuantityDelta := QuantityDecimal L it, sc_QuantityBefore := before,
       sc_QuantityAfter := before + QuantityDecimal L it, sc_Source := hp_Source h,
       sc_OrderId := some_int (hp_OrderId h), sc_OrderUUID := some_str (hp_OrderUUID h),
       sc_Reason := Some StockChangeReasonReturnToStock\<rparr>"

definition seconds_line :: "decimal_lib \<Rightarrow> StockHistoryParams option \<Rightarrow> OrderItemInsert \<Rightarrow> shop_db
    \<Rightarrow> (shop_error + StockChangeInsert list) \<times> shop_db" where
  "seconds_line L history it =
     bindE (readE (\<lambda>db. Inr (lockProductSizeQuantity (oi_ProductId it) (oi_SizeId it) VariantGradeB db))) (\<lambda>before.
     thenE (updateSecondsStock (oi_ProductId it) (oi_SizeId it) (IntPart (before + QuantityDecimal L it)))
       (returnE (case history of None \<Rightarrow> [] | Some h \<Rightarrow> [seconds_entry L h it before])))"

definition RestoreStockForProductSizesSeconds :: "decimal_lib \<Rightarrow> OrderItemInsert list \<Rightarrow> StockHistoryParams option
    \<Rightarrow> shop_db \<Rightarrow> (shop_error + unit) \<times> shop_db" where
  "RestoreStockForProductSizesSeconds L items history =
     bindE (mapE (seconds_line L history) items) (\<lambda>ess.
       whenE (concat ess \<noteq> []) (RecordStockChange (concat ess)))"

subsection \<open>Production and manual adjustments\<close>

record StockTransition =
  tr_ProductID :: int
  tr_SizeID :: int
  tr_Grade :: string
  tr_Before :: decimal
  tr_After :: decimal

definition BackInStock :: "StockTransition \<Rightarrow> bool" where
  "BackInStock t \<longleftrightarrow> tr_Before t \<le> 0 \<and> tr_After t > 0"

definition write_grade :: "int \<Rightarrow> int \<Rightarrow> string \<Rightarrow> int \<Rightarrow> shop_db \<Rightarrow> (shop_error + unit) \<times> shop_db" where
  "write_grade p s grade n =
     (if grade = VariantGradeB then updateSecondsStock p s n else UpdateProductSizeStock p s n)"

definition receive_size :: "int \<Rightarrow> int \<Rightarrow> string \<Rightarrow> string \<Rightarrow> int \<times> int \<Rightarrow> shop_db
    \<Rightarrow> (shop_error + StockTransition list) \<times> shop_db" where
  "receive_size productID runID username grade sq =
     (let (sizeID, qty) = sq
      in if qty \<le> 0 then returnE []
         else
           bindE (readE (\<lambda>db. Inr (lockProductSizeQuantity productID sizeID grade db))) (\<lambda>before.
           let after = before + of_int qty
           in thenE (write_grade productID sizeID grade (IntPart after))
             (thenE (RecordStockChange
               [no_stock_change\<lparr>sc_ProductId := productID, sc_SizeId := sizeID, sc_Grade := grade,
                  sc_QuantityDelta := of_int qty, sc_QuantityBefore := before, sc_QuantityAfter := after,
                  sc_Source := StockChangeSourceProductionReceived,
                  sc_ReferenceId := Some (''production_run:'' @ Itoa runID),
                  sc_AdminUsername := some_str username\<rparr>])
             (returnE [\<lparr>tr_ProductID = productID, tr_SizeID = sizeID, tr_Grade = grade,
                        tr_Before = before, tr_After = after\<rparr>]))))"

definition ReceiveProductionStock :: "int \<Rightarrow> (int \<times> int) list \<Rightarrow> int \<Rightarrow> string \<Rightarrow> string \<Rightarrow> shop_db
    \<Rightarrow> (shop_error + StockTransition list) \<times> shop_db" where
  "ReceiveProductionStock productID perSize runID username grade =
     bindE (mapE (receive_size productID runID username grade) (sort_key fst perSize)) (\<lambda>tss. returnE (concat tss))"

record ProductionRunReversalShortfallItem =
  sf_ProductID :: int
  sf_SizeID :: int
  sf_Grade :: string
  sf_Requested :: int
  sf_OnHand :: int

definition reverse_size :: "int \<Rightarrow> int \<Rightarrow> string \<Rightarrow> string \<Rightarrow> string \<Rightarrow> int \<times> int \<Rightarrow> shop_db
    \<Rightarrow> (shop_error + ProductionRunReversalShortfallItem list) \<times> shop_db" where
  "reverse_size productID receiptID username reason grade sq =
     (let (sizeID, qty) = sq
      in if qty \<le> 0 then returnE []
         else
           bindE (readE (\<lambda>db. Inr (lockProductSizeQuantity productID sizeID grade db))) (\<lambda>before.
           let after = before - of_int qty
           in if after < 0
              then returnE [\<lparr>sf_ProductID = productID, sf_SizeID = sizeID, sf_Grade = grade,
                             sf_Requested = qty, sf_OnHand = IntPart before\<rparr>]
              else thenE (write_grade productID sizeID grade (IntPart after))
                (thenE (RecordStockChange
                  [no_stock_change\<lparr>sc_ProductId := productID, sc_SizeId := sizeID, sc_Grade := grade,
                     sc_QuantityDelta := - of_int qty, sc_QuantityBefore := before, sc_QuantityAfter := after,
                     sc_Source := StockChangeSourceProductionReversed,
                     sc_Reason := Some StockChangeReasonReceiptReversed,
                     sc_Comment := some_str reason,
                     sc_ReferenceId := Some (''receipt:'' @ Itoa receiptID),
                     sc_AdminUsername := some_str username\<rparr>])
                (returnE []))))"

definition ReverseProductionStock :: "int \<Rightarrow> (int \<times> int) list \<Rightarrow> int \<Rightarrow> string \<Rightarrow> string \<Rightarrow> string \<Rightarrow> shop_db
    \<Rightarrow> (shop_error + ProductionRunReversalShortfallItem list) \<times> shop_db" where
  "ReverseProductionStock productID perSize receiptID username reason grade =
     bindE (mapE (reverse_size productID receiptID username reason grade) (sort_key fst perSize))
       (\<lambda>sss. returnE (concat sss))"

datatype StockUpdateMode = StockUpdateModeSet | StockUpdateModeAdjust

definition adjust_body :: "string \<Rightarrow> int \<Rightarrow> int \<Rightarrow> StockUpdateMode \<Rightarrow> int \<Rightarrow> string \<Rightarrow> string \<Rightarrow> shop_db
    \<Rightarrow> (shop_error + decimal \<times> decimal) \<times> shop_db" where
  "adjust_body adminUsername productId sizeId mode amount reason comment' =
     bindE (readE (\<lambda>db. Inr (lockProductSizeQuantity productId sizeId VariantGradeA db))) (\<lambda>before.
     let after = (if mode = StockUpdateModeAdjust then before + of_int amount else of_int amount)
     in thenE (checkE (\<not> after < 0) ErrNegativeStock)
       (thenE (UpdateProductSizeStock productId sizeId (IntPart after))
       (thenE (RecordStockChange
         [no_stock_change\<lparr>sc_ProductId := productId, sc_SizeId := sizeId, sc_QuantityDelta := after - before,
            sc_QuantityBefore := before, sc_QuantityAfter := after,
            sc_Source := StockChangeSourceManualAdjustment,
            sc_AdminUsername := some_str adminUsername,
            sc_ReferenceId := (if adminUsername \<noteq> [] then Some (''admin:'' @ adminUsername) else None),
            sc_Reason := some_str reason, sc_Comment := some_str comment'\<rparr>])
       (returnE (before, after)))))"

definition UpdateProductSizeStockWithHistory :: "string \<Rightarrow> int \<Rightarrow> int \<Rightarrow> StockUpdateMode \<Rightarrow> int \<Rightarrow> string \<Rightarrow> string \<Rightarrow> shop_db
    \<Rightarrow> (shop_error + decimal \<times> decimal) \<times> shop_db" where
  "UpdateProductSizeStockWithHistory adminUsername productId sizeId mode amount reason comment' =
     txFunc (adjust_body adminUsername productId sizeId mode amount reason comment')"

end
