(* ===== verification/Stock_Effects.thy ===== *)
theory Stock_Effects
  imports Product_Stock
begin

text \<open>
  What every stock operation does to the quantity of every variant and to the journal: the journal
  lists exactly the changes (\<open>opening_stock\<close> stays the same), lines move the units they name, and no
  other table is touched.
\<close>

section \<open>What the operations do to the stock\<close>

declare split_paired_All [simp del] split_paired_Ex [simp del]

type_synonym variant_key = "int \<times> int \<times> string"

definition stock_qty :: "variant_key \<Rightarrow> shop_db \<Rightarrow> int" where
  "stock_qty k db = (case k of (p, s, g) \<Rightarrow>
     case find_variant p s g db of None \<Rightarrow> 0 | Some v \<Rightarrow> vr_Quantity v)"

definition has_variant :: "variant_key \<Rightarrow> shop_db \<Rightarrow> bool" where
  "has_variant k db \<longleftrightarrow> (case k of (p, s, g) \<Rightarrow> find_variant p s g db \<noteq> None)"

definition item_key :: "OrderItemInsert \<Rightarrow> variant_key" where
  "item_key it = (oi_ProductId it, oi_SizeId it, NormalizeVariantGrade (oi_Grade it))"

definition line_units :: "decimal_lib \<Rightarrow> OrderItemInsert \<Rightarrow> int" where
  "line_units L it = \<lfloor>QuantityDecimal L it\<rfloor>"

definition units_at :: "decimal_lib \<Rightarrow> variant_key \<Rightarrow> OrderItemInsert list \<Rightarrow> int" where
  "units_at L k items = sum_list (map (\<lambda>it. if item_key it = k then line_units L it else 0) items)"

definition entry_key :: "StockChangeInsert \<Rightarrow> variant_key" where
  "entry_key e = (sc_ProductId e, sc_SizeId e, sc_Grade e)"

definition journal_total :: "variant_key \<Rightarrow> StockChangeInsert list \<Rightarrow> decimal" where
  "journal_total k es = sum_list (map (\<lambda>e. if entry_key e = k then sc_QuantityDelta e else 0) es)"

text \<open>What the stock would be without the changes the journal lists.\<close>

definition opening_stock :: "variant_key \<Rightarrow> shop_db \<Rightarrow> decimal" where
  "opening_stock k db = of_int (stock_qty k db) - journal_total k (sh_journal db)"

text \<open>The tables a stock operation leaves alone.\<close>

definition stock_only :: "shop_db \<Rightarrow> shop_db \<Rightarrow> bool" where
  "stock_only db db' \<longleftrightarrow>
     sh_orders db' = sh_orders db \<and> sh_products db' = sh_products db \<and> sh_sizes db' = sh_sizes db \<and>
     sh_variantPrices db' = sh_variantPrices db \<and> sh_claims db' = sh_claims db \<and> sh_promos db' = sh_promos db \<and>
     sh_events db' = sh_events db \<and> sh_nextOrder db' = sh_nextOrder db \<and> sh_nextItem db' = sh_nextItem db \<and>
     (\<forall>k. has_variant k db \<longrightarrow> has_variant k db')"

lemma stock_only_refl [simp]: "stock_only db db"
  by (simp add: stock_only_def)

lemma stock_only_trans: "stock_only a b \<Longrightarrow> stock_only b c \<Longrightarrow> stock_only a c"
  by (simp add: stock_only_def)

lemma stock_only_tables:
  assumes "stock_only db db'"
  shows "sh_orders db' = sh_orders db" and "sh_events db' = sh_events db" and "sh_claims db' = sh_claims db"
    and "sh_nextItem db' = sh_nextItem db" and "sh_nextOrder db' = sh_nextOrder db"
    and "sh_promos db' = sh_promos db"
  using assms by (simp_all add: stock_only_def)

lemma stock_only_has: "stock_only a b \<Longrightarrow> has_variant k a \<Longrightarrow> has_variant k b"
  by (simp add: stock_only_def)

lemma journal_total_simps [simp]:
  "journal_total k [] = 0"
  "journal_total k (e # es) = (if entry_key e = k then sc_QuantityDelta e else 0) + journal_total k es"
  "journal_total k (es @ fs) = journal_total k es + journal_total k fs"
  by (simp_all add: journal_total_def)

lemma units_at_simps [simp]:
  "units_at L k [] = 0"
  "units_at L k (it # its) = (if item_key it = k then line_units L it else 0) + units_at L k its"
  "units_at L k (its @ jts) = units_at L k its + units_at L k jts"
  by (simp_all add: units_at_def)

lemma line_units_eq: "decimal_ok L \<Longrightarrow> QuantityDecimal L it = of_int (line_units L it)"
proof -
  assume "decimal_ok L"
  then have "on_grid 0 (QuantityDecimal L it)" by (simp add: QuantityDecimal_def Round_grid)
  then obtain n where "QuantityDecimal L it = of_int n" by (auto simp: on_grid_def)
  then show ?thesis by (simp add: line_units_def)
qed

subsection \<open>Single rows\<close>

lemma update_variant_tables [simp]:
  "sh_orders (update_variant p s g f db) = sh_orders db" "sh_journal (update_variant p s g f db) = sh_journal db"
  "sh_products (update_variant p s g f db) = sh_products db" "sh_sizes (update_variant p s g f db) = sh_sizes db"
  "sh_variantPrices (update_variant p s g f db) = sh_variantPrices db"
  "sh_claims (update_variant p s g f db) = sh_claims db" "sh_promos (update_variant p s g f db) = sh_promos db"
  "sh_events (update_variant p s g f db) = sh_events db" "sh_nextOrder (update_variant p s g f db) = sh_nextOrder db"
  "sh_nextItem (update_variant p s g f db) = sh_nextItem db" "sh_nextVariant (update_variant p s g f db) = sh_nextVariant db"
  by (simp_all add: update_variant_def)

lemma stock_qty_find:
  "find_variant p s g db = Some v \<Longrightarrow> stock_qty (p, s, g) db = vr_Quantity v"
  "find_variant p s g db = None \<Longrightarrow> stock_qty (p, s, g) db = 0"
  by (simp_all add: stock_qty_def)

lemma has_variant_find: "has_variant (p, s, g) db \<longleftrightarrow> (\<exists>v. find_variant p s g db = Some v)"
  by (auto simp: has_variant_def)

definition keeps_variant :: "(Variant \<Rightarrow> Variant) \<Rightarrow> bool" where
  "keeps_variant f \<longleftrightarrow> (\<forall>v p s g. is_variant p s g (f v) = is_variant p s g v)"

lemma keeps_variant_simps [simp]:
  "keeps_variant (vr_Quantity_update h)" "keeps_variant (\<lambda>v. v\<lparr>vr_Quantity := n v\<rparr>)"
  "keeps_variant (vr_SKU_update h')" "keeps_variant (\<lambda>v. v\<lparr>vr_SKU := sku v\<rparr>)"
  "keeps_variant (\<lambda>v. if b v then v\<lparr>vr_SKU := sku v\<rparr> else v)"
  by (auto simp: keeps_variant_def is_variant_def)

lemma is_variant_unique: "is_variant p s g v \<Longrightarrow> is_variant p' s' g' v \<longleftrightarrow> (p', s', g') = (p, s, g)"
  by (auto simp: is_variant_def)

lemma find_variant_keeps:
  assumes f: "keeps_variant f"
  shows "find_variant p s g (update_variant p' s' g' f db) =
    (if (p', s', g') = (p, s, g) then map_option f (find_variant p s g db) else find_variant p s g db)"
proof -
  have f: "is_variant a b c (f v) = is_variant a b c v" for a b c v using f by (simp add: keeps_variant_def)
  have "find (is_variant p s g) (map (\<lambda>v. if is_variant p' s' g' v then f v else v) vs) =
    (if (p', s', g') = (p, s, g) then map_option f (find (is_variant p s g) vs) else find (is_variant p s g) vs)" for vs
  proof (induction vs)
    case (Cons v vs)
    show ?case
    proof (cases "is_variant p s g v")
      case True
      then show ?thesis using is_variant_unique [OF True, of p' s' g'] by (auto simp: f)
    next
      case False
      then show ?thesis using Cons.IH by (auto simp: f)
    qed
  qed simp
  then show ?thesis by (simp add: find_variant_def update_variant_def)
qed

lemma update_variant_only: "keeps_variant f \<Longrightarrow> stock_only db (update_variant p s g f db)"
  by (simp add: stock_only_def has_variant_def find_variant_keeps split: prod.split)

lemma stock_qty_update:
  assumes f: "keeps_variant f"
  shows "k \<noteq> (p, s, g) \<Longrightarrow> stock_qty k (update_variant p s g f db) = stock_qty k db"
    and "find_variant p s g db = Some v \<Longrightarrow> stock_qty (p, s, g) (update_variant p s g f db) = vr_Quantity (f v)"
proof -
  show "stock_qty (p, s, g) (update_variant p s g f db) = vr_Quantity (f v)" if "find_variant p s g db = Some v"
    using that by (simp add: stock_qty_def find_variant_keeps [OF f])
  show "stock_qty k (update_variant p s g f db) = stock_qty k db" if "k \<noteq> (p, s, g)"
    using that by (cases k) (auto simp: stock_qty_def find_variant_keeps [OF f])
qed

lemma decrease_ok:
  assumes "decrease_quantity p s g (of_int n) db = (Inr r, db')"
  shows "stock_qty k db' = stock_qty k db - (if k = (p, s, g) then n else 0)"
    and "sh_journal db' = sh_journal db" and "stock_only db db'" and "n \<le> stock_qty (p, s, g) db"
    and "has_variant (p, s, g) db"
proof -
  from assms obtain v where v: "find_variant p s g db = Some v" and n: "n \<le> vr_Quantity v"
    and u: "db' = update_variant p s g (\<lambda>w. w\<lparr>vr_Quantity := vr_Quantity v - n\<rparr>) db"
    by (auto simp: decrease_quantity_def Let_def split: option.split_asm if_split_asm)
  show "stock_qty k db' = stock_qty k db - (if k = (p, s, g) then n else 0)"
    by (cases "k = (p, s, g)") (simp_all add: u stock_qty_update(1) stock_qty_update(2) [OF _ v] stock_qty_find(1) [OF v])
  show "sh_journal db' = sh_journal db" "stock_only db db'" "n \<le> stock_qty (p, s, g) db" "has_variant (p, s, g) db"
    using v n by (simp_all add: u update_variant_only stock_qty_find has_variant_find)
qed

lemma increase_ok:
  assumes "has_variant (p, s, g) db"
  shows "stock_qty k (increase_quantity p s g (of_int n) db) = stock_qty k db + (if k = (p, s, g) then n else 0)"
proof -
  from assms obtain v where v: "find_variant p s g db = Some v" by (auto simp: has_variant_find)
  then show ?thesis
    by (cases "k = (p, s, g)")
      (simp_all add: increase_quantity_def stock_qty_update(1) stock_qty_update(2) [OF _ v] stock_qty_find(1) [OF v])
qed

lemma increase_only [simp]: "stock_only db (increase_quantity p s g q db)"
  "sh_journal (increase_quantity p s g q db) = sh_journal db"
  by (simp_all add: increase_quantity_def update_variant_only)

lemma find_append': "find P (xs @ ys) = (case find P xs of None \<Rightarrow> find P ys | Some x \<Rightarrow> Some x)"
  by (induction xs) auto

lemma upsert_ok [simp]:
  "stock_qty k (upsert_quantity p s g n db) = (if k = (p, s, g) then n else stock_qty k db)"
  "sh_journal (upsert_quantity p s g n db) = sh_journal db" "stock_only db (upsert_quantity p s g n db)"
proof -
  show "sh_journal (upsert_quantity p s g n db) = sh_journal db"
    by (simp add: upsert_quantity_def split: option.split)
  obtain p' s' g' where k: "k = (p', s', g')" by (cases k)
  show "stock_qty k (upsert_quantity p s g n db) = (if k = (p, s, g) then n else stock_qty k db)"
  proof (cases "find_variant p s g db")
    case None
    then show ?thesis
      by (auto simp: upsert_quantity_def stock_qty_def k find_variant_def find_append' is_variant_def split: option.split)
  next
    case (Some v)
    then show ?thesis
      by (cases "k = (p, s, g)") (simp_all add: upsert_quantity_def stock_qty_update(1) stock_qty_update(2) [OF _ Some])
  qed
  show "stock_only db (upsert_quantity p s g n db)"
    by (auto simp: upsert_quantity_def update_variant_only split: option.split)
      (auto simp: stock_only_def has_variant_def find_variant_def find_append' split: option.split)
qed

subsection \<open>SKU minting leaves quantities alone\<close>

definition same_stock :: "shop_db \<Rightarrow> shop_db \<Rightarrow> bool" where
  "same_stock db db' \<longleftrightarrow> (\<forall>k. stock_qty k db' = stock_qty k db) \<and> sh_journal db' = sh_journal db \<and> stock_only db db'"

lemma same_stock_refl [simp]: "same_stock db db"
  by (simp add: same_stock_def)

lemma same_stock_trans: "same_stock a b \<Longrightarrow> same_stock b c \<Longrightarrow> same_stock a c"
  by (auto simp: same_stock_def intro: stock_only_trans)

lemma update_sku_same:
  assumes "keeps_variant f" and "\<And>v. vr_Quantity (f v) = vr_Quantity v"
  shows "same_stock db (update_variant p s g f db)"
proof -
  have "stock_qty k (update_variant p s g f db) = stock_qty k db" for k
  proof (cases "k = (p, s, g)")
    case True
    then show ?thesis using assms
      by (cases "find_variant p s g db")
        (simp_all add: stock_qty_def find_variant_keeps)
  qed (rule stock_qty_update(1) [OF assms(1)])
  then show ?thesis using assms by (simp add: same_stock_def update_variant_only)
qed

lemma set_variant_sku_same [simp]: "same_stock db (set_variant_sku p s g sku db)"
  by (simp add: set_variant_sku_def update_sku_same)

lemma mint_seconds_same [simp]: "same_stock db (mint_seconds_sku p s db)"
  by (auto simp: mint_seconds_sku_def update_sku_same split: option.split)

lemma ensureVariantSKU_same:
  assumes "ensureVariantSKU p s db = (Inr (), db')"
  shows "same_stock db db'"
proof -
  from assms obtain facts :: "sizeOrdinalFact list" where facts: "(case find (\<lambda>f. so_SizeID f = s) facts of
       None \<Rightarrow> failE (ErrProductHasNoSize p s)
     | Some target \<Rightarrow>
         if \<not> no_sku (so_SKU target) then returnE ()
         else bindE (readE (\<lambda>db. requireE (ErrNoSuchProduct p) (find_product p db))) (\<lambda>prod.
           case pr_SKU prod of
             None \<Rightarrow> failE (ErrColorwayNotPublished p)
           | Some base \<Rightarrow>
               if base = [] then failE (ErrColorwayNotPublished p)
               else case BuildVariantSKU base (so_SKUOrd target) of
                   Inl err \<Rightarrow> failE err
                 | Inr sku \<Rightarrow> modifyE (set_variant_sku p s VariantGradeA sku))) db = (Inr (), db')"
    unfolding ensureVariantSKU_def bindE_ok readE_ok by auto
  show ?thesis
  proof (cases "find (\<lambda>f. so_SizeID f = s) facts")
    case None
    then show ?thesis using facts by (simp add: ok_simps)
  next
    case (Some target)
    show ?thesis
    proof (cases "no_sku (so_SKU target)")
      case True
      from facts [unfolded Some] True obtain prod :: product_row where "(case pr_SKU prod of
             None \<Rightarrow> failE (ErrColorwayNotPublished p)
           | Some base \<Rightarrow>
               if base = [] then failE (ErrColorwayNotPublished p)
               else case BuildVariantSKU base (so_SKUOrd target) of
                   Inl err \<Rightarrow> failE err
                 | Inr sku \<Rightarrow> modifyE (set_variant_sku p s VariantGradeA sku)) db = (Inr (), db')"
        by (auto simp: bindE_ok readE_ok)
      then show ?thesis by (auto simp: failE_ok modifyE_ok split: option.split_asm if_split_asm sum.split_asm)
    qed (use facts Some in \<open>simp add: ok_simps\<close>)
  qed
qed

lemma UpdateProductSizeStock_ok:
  assumes "UpdateProductSizeStock p s n db = (Inr r, db')"
  shows "stock_qty k db' = (if k = (p, s, VariantGradeA) then n else stock_qty k db)"
    and "sh_journal db' = sh_journal db" and "stock_only db db'"
proof -
  from assms have "ensureVariantSKU p s (upsert_quantity p s VariantGradeA n db) = (Inr (), db')"
    by (auto simp: UpdateProductSizeStock_def ok_simps)
  from ensureVariantSKU_same [OF this] have
    e: "stock_qty k db' = stock_qty k (upsert_quantity p s VariantGradeA n db)"
      "sh_journal db' = sh_journal (upsert_quantity p s VariantGradeA n db)"
      "stock_only (upsert_quantity p s VariantGradeA n db) db'" by (simp_all add: same_stock_def)
  show "stock_qty k db' = (if k = (p, s, VariantGradeA) then n else stock_qty k db)"
    and "sh_journal db' = sh_journal db" using e(1,2) by simp_all
  show "stock_only db db'" by (rule stock_only_trans [OF upsert_ok(3) e(3)])
qed

lemma updateSecondsStock_ok:
  assumes "updateSecondsStock p s n db = (Inr r, db')"
  shows "stock_qty k db' = (if k = (p, s, VariantGradeB) then n else stock_qty k db)"
    and "sh_journal db' = sh_journal db" and "stock_only db db'"
proof -
  from assms obtain t where t: "ensureVariantSKU p s (upsert_quantity p s VariantGradeB n db) = (Inr (), t)"
    and u: "db' = mint_seconds_sku p s t" by (auto simp: updateSecondsStock_def ok_simps)
  have "same_stock (upsert_quantity p s VariantGradeB n db) db'"
    unfolding u by (rule same_stock_trans [OF ensureVariantSKU_same [OF t] mint_seconds_same])
  then have
    e: "stock_qty k db' = stock_qty k (upsert_quantity p s VariantGradeB n db)"
      "sh_journal db' = sh_journal (upsert_quantity p s VariantGradeB n db)"
      "stock_only (upsert_quantity p s VariantGradeB n db) db'" by (simp_all add: same_stock_def)
  show "stock_qty k db' = (if k = (p, s, VariantGradeB) then n else stock_qty k db)"
    and "sh_journal db' = sh_journal db" using e(1,2) by simp_all
  show "stock_only db db'" by (rule stock_only_trans [OF upsert_ok(3) e(3)])
qed

lemma write_grade_ok:
  assumes "write_grade p s g n db = (Inr r, db')" and "g = VariantGradeA \<or> g = VariantGradeB"
  shows "stock_qty k db' = (if k = (p, s, g) then n else stock_qty k db)"
    and "sh_journal db' = sh_journal db" and "stock_only db db'"
  using assms UpdateProductSizeStock_ok [of p s n db r db'] updateSecondsStock_ok [of p s n db r db']
  by (auto simp: write_grade_def split: if_split_asm)

lemma RecordStockChange_ok:
  assumes "RecordStockChange es db = (Inr r, db')"
  shows "sh_journal db' = sh_journal db @ map journal_row es" and "stock_qty k db' = stock_qty k db"
    and "stock_only db db'"
  using assms
  by (auto simp: RecordStockChange_def stock_qty_def find_variant_def stock_only_def has_variant_def
      split: sum.split_asm prod.split)

subsection \<open>Lines of an order\<close>

lemma reduce_entry_simps [simp]:
  "entry_key (reduce_entry L h it g b) = (oi_ProductId it, oi_SizeId it, g)"
  "sc_QuantityDelta (reduce_entry L h it g b) = - QuantityDecimal L it"
  "sc_Source (reduce_entry L h it g b) = hp_Source h"
  by (simp_all add: reduce_entry_def entry_key_def Let_def split: StockChangeSource.split)

lemma restore_entry_simps [simp]:
  "entry_key (restore_entry L h it g b) = (oi_ProductId it, oi_SizeId it, g)"
  "sc_QuantityDelta (restore_entry L h it g b) = QuantityDecimal L it"
  "sc_Source (restore_entry L h it g b) = hp_Source h"
  by (simp_all add: restore_entry_def entry_key_def Let_def split: StockChangeSource.split)

lemma seconds_entry_simps [simp]:
  "entry_key (seconds_entry L h it b) = (oi_ProductId it, oi_SizeId it, VariantGradeB)"
  "sc_QuantityDelta (seconds_entry L h it b) = QuantityDecimal L it"
  by (simp_all add: seconds_entry_def entry_key_def)

lemma journal_row_key: "entry_key (journal_row e) = (case entry_key e of (p, s, g) \<Rightarrow> (p, s, NormalizeVariantGrade g))"
  and journal_row_delta [simp]: "sc_QuantityDelta (journal_row e) = sc_QuantityDelta e"
  by (simp_all add: journal_row_def entry_key_def NormalizeVariantGrade_def)

lemma Normalize_idem [simp]: "NormalizeVariantGrade (NormalizeVariantGrade g) = NormalizeVariantGrade g"
  by (simp add: NormalizeVariantGrade_def)

lemma reduce_line_ok:
  assumes "decimal_ok L" and "reduce_line L (Some h) it db = (Inr es, db')"
  shows "stock_qty k db' = stock_qty k db - units_at L k [it]" and "sh_journal db' = sh_journal db"
    and "stock_only db db'" and "journal_total k (map journal_row es) = - of_int (units_at L k [it])"
    and "has_variant (item_key it) db"
proof -
  let ?g = "NormalizeVariantGrade (oi_Grade it)"
  from assms obtain b where
    dec: "decrease_quantity (oi_ProductId it) (oi_SizeId it) ?g (of_int (line_units L it)) db = (Inr (), db')"
    and es: "es = [reduce_entry L h it ?g b]"
    by (auto simp: reduce_line_def ok_simps Let_def line_units_eq)
  note d = decrease_ok [OF dec]
  show "stock_qty k db' = stock_qty k db - units_at L k [it]" using d(1) [of k] by (auto simp: item_key_def)
  show "sh_journal db' = sh_journal db" "stock_only db db'" "has_variant (item_key it) db"
    using d(2,3,5) by (simp_all add: item_key_def)
  show "journal_total k (map journal_row es) = - of_int (units_at L k [it])"
    by (simp add: es journal_row_key item_key_def line_units_eq [OF assms(1)])
qed

lemma restore_line_ok:
  assumes "decimal_ok L" and "restore_line L (Some h) it db = (Inr es, db')" and "has_variant (item_key it) db"
  shows "stock_qty k db' = stock_qty k db + units_at L k [it]" and "sh_journal db' = sh_journal db"
    and "stock_only db db'" and "journal_total k (map journal_row es) = of_int (units_at L k [it])"
proof -
  let ?g = "NormalizeVariantGrade (oi_Grade it)"
  from assms(1,2) obtain b where
    inc: "db' = increase_quantity (oi_ProductId it) (oi_SizeId it) ?g (of_int (line_units L it)) db"
    and es: "es = [restore_entry L h it ?g b]"
    by (auto simp: restore_line_def ok_simps Let_def line_units_eq)
  show "stock_qty k db' = stock_qty k db + units_at L k [it]"
    using assms(3) by (auto simp: inc increase_ok item_key_def)
  show "sh_journal db' = sh_journal db" "stock_only db db'" by (simp_all add: inc)
  show "journal_total k (map journal_row es) = of_int (units_at L k [it])"
    by (simp add: es journal_row_key item_key_def line_units_eq [OF assms(1)])
qed

definition as_seconds :: "OrderItemInsert \<Rightarrow> OrderItemInsert" where
  "as_seconds it = it\<lparr>oi_Grade := VariantGradeB\<rparr>"

lemma as_seconds_simps [simp]:
  "item_key (as_seconds it) = (oi_ProductId it, oi_SizeId it, VariantGradeB)" "line_units L (as_seconds it) = line_units L it"
  by (simp_all add: as_seconds_def item_key_def NormalizeVariantGrade_def line_units_def QuantityDecimal_def)

lemma seconds_line_ok:
  assumes "decimal_ok L" and "seconds_line L (Some h) it db = (Inr es, db')"
  shows "stock_qty k db' = stock_qty k db + units_at L k [as_seconds it]" and "sh_journal db' = sh_journal db"
    and "stock_only db db'" and "journal_total k (map journal_row es) = of_int (units_at L k [as_seconds it])"
proof -
  let ?key = "(oi_ProductId it, oi_SizeId it, VariantGradeB)"
  have lock: "lockProductSizeQuantity (oi_ProductId it) (oi_SizeId it) VariantGradeB db = of_int (stock_qty ?key db)"
    by (simp add: lockProductSizeQuantity_def stock_qty_def split: option.split)
  have int: "IntPart (of_int a + of_int b :: decimal) = a + b" for a b
    using IntPart_of_int [of "a + b"] by simp
  from assms(1,2) obtain b where
    upd: "updateSecondsStock (oi_ProductId it) (oi_SizeId it) (stock_qty ?key db + line_units L it) db = (Inr (), db')"
    and es: "es = [seconds_entry L h it b]"
    by (auto simp: seconds_line_def ok_simps Let_def line_units_eq lock int)
  note u = updateSecondsStock_ok [OF upd]
  show "stock_qty k db' = stock_qty k db + units_at L k [as_seconds it]" using u(1) [of k] by auto
  show "sh_journal db' = sh_journal db" "stock_only db db'" using u(2,3) by simp_all
  show "journal_total k (map journal_row es) = of_int (units_at L k [as_seconds it])"
    by (simp add: es journal_row_key NormalizeVariantGrade_def line_units_eq [OF assms(1)])
qed

text \<open>The three routines over a list of lines share their shape.\<close>

lemma lines_ok:
  assumes "mapE f items db = (Inr ess, db')"
    and step: "\<And>it t es t'. it \<in> set items \<Longrightarrow> stock_only db t \<Longrightarrow> f it t = (Inr es, t') \<Longrightarrow>
      stock_qty k t' = stock_qty k t + d it \<and> sh_journal t' = sh_journal t \<and> stock_only t t' \<and>
      journal_total k (map journal_row es) = of_int (d it)"
  shows "stock_qty k db' = stock_qty k db + sum_list (map d items) \<and> sh_journal db' = sh_journal db \<and> stock_only db db' \<and>
    journal_total k (map journal_row (concat ess)) = of_int (sum_list (map d items))"
  using assms
proof (induction items arbitrary: db ess)
  case (Cons it items)
  from Cons.prems(1) obtain es t ess' where f: "f it db = (Inr es, t)" and m: "mapE f items t = (Inr ess', db')"
    and ess: "ess = es # ess'" by (auto simp: ok_simps)
  have 1: "stock_qty k t = stock_qty k db + d it" "sh_journal t = sh_journal db" "stock_only db t"
    "journal_total k (map journal_row es) = of_int (d it)"
    using Cons.prems(2) [OF _ stock_only_refl f] by simp_all
  have 2: "stock_qty k db' = stock_qty k t + sum_list (map d items) \<and> sh_journal db' = sh_journal t \<and> stock_only t db' \<and>
    journal_total k (map journal_row (concat ess')) = of_int (sum_list (map d items))"
    by (rule Cons.IH [OF m]) (rule Cons.prems(2), auto intro: stock_only_trans [OF 1(3)])
  show ?case using 1 2 by (auto simp: ess intro: stock_only_trans)
qed (simp add: ok_simps)

lemma recorded_ok:
  assumes "stock_only db t \<and> sh_journal t = sh_journal db \<and> stock_qty k t = stock_qty k db + d \<and>
      journal_total k (map journal_row es) = of_int d"
    and "whenE (es \<noteq> []) (RecordStockChange es) t = (Inr r, db')"
  shows "stock_qty k db' = stock_qty k db + d" and "opening_stock k db' = opening_stock k db" and "stock_only db db'"
proof -
  have "stock_qty k db' = stock_qty k t \<and> sh_journal db' = sh_journal t @ map journal_row es \<and> stock_only t db'"
    using assms(2) RecordStockChange_ok [of es t "()" db'] by (auto simp: ok_simps split: if_split_asm)
  then show "stock_qty k db' = stock_qty k db + d" "opening_stock k db' = opening_stock k db" "stock_only db db'"
    using assms(1) by (auto simp: opening_stock_def intro: stock_only_trans)
qed

lemma units_at_sum: "units_at L k items = sum_list (map (\<lambda>it. units_at L k [it]) items)"
  by (simp add: units_at_def)

lemma ReduceStock_ok:
  assumes L: "decimal_ok L" and run: "ReduceStockForProductSizes L items (Some h) db = (Inr r, db')"
  shows "stock_qty k db' = stock_qty k db - units_at L k items" and "opening_stock k db' = opening_stock k db"
    and "stock_only db db'"
proof -
  from run obtain ess t where m: "mapE (reduce_line L (Some h)) items db = (Inr ess, t)"
    and w: "whenE (concat ess \<noteq> []) (RecordStockChange (concat ess)) t = (Inr r, db')"
    by (auto simp: ReduceStockForProductSizes_def bindE_ok)
  have "stock_qty k t = stock_qty k db + sum_list (map (\<lambda>it. - units_at L k [it]) items) \<and> sh_journal t = sh_journal db \<and>
    stock_only db t \<and> journal_total k (map journal_row (concat ess)) = of_int (sum_list (map (\<lambda>it. - units_at L k [it]) items))"
    by (rule lines_ok [OF m]) (use reduce_line_ok [OF L] in \<open>metis add.commute diff_conv_add_uminus of_int_minus\<close>)
  moreover have "sum_list (map (\<lambda>it. - units_at L k [it]) items) = - units_at L k items"
    using uminus_sum_list_map [of "\<lambda>it. units_at L k [it]" items] by (simp add: units_at_sum [of L k items] comp_def)
  ultimately have "stock_only db t \<and> sh_journal t = sh_journal db \<and> stock_qty k t = stock_qty k db + (- units_at L k items) \<and>
      journal_total k (map journal_row (concat ess)) = of_int (- units_at L k items)" by simp
  note rec = recorded_ok [OF this w]
  show "stock_qty k db' = stock_qty k db - units_at L k items" using rec(1) by simp
  show "opening_stock k db' = opening_stock k db" "stock_only db db'" by (rule rec)+
qed

lemma RestoreStock_ok:
  assumes L: "decimal_ok L" and run: "RestoreStockForProductSizes L items (Some h) db = (Inr r, db')"
    and has: "\<forall>it\<in>set items. has_variant (item_key it) db"
  shows "stock_qty k db' = stock_qty k db + units_at L k items" and "opening_stock k db' = opening_stock k db"
    and "stock_only db db'"
proof -
  from run obtain ess t where m: "mapE (restore_line L (Some h)) items db = (Inr ess, t)"
    and w: "whenE (concat ess \<noteq> []) (RecordStockChange (concat ess)) t = (Inr r, db')"
    by (auto simp: RestoreStockForProductSizes_def bindE_ok)
  have "stock_qty k t = stock_qty k db + sum_list (map (\<lambda>it. units_at L k [it]) items) \<and> sh_journal t = sh_journal db \<and>
    stock_only db t \<and> journal_total k (map journal_row (concat ess)) = of_int (sum_list (map (\<lambda>it. units_at L k [it]) items))"
    proof (rule lines_ok [OF m])
    fix it u es u'
    assume it: "it \<in> set items" and u: "stock_only db u" "restore_line L (Some h) it u = (Inr es, u')"
    have "has_variant (item_key it) u" using has it u(1) by (blast intro: stock_only_has)
    from restore_line_ok [OF L u(2) this]
    show "stock_qty k u' = stock_qty k u + units_at L k [it] \<and> sh_journal u' = sh_journal u \<and> stock_only u u' \<and>
      journal_total k (map journal_row es) = of_int (units_at L k [it])" by blast
  qed
  then have "stock_only db t \<and> sh_journal t = sh_journal db \<and> stock_qty k t = stock_qty k db + units_at L k items \<and>
      journal_total k (map journal_row (concat ess)) = of_int (units_at L k items)"
    by (simp only: units_at_sum [of L k items])
  note rec = recorded_ok [OF this w]
  show "stock_qty k db' = stock_qty k db + units_at L k items" "opening_stock k db' = opening_stock k db" "stock_only db db'"
    by (rule rec)+
qed

lemma RestoreSeconds_ok:
  assumes L: "decimal_ok L" and run: "RestoreStockForProductSizesSeconds L items (Some h) db = (Inr r, db')"
  shows "stock_qty k db' = stock_qty k db + units_at L k (map as_seconds items)"
    and "opening_stock k db' = opening_stock k db" and "stock_only db db'"
proof -
  from run obtain ess t where m: "mapE (seconds_line L (Some h)) items db = (Inr ess, t)"
    and w: "whenE (concat ess \<noteq> []) (RecordStockChange (concat ess)) t = (Inr r, db')"
    by (auto simp: RestoreStockForProductSizesSeconds_def bindE_ok)
  have "stock_qty k t = stock_qty k db + sum_list (map (\<lambda>it. units_at L k [as_seconds it]) items) \<and> sh_journal t = sh_journal db \<and>
    stock_only db t \<and> journal_total k (map journal_row (concat ess)) = of_int (sum_list (map (\<lambda>it. units_at L k [as_seconds it]) items))"
    by (rule lines_ok [OF m]) (blast dest: seconds_line_ok [OF L])
  then have "stock_only db t \<and> sh_journal t = sh_journal db \<and> stock_qty k t = stock_qty k db + units_at L k (map as_seconds items) \<and>
      journal_total k (map journal_row (concat ess)) = of_int (units_at L k (map as_seconds items))"
    by (simp add: units_at_sum [of L k "map as_seconds items"] comp_def)
  note rec = recorded_ok [OF this w]
  show "stock_qty k db' = stock_qty k db + units_at L k (map as_seconds items)"
    "opening_stock k db' = opening_stock k db" "stock_only db db'" by (rule rec)+
qed

end
