(* ===== verification/Order_Status.thy ===== *)
theory Order_Status
  imports Stock_Effects
begin

text \<open>
  The status of an order (internal/store/order/status.go): the table of transitions, the checks of
  the handlers, and the guarded updates, each of which leaves a row in the order's history.
  Reading an order and its rows (fetch.go) is here as well.
\<close>

section \<open>Transitions\<close>

fun ValidStatusTransitions :: "OrderStatusName \<Rightarrow> OrderStatusName list" where
  "ValidStatusTransitions Placed = [AwaitingPayment, Cancelled]"
| "ValidStatusTransitions AwaitingPayment = [Confirmed, Cancelled]"
| "ValidStatusTransitions Confirmed = [Shipped, RefundInProgress, Refunded, Cancelled]"
| "ValidStatusTransitions Shipped = [Delivered, PendingReturn]"
| "ValidStatusTransitions Delivered = [PendingReturn, Refunded, PartiallyRefunded]"
| "ValidStatusTransitions PendingReturn = [Refunded, PartiallyRefunded]"
| "ValidStatusTransitions RefundInProgress = [Refunded, PartiallyRefunded]"
| "ValidStatusTransitions PartiallyRefunded = [Refunded, PartiallyRefunded]"
| "ValidStatusTransitions Cancelled = []"
| "ValidStatusTransitions Refunded = []"

definition isValidStatusTransition :: "OrderStatusName \<Rightarrow> OrderStatusName \<Rightarrow> bool" where
  "isValidStatusTransition current new \<longleftrightarrow> new \<in> set (ValidStatusTransitions current)"

definition validateOrderStatus :: "customer_order \<Rightarrow> OrderStatusName list \<Rightarrow> shop_error + unit" where
  "validateOrderStatus ord allowed =
     (if allowed = [] \<or> co_Status ord \<in> set allowed then Inr () else Inl (ErrBadOrderStatus (co_Status ord)))"

definition validateOrderStatusNot :: "customer_order \<Rightarrow> OrderStatusName list \<Rightarrow> shop_error + unit" where
  "validateOrderStatusNot ord disallowed =
     (if co_Status ord \<in> set disallowed then Inl (ErrBadOrderStatus (co_Status ord)) else Inr ())"

section \<open>Reading an order\<close>

definition getOrderByUUIDForUpdate :: "string \<Rightarrow> shop_db \<Rightarrow> (shop_error + customer_order) \<times> shop_db" where
  "getOrderByUUIDForUpdate uuid = readE (\<lambda>db. requireE ErrOrderNotFound (find_order uuid db))"

text \<open>The join with \<open>buyer\<close>: the UUID in upper case, the address without regard to case.\<close>

definition getOrderByUUIDAndEmailForUpdate :: "string \<Rightarrow> string \<Rightarrow> shop_db \<Rightarrow> (shop_error + customer_order) \<times> shop_db" where
  "getOrderByUUIDAndEmailForUpdate orderUUID email =
     readE (\<lambda>db. requireE ErrOrderNotFound
       (find (\<lambda>o'. co_UUID o' = ToUpper orderUUID \<and>
                  (case co_BuyerEmail o' of None \<Rightarrow> False | Some e \<Rightarrow> ToLower e = ToLower email)) (sh_orders db)))"

definition find_order_id :: "int \<Rightarrow> shop_db \<Rightarrow> customer_order option" where
  "find_order_id i db = find (\<lambda>o'. co_Id o' = i) (sh_orders db)"

definition or0 :: "decimal option \<Rightarrow> decimal" where
  "or0 x = (case x of None \<Rightarrow> 0 | Some d \<Rightarrow> d)"

definition item_insert :: "order_item_row \<Rightarrow> OrderItemInsert" where
  "item_insert r = \<lparr>oi_ProductId = ir_ProductId r, oi_ProductPrice = ir_ProductPrice r,
     oi_ProductSalePercentage = or0 (ir_SalePercentage r),
     oi_ProductPriceWithSale = ir_ProductPrice r * (1 - or0 (ir_SalePercentage r) / 100),
     oi_Quantity = of_int (ir_Quantity r), oi_SizeId = ir_SizeId r, oi_VariantID = ir_VariantId r,
     oi_VariantSKU = [], oi_Grade = ir_Grade r\<rparr>"

definition getOrderItemsInsert :: "customer_order \<Rightarrow> OrderItemInsert list" where
  "getOrderItemsInsert ord = map item_insert (co_Items ord)"

text \<open>The full read joins the product and its thumbnail, which a product may lack.\<close>

definition has_thumbnail :: "shop_db \<Rightarrow> int \<Rightarrow> bool" where
  "has_thumbnail db p = (case find_product p db of None \<Rightarrow> False | Some pr \<Rightarrow> pr_ThumbnailId pr \<noteq> None)"

definition getOrdersItems :: "shop_db \<Rightarrow> customer_order \<Rightarrow> OrderItem list" where
  "getOrdersItems db ord =
     map (\<lambda>r. \<lparr>ot_Id = ir_Id r, ot_Insert = item_insert r\<rparr>) (filter (\<lambda>r. has_thumbnail db (ir_ProductId r)) (co_Items ord))"

definition getRefundedQuantities :: "customer_order \<Rightarrow> int \<Rightarrow> int" where
  "getRefundedQuantities ord i = (case map_of (co_RefundedItems ord) i of None \<Rightarrow> 0 | Some q \<Rightarrow> q)"

section \<open>Guarded updates\<close>

definition add_history :: "OrderStatusName \<Rightarrow> string \<Rightarrow> string \<Rightarrow> customer_order \<Rightarrow> customer_order" where
  "add_history st changedBy notes ord =
     ord\<lparr>co_History := co_History ord @ [\<lparr>hs_Status = st, hs_ChangedBy = changedBy, hs_Notes = notes\<rparr>]\<rparr>"

definition insertOrderStatusHistoryEntry :: "int \<Rightarrow> OrderStatusName \<Rightarrow> string \<Rightarrow> string \<Rightarrow> shop_db \<Rightarrow> shop_db" where
  "insertOrderStatusHistoryEntry orderId st changedBy notes = update_order orderId (add_history st changedBy notes)"

text \<open>The read of the current status and the check, shared by the three updates.\<close>

definition check_transition :: "int \<Rightarrow> OrderStatusName \<Rightarrow> shop_db \<Rightarrow> (shop_error + unit) \<times> shop_db" where
  "check_transition orderId new =
     bindE (readE (\<lambda>db. requireE ErrOrderNotFound (find_order_id orderId db))) (\<lambda>ord.
     checkE (isValidStatusTransition (co_Status ord) new) (ErrInvalidTransition (co_Status ord) new))"

definition updateOrderStatusWithValidation :: "int \<Rightarrow> OrderStatusName \<Rightarrow> string \<Rightarrow> string \<Rightarrow> shop_db
    \<Rightarrow> (shop_error + unit) \<times> shop_db" where
  "updateOrderStatusWithValidation orderId new changedBy notes =
     thenE (check_transition orderId new)
     (thenE (modifyE (update_order orderId (\<lambda>o'. o'\<lparr>co_Status := new\<rparr>)))
       (modifyE (insertOrderStatusHistoryEntry orderId new changedBy notes)))"

definition updateOrderStatus :: "int \<Rightarrow> OrderStatusName \<Rightarrow> shop_db \<Rightarrow> (shop_error + unit) \<times> shop_db" where
  "updateOrderStatus orderId st = updateOrderStatusWithValidation orderId st ''system'' []"

text \<open>\<open>COALESCE(NULLIF(new, ''), old)\<close>\<close>

definition coalesce_text :: "string \<Rightarrow> string option \<Rightarrow> string option" where
  "coalesce_text new old = (if new = [] then old else Some new)"

definition updateOrderStatusAndRefundedAmountWithValidation :: "decimal_lib \<Rightarrow> int \<Rightarrow> OrderStatusName \<Rightarrow> decimal
    \<Rightarrow> string \<Rightarrow> string \<Rightarrow> shop_db \<Rightarrow> (shop_error + unit) \<times> shop_db" where
  "updateOrderStatusAndRefundedAmountWithValidation L orderId new refundedAmount refundReason changedBy =
     thenE (check_transition orderId new)
     (thenE (modifyE (update_order orderId (\<lambda>o'. o'\<lparr>co_Status := new,
               co_RefundedAmount := dl_Round L refundedAmount 2,
               co_RefundReason := coalesce_text refundReason (co_RefundReason o')\<rparr>)))
       (modifyE (insertOrderStatusHistoryEntry orderId new changedBy
         (''Refunded amount: '' @ dl_String L refundedAmount))))"

definition updateOrderStatusAndAccumulateRefundedAmountWithValidation :: "decimal_lib \<Rightarrow> int \<Rightarrow> OrderStatusName \<Rightarrow> decimal
    \<Rightarrow> string \<Rightarrow> string \<Rightarrow> string \<Rightarrow> shop_db \<Rightarrow> (shop_error + unit) \<times> shop_db" where
  "updateOrderStatusAndAccumulateRefundedAmountWithValidation L orderId new refundedAmount refundReason
       refundReasonCode changedBy =
     thenE (check_transition orderId new)
     (thenE (modifyE (update_order orderId (\<lambda>o'. o'\<lparr>co_Status := new,
               co_RefundedAmount := co_RefundedAmount o' + dl_Round L refundedAmount 2,
               co_RefundReason := coalesce_text refundReason (co_RefundReason o'),
               co_RefundReasonCode := coalesce_text refundReasonCode (co_RefundReasonCode o')\<rparr>)))
       (modifyE (insertOrderStatusHistoryEntry orderId new changedBy
         (''Refunded amount: '' @ dl_String L refundedAmount @ '' (accumulated)''))))"

definition updateOrderStatusAndAccumulateRefundedAmount :: "decimal_lib \<Rightarrow> int \<Rightarrow> OrderStatusName \<Rightarrow> decimal
    \<Rightarrow> string \<Rightarrow> string \<Rightarrow> shop_db \<Rightarrow> (shop_error + unit) \<times> shop_db" where
  "updateOrderStatusAndAccumulateRefundedAmount L orderId st refundedAmount refundReason refundReasonCode =
     updateOrderStatusAndAccumulateRefundedAmountWithValidation L orderId st refundedAmount refundReason
       refundReasonCode ''admin''"

section \<open>The outbox seen from the shop\<close>

definition no_dispute :: "string \<Rightarrow> AcctOrderDisputePayload" where
  "no_dispute uuid = \<lparr>dp_OrderUUID = uuid, dp_DisputeID = [], dp_Closed = False, dp_Won = False, dp_AmountBase = 0,
     dp_FeeBase = 0, dp_FeeKnown = False, dp_Currency = []\<rparr>"

definition no_refund :: "string \<Rightarrow> AcctOrderRefundPayload" where
  "no_refund uuid = \<lparr>rp_OrderUUID = uuid, rp_RefundAmount = 0, rp_OrderCurrency = [], rp_RefundedByItem = [],
     rp_Disposition = RefundDispositionUnset\<rparr>"

definition order_payload :: "string \<Rightarrow> event_payload" where
  "order_payload uuid = \<lparr>py_OrderUUID = uuid, py_Refund = no_refund uuid, py_Dispute = no_dispute uuid\<rparr>"

definition refund_payload :: "AcctOrderRefundPayload \<Rightarrow> event_payload" where
  "refund_payload p = \<lparr>py_OrderUUID = rp_OrderUUID p, py_Refund = p, py_Dispute = no_dispute (rp_OrderUUID p)\<rparr>"

definition enqueue :: "time \<Rightarrow> AcctEventInsert \<Rightarrow> shop_db \<Rightarrow> (shop_error + unit) \<times> shop_db" where
  "enqueue now ins db =
     (case EnqueueEvent now ins (sh_events db) of
        (Inl err, _) \<Rightarrow> (Inl (ErrEnqueue err), db)
      | (Inr _, evs) \<Rightarrow> (Inr (), db\<lparr>sh_events := evs\<rparr>))"

definition enqueue_order :: "time \<Rightarrow> AcctEventType \<Rightarrow> string \<Rightarrow> time \<Rightarrow> shop_db \<Rightarrow> (shop_error + unit) \<times> shop_db" where
  "enqueue_order now ty uuid at' =
     enqueue now \<lparr>ei_EventType = ty, ei_SourceKey = uuid, ei_Payload = Inr (order_payload uuid), ei_OccurredAt = at'\<rparr>"

section \<open>Packaging claims\<close>

definition insertReservationEvent :: "decimal_lib \<Rightarrow> int \<Rightarrow> int option \<Rightarrow> decimal \<Rightarrow> MaterialReservationEvent
    \<Rightarrow> string \<Rightarrow> string \<Rightarrow> shop_db \<Rightarrow> bool \<times> shop_db" where
  "insertReservationEvent L materialID orderID qty event claimKey username db =
     (if \<exists>c \<in> set (sh_claims db). mr_ClaimKey c = claimKey \<and> mr_Event c = event then (False, db)
      else (True, db\<lparr>sh_claims := sh_claims db @
             [\<lparr>mr_MaterialId = materialID, mr_OrderId = orderID, mr_Qty = dl_Round L qty 3, mr_Event = event,
               mr_ClaimKey = claimKey, mr_CreatedBy = username\<rparr>]\<rparr>))"

definition openClaimsForOrder :: "int \<Rightarrow> shop_db \<Rightarrow> MaterialReservation list" where
  "openClaimsForOrder orderID db =
     filter (\<lambda>r. mr_OrderId r = Some orderID \<and> mr_Event r = MaterialReservationReserve \<and>
       \<not> (\<exists>x \<in> set (sh_claims db). mr_ClaimKey x = mr_ClaimKey r \<and>
            mr_Event x \<in> {MaterialReservationConsume, MaterialReservationRelease})) (sh_claims db)"

definition ReleaseOpenClaimsInTx :: "decimal_lib \<Rightarrow> int \<Rightarrow> string \<Rightarrow> shop_db \<Rightarrow> shop_db" where
  "ReleaseOpenClaimsInTx L orderID username db =
     foldl (\<lambda>db c. snd (insertReservationEvent L (mr_MaterialId c) (Some orderID) (mr_Qty c)
                          MaterialReservationRelease (mr_ClaimKey c) username db))
       db (openClaimsForOrder orderID db)"

definition releaseOpenPackagingClaims :: "decimal_lib \<Rightarrow> int \<Rightarrow> shop_db \<Rightarrow> shop_db" where
  "releaseOpenPackagingClaims L orderID = ReleaseOpenClaimsInTx L orderID []"

end
