(* ===== verification/Order_Lifecycle.thy ===== *)
theory Order_Lifecycle
  imports Order_Status "HOL-Library.AList"
begin

text \<open>
  What happens to an order after checkout (internal/store/order/lifecycle.go, refund.go and the parts
  of payment.go and update.go they share): payment, shipping, delivery, cancellation by the shop, by
  the buyer or by expiry, and refunds in full or in part.  Each operation is one transaction.  Go
  ranges over a map in no particular order: \<open>rng\<close> is the order one run takes.
\<close>

section \<open>The scope of a refund\<close>

record refundItem =
  ri_OrderItemId :: int
  ri_OrderItemInsert :: OrderItemInsert

definition refund_unit :: "OrderItem \<Rightarrow> refundItem" where
  "refund_unit it = \<lparr>ri_OrderItemId = ot_Id it, ri_OrderItemInsert = (ot_Insert it)\<lparr>oi_Quantity := 1\<rparr>\<rparr>"

definition count_ids :: "int list \<Rightarrow> (int \<times> int) list" where
  "count_ids ids = foldl (\<lambda>m i. AList.update i (case map_of m i of None \<Rightarrow> 1 | Some n \<Rightarrow> n + 1) m) [] ids"

definition count_of :: "(int \<times> int) list \<Rightarrow> int \<Rightarrow> int" where
  "count_of m i = (case map_of m i of None \<Rightarrow> 0 | Some n \<Rightarrow> n)"

definition item_by_id :: "OrderItem list \<Rightarrow> int \<Rightarrow> OrderItem option" where
  "item_by_id items = map_of (rev (map (\<lambda>it. (ot_Id it, it)) items))"

definition remaining_units :: "(int \<Rightarrow> int) \<Rightarrow> OrderItem \<Rightarrow> int" where
  "remaining_units already it = IntPart (oi_Quantity (ot_Insert it)) - already (ot_Id it)"

fun map_requested :: "OrderItem list \<Rightarrow> (int \<Rightarrow> int) \<Rightarrow> (int \<times> int) list \<Rightarrow> refundItem list
    \<Rightarrow> shop_error + refundItem list" where
  "map_requested items already [] acc = Inr acc"
| "map_requested items already ((i, requested) # rest) acc =
     (case item_by_id items i of
        None \<Rightarrow> map_requested items already rest acc
      | Some it \<Rightarrow>
          let remaining = remaining_units already it
          in if remaining \<le> 0 then Inl (ErrAlreadyFullyRefunded i)
             else if requested > remaining then Inl (ErrRefundExceedsRemaining i)
             else map_requested items already rest (acc @ replicate (nat requested) (refund_unit it)))"

definition validateAndMapOrderItems :: "((int \<times> int) list \<Rightarrow> (int \<times> int) list) \<Rightarrow> OrderItem list \<Rightarrow> int list
    \<Rightarrow> (int \<Rightarrow> int) \<Rightarrow> shop_error + refundItem list option" where
  "validateAndMapOrderItems rng orderItems orderItemIDs already =
     (if orderItemIDs = [] then Inr None
      else case map_requested orderItems already (rng (count_ids orderItemIDs)) [] of
          Inl err \<Rightarrow> Inl err
        | Inr [] \<Rightarrow> Inl ErrNoValidItemsToRefund
        | Inr items \<Rightarrow> Inr (Some items))"

definition refundCoversFullOrder :: "OrderItem list \<Rightarrow> int list \<Rightarrow> (int \<Rightarrow> int) \<Rightarrow> bool" where
  "refundCoversFullOrder orderItems orderItemIDs already \<longleftrightarrow>
     (\<forall>it \<in> set orderItems. \<not> count_of (count_ids orderItemIDs) (ot_Id it) < remaining_units already it)"

definition orderItemsToRefundItems :: "OrderItem list \<Rightarrow> (int \<Rightarrow> int) \<Rightarrow> refundItem list" where
  "orderItemsToRefundItems orderItems already =
     concat (map (\<lambda>it. replicate (nat (remaining_units already it)) (refund_unit it)) orderItems)"

definition determineRefundScope :: "((int \<times> int) list \<Rightarrow> (int \<times> int) list) \<Rightarrow> OrderStatusName \<Rightarrow> OrderItem list \<Rightarrow> int list
    \<Rightarrow> (int \<Rightarrow> int) \<Rightarrow> shop_error + refundItem list \<times> OrderStatusName" where
  "determineRefundScope rng current orderItems orderItemIDs already =
     (if current = Confirmed then Inr (orderItemsToRefundItems orderItems already, Refunded)
      else case validateAndMapOrderItems rng orderItems orderItemIDs already of
          Inl err \<Rightarrow> Inl err
        | Inr None \<Rightarrow> Inr (orderItemsToRefundItems orderItems already, Refunded)
        | Inr (Some partial) \<Rightarrow>
            if refundCoversFullOrder orderItems orderItemIDs already
            then Inr (orderItemsToRefundItems orderItems already, Refunded)
            else Inr (partial, PartiallyRefunded))"

section \<open>Refunding\<close>

definition ValidRefundDispositions :: "RefundDisposition \<Rightarrow> bool" where
  "ValidRefundDispositions d \<longleftrightarrow>
     d \<in> {RefundDispositionUnset, RefundDispositionRestock, RefundDispositionWriteoff, RefundDispositionSeconds}"

definition disposition_string :: "RefundDisposition \<Rightarrow> string" where
  "disposition_string d = (case d of RefundDispositionUnset \<Rightarrow> [] | RefundDispositionRestock \<Rightarrow> ''restock''
     | RefundDispositionWriteoff \<Rightarrow> ''writeoff'' | RefundDispositionSeconds \<Rightarrow> ''seconds'' | OtherDisposition s \<Rightarrow> s)"

definition refundAmountFromItems :: "decimal_lib \<Rightarrow> OrderItemInsert list \<Rightarrow> string \<Rightarrow> decimal" where
  "refundAmountFromItems L items currency =
     RoundCurrency L (sum_list (map (\<lambda>it. oi_ProductPriceWithSale it * oi_Quantity it) items)) currency"

definition refunded_by_item :: "refundItem list \<Rightarrow> (int \<times> int) list" where
  "refunded_by_item items =
     foldl (\<lambda>m r. AList.update (ri_OrderItemId r)
         (count_of m (ri_OrderItemId r) + IntPart (oi_Quantity (ri_OrderItemInsert r))) m) [] items"

definition insertRefundedOrderItems :: "int \<Rightarrow> (int \<times> int) list \<Rightarrow> shop_db \<Rightarrow> shop_db" where
  "insertRefundedOrderItems orderId refundedByItem =
     update_order orderId (\<lambda>o'. o'\<lparr>co_RefundedItems :=
       foldl (\<lambda>m (i, qty). if qty \<le> 0 then m else AList.update i (count_of m i + qty) m)
         (co_RefundedItems o') refundedByItem\<rparr>)"

definition order_history :: "StockChangeSource \<Rightarrow> customer_order \<Rightarrow> StockHistoryParams" where
  "order_history source ord = \<lparr>hp_Source = source, hp_OrderId = co_Id ord, hp_OrderUUID = co_UUID ord,
     hp_OrderCurrency = [], hp_OrderComment = [], hp_PromoDiscount = 0, hp_PayoutBaseAmount = 0\<rparr>"

text \<open>What happens to the returned units.\<close>

definition refund_stock :: "decimal_lib \<Rightarrow> RefundDisposition \<Rightarrow> customer_order \<Rightarrow> OrderItemInsert list \<Rightarrow> shop_db
    \<Rightarrow> (shop_error + unit) \<times> shop_db" where
  "refund_stock L disposition ord items =
     (let history = Some (order_history StockChangeSourceOrderReturned ord)
      in case disposition of
           RefundDispositionWriteoff \<Rightarrow> returnE ()
         | RefundDispositionSeconds \<Rightarrow> RestoreStockForProductSizesSeconds L items history
         | _ \<Rightarrow> RestoreStockForProductSizes L items history)"

definition CostDecimal :: "decimal_lib \<Rightarrow> shipment_row \<Rightarrow> string \<Rightarrow> decimal" where
  "CostDecimal L sm c = RoundCurrency L (sm_Cost sm) c"

definition getOrderShipment :: "int \<Rightarrow> shop_db \<Rightarrow> shop_error + shipment_row" where
  "getOrderShipment orderId db =
     (case find_order_id orderId db of None \<Rightarrow> Inl ErrNoShipment | Some o' \<Rightarrow> requireE ErrNoShipment (co_Shipment o'))"

definition markShippingRefunded :: "int \<Rightarrow> shop_db \<Rightarrow> shop_db" where
  "markShippingRefunded orderId = update_order orderId (\<lambda>o'. o'\<lparr>co_ShippingRefunded := True\<rparr>)"

text \<open>The shipping part of the amount, at most once per order.\<close>

definition refund_shipping :: "decimal_lib \<Rightarrow> bool \<Rightarrow> customer_order \<Rightarrow> decimal \<Rightarrow> shop_db
    \<Rightarrow> (shop_error + decimal) \<times> shop_db" where
  "refund_shipping L refundShipping ord amount =
     (if refundShipping \<and> \<not> co_ShippingRefunded ord
      then bindE (readE (getOrderShipment (co_Id ord))) (\<lambda>sm.
        if \<not> sm_FreeShipping sm
        then thenE (modifyE (markShippingRefunded (co_Id ord))) (returnE (amount + CostDecimal L sm (co_Currency ord)))
        else returnE amount)
      else returnE amount)"

definition refund_events :: "string \<Rightarrow> shop_db \<Rightarrow> AcctEvent list" where
  "refund_events uuid db =
     filter (\<lambda>e. ae_EventType e = AcctEventOrderRefund \<and> take (length uuid + 1) (ae_SourceKey e) = uuid @ '':'')
       (ev_events (sh_events db))"

definition refund_key :: "string \<Rightarrow> nat \<Rightarrow> string" where
  "refund_key uuid seq = uuid @ '':'' @ Itoa (int seq)"

definition enqueue_refund :: "time \<Rightarrow> customer_order \<Rightarrow> decimal \<Rightarrow> (int \<times> int) list \<Rightarrow> RefundDisposition \<Rightarrow> shop_db
    \<Rightarrow> (shop_error + unit) \<times> shop_db" where
  "enqueue_refund now ord amount refundedByItem disposition db =
     enqueue now
       \<lparr>ei_EventType = AcctEventOrderRefund,
        ei_SourceKey = refund_key (co_UUID ord) (length (refund_events (co_UUID ord) db) + 1),
        ei_Payload = Inr (refund_payload \<lparr>rp_OrderUUID = co_UUID ord, rp_RefundAmount = amount,
          rp_OrderCurrency = co_Currency ord, rp_RefundedByItem = refundedByItem, rp_Disposition = disposition\<rparr>),
        ei_OccurredAt = now\<rparr> db"

text \<open>The writes of a refund once its scope is known.\<close>

definition apply_refund :: "decimal_lib \<Rightarrow> time \<Rightarrow> customer_order \<Rightarrow> refundItem list \<Rightarrow> OrderStatusName \<Rightarrow> string \<Rightarrow> string
    \<Rightarrow> bool \<Rightarrow> RefundDisposition \<Rightarrow> shop_db \<Rightarrow> (shop_error + unit) \<times> shop_db" where
  "apply_refund L now ord items target reason reasonCode refundShipping disposition =
     (let itemsForStock = map ri_OrderItemInsert items
      in thenE (refund_stock L disposition ord itemsForStock)
        (thenE (modifyE (releaseOpenPackagingClaims L (co_Id ord)))
        (thenE (modifyE (insertRefundedOrderItems (co_Id ord) (refunded_by_item items)))
        (bindE (refund_shipping L refundShipping ord (refundAmountFromItems L itemsForStock (co_Currency ord))) (\<lambda>amount.
         thenE (updateOrderStatusAndAccumulateRefundedAmount L (co_Id ord) target amount reason reasonCode)
           (enqueue_refund now ord amount (refunded_by_item items) disposition))))))"

definition refund_body :: "decimal_lib \<Rightarrow> time \<Rightarrow> ((int \<times> int) list \<Rightarrow> (int \<times> int) list) \<Rightarrow> string \<Rightarrow> int list \<Rightarrow> string
    \<Rightarrow> string \<Rightarrow> bool \<Rightarrow> RefundDisposition \<Rightarrow> shop_db \<Rightarrow> (shop_error + unit) \<times> shop_db" where
  "refund_body L now rng orderUUID orderItemIDs reason reasonCode refundShipping disposition =
     bindE (getOrderByUUIDForUpdate orderUUID) (\<lambda>ord.
     let st = co_Status ord
     in thenE (checkE (\<not> (disposition \<noteq> RefundDispositionRestock \<and> disposition \<noteq> RefundDispositionUnset \<and> st = Confirmed))
                ErrDispositionNeedsShippedGoods)
       (thenE (checkE (st = RefundInProgress \<or> st = PendingReturn \<or> st = Delivered \<or> st = Confirmed \<or> st = PartiallyRefunded)
                (ErrBadOrderStatus st))
       (thenE (checkE (\<not> (st = Confirmed \<and> orderItemIDs \<noteq> [])) ErrConfirmedOnlyFull)
       (bindE (readE (\<lambda>db. Inr (getOrdersItems db ord))) (\<lambda>orderItems.
        thenE (checkE (orderItems \<noteq> []) ErrOrderHasNoItems)
        (bindE (readE (\<lambda>_. determineRefundScope rng st orderItems orderItemIDs (getRefundedQuantities ord))) (\<lambda>(items, target).
          apply_refund L now ord items target reason reasonCode refundShipping disposition)))))))"

definition RefundOrder :: "decimal_lib \<Rightarrow> time \<Rightarrow> ((int \<times> int) list \<Rightarrow> (int \<times> int) list) \<Rightarrow> string \<Rightarrow> int list \<Rightarrow> string
    \<Rightarrow> string \<Rightarrow> bool \<Rightarrow> RefundDisposition \<Rightarrow> shop_db \<Rightarrow> (shop_error + unit) \<times> shop_db" where
  "RefundOrder L now rng orderUUID orderItemIDs reason reasonCode refundShipping disposition =
     (if \<not> ValidRefundDispositions disposition then failE (ErrUnknownDisposition (disposition_string disposition))
      else txFunc (refund_body L now rng orderUUID orderItemIDs reason reasonCode refundShipping disposition))"

section \<open>Cancelling\<close>

datatype stockRestoreMode = stockRestoreNone | stockRestoreHistory

definition stockRestoreModeForCancel :: "OrderStatusName \<Rightarrow> stockRestoreMode" where
  "stockRestoreModeForCancel st = (if st = Placed then stockRestoreNone else stockRestoreHistory)"

definition removePromo :: "int \<Rightarrow> shop_db \<Rightarrow> shop_db" where
  "removePromo orderId = update_order orderId (\<lambda>o'. o'\<lparr>co_PromoId := None\<rparr>)"

definition promo_set :: "customer_order \<Rightarrow> bool" where
  "promo_set ord \<longleftrightarrow> (case co_PromoId ord of None \<Rightarrow> False | Some p \<Rightarrow> p \<noteq> 0)"

definition cancelOrder :: "decimal_lib \<Rightarrow> customer_order \<Rightarrow> OrderItemInsert list \<Rightarrow> StockChangeSource \<Rightarrow> shop_db
    \<Rightarrow> (shop_error + unit) \<times> shop_db" where
  "cancelOrder L ord orderItems source =
     (if co_Status ord = Cancelled then returnE ()
      else
        thenE (readE (\<lambda>_. validateOrderStatusNot ord [Refunded, PartiallyRefunded, Delivered, Shipped, Confirmed]))
        (thenE (case stockRestoreModeForCancel (co_Status ord) of
                  stockRestoreNone \<Rightarrow> returnE ()
                | stockRestoreHistory \<Rightarrow> RestoreStockForProductSizes L orderItems (Some (order_history source ord)))
        (thenE (whenE (promo_set ord) (modifyE (removePromo (co_Id ord))))
        (thenE (updateOrderStatus (co_Id ord) Cancelled)
          (modifyE (releaseOpenPackagingClaims L (co_Id ord)))))))"

definition CancelOrder :: "decimal_lib \<Rightarrow> string \<Rightarrow> shop_db \<Rightarrow> (shop_error + unit) \<times> shop_db" where
  "CancelOrder L orderUUID =
     txFunc (bindE (getOrderByUUIDForUpdate orderUUID) (\<lambda>ord.
       cancelOrder L ord (getOrderItemsInsert ord) StockChangeSourceOrderCancelled))"

text \<open>A request of the buyer; the status and the reason are written without the guard of status.go.\<close>

definition request_return :: "int \<Rightarrow> OrderStatusName \<Rightarrow> string \<Rightarrow> shop_db \<Rightarrow> (shop_error + unit) \<times> shop_db" where
  "request_return orderId st reason =
     thenE (modifyE (update_order orderId (\<lambda>o'. o'\<lparr>co_Status := st, co_RefundReason := Some reason\<rparr>)))
       (modifyE (insertOrderStatusHistoryEntry orderId st ''user'' reason))"

definition CancelOrderByUser :: "decimal_lib \<Rightarrow> string \<Rightarrow> string \<Rightarrow> string \<Rightarrow> shop_db \<Rightarrow> (shop_error + unit) \<times> shop_db" where
  "CancelOrderByUser L orderUUID email reason =
     txFunc (bindE (getOrderByUUIDAndEmailForUpdate orderUUID email) (\<lambda>ord.
       case co_Status ord of
         Placed \<Rightarrow> cancelOrder L ord (getOrderItemsInsert ord) StockChangeSourceOrderCancelled
       | AwaitingPayment \<Rightarrow> cancelOrder L ord (getOrderItemsInsert ord) StockChangeSourceOrderCancelled
       | Confirmed \<Rightarrow> request_return (co_Id ord) RefundInProgress reason
       | Shipped \<Rightarrow> request_return (co_Id ord) PendingReturn reason
       | Delivered \<Rightarrow> request_return (co_Id ord) PendingReturn reason
       | st \<Rightarrow> failE (ErrBadOrderStatus st)))"

definition SetOrderStatusToPendingReturn :: "string \<Rightarrow> string \<Rightarrow> shop_db \<Rightarrow> (shop_error + unit) \<times> shop_db" where
  "SetOrderStatusToPendingReturn orderUUID changedBy =
     txFunc (bindE (getOrderByUUIDForUpdate orderUUID) (\<lambda>ord.
       updateOrderStatusWithValidation (co_Id ord) PendingReturn changedBy ''User requested return''))"

section \<open>Shipping and delivery\<close>

definition updateOrderShipment :: "int \<Rightarrow> shipment_row \<Rightarrow> shop_db \<Rightarrow> shop_db" where
  "updateOrderShipment orderId sm =
     update_order orderId (\<lambda>o'. o'\<lparr>co_Shipment := map_option (\<lambda>row. row\<lparr>sm_TrackingCode := sm_TrackingCode sm,
       sm_CarrierId := sm_CarrierId sm, sm_ShippingDate := sm_ShippingDate sm,
       sm_EstimatedArrivalDate := sm_EstimatedArrivalDate sm\<rparr>) (co_Shipment o')\<rparr>)"

definition SetTrackingNumber :: "time \<Rightarrow> string \<Rightarrow> string \<Rightarrow> shop_db \<Rightarrow> (shop_error + unit) \<times> shop_db" where
  "SetTrackingNumber now orderUUID trackingCode =
     txFunc (bindE (getOrderByUUIDForUpdate orderUUID) (\<lambda>ord.
       thenE (readE (\<lambda>_. validateOrderStatus ord [Confirmed, Shipped]))
       (bindE (readE (getOrderShipment (co_Id ord))) (\<lambda>sm.
        let shipped = (case sm_ShippingDate sm of None \<Rightarrow> now | Some t \<Rightarrow> t);
            sm' = sm\<lparr>sm_TrackingCode := Some trackingCode, sm_ShippingDate := Some shipped\<rparr>
        in thenE (checkE (co_BuyerEmail ord \<noteq> None) ErrNoBuyer)
          (thenE (modifyE (updateOrderShipment (co_Id ord) sm'))
          (thenE (updateOrderStatus (co_Id ord) Shipped)
            (enqueue_order now AcctEventOrderShipped orderUUID shipped)))))))"

definition setShipmentDeliveredAt :: "int \<Rightarrow> time \<Rightarrow> shop_db \<Rightarrow> shop_db" where
  "setShipmentDeliveredAt orderId t =
     update_order orderId (\<lambda>o'. o'\<lparr>co_Shipment := map_option (\<lambda>row. row\<lparr>sm_DeliveredAt := Some t\<rparr>) (co_Shipment o')\<rparr>)"

definition deliverOrderTx :: "string \<Rightarrow> string \<Rightarrow> string \<Rightarrow> time \<Rightarrow> shop_db \<Rightarrow> (shop_error + bool) \<times> shop_db" where
  "deliverOrderTx orderUUID changedBy notes deliveredAt =
     bindE (getOrderByUUIDForUpdate orderUUID) (\<lambda>ord.
     if co_Status ord = Delivered then returnE False
     else if co_Status ord = Confirmed \<or> co_Status ord = Shipped
     then thenE (updateOrderStatusWithValidation (co_Id ord) Delivered changedBy notes)
       (thenE (modifyE (setShipmentDeliveredAt (co_Id ord) deliveredAt)) (returnE True))
     else returnE False)"

definition DeliverOrderWithSource :: "time \<Rightarrow> string \<Rightarrow> string \<Rightarrow> string \<Rightarrow> shop_db \<Rightarrow> (shop_error + bool) \<times> shop_db" where
  "DeliverOrderWithSource now orderUUID changedBy notes =
     txFunc (bindE (deliverOrderTx orderUUID changedBy notes now) (\<lambda>transitioned.
       thenE (whenE transitioned (enqueue_order now AcctEventOrderDelivered orderUUID now)) (returnE transitioned)))"

definition DeliveredOrder :: "time \<Rightarrow> string \<Rightarrow> shop_db \<Rightarrow> (shop_error + unit) \<times> shop_db" where
  "DeliveredOrder now orderUUID = bindE (DeliverOrderWithSource now orderUUID ''system'' []) (\<lambda>_. returnE ())"

text \<open>The driver counts the rows an UPDATE changed: writing the values a row already has changes none.\<close>

definition SetShipmentActualCost :: "string \<Rightarrow> decimal option \<Rightarrow> decimal option \<Rightarrow> shop_db \<Rightarrow> (shop_error + unit) \<times> shop_db" where
  "SetShipmentActualCost orderUUID actualCost returnShippingCost db =
     (let changed = (case find_order orderUUID db of
            None \<Rightarrow> False
          | Some o' \<Rightarrow> (case co_Shipment o' of None \<Rightarrow> False
              | Some sm \<Rightarrow> (sm_ActualCost sm, sm_ReturnShippingCost sm) \<noteq> (actualCost, returnShippingCost)))
      in if changed
         then (Inr (), db\<lparr>sh_orders := map (\<lambda>o'. if co_UUID o' = orderUUID
                 then o'\<lparr>co_Shipment := map_option (\<lambda>sm. sm\<lparr>sm_ActualCost := actualCost,
                        sm_ReturnShippingCost := returnShippingCost\<rparr>) (co_Shipment o')\<rparr>
                 else o') (sh_orders db)\<rparr>)
         else (Inl ErrNoShipment, db))"

section \<open>Payment\<close>

definition updateOrderPayment :: "int \<Rightarrow> PaymentInsert \<Rightarrow> shop_db \<Rightarrow> shop_db" where
  "updateOrderPayment orderId p =
     update_order orderId (\<lambda>o'. o'\<lparr>co_Payment := map_option (\<lambda>_. p) (co_Payment o')\<rparr>)"

text \<open>
  The voucher is looked up in the cache of promo codes, an argument; the code that was disabled is the
  result.
\<close>

definition disableVoucherInTx :: "PromoCode list \<Rightarrow> int option \<Rightarrow> shop_db \<Rightarrow> string \<times> shop_db" where
  "disableVoucherInTx cache promoID db =
     (case promoID of
        None \<Rightarrow> ([], db)
      | Some p \<Rightarrow>
          if p = 0 then ([], db)
          else case find (\<lambda>c. pc_Id c = p) cache of
              None \<Rightarrow> ([], db)
            | Some promo \<Rightarrow>
                if \<not> pc_Voucher promo then ([], db)
                else (pc_Code promo, db\<lparr>sh_promos := map (\<lambda>c. if pc_Code c = pc_Code promo then c\<lparr>pc_Allowed := False\<rparr> else c)
                                                       (sh_promos db)\<rparr>))"

text \<open>The SKU freeze of a sale: every line takes the live SKU of its variant, then the products lock.\<close>

definition live_variant :: "shop_db \<Rightarrow> int \<Rightarrow> Variant option" where
  "live_variant db i = find (\<lambda>v. vr_Id v = i) (sh_variants db)"

definition resnapshot :: "shop_db \<Rightarrow> order_item_row \<Rightarrow> order_item_row" where
  "resnapshot db r =
     (case (live_variant db (ir_VariantId r), find_product (ir_ProductId r) db) of
        (Some v, Some p) \<Rightarrow>
          (case vr_SKU v of
             None \<Rightarrow> r
           | Some sku \<Rightarrow>
               if sku = [] then r
               else r\<lparr>ir_VariantSKUSnapshot := sku,
                      ir_BaseSKUSnapshot := (case pr_SKU p of Some b \<Rightarrow> Some b | None \<Rightarrow> ir_BaseSKUSnapshot r)\<rparr>)
      | _ \<Rightarrow> r)"

definition missing_sku :: "shop_db \<Rightarrow> order_item_row \<Rightarrow> bool" where
  "missing_sku db r = (case live_variant db (ir_VariantId r) of None \<Rightarrow> True | Some v \<Rightarrow> no_sku (vr_SKU v))"

definition lock_products :: "time \<Rightarrow> order_item_row list \<Rightarrow> shop_db \<Rightarrow> shop_db" where
  "lock_products now items db =
     db\<lparr>sh_products := map (\<lambda>p. if pr_Id p \<in> ir_ProductId ` set items \<and> pr_SkuLockedAt p = None
                               then p\<lparr>pr_SkuLockedAt := Some now\<rparr> else p) (sh_products db)\<rparr>"

definition freezeAndResnapshotOrderSKUs :: "time \<Rightarrow> int \<Rightarrow> shop_db \<Rightarrow> (shop_error + unit) \<times> shop_db" where
  "freezeAndResnapshotOrderSKUs now orderID =
     thenE (modifyE (\<lambda>db. update_order orderID (\<lambda>o'. o'\<lparr>co_Items := map (resnapshot db) (co_Items o')\<rparr>) db))
     (bindE (readE (\<lambda>db. Inr (case find_order_id orderID db of None \<Rightarrow> [] | Some o' \<Rightarrow> co_Items o'))) (\<lambda>items.
      bindE (readE (\<lambda>db. Inr (filter (missing_sku db) items))) (\<lambda>missing.
      thenE (checkE (missing = []) (ErrNoLiveVariantSKU orderID))
        (modifyE (lock_products now items)))))"

definition payment_done_body :: "PromoCode list \<Rightarrow> time \<Rightarrow> string \<Rightarrow> PaymentInsert \<Rightarrow> shop_db
    \<Rightarrow> (shop_error + bool \<times> string) \<times> shop_db" where
  "payment_done_body cache now orderUUID p =
     bindE (getOrderByUUIDForUpdate orderUUID) (\<lambda>ord.
     if co_Status ord \<noteq> AwaitingPayment then returnE (False, [])
     else
       bindE (if promo_set ord then (\<lambda>db. (case disableVoucherInTx cache (co_PromoId ord) db of (code, db) \<Rightarrow> (Inr code, db)))
              else returnE []) (\<lambda>code.
       thenE (updateOrderStatus (co_Id ord) Confirmed)
       (thenE (modifyE (updateOrderPayment (co_Id ord) (p\<lparr>pi_IsTransactionDone := True\<rparr>)))
       (thenE (freezeAndResnapshotOrderSKUs now (co_Id ord))
       (thenE (enqueue_order now AcctEventOrderPaid orderUUID now)
         (returnE (True, code)))))))"

text \<open>Whether the order was confirmed, and the voucher to drop from the cache after the commit.\<close>

definition OrderPaymentDone :: "PromoCode list \<Rightarrow> time \<Rightarrow> string \<Rightarrow> PaymentInsert \<Rightarrow> shop_db
    \<Rightarrow> (shop_error + bool \<times> string) \<times> shop_db" where
  "OrderPaymentDone cache now orderUUID p = txFunc (payment_done_body cache now orderUUID p)"

definition expired_payment :: "PaymentInsert \<Rightarrow> PaymentInsert" where
  "expired_payment p = \<lparr>pi_PaymentMethodID = pi_PaymentMethodID p, pi_TransactionID = None, pi_TransactionAmount = 0,
     pi_TransactionAmountPaymentCurrency = 0, pi_ClientSecret = None, pi_IsTransactionDone = False,
     pi_ExpiredAt = None, pi_PaymentMethodType = None\<rparr>"

definition ExpireOrderPayment :: "decimal_lib \<Rightarrow> string \<Rightarrow> shop_db \<Rightarrow> (shop_error + PaymentInsert option) \<times> shop_db" where
  "ExpireOrderPayment L orderUUID =
     txFunc (bindE (getOrderByUUIDForUpdate orderUUID) (\<lambda>ord.
       if co_Status ord \<noteq> AwaitingPayment then returnE None
       else bindE (readE (\<lambda>_. requireE ErrNoPayment (co_Payment ord))) (\<lambda>payment.
         if pi_IsTransactionDone payment then returnE (Some payment)
         else
           thenE (modifyE (updateOrderPayment (co_Id ord) (expired_payment payment)))
           (thenE (RestoreStockForProductSizes L (getOrderItemsInsert ord)
                     (Some (order_history StockChangeSourceOrderCancelled ord)))
           (thenE (modifyE (releaseOpenPackagingClaims L (co_Id ord)))
           (thenE (updateOrderStatus (co_Id ord) Cancelled)
           (thenE (whenE (promo_set ord) (modifyE (removePromo (co_Id ord))))
             (returnE (Some payment)))))))))"

subsection \<open>The settled amount\<close>

definition settledEURReconcileTolerance :: decimal where "settledEURReconcileTolerance = 2 / 100"

definition shouldReconcileLoyaltyEUR :: "decimal_lib \<Rightarrow> string \<Rightarrow> decimal \<Rightarrow> shop_db \<Rightarrow> bool" where
  "shouldReconcileLoyaltyEUR L orderUUID settledBase db =
     (settledBase > 0 \<and>
      (case find_order orderUUID db of
         None \<Rightarrow> False
       | Some o' \<Rightarrow>
           (case co_TotalPriceEUR o' of
              None \<Rightarrow> False
            | Some eur \<Rightarrow> \<not> dl_Div L \<bar>eur - settledBase\<bar> settledBase > settledEURReconcileTolerance)))"

definition UpdateSettledBaseAndFee :: "decimal_lib \<Rightarrow> string \<Rightarrow> decimal \<Rightarrow> decimal \<Rightarrow> shop_db \<Rightarrow> shop_db" where
  "UpdateSettledBaseAndFee L orderUUID settledBase paymentFee db =
     (let reconcile = shouldReconcileLoyaltyEUR L orderUUID settledBase db
      in db\<lparr>sh_orders := map (\<lambda>o'. if co_UUID o' = orderUUID
           then o'\<lparr>co_TotalSettledBase := Some settledBase, co_PaymentFee := Some paymentFee,
                   co_TotalPriceEUR := (if reconcile then Some settledBase else co_TotalPriceEUR o')\<rparr>
           else o') (sh_orders db)\<rparr>)"

text \<open>
  \<open>client_secret\<close> is unique over the payments, and a write of the value a row already has changes no row.
\<close>

definition AssociatePaymentIntentWithOrder :: "string \<Rightarrow> string \<Rightarrow> shop_db \<Rightarrow> (shop_error + unit) \<times> shop_db" where
  "AssociatePaymentIntentWithOrder orderUUID paymentIntentId db =
     (if \<exists>o' \<in> set (sh_orders db). co_UUID o' \<noteq> orderUUID \<and>
           (case co_Payment o' of None \<Rightarrow> False | Some p \<Rightarrow> pi_ClientSecret p = Some paymentIntentId) \<and>
           (case find_order orderUUID db of None \<Rightarrow> False | Some me \<Rightarrow> co_Payment me \<noteq> None)
      then (Inl ErrPaymentIntentAlreadyAssociated, db)
      else case find_order orderUUID db of
          None \<Rightarrow> (Inl ErrPaymentRecordNotFound, db)
        | Some me \<Rightarrow>
            (case co_Payment me of
               None \<Rightarrow> (Inl ErrPaymentRecordNotFound, db)
             | Some p \<Rightarrow>
                 if pi_ClientSecret p = Some paymentIntentId then (Inl ErrPaymentRecordNotFound, db)
                 else (Inr (), update_order (co_Id me)
                         (\<lambda>o'. o'\<lparr>co_Payment := map_option (\<lambda>p. p\<lparr>pi_ClientSecret := Some paymentIntentId\<rparr>) (co_Payment o')\<rparr>) db)))"

definition UpdateTotalPaymentCurrency :: "string \<Rightarrow> decimal \<Rightarrow> shop_db \<Rightarrow> shop_db" where
  "UpdateTotalPaymentCurrency orderUUID tapc db =
     db\<lparr>sh_orders := map (\<lambda>o'. if co_UUID o' = orderUUID
          then o'\<lparr>co_Payment := map_option (\<lambda>p. p\<lparr>pi_TransactionAmountPaymentCurrency := tapc\<rparr>) (co_Payment o')\<rparr>
          else o') (sh_orders db)\<rparr>"

end
