(* ===== verification/Order_Pricing.thy ===== *)
theory Order_Pricing
  imports Order_Lifecycle
begin

text \<open>
  What a cart is worth and what of it can be sold (internal/store/order/validation.go, util.go, with
  the rules of internal/entity/promo.go, shipment.go and order.go): the variant a line means, its
  price, the units in stock, the total, the promo code and the shipping.  All of it reads the tables
  and changes nothing.

  What the process holds beside the tables is the record \<open>shop_env\<close>: the clock, the cached dictionaries,
  the reference drawn for a new order, and the two choices the language leaves open, the order of a
  range over a map and the order of equal elements in a sort.
\<close>

section \<open>Carriers, promo codes, tiers\<close>

record ShipmentCarrier =
  ca_Id :: int
  ca_Allowed :: bool
  ca_Prices :: "(string \<times> decimal) list"
  ca_AllowedRegions :: "string list"

record shop_env =
  en_now :: time
  en_carriers :: "ShipmentCarrier list"
  en_methods :: "PaymentMethod list"
  en_promos :: "PromoCode list"
  en_complimentary :: "(string \<times> decimal) list"
  en_maxOrderItems :: int
  en_baseCurrency :: string
  en_reference :: string
  en_range :: "OrderItemInsert list \<Rightarrow> OrderItemInsert list"
  en_sort :: "OrderItemInsert list \<Rightarrow> OrderItemInsert list"

abbreviation ShippingRegionAfrica :: string where "ShippingRegionAfrica \<equiv> ''AFRICA''"
abbreviation ShippingRegionAmericas :: string where "ShippingRegionAmericas \<equiv> ''AMERICAS''"
abbreviation ShippingRegionAsiaPacific :: string where "ShippingRegionAsiaPacific \<equiv> ''ASIA PACIFIC''"
abbreviation ShippingRegionEurope :: string where "ShippingRegionEurope \<equiv> ''EUROPE''"
abbreviation ShippingRegionMiddleEast :: string where "ShippingRegionMiddleEast \<equiv> ''MIDDLE EAST''"

definition countryToRegion :: "string \<rightharpoonup> string" where
  "countryToRegion = map_of (
     map (\<lambda>c. (c, ShippingRegionAfrica)) [''DZ'', ''AO'', ''BJ'', ''BW'', ''BF'', ''BI'', ''CV'',
       ''CM'', ''CF'', ''TD'', ''KM'', ''CG'', ''CD'', ''DJ'', ''EG'', ''GQ'', ''ER'', ''SZ'', ''ET'', ''GA'',
       ''GM'', ''GH'', ''GN'', ''GW'', ''CI'', ''KE'', ''LS'', ''LR'', ''LY'', ''MG'', ''MW'', ''ML'', ''MR'',
       ''MU'', ''MA'', ''MZ'', ''NA'', ''NE'', ''NG'', ''RW'', ''ST'', ''SN'', ''SC'', ''SL'', ''SO'', ''ZA'',
       ''SS'', ''SD'', ''TZ'', ''TG'', ''TN'', ''UG'', ''ZM'', ''ZW''] @
     map (\<lambda>c. (c, ShippingRegionAmericas)) [''AG'', ''AR'', ''BS'', ''BB'', ''BZ'', ''BO'', ''BR'',
       ''CA'', ''CL'', ''CO'', ''CR'', ''CU'', ''DM'', ''DO'', ''EC'', ''SV'', ''GD'', ''GT'', ''HT'', ''HN'',
       ''JM'', ''MX'', ''NI'', ''PA'', ''PY'', ''PE'', ''KN'', ''LC'', ''VC'', ''SR'', ''TT'', ''US'', ''UY'',
       ''VE''] @
     map (\<lambda>c. (c, ShippingRegionAsiaPacific)) [''AF'', ''AU'', ''BD'', ''BT'', ''BN'', ''KH'', ''CN'',
       ''FJ'', ''IN'', ''ID'', ''JP'', ''KZ'', ''KI'', ''KP'', ''KR'', ''KG'', ''LA'', ''MY'', ''MV'', ''MH'',
       ''FM'', ''MN'', ''MM'', ''NR'', ''NP'', ''NZ'', ''PK'', ''PW'', ''PG'', ''PH'', ''WS'', ''SB'', ''SG'',
       ''LK'', ''TW'', ''TJ'', ''TH'', ''TL'', ''TO'', ''TM'', ''TV'', ''UZ'', ''VU'', ''VN''] @
     map (\<lambda>c. (c, ShippingRegionEurope)) [''AL'', ''AD'', ''AT'', ''BY'', ''BE'', ''BA'', ''BG'',
       ''HR'', ''CY'', ''CZ'', ''DK'', ''EE'', ''FI'', ''FR'', ''DE'', ''GR'', ''HU'', ''IS'', ''IE'', ''IT'',
       ''LV'', ''LI'', ''LT'', ''LU'', ''MT'', ''MD'', ''MC'', ''ME'', ''NL'', ''MK'', ''NO'', ''PL'', ''PT'',
       ''RO'', ''RU'', ''SM'', ''RS'', ''SK'', ''SI'', ''ES'', ''SE'', ''CH'', ''UA'', ''GB'', ''VA''] @
     map (\<lambda>c. (c, ShippingRegionMiddleEast)) [''BH'', ''IR'', ''IQ'', ''IL'', ''JO'', ''KW'', ''LB'',
       ''OM'', ''PS'', ''QA'', ''SA'', ''SY'', ''TR'', ''AE'', ''YE''])"

definition CountryToRegion :: "string \<Rightarrow> string option" where
  "CountryToRegion countryCode =
     (if countryCode = [] then None else countryToRegion (ToUpper (TrimSpace countryCode)))"

definition PriceDecimal :: "decimal_lib \<Rightarrow> ShipmentCarrier \<Rightarrow> string \<Rightarrow> shop_error + decimal" where
  "PriceDecimal L sc c =
     (case find (\<lambda>(cur, _). EqualFold cur c) (ca_Prices sc) of
        None \<Rightarrow> Inl (ErrCheckout (ErrNoCarrierPrice (ca_Id sc) c))
      | Some (_, price) \<Rightarrow> Inr (RoundCurrency L price c))"

definition AvailableForRegion :: "ShipmentCarrier \<Rightarrow> string \<Rightarrow> bool" where
  "AvailableForRegion sc region \<longleftrightarrow> ca_AllowedRegions sc = [] \<or> region \<in> set (ca_AllowedRegions sc)"

definition no_promo :: PromoCode where
  "no_promo = \<lparr>pc_Id = 0, pc_Code = [], pc_FreeShipping = False, pc_Discount = 0, pc_Expiration = 0, pc_Start = 0,
     pc_Voucher = False, pc_Allowed = False\<rparr>"

definition IsAllowed :: "time \<Rightarrow> PromoCode \<Rightarrow> bool" where
  "IsAllowed now pc \<longleftrightarrow> pc_Allowed pc \<and> pc_Expiration pc > now \<and> pc_Start pc < now"

definition CalculateTotalWithPromo :: "decimal_lib \<Rightarrow> time \<Rightarrow> PromoCode \<Rightarrow> decimal \<Rightarrow> decimal \<Rightarrow> nat \<Rightarrow> decimal \<times> bool" where
  "CalculateTotalWithPromo L now pc subtotal shippingPrice decimalPlaces =
     (if \<not> IsAllowed now pc then (dl_Round L (subtotal + shippingPrice) decimalPlaces, False)
      else
        let discounted = (if pc_Discount pc \<noteq> 0
              then dl_Round L (subtotal * dl_Div L (100 - pc_Discount pc) 100) decimalPlaces else subtotal)
        in if pc_FreeShipping pc then (dl_Round L discounted decimalPlaces, True)
           else (dl_Round L (discounted + shippingPrice) decimalPlaces, False))"

definition SubtotalWithPromo :: "decimal_lib \<Rightarrow> time \<Rightarrow> PromoCode \<Rightarrow> decimal \<Rightarrow> decimal \<Rightarrow> nat \<Rightarrow> decimal" where
  "SubtotalWithPromo L now pc subtotal shippingPrice decimalPlaces =
     fst (CalculateTotalWithPromo L now pc subtotal shippingPrice decimalPlaces)"

abbreviation TierCodeHacker :: int where "TierCodeHacker \<equiv> 99"

definition TierCanPurchase :: "int \<Rightarrow> int \<Rightarrow> bool" where
  "TierCanPurchase buyerTier minTier =
     (if minTier = TierCodeHacker then buyerTier = TierCodeHacker else buyerTier \<ge> minTier)"

section \<open>Guards of a checkout\<close>

definition validatePaymentMethod :: "shop_env \<Rightarrow> PaymentMethodName \<Rightarrow> shop_error + PaymentMethod" where
  "validatePaymentMethod env pmn =
     (case find (\<lambda>pm. pm_Name pm = pmn) (en_methods env) of
        None \<Rightarrow> Inl (ErrCheckout ErrPaymentMethodUnknown)
      | Some pm \<Rightarrow> if pm_Allowed pm then Inr pm else Inl (ErrPaymentMethodNotAllowed (pm_Id pm)))"

definition validatePaymentMethodAllowed :: "PaymentMethod \<Rightarrow> shop_error + unit" where
  "validatePaymentMethodAllowed pm = (if pm_Allowed pm then Inr () else Inl (ErrPaymentMethodNotAllowed (pm_Id pm)))"

definition GetShipmentCarrierById :: "shop_env \<Rightarrow> int \<Rightarrow> ShipmentCarrier option" where
  "GetShipmentCarrierById env i = find (\<lambda>sc. ca_Id sc = i) (en_carriers env)"

definition validateShipmentCarrier :: "shop_env \<Rightarrow> int \<Rightarrow> string \<Rightarrow> shop_error + ShipmentCarrier" where
  "validateShipmentCarrier env carrierId shippingCountry =
     (case GetShipmentCarrierById env carrierId of
        None \<Rightarrow> Inl (ErrCheckout (ErrCarrierUnknown carrierId))
      | Some carrier \<Rightarrow>
          if \<not> ca_Allowed carrier then Inl (ErrCheckout (ErrCarrierNotAllowed carrierId))
          else if shippingCountry \<noteq> [] \<and> ca_AllowedRegions carrier \<noteq> [] then
            (case CountryToRegion shippingCountry of
               None \<Rightarrow> Inl (ErrCheckout (ErrCountryUnmapped shippingCountry))
             | Some region \<Rightarrow>
                 if AvailableForRegion carrier region then Inr carrier else Inl (ErrCheckout (ErrRegionNotServed region)))
          else Inr carrier)"

text \<open>Only the digits are kept.\<close>

definition sanitizePhone :: "string \<Rightarrow> shop_error + string" where
  "sanitizePhone phone =
     (let sanitized = filter is_digit phone
      in if length sanitized < 7 \<or> length sanitized > 15 then Inl (ErrCheckout (ErrInvalidPhone (length sanitized))) else Inr sanitized)"

definition requirePositivePrice :: "int \<Rightarrow> decimal \<Rightarrow> shop_error option" where
  "requirePositivePrice productID price = (if price \<le> 0 then Some (ErrInput (ErrPriceNotPositive productID price)) else None)"

section \<open>Which variant a line means\<close>

definition live_sku :: "string \<Rightarrow> shop_db \<Rightarrow> Variant option" where
  "live_sku sku db = find (\<lambda>v. vr_SKU v = Some sku) (sh_variants db)"

text \<open>
  By variant id, else by the pair of product and size, which means the first grade, else by SKU.
\<close>

definition resolved_variant :: "shop_db \<Rightarrow> OrderItemInsert \<Rightarrow> Variant option" where
  "resolved_variant db it =
     (if oi_VariantID it \<noteq> 0 then live_variant db (oi_VariantID it)
      else if oi_ProductId it \<noteq> 0 \<and> oi_SizeId it \<noteq> 0 then find_variant (oi_ProductId it) (oi_SizeId it) VariantGradeA db
      else if oi_VariantSKU it \<noteq> [] then live_sku (oi_VariantSKU it) db
      else None)"

definition resolve_line :: "shop_db \<Rightarrow> OrderItemInsert \<Rightarrow> OrderItemInsert" where
  "resolve_line db it =
     (case resolved_variant db it of
        None \<Rightarrow> it
      | Some v \<Rightarrow> it\<lparr>oi_VariantID := vr_Id v, oi_ProductId := vr_ProductId v, oi_SizeId := vr_SizeId v,
                     oi_VariantSKU := (case vr_SKU v of None \<Rightarrow> [] | Some sku \<Rightarrow> sku), oi_Grade := vr_Grade v\<rparr>)"

definition resolveVariantAddressing :: "shop_db \<Rightarrow> OrderItemInsert list \<Rightarrow> OrderItemInsert list" where
  "resolveVariantAddressing db items = map (resolve_line db) items"

section \<open>What the tables say of the lines\<close>

definition getProductIdsFromItems :: "OrderItemInsert list \<Rightarrow> int list" where
  "getProductIdsFromItems items =
     foldl (\<lambda>ids it. if oi_ProductId it \<in> set ids then ids else ids @ [oi_ProductId it]) [] items"

text \<open>The published colourways that have a thumbnail, in the order of the ids.\<close>

definition listed_product :: "shop_db \<Rightarrow> int \<Rightarrow> product_row option" where
  "listed_product db i =
     (case find_product i db of
        None \<Rightarrow> None
      | Some p \<Rightarrow> if pr_LifecycleStatus p = 2 \<and> pr_ThumbnailId p \<noteq> None then Some p else None)"

definition GetProductsByIds :: "int list \<Rightarrow> shop_db \<Rightarrow> product_row list" where
  "GetProductsByIds ids db = List.map_filter (listed_product db) ids"

definition getProductsSizesByIds :: "shop_db \<Rightarrow> OrderItemInsert list \<Rightarrow> Variant list" where
  "getProductsSizesByIds db items =
     filter (\<lambda>v. vr_Status v = 1 \<and>
        (\<exists>it \<in> set items. is_variant (oi_ProductId it) (oi_SizeId it) (NormalizeVariantGrade (oi_Grade it)) v)) (sh_variants db)"

text \<open>The manual prices of the second grade, by variant id and currency in upper case.\<close>

definition fetchVariantPrices :: "shop_db \<Rightarrow> OrderItemInsert list \<Rightarrow> int \<Rightarrow> string \<Rightarrow> decimal option" where
  "fetchVariantPrices db items i c =
     (if \<exists>it \<in> set items. oi_Grade it = VariantGradeB \<and> oi_VariantID it = i \<and> i \<noteq> 0
      then map_option (\<lambda>(_, _, price). price) (find (\<lambda>(j, cur, _). j = i \<and> ToUpper cur = c) (sh_variantPrices db))
      else None)"

definition SalePercentageDecimal :: "decimal_lib \<Rightarrow> product_row \<Rightarrow> decimal" where
  "SalePercentageDecimal L p = (case pr_SalePercentage p of Some d \<Rightarrow> dl_Round L d 2 | None \<Rightarrow> 0)"

definition getProductPrice :: "product_row \<Rightarrow> string \<Rightarrow> shop_error + decimal" where
  "getProductPrice p c =
     (case find (\<lambda>(cur, _). EqualFold cur c) (pr_Prices p) of
        None \<Rightarrow> Inl (ErrInput (ErrPriceMissing (pr_Id p) c))
      | Some (_, price) \<Rightarrow>
          (case requirePositivePrice (pr_Id p) price of Some err \<Rightarrow> Inl err | None \<Rightarrow> Inr price))"

section \<open>What of a cart can be sold\<close>

datatype OrderItemAdjustmentReason = AdjustmentReasonOutOfStock | AdjustmentReasonQuantityReduced
  | AdjustmentReasonQuantityCapped

record OrderItemAdjustment =
  aj_ProductId :: int
  aj_SizeId :: int
  aj_VariantSKU :: string
  aj_RequestedQuantity :: decimal
  aj_AdjustedQuantity :: decimal
  aj_Reason :: OrderItemAdjustmentReason

definition adjustment :: "OrderItemInsert \<Rightarrow> decimal \<Rightarrow> decimal \<Rightarrow> OrderItemAdjustmentReason \<Rightarrow> OrderItemAdjustment" where
  "adjustment it requested adjusted reason = \<lparr>aj_ProductId = oi_ProductId it, aj_SizeId = oi_SizeId it,
     aj_VariantSKU = oi_VariantSKU it, aj_RequestedQuantity = requested, aj_AdjustedQuantity = adjusted,
     aj_Reason = reason\<rparr>"

definition live_size :: "Variant list \<Rightarrow> OrderItemInsert \<Rightarrow> Variant option" where
  "live_size sizes it =
     find (is_variant (oi_ProductId it) (oi_SizeId it) (NormalizeVariantGrade (oi_Grade it))) sizes"

text \<open>
  The stock of a line: none left drops it, too little cuts it, and a product that is not listed drops it.
  The result is the line to sell, with its product, if any, and what was adjusted.
\<close>

definition stock_line :: "decimal_lib \<Rightarrow> product_row list \<Rightarrow> Variant list \<Rightarrow> OrderItemInsert
    \<Rightarrow> (OrderItemInsert \<times> product_row) option \<times> OrderItemAdjustment list" where
  "stock_line L products sizes it =
     (let requested = QuantityDecimal L it;
          gone = (\<lambda>q. adjustment it q 0 AdjustmentReasonOutOfStock)
      in case live_size sizes it of
           None \<Rightarrow> (None, [gone requested])
         | Some v \<Rightarrow>
             if vr_Quantity v \<le> 0 then (None, [gone requested])
             else
               let stock = of_int (vr_Quantity v);
                   reduced = requested > stock;
                   it' = (if reduced then it\<lparr>oi_Quantity := stock\<rparr> else it);
                   adjs = (if reduced then [adjustment it requested stock AdjustmentReasonQuantityReduced] else [])
               in case find (\<lambda>p. pr_Id p = oi_ProductId it) products of
                    None \<Rightarrow> (None, adjs @ [gone (QuantityDecimal L it')])
                  | Some p \<Rightarrow> (Some (it', p), adjs))"

definition price_line :: "decimal_lib \<Rightarrow> (int \<Rightarrow> string \<Rightarrow> decimal option) \<Rightarrow> string \<Rightarrow> product_row \<Rightarrow> OrderItemInsert
    \<Rightarrow> shop_error + OrderItemInsert" where
  "price_line L variantPrices c p it =
     (if oi_Grade it = VariantGradeB then
        (case variantPrices (oi_VariantID it) (ToUpper c) of
           None \<Rightarrow> Inl (ErrInput (ErrSecondsUnpriced (oi_VariantSKU it) c))
         | Some price \<Rightarrow>
             (case requirePositivePrice (oi_ProductId it) price of
                Some err \<Rightarrow> Inl err
              | None \<Rightarrow> Inr (it\<lparr>oi_ProductPrice := price, oi_ProductSalePercentage := 0, oi_ProductPriceWithSale := price\<rparr>)))
      else
        (case getProductPrice p c of
           Inl _ \<Rightarrow> Inl (ErrInput (ErrPriceMissing (pr_Id p) c))
         | Inr price \<Rightarrow>
             let sale = SalePercentageDecimal L p
             in if sale > 0
                then Inr (it\<lparr>oi_ProductPrice := price, oi_ProductSalePercentage := sale,
                            oi_ProductPriceWithSale := price * dl_Div L (100 - sale) 100\<rparr>)
                else Inr (it\<lparr>oi_ProductPrice := price, oi_ProductPriceWithSale := price\<rparr>)))"

text \<open>One line of the loop; a quantity that is not positive refuses the whole cart.\<close>

definition validate_line :: "decimal_lib \<Rightarrow> product_row list \<Rightarrow> Variant list \<Rightarrow> (int \<Rightarrow> string \<Rightarrow> decimal option) \<Rightarrow> string
    \<Rightarrow> OrderItemInsert \<Rightarrow> shop_error + OrderItemInsert list \<times> OrderItemAdjustment list" where
  "validate_line L products sizes variantPrices c it =
     (if oi_Quantity it \<le> 0 then Inl (ErrInput (ErrQuantityNotPositive (oi_ProductId it) (oi_SizeId it)))
      else case stock_line L products sizes it of
             (None, adjs) \<Rightarrow> Inr ([], adjs)
           | (Some (it', p), adjs) \<Rightarrow>
               (case price_line L variantPrices c p it' of Inl err \<Rightarrow> Inl err | Inr it'' \<Rightarrow> Inr ([it''], adjs)))"

fun collect_lines :: "('x \<Rightarrow> 'e + 'a list \<times> 'b list) \<Rightarrow> 'x list \<Rightarrow> 'e + 'a list \<times> 'b list" where
  "collect_lines f [] = Inr ([], [])"
| "collect_lines f (x # xs) =
     (case f x of
        Inl err \<Rightarrow> Inl err
      | Inr (as, bs) \<Rightarrow>
          (case collect_lines f xs of Inl err \<Rightarrow> Inl err | Inr (as', bs') \<Rightarrow> Inr (as @ as', bs @ bs')))"

definition validateOrderItemsStockAvailability :: "decimal_lib \<Rightarrow> shop_db \<Rightarrow> OrderItemInsert list \<Rightarrow> string
    \<Rightarrow> shop_error + OrderItemInsert list \<times> OrderItemAdjustment list" where
  "validateOrderItemsStockAvailability L db items c =
     (if items = [] then Inl (ErrInput ErrNothingToValidate)
      else
        let items' = resolveVariantAddressing db items;
            products = GetProductsByIds (getProductIdsFromItems items') db;
            sizes = getProductsSizesByIds db items';
            variantPrices = fetchVariantPrices db items'
        in collect_lines (validate_line L products sizes variantPrices c) items')"

definition validate_custom_line :: "decimal_lib \<Rightarrow> shop_env \<Rightarrow> product_row list \<Rightarrow> Variant list
    \<Rightarrow> (int \<Rightarrow> string \<Rightarrow> decimal option) \<Rightarrow> OrderItemInsert \<Rightarrow> shop_error + OrderItemInsert list \<times> OrderItemAdjustment list" where
  "validate_custom_line L env products sizes variantPrices it =
     (if oi_Quantity it \<le> 0 then Inl (ErrInput (ErrQuantityNotPositive (oi_ProductId it) (oi_SizeId it)))
      else case requirePositivePrice (oi_ProductId it) (ProductPriceDecimal L it) of
        Some err \<Rightarrow> Inl err
      | None \<Rightarrow>
          if oi_Grade it = VariantGradeB \<and> variantPrices (oi_VariantID it) (ToUpper (en_baseCurrency env)) = None
          then Inl (ErrInput (ErrSecondsUnpriced (oi_VariantSKU it) (en_baseCurrency env)))
          else case stock_line L products sizes it of
                 (None, adjs) \<Rightarrow> Inr ([], adjs)
               | (Some (it', _), adjs) \<Rightarrow> Inr ([it'], adjs))"

definition validateOrderItemsStockForCustomOrder :: "decimal_lib \<Rightarrow> shop_env \<Rightarrow> shop_db \<Rightarrow> OrderItemInsert list
    \<Rightarrow> shop_error + OrderItemInsert list \<times> OrderItemAdjustment list" where
  "validateOrderItemsStockForCustomOrder L env db items =
     (if items = [] then Inl (ErrInput ErrNothingToValidate)
      else
        let items' = resolveVariantAddressing db items;
            products = GetProductsByIds (getProductIdsFromItems items') db;
            sizes = getProductsSizesByIds db items';
            variantPrices = fetchVariantPrices db items'
        in collect_lines (validate_custom_line L env products sizes variantPrices) items')"

section \<open>Lines and totals\<close>

text \<open>The order in which two lists of lines are compared: product, size, variant.\<close>

definition line_less :: "OrderItemInsert \<Rightarrow> OrderItemInsert \<Rightarrow> bool" where
  "line_less a b =
     (if oi_ProductId a = oi_ProductId b then
        (if oi_SizeId a = oi_SizeId b then oi_VariantID a < oi_VariantID b else oi_SizeId a < oi_SizeId b)
      else oi_ProductId a < oi_ProductId b)"

definition same_line :: "decimal_lib \<Rightarrow> bool \<Rightarrow> OrderItemInsert \<Rightarrow> OrderItemInsert \<Rightarrow> bool" where
  "same_line L onlyQuantity a b \<longleftrightarrow>
     oi_ProductId a = oi_ProductId b \<and> oi_SizeId a = oi_SizeId b \<and> QuantityDecimal L a = QuantityDecimal L b \<and>
     (onlyQuantity \<or> (ProductPriceDecimal L a = ProductPriceDecimal L b \<and>
                      ProductSalePercentageDecimal L a = ProductSalePercentageDecimal L b))"

text \<open>The arguments are sorted in place; here they come back sorted.\<close>

definition compareItems :: "decimal_lib \<Rightarrow> shop_env \<Rightarrow> OrderItemInsert list \<Rightarrow> OrderItemInsert list \<Rightarrow> bool
    \<Rightarrow> bool \<times> OrderItemInsert list \<times> OrderItemInsert list" where
  "compareItems L env items validItems onlyQuantity =
     (let a = en_sort env items; b = en_sort env validItems
      in (length a = length b \<and> list_all (\<lambda>(x, y). same_line L onlyQuantity x y) (zip a b), a, b))"

definition line_amount :: "decimal_lib \<Rightarrow> OrderItemInsert \<Rightarrow> decimal" where
  "line_amount L it =
     (let price = ProductPriceDecimal L it; sale = ProductSalePercentageDecimal L it;
          price = (if sale > 0 then price * dl_Div L (100 - sale) 100 else price)
      in price * QuantityDecimal L it)"

fun sum_lines :: "decimal_lib \<Rightarrow> decimal \<Rightarrow> OrderItemInsert list \<Rightarrow> shop_error + decimal" where
  "sum_lines L amount [] = Inr amount"
| "sum_lines L amount (it # its) =
     (if QuantityDecimal L it \<le> 0 then Inl (ErrInput (ErrLineQuantityNotPositive (oi_ProductId it)))
      else sum_lines L (amount + line_amount L it) its)"

definition calculateTotalAmount :: "decimal_lib \<Rightarrow> OrderItemInsert list \<Rightarrow> string \<Rightarrow> shop_error + decimal" where
  "calculateTotalAmount L items c =
     (if items = [] then Inl (ErrCheckout ErrNoItemsToTotal)
      else case sum_lines L 0 items of Inl err \<Rightarrow> Inl err | Inr amount \<Rightarrow> Inr (RoundCurrency L amount c))"

text \<open>Lines with the same addressing are merged; the range over the map orders what is left.\<close>

definition merge_key :: "OrderItemInsert \<Rightarrow> string \<times> int \<times> int \<times> int" where
  "merge_key it = (oi_VariantSKU it, oi_VariantID it, oi_ProductId it, oi_SizeId it)"

fun merge_into :: "decimal_lib \<Rightarrow> OrderItemInsert \<Rightarrow> OrderItemInsert list \<Rightarrow> OrderItemInsert list" where
  "merge_into L it [] = [it]"
| "merge_into L it (x # xs) =
     (if merge_key x = merge_key it then x\<lparr>oi_Quantity := QuantityDecimal L x + QuantityDecimal L it\<rparr> # xs
      else x # merge_into L it xs)"

definition mergeOrderItems :: "decimal_lib \<Rightarrow> shop_env \<Rightarrow> OrderItemInsert list \<Rightarrow> OrderItemInsert list" where
  "mergeOrderItems L env items =
     en_range env (foldl (\<lambda>m it. if oi_Quantity it = 0 then m else merge_into L it m) [] items)"

definition cap_line :: "decimal_lib \<Rightarrow> int \<Rightarrow> OrderItemInsert \<Rightarrow> OrderItemInsert" where
  "cap_line L n it = (if QuantityDecimal L it > of_int n then it\<lparr>oi_Quantity := of_int n\<rparr> else it)"

definition adjustQuantities :: "decimal_lib \<Rightarrow> int \<Rightarrow> OrderItemInsert list \<Rightarrow> OrderItemInsert list \<times> OrderItemAdjustment list" where
  "adjustQuantities L n items =
     (map (cap_line L n) items,
      map (\<lambda>it. adjustment it (QuantityDecimal L it) (of_int n) AdjustmentReasonQuantityCapped)
        (filter (\<lambda>it. QuantityDecimal L it > of_int n) items))"

definition custom_line :: "decimal \<Rightarrow> decimal \<Rightarrow> OrderItemInsert \<Rightarrow> OrderItemInsert" where
  "custom_line quantity price it = it\<lparr>oi_Quantity := quantity, oi_ProductPrice := price,
     oi_ProductSalePercentage := 0, oi_ProductPriceWithSale := price\<rparr>"

fun custom_lines :: "decimal_lib \<Rightarrow> string \<Rightarrow> ((int \<times> int \<times> int) \<times> decimal) list \<Rightarrow> OrderItemInsert list
    \<Rightarrow> shop_error + OrderItemInsert list" where
  "custom_lines L c prices [] = Inr []"
| "custom_lines L c prices (it # its) =
     (let quantity = QuantityDecimal L it; price = RoundCurrency L (oi_ProductPrice it) c;
          key = (oi_ProductId it, oi_SizeId it, oi_VariantID it)
      in if quantity \<le> 0 then Inl (ErrInput (ErrQuantityNotPositive (oi_ProductId it) (oi_SizeId it)))
         else case requirePositivePrice (oi_ProductId it) price of
           Some err \<Rightarrow> Inl err
         | None \<Rightarrow>
             (case map_of (filter (\<lambda>(_, previous). previous \<noteq> price) prices) key of
                Some previous \<Rightarrow> Inl (ErrInput (ErrInconsistentPrices (oi_ProductId it) (oi_SizeId it) previous price))
              | None \<Rightarrow> map_sum id ((#) (custom_line quantity price it)) (custom_lines L c ((key, price) # prices) its)))"

definition normalizeCustomOrderItems :: "decimal_lib \<Rightarrow> OrderItemInsert list \<Rightarrow> string \<Rightarrow> shop_error + OrderItemInsert list" where
  "normalizeCustomOrderItems L items c =
     (if \<not> IsSupported c then Inl (ErrInput (ErrCurrencyUnsupported c)) else custom_lines L c [] items)"

text \<open>The first listed product of the cart that the buyer's tier does not reach.\<close>

definition validateOrderItemsTierAccess :: "shop_db \<Rightarrow> OrderItemInsert list \<Rightarrow> int \<Rightarrow> shop_error + unit" where
  "validateOrderItemsTierAccess db items buyerTier =
     (let copied = resolveVariantAddressing db items;
          products = GetProductsByIds (getProductIdsFromItems copied) db
      in case find (\<lambda>p. \<not> TierCanPurchase buyerTier (pr_MinTier p)) products of
           None \<Rightarrow> Inr ()
         | Some p \<Rightarrow> Inl (ErrInput (ErrTierLocked (case pr_SKU p of None \<Rightarrow> [] | Some sku \<Rightarrow> sku) (pr_MinTier p))))"

section \<open>The validation of a cart\<close>

text \<open>Whether an error is a \<open>ValidationError\<close>.\<close>

fun is_validation_error :: "shop_error \<Rightarrow> bool" where
  "is_validation_error (ErrInput _) = True"
| "is_validation_error _ = False"

text \<open>The adjustments come with the error when they removed every line.\<close>

definition validateOrderItemsInsert :: "decimal_lib \<Rightarrow> shop_env \<Rightarrow> shop_db \<Rightarrow> OrderItemInsert list \<Rightarrow> string
    \<Rightarrow> shop_error \<times> OrderItemAdjustment list + OrderItemInsert list \<times> OrderItemAdjustment list" where
  "validateOrderItemsInsert L env db items c =
     (let (items', capAdjustments) = adjustQuantities L (en_maxOrderItems env) items
      in case validateOrderItemsStockAvailability L db items' c of
           Inl err \<Rightarrow> Inl (err, [])
         | Inr (validItems, stockAdjustments) \<Rightarrow>
             let allAdjustments = capAdjustments @ stockAdjustments
             in if validItems = [] then Inl (ErrInput ErrNoValidItems, allAdjustments)
                else Inr (validItems, allAdjustments))"

record OrderItemValidation =
  va_ValidItems :: "OrderItemInsert list"
  va_Subtotal :: decimal
  va_HasChanged :: bool
  va_ItemAdjustments :: "OrderItemAdjustment list"

definition emptyChangedValidation :: "OrderItemAdjustment list \<Rightarrow> OrderItemValidation" where
  "emptyChangedValidation adjustments = \<lparr>va_ValidItems = [], va_Subtotal = 0, va_HasChanged = True,
     va_ItemAdjustments = adjustments\<rparr>"

text \<open>Before checkout the cart is capped and an unsellable cart is a result; under the lock it is not.\<close>

definition validateOrderItemsInsertWithLock :: "decimal_lib \<Rightarrow> shop_env \<Rightarrow> shop_db \<Rightarrow> OrderItemInsert list \<Rightarrow> string \<Rightarrow> bool
    \<Rightarrow> shop_error + OrderItemValidation" where
  "validateOrderItemsInsertWithLock L env db items c lockStock =
     (if items = [] then Inl (ErrInput ErrNothingToValidate)
      else
        let mergedItems = mergeOrderItems L env items
        in case (if lockStock
                 then map_sum (\<lambda>err. (err, [])) id (validateOrderItemsStockAvailability L db mergedItems c)
                 else validateOrderItemsInsert L env db mergedItems c) of
             Inl (err, adjs) \<Rightarrow>
               if is_validation_error err \<and> \<not> lockStock then Inr (emptyChangedValidation adjs) else Inl err
           | Inr (validItems, adjs) \<Rightarrow>
               if validItems = [] then (if lockStock then Inl (ErrInput ErrNoValidItems) else Inr (emptyChangedValidation adjs))
               else case calculateTotalAmount L validItems c of
                   Inl err \<Rightarrow> Inl err
                 | Inr amount \<Rightarrow>
                     if amount = 0 then Inl (ErrInput ErrTotalAmountIsZero)
                     else Inr \<lparr>va_ValidItems = validItems, va_Subtotal = RoundCurrency L amount c,
                            va_HasChanged = \<not> fst (compareItems L env items validItems True), va_ItemAdjustments = adjs\<rparr>)"

definition SubtotalDecimal :: "decimal_lib \<Rightarrow> OrderItemValidation \<Rightarrow> decimal" where
  "SubtotalDecimal L oiv = dl_Round L (va_Subtotal oiv) 2"

section \<open>Taxes and the loyalty total\<close>

definition getVatRatePct :: "shop_db \<Rightarrow> string \<Rightarrow> decimal" where
  "getVatRatePct db country =
     (let cc = ToUpper (TrimSpace country)
      in if length cc \<noteq> 2 then 0
         else case find (\<lambda>(k, _). ToUpper k = cc) (sh_vatRates db) of None \<Rightarrow> 0 | Some (_, r) \<Rightarrow> r)"

definition VatFromInclusive :: "decimal_lib \<Rightarrow> decimal \<Rightarrow> decimal \<Rightarrow> decimal" where
  "VatFromInclusive L g ratePct = (if ratePct \<le> 0 then 0 else dl_Div L (g * ratePct) (100 + ratePct))"

definition eurUnitPrices :: "shop_db \<Rightarrow> int \<Rightarrow> decimal option" where
  "eurUnitPrices db i =
     (case find_product i db of
        None \<Rightarrow> None
      | Some p \<Rightarrow> map_option snd (find (\<lambda>(cur, _). ToUpper cur = ''EUR'') (pr_Prices p)))"

definition variantEURPrices :: "shop_db \<Rightarrow> int \<Rightarrow> decimal option" where
  "variantEURPrices db i =
     (if i = 0 then None
      else map_option (\<lambda>(_, _, price). price) (find (\<lambda>(j, cur, _). j = i \<and> ToUpper cur = ''EUR'') (sh_variantPrices db)))"

definition eur_unit :: "decimal_lib \<Rightarrow> shop_db \<Rightarrow> OrderItemInsert \<Rightarrow> decimal option" where
  "eur_unit L db it =
     (if NormalizeVariantGrade (oi_Grade it) = VariantGradeB then variantEURPrices db (oi_VariantID it)
      else case eurUnitPrices db (oi_ProductId it) of
             None \<Rightarrow> None
           | Some base \<Rightarrow>
               let sale = ProductSalePercentageDecimal L it
               in Some (if sale > 0 then base * dl_Div L (100 - sale) 100 else base))"

fun eur_goods :: "decimal_lib \<Rightarrow> shop_db \<Rightarrow> decimal \<times> decimal \<Rightarrow> OrderItemInsert list \<Rightarrow> (decimal \<times> decimal) option" where
  "eur_goods L db (goodsOrder, goodsEUR) [] = Some (goodsOrder, goodsEUR)"
| "eur_goods L db (goodsOrder, goodsEUR) (it # its) =
     (case eur_unit L db it of
        None \<Rightarrow> None
      | Some price \<Rightarrow> eur_goods L db (goodsOrder + ProductPriceWithSaleDecimal L it * QuantityDecimal L it,
                                   goodsEUR + price * QuantityDecimal L it) its)"

definition computeTotalPriceEUR :: "decimal_lib \<Rightarrow> shop_db \<Rightarrow> decimal \<Rightarrow> string \<Rightarrow> OrderItemInsert list \<Rightarrow> ShipmentCarrier
    \<Rightarrow> decimal \<Rightarrow> bool \<Rightarrow> decimal option" where
  "computeTotalPriceEUR L db totalPrice c items carrier shipmentCost freeShipping =
     (if EqualFold c ''EUR'' then Some (RoundCurrency L totalPrice c)
      else case eur_goods L db (0, 0) items of
             None \<Rightarrow> None
           | Some (goodsOrder, goodsEUR) \<Rightarrow>
               let shipOrder = (if freeShipping then 0 else shipmentCost);
                   shipEUR = (if freeShipping then 0 else case PriceDecimal L carrier ''EUR'' of Inl _ \<Rightarrow> 0 | Inr p \<Rightarrow> p);
                   eurTotal = goodsEUR + shipEUR;
                   baseOrder = goodsOrder + shipOrder;
                   eurTotal = (if baseOrder > 0 then eurTotal * dl_Div L (RoundCurrency L totalPrice c) baseOrder else eurTotal)
               in Some (dl_Round L eurTotal 2))"

end
