(* ===== verification/Order_Checkout.thy ===== *)
theory Order_Checkout
  imports Order_Pricing
begin

text \<open>
  How an order comes into being (internal/store/order/create.go, insert.go, and the parts of update.go,
  payment.go and validation.go it takes until it waits for its payment): the rows of a new order, the
  storefront's checkout, the order a manager enters, the re-validation that reprices an order whose
  goods have changed, and the invoice that takes the goods.
\<close>

section \<open>The lines of an order\<close>

text \<open>
  What a sold line freezes: the variant with a SKU, the SKU of its product, the cost and the price in the
  base currency.
\<close>

definition fetchVariantSnapshots :: "shop_db \<Rightarrow> int \<Rightarrow> (Variant \<times> string) option" where
  "fetchVariantSnapshots db i =
     (if i = 0 then None
      else case live_variant db i of
        None \<Rightarrow> None
      | Some v \<Rightarrow>
          (case find_product (vr_ProductId v) db of
             None \<Rightarrow> None
           | Some p \<Rightarrow> if no_sku (vr_SKU v) then None
                       else Some (v, case pr_SKU p of None \<Rightarrow> [] | Some sku \<Rightarrow> sku)))"

definition fetchVariantBasePrices :: "shop_env \<Rightarrow> shop_db \<Rightarrow> OrderItemInsert list \<Rightarrow> int \<Rightarrow> decimal option" where
  "fetchVariantBasePrices env db items i = fetchVariantPrices db items i (ToUpper (en_baseCurrency env))"

definition fetchProductCostPrices :: "shop_db \<Rightarrow> int \<Rightarrow> decimal option" where
  "fetchProductCostPrices db i = (case find_product i db of None \<Rightarrow> None | Some p \<Rightarrow> pr_CostPrice p)"

definition fetchProductBasePrices :: "shop_env \<Rightarrow> shop_db \<Rightarrow> int \<Rightarrow> decimal option" where
  "fetchProductBasePrices env db i =
     (case find_product i db of
        None \<Rightarrow> None
      | Some p \<Rightarrow> map_option snd (find (\<lambda>(cur, _). ToUpper cur = ToUpper (en_baseCurrency env)) (pr_Prices p)))"

text \<open>The checks of the columns of \<open>order_item\<close>.\<close>

definition line_columns_ok :: "order_item_row \<Rightarrow> bool" where
  "line_columns_ok r \<longleftrightarrow> ir_Quantity r > 0 \<and> ir_ProductPrice r \<ge> 0 \<and> or0 (ir_SalePercentage r) \<ge> 0 \<and>
     or0 (ir_SalePercentage r) \<le> 100 \<and> ir_Grade r \<in> {VariantGradeA, VariantGradeB}"

definition order_line :: "decimal_lib \<Rightarrow> shop_env \<Rightarrow> shop_db \<Rightarrow> OrderItemInsert list \<Rightarrow> OrderItemInsert
    \<Rightarrow> shop_error + order_item_row" where
  "order_line L env db items it =
     (case fetchVariantSnapshots db (oi_VariantID it) of
        None \<Rightarrow> Inl (ErrCheckout (ErrLineWithoutSKU (oi_ProductId it) (oi_SizeId it)))
      | Some (snap, baseSKU) \<Rightarrow>
          if NormalizeVariantGrade (oi_Grade it) \<noteq> vr_Grade snap
          then Inl (ErrCheckout (ErrGradeChanged (oi_VariantID it) (oi_Grade it) (vr_Grade snap)))
          else
            let row = (\<lambda>cost base. \<lparr>ir_Id = 0, ir_ProductId = oi_ProductId it, ir_ProductPrice = ProductPriceDecimal L it,
                  ir_SalePercentage = Some (ProductSalePercentageDecimal L it), ir_Quantity = sql_INT (QuantityDecimal L it),
                  ir_SizeId = oi_SizeId it, ir_VariantId = vr_Id snap, ir_Grade = NormalizeVariantGrade (vr_Grade snap),
                  ir_CostPriceAtSale = cost, ir_ProductPriceBase = base,
                  ir_VariantSKUSnapshot = (case vr_SKU snap of None \<Rightarrow> [] | Some sku \<Rightarrow> sku),
                  ir_BaseSKUSnapshot = Some baseSKU\<rparr>)
            in if vr_Grade snap = VariantGradeB
               then (case fetchVariantBasePrices env db items (oi_VariantID it) of
                       None \<Rightarrow> Inl (ErrCheckout (ErrSecondsWithoutBasePrice (case vr_SKU snap of None \<Rightarrow> [] | Some sku \<Rightarrow> sku)))
                     | Some base \<Rightarrow> Inr (row (Some 0) (Some base)))
               else Inr (row (fetchProductCostPrices db (oi_ProductId it)) (fetchProductBasePrices env db (oi_ProductId it))))"

fun number_lines :: "int \<Rightarrow> order_item_row list \<Rightarrow> order_item_row list" where
  "number_lines n [] = []"
| "number_lines n (r # rs) = r\<lparr>ir_Id := n\<rparr> # number_lines (n + 1) rs"

definition insertOrderItems :: "decimal_lib \<Rightarrow> shop_env \<Rightarrow> OrderItemInsert list \<Rightarrow> int \<Rightarrow> shop_db
    \<Rightarrow> (shop_error + unit) \<times> shop_db" where
  "insertOrderItems L env items orderID =
     thenE (checkE (items \<noteq> []) (ErrCheckout ErrNoOrderItems))
     (bindE (mapE (\<lambda>it. readE (\<lambda>db. order_line L env db items it)) items) (\<lambda>rows.
      thenE (checkE (list_all line_columns_ok rows) (ErrCheckout ErrCheckConstraint))
        (modifyE (\<lambda>db. (update_order orderID (\<lambda>o'. o'\<lparr>co_Items := co_Items o' @ number_lines (sh_nextItem db) rows\<rparr>) db)
                        \<lparr>sh_nextItem := sh_nextItem db + int (length rows)\<rparr>))))"

text \<open>The refunded units of a deleted line go with it.\<close>

definition deleteOrderItems :: "int \<Rightarrow> shop_db \<Rightarrow> shop_db" where
  "deleteOrderItems orderId = update_order orderId (\<lambda>o'. o'\<lparr>co_Items := [], co_RefundedItems := []\<rparr>)"

definition updateOrderItems :: "decimal_lib \<Rightarrow> shop_env \<Rightarrow> OrderItemInsert list \<Rightarrow> int \<Rightarrow> shop_db
    \<Rightarrow> (shop_error + unit) \<times> shop_db" where
  "updateOrderItems L env validItems orderId =
     thenE (modifyE (deleteOrderItems orderId)) (insertOrderItems L env validItems orderId)"

section \<open>The rows of a new order\<close>

record BuyerInsert =
  bi_FirstName :: string
  bi_LastName :: string
  bi_Email :: string
  bi_Phone :: string

record OrderNew =
  on_Items :: "OrderItemInsert list"
  on_ShippingAddress :: "AddressInsert option"
  on_BillingAddress :: "AddressInsert option"
  on_Buyer :: "BuyerInsert option"
  on_PaymentMethod :: PaymentMethodName
  on_ShipmentCarrierId :: int
  on_PromoCode :: string
  on_Currency :: string
  on_CustomShipmentCost :: "decimal option"
  on_GAClientID :: string
  on_Locale :: string
  on_BuyerTier :: int
  on_BuyerVatID :: "string option"

definition validateOrderInput :: "OrderNew \<Rightarrow> shop_error + AddressInsert \<times> AddressInsert \<times> BuyerInsert" where
  "validateOrderInput new =
     (if on_Items new = [] then Inl (ErrCheckout ErrNoOrderItems)
      else case (on_ShippingAddress new, on_BillingAddress new) of
          (Some s, Some b) \<Rightarrow> (case on_Buyer new of None \<Rightarrow> Inl (ErrCheckout ErrBuyerRequired) | Some by \<Rightarrow> Inr (s, b, by))
        | _ \<Rightarrow> Inl (ErrCheckout ErrAddressesRequired))"

text \<open>A money column has two decimals.\<close>

definition sql_MONEY :: "decimal \<Rightarrow> decimal" where "sql_MONEY x = round_half_away x 2"

definition some_text :: "string \<Rightarrow> string option" where "some_text s = (if s = [] then None else Some s)"

definition new_order :: "int \<Rightarrow> string \<Rightarrow> OrderStatusName \<Rightarrow> decimal \<Rightarrow> string \<Rightarrow> customer_order" where
  "new_order i uuid st amount c = \<lparr>co_Id = i, co_UUID = uuid, co_Status = st, co_TotalPrice = amount, co_Currency = c,
     co_PromoId = None, co_RefundReason = None, co_RefundReasonCode = None, co_RefundedAmount = 0,
     co_ShippingRefunded = False, co_OrderComment = None, co_TotalPriceEUR = None, co_TotalSettledBase = None,
     co_PaymentFee = None, co_Promo = None, co_VatRatePct = None, co_VatAmount = None, co_BuyerVatID = None,
     co_GAClientID = None, co_Locale = None, co_Items = [], co_RefundedItems = [], co_History = [],
     co_Shipment = None, co_Payment = None, co_BuyerEmail = None, co_Buyer = None\<rparr>"

text \<open>What \<open>insertOrder\<close> is given; the reference is unique, and a promo code must be in its table.\<close>

record order_facts =
  nf_Status :: OrderStatusName
  nf_TotalPrice :: decimal
  nf_Currency :: string
  nf_PromoId :: "int option"
  nf_GAClientID :: "string option"
  nf_Locale :: "string option"

definition insertOrder :: "decimal_lib \<Rightarrow> shop_env \<Rightarrow> order_facts \<Rightarrow> decimal option \<Rightarrow> decimal \<Rightarrow> decimal \<Rightarrow> string option
    \<Rightarrow> shop_db \<Rightarrow> (shop_error + int) \<times> shop_db" where
  "insertOrder L env f totalEUR vatRate vatAmount buyerVatID =
     (let amount = sql_MONEY (RoundCurrency L (nf_TotalPrice f) (nf_Currency f))
      in bindE (readE Inr) (\<lambda>db.
         thenE (checkE (en_reference env \<notin> co_UUID ` set (sh_orders db)) (ErrCheckout ErrDuplicateKey))
         (thenE (checkE (case nf_PromoId f of None \<Rightarrow> True | Some p \<Rightarrow> p \<in> pc_Id ` set (sh_promos db)) (ErrCheckout ErrForeignKey))
         (thenE (modifyE (\<lambda>db. db\<lparr>sh_orders := sh_orders db @
             [(new_order (sh_nextOrder db) (en_reference env) (nf_Status f) amount (nf_Currency f))
               \<lparr>co_PromoId := nf_PromoId f, co_TotalPriceEUR := totalEUR, co_VatRatePct := Some vatRate,
                co_VatAmount := Some vatAmount, co_BuyerVatID := buyerVatID, co_GAClientID := nf_GAClientID f,
                co_Locale := nf_Locale f\<rparr>],
             sh_nextOrder := sh_nextOrder db + 1\<rparr>))
           (returnE (sh_nextOrder db))))))"

definition insertShipment :: "ShipmentCarrier \<Rightarrow> int \<Rightarrow> decimal \<Rightarrow> bool \<Rightarrow> shop_db \<Rightarrow> shop_db" where
  "insertShipment sc orderId cost freeShipping =
     update_order orderId (\<lambda>o'. o'\<lparr>co_Shipment := Some \<lparr>sm_CarrierId = ca_Id sc, sm_Cost = sql_MONEY cost,
       sm_FreeShipping = freeShipping, sm_TrackingCode = None, sm_ShippingDate = None, sm_EstimatedArrivalDate = None,
       sm_DeliveredAt = None, sm_ActualCost = None, sm_ReturnShippingCost = None\<rparr>\<rparr>)"

definition insert_address :: "AddressInsert \<Rightarrow> shop_db \<Rightarrow> (shop_error + int) \<times> shop_db" where
  "insert_address a db = (Inr (sh_nextAddress db),
     db\<lparr>sh_addresses := sh_addresses db @ [(sh_nextAddress db, a)], sh_nextAddress := sh_nextAddress db + 1\<rparr>)"

definition insertAddresses :: "AddressInsert \<Rightarrow> AddressInsert \<Rightarrow> shop_db \<Rightarrow> (shop_error + int \<times> int) \<times> shop_db" where
  "insertAddresses shipping billing =
     (if shipping = billing then bindE (insert_address shipping) (\<lambda>i. returnE (i, i))
      else bindE (insert_address shipping) (\<lambda>s. bindE (insert_address billing) (\<lambda>b. returnE (s, b))))"

definition insertBuyer :: "BuyerInsert \<Rightarrow> int \<Rightarrow> int \<Rightarrow> int \<Rightarrow> shop_db \<Rightarrow> (shop_error + unit) \<times> shop_db" where
  "insertBuyer b orderId sAdr bAdr =
     bindE (readE (\<lambda>_. sanitizePhone (bi_Phone b))) (\<lambda>phone.
       modifyE (update_order orderId (\<lambda>o'. o'\<lparr>co_BuyerEmail := Some (ToLower (TrimSpace (bi_Email b))),
         co_Buyer := Some \<lparr>by_FirstName = bi_FirstName b, by_LastName = bi_LastName b, by_Phone = phone,
           by_BillingAddressId = bAdr, by_ShippingAddressId = sAdr\<rparr>\<rparr>)))"

definition insertPaymentRecord :: "int \<Rightarrow> int \<Rightarrow> time \<Rightarrow> shop_db \<Rightarrow> shop_db" where
  "insertPaymentRecord methodId orderId expiredAt =
     update_order orderId (\<lambda>o'. o'\<lparr>co_Payment := Some \<lparr>pi_PaymentMethodID = methodId, pi_TransactionID = None,
       pi_TransactionAmount = 0, pi_TransactionAmountPaymentCurrency = 0, pi_ClientSecret = None,
       pi_IsTransactionDone = False, pi_ExpiredAt = Some expiredAt, pi_PaymentMethodType = None\<rparr>\<rparr>)"

definition insertPaymentRecordForCustomOrder :: "int \<Rightarrow> int \<Rightarrow> decimal \<Rightarrow> shop_db \<Rightarrow> shop_db" where
  "insertPaymentRecordForCustomOrder methodId orderId amount =
     update_order orderId (\<lambda>o'. o'\<lparr>co_Payment := Some \<lparr>pi_PaymentMethodID = methodId, pi_TransactionID = None,
       pi_TransactionAmount = amount, pi_TransactionAmountPaymentCurrency = amount, pi_ClientSecret = None,
       pi_IsTransactionDone = True, pi_ExpiredAt = None, pi_PaymentMethodType = None\<rparr>\<rparr>)"

definition insertOrderDetails :: "decimal_lib \<Rightarrow> shop_env \<Rightarrow> order_facts \<Rightarrow> OrderItemInsert list \<Rightarrow> ShipmentCarrier \<Rightarrow> decimal
    \<Rightarrow> bool \<Rightarrow> AddressInsert \<Rightarrow> AddressInsert \<Rightarrow> BuyerInsert \<Rightarrow> string option \<Rightarrow> shop_db \<Rightarrow> (shop_error + int) \<times> shop_db" where
  "insertOrderDetails L env f items carrier shipmentCost freeShipping shipping billing buyer buyerVatID =
     bindE (readE Inr) (\<lambda>db.
     let totalEUR = computeTotalPriceEUR L db (nf_TotalPrice f) (nf_Currency f) items carrier shipmentCost freeShipping;
         vatRate = getVatRatePct db (ad_Country shipping);
         vatAmount = RoundCurrency L (VatFromInclusive L (RoundCurrency L (nf_TotalPrice f) (nf_Currency f)) vatRate) (nf_Currency f)
     in bindE (insertOrder L env f totalEUR vatRate vatAmount buyerVatID) (\<lambda>orderId.
        thenE (insertOrderItems L env items orderId)
        (thenE (modifyE (insertShipment carrier orderId shipmentCost freeShipping))
        (bindE (insertAddresses shipping billing) (\<lambda>(sAdr, bAdr).
         thenE (insertBuyer buyer orderId sAdr bAdr) (returnE orderId))))))"

section \<open>Checkout\<close>

text \<open>
  The address joins the newsletter; the result is whether a mail is queued.  The database compares
  addresses without regard to case.
\<close>

definition UpsertSubscription :: "string \<Rightarrow> bool \<Rightarrow> shop_db \<Rightarrow> bool \<times> shop_db" where
  "UpsertSubscription email receivePromo db =
     (case find (\<lambda>(e, _). ToLower e = ToLower email) (sh_subscribers db) of
        None \<Rightarrow> (False, db\<lparr>sh_subscribers := sh_subscribers db @ [(email, receivePromo)]\<rparr>)
      | Some (_, wasSubscribed) \<Rightarrow>
          if wasSubscribed = receivePromo then (wasSubscribed, db)
          else (wasSubscribed, db\<lparr>sh_subscribers := map (\<lambda>(e, r). if ToLower e = ToLower email then (e, receivePromo) else (e, r))
                                 (sh_subscribers db)\<rparr>))"

definition handlePromoSubscription :: "string \<Rightarrow> shop_db \<Rightarrow> (shop_error + bool) \<times> shop_db" where
  "handlePromoSubscription email db =
     (let (isSubscribed, db') = UpsertSubscription email True db; sendEmail = True
      in (Inr (if \<not> isSubscribed then False else sendEmail), db'))"

text \<open>The price of the shipping, and whether it is waived: above a threshold, or by the promo code.\<close>

definition shipping_price :: "decimal_lib \<Rightarrow> shop_env \<Rightarrow> PromoCode \<Rightarrow> decimal \<Rightarrow> string \<Rightarrow> decimal \<Rightarrow> decimal \<times> bool" where
  "shipping_price L env promo subtotal c carrierPrice =
     (let waived = (case map_of (en_complimentary env) (ToUpper c) of
            None \<Rightarrow> False | Some threshold \<Rightarrow> threshold > 0 \<and> subtotal \<ge> threshold)
      in if waived \<or> pc_FreeShipping promo then (0, True) else (carrierPrice, False))"

definition usable_promo :: "time \<Rightarrow> PromoCode option \<Rightarrow> PromoCode" where
  "usable_promo now promo = (case promo of None \<Rightarrow> no_promo | Some p \<Rightarrow> if IsAllowed now p then p else no_promo)"

definition GetPromoByCode :: "shop_env \<Rightarrow> string \<Rightarrow> PromoCode option" where
  "GetPromoByCode env code = find (\<lambda>p. pc_Code p = code) (en_promos env)"

definition place_order :: "decimal_lib \<Rightarrow> shop_env \<Rightarrow> order_facts \<Rightarrow> OrderItemInsert list \<Rightarrow> ShipmentCarrier \<Rightarrow> decimal \<Rightarrow> bool
    \<Rightarrow> AddressInsert \<Rightarrow> AddressInsert \<Rightarrow> BuyerInsert \<Rightarrow> string option \<Rightarrow> bool \<Rightarrow> int \<Rightarrow> time \<Rightarrow> shop_db
    \<Rightarrow> (shop_error + int \<times> bool) \<times> shop_db" where
  "place_order L env facts items carrier cost freeShipping shipping billing buyer buyerVatID receivePromo methodId expiredAt =
     bindE (insertOrderDetails L env facts items carrier cost freeShipping shipping billing buyer buyerVatID) (\<lambda>orderId.
     bindE (if receivePromo then handlePromoSubscription (bi_Email buyer) else returnE False) (\<lambda>sendEmail.
     thenE (modifyE (insertPaymentRecord methodId orderId expiredAt))
       (returnE (orderId, sendEmail))))"

definition create_body :: "decimal_lib \<Rightarrow> shop_env \<Rightarrow> OrderNew \<Rightarrow> bool \<Rightarrow> time \<Rightarrow> PaymentMethod \<Rightarrow> ShipmentCarrier
    \<Rightarrow> AddressInsert \<Rightarrow> AddressInsert \<Rightarrow> BuyerInsert \<Rightarrow> shop_db \<Rightarrow> (shop_error + int \<times> bool) \<times> shop_db" where
  "create_body L env new receivePromo expiredAt paymentMethod carrier shipping billing buyer =
     (let items = mergeOrderItems L env (on_Items new); c = on_Currency new;
          promo = usable_promo (en_now env) (GetPromoByCode env (on_PromoCode new))
      in bindE (readE (\<lambda>db. map_sum fst fst (validateOrderItemsInsert L env db items c))) (\<lambda>validItems.
         bindE (readE (\<lambda>_. calculateTotalAmount L validItems c)) (\<lambda>subtotal.
         bindE (readE (\<lambda>_. PriceDecimal L carrier c)) (\<lambda>carrierPrice.
         let (shipmentPrice, freeShipping) = shipping_price L env promo subtotal c carrierPrice;
             facts = \<lparr>nf_Status = Placed,
               nf_TotalPrice = SubtotalWithPromo L (en_now env) promo subtotal shipmentPrice (DecimalPlaces c),
               nf_Currency = c, nf_PromoId = (if pc_Id promo > 0 then Some (pc_Id promo) else None),
               nf_GAClientID = some_text (on_GAClientID new), nf_Locale = some_text (on_Locale new)\<rparr>
         in place_order L env facts validItems carrier shipmentPrice freeShipping shipping billing buyer
              (on_BuyerVatID new) receivePromo (pm_Id paymentMethod) expiredAt))))"

definition CreateOrder :: "decimal_lib \<Rightarrow> shop_env \<Rightarrow> OrderNew \<Rightarrow> bool \<Rightarrow> time \<Rightarrow> shop_db
    \<Rightarrow> (shop_error + int \<times> bool) \<times> shop_db" where
  "CreateOrder L env new receivePromo expiredAt =
     bindE (readE (\<lambda>_. validateOrderInput new)) (\<lambda>(shipping, billing, buyer).
     bindE (readE (\<lambda>_. validatePaymentMethod env (on_PaymentMethod new))) (\<lambda>paymentMethod.
     bindE (readE (\<lambda>_. validateShipmentCarrier env (on_ShipmentCarrierId new) (ad_Country shipping))) (\<lambda>carrier.
     thenE (readE (\<lambda>db. validateOrderItemsTierAccess db (on_Items new) (on_BuyerTier new)))
       (txFunc (create_body L env new receivePromo expiredAt paymentMethod carrier shipping billing buyer)))))"

text \<open>An order a manager enters is paid already: it takes its goods and is announced at once.\<close>

definition custom_history :: "shop_env \<Rightarrow> int \<Rightarrow> string \<Rightarrow> StockHistoryParams" where
  "custom_history env orderId c = \<lparr>hp_Source = StockChangeSourceOrderCustom, hp_OrderId = orderId, hp_OrderUUID = en_reference env,
     hp_OrderCurrency = c, hp_OrderComment = [], hp_PromoDiscount = 0, hp_PayoutBaseAmount = 0\<rparr>"

definition enter_order :: "decimal_lib \<Rightarrow> shop_env \<Rightarrow> order_facts \<Rightarrow> OrderItemInsert list \<Rightarrow> ShipmentCarrier \<Rightarrow> decimal
    \<Rightarrow> AddressInsert \<Rightarrow> AddressInsert \<Rightarrow> BuyerInsert \<Rightarrow> string option \<Rightarrow> int \<Rightarrow> shop_db \<Rightarrow> (shop_error + int) \<times> shop_db" where
  "enter_order L env facts items carrier cost shipping billing buyer buyerVatID methodId =
     bindE (insertOrderDetails L env facts items carrier cost False shipping billing buyer buyerVatID) (\<lambda>orderId.
     thenE (modifyE (insertPaymentRecordForCustomOrder methodId orderId (nf_TotalPrice facts)))
     (thenE (freezeAndResnapshotOrderSKUs (en_now env) orderId)
     (thenE (ReduceStockForProductSizes L items (Some (custom_history env orderId (nf_Currency facts))))
     (thenE (modifyE (insertOrderStatusHistoryEntry orderId Confirmed ''admin'' ''custom order''))
     (thenE (enqueue_order (en_now env) AcctEventOrderPaid (en_reference env) (en_now env))
       (returnE orderId))))))"

definition custom_body :: "decimal_lib \<Rightarrow> shop_env \<Rightarrow> OrderNew \<Rightarrow> OrderItemInsert list \<Rightarrow> decimal option \<Rightarrow> PaymentMethod
    \<Rightarrow> ShipmentCarrier \<Rightarrow> AddressInsert \<Rightarrow> AddressInsert \<Rightarrow> BuyerInsert \<Rightarrow> shop_db \<Rightarrow> (shop_error + int) \<times> shop_db" where
  "custom_body L env new normalized shipmentCost paymentMethod carrier shipping billing buyer =
     (let items = mergeOrderItems L env normalized; c = on_Currency new
      in bindE (readE (\<lambda>db. validateOrderItemsStockForCustomOrder L env db items)) (\<lambda>(validItems, adjustments).
         thenE (checkE (adjustments = [])
                  (ErrInput (ErrItemsUnavailable (map (\<lambda>a. (aj_ProductId a, aj_SizeId a)) adjustments))))
         (thenE (checkE (validItems \<noteq> []) (ErrInput ErrNoValidItems))
         (bindE (readE (\<lambda>_. calculateTotalAmount L validItems c)) (\<lambda>subtotal.
          thenE (checkE (subtotal > 0) (ErrInput ErrSubtotalNotPositive))
          (bindE (case shipmentCost of Some sc \<Rightarrow> returnE (RoundCurrency L sc c) | None \<Rightarrow> readE (\<lambda>_. PriceDecimal L carrier c))
          (\<lambda>shipmentPrice.
           let totalPrice = RoundCurrency L (subtotal + shipmentPrice) c;
               facts = \<lparr>nf_Status = Confirmed, nf_TotalPrice = totalPrice, nf_Currency = c, nf_PromoId = None,
                 nf_GAClientID = None, nf_Locale = None\<rparr>
           in thenE (checkE (totalPrice > 0) (ErrInput ErrTotalNotPositive))
                (enter_order L env facts validItems carrier shipmentPrice shipping billing buyer (on_BuyerVatID new)
                   (pm_Id paymentMethod)))))))))"

definition CreateCustomOrder :: "decimal_lib \<Rightarrow> shop_env \<Rightarrow> OrderNew \<Rightarrow> shop_db \<Rightarrow> (shop_error + int) \<times> shop_db" where
  "CreateCustomOrder L env new =
     bindE (readE (\<lambda>_. validateOrderInput new)) (\<lambda>(shipping, billing, buyer).
     thenE (checkE (on_PaymentMethod new = BANK_INVOICE \<or> on_PaymentMethod new = CASH) (ErrInput ErrNotForCustomOrders))
     (bindE (readE (\<lambda>_. validatePaymentMethod env (on_PaymentMethod new))) (\<lambda>paymentMethod.
      bindE (readE (\<lambda>_. normalizeCustomOrderItems L (on_Items new) (on_Currency new))) (\<lambda>normalized.
      let shipmentCost = map_option (\<lambda>sc. RoundCurrency L sc (on_Currency new)) (on_CustomShipmentCost new)
      in thenE (checkE (case shipmentCost of None \<Rightarrow> True | Some sc \<Rightarrow> sc \<ge> 0) (ErrInput ErrNegativeShipmentCost))
         (bindE (readE (\<lambda>_. validateShipmentCarrier env (on_ShipmentCarrierId new) (ad_Country shipping))) (\<lambda>carrier.
          txFunc (custom_body L env new normalized shipmentCost paymentMethod carrier shipping billing buyer)))))))"

section \<open>Repricing\<close>

definition updateShipmentCostAndFreeShipping :: "int \<Rightarrow> decimal \<Rightarrow> bool \<Rightarrow> shop_db \<Rightarrow> shop_db" where
  "updateShipmentCostAndFreeShipping orderId cost freeShipping =
     update_order orderId (\<lambda>o'. o'\<lparr>co_Shipment :=
       map_option (\<lambda>sm. sm\<lparr>sm_Cost := sql_MONEY cost, sm_FreeShipping := freeShipping\<rparr>) (co_Shipment o')\<rparr>)"

text \<open>The promo code is frozen on the order; without one the columns are NULL.\<close>

definition updateOrderTotalPromo :: "int \<Rightarrow> int \<Rightarrow> decimal \<Rightarrow> shop_db \<Rightarrow> shop_db" where
  "updateOrderTotalPromo orderId promoId totalPrice db =
     (let pid = (if promoId \<noteq> 0 then Some promoId else None);
          snap = (case pid of None \<Rightarrow> None
                  | Some p \<Rightarrow> map_option (\<lambda>pc. (pc_Discount pc, pc_FreeShipping pc, pc_Code pc)) (find (\<lambda>pc. pc_Id pc = p) (sh_promos db)))
      in update_order orderId (\<lambda>o'. o'\<lparr>co_PromoId := pid, co_TotalPrice := sql_MONEY totalPrice, co_Promo := snap\<rparr>) db)"

text \<open>A carrier that is gone, or has no price in the currency, keeps the cost the shipment has.\<close>

definition repriced_shipping :: "decimal_lib \<Rightarrow> shop_env \<Rightarrow> PromoCode \<Rightarrow> decimal \<Rightarrow> string \<Rightarrow> shipment_row option \<Rightarrow> decimal \<times> bool" where
  "repriced_shipping L env promo subtotal c sm =
     (let kept = (case sm of None \<Rightarrow> 0 | Some s \<Rightarrow> CostDecimal L s c);
          price = (case GetShipmentCarrierById env (case sm of None \<Rightarrow> 0 | Some s \<Rightarrow> sm_CarrierId s) of
                     None \<Rightarrow> None | Some carrier \<Rightarrow> (case PriceDecimal L carrier c of Inl _ \<Rightarrow> None | Inr p \<Rightarrow> Some p))
      in case price of
           None \<Rightarrow> if pc_FreeShipping promo then (0, True) else (kept, False)
         | Some p \<Rightarrow> shipping_price L env promo subtotal c p)"

definition updateTotalAmount :: "decimal_lib \<Rightarrow> shop_env \<Rightarrow> customer_order \<Rightarrow> decimal \<Rightarrow> PromoCode \<Rightarrow> shop_db \<Rightarrow> shop_db" where
  "updateTotalAmount L env ord subtotal promoCode db =
     (let promo = usable_promo (en_now env) (Some promoCode); c = co_Currency ord;
          (shipmentCost, freeShipping) = repriced_shipping L env promo subtotal c (co_Shipment ord);
          totalPrice = SubtotalWithPromo L (en_now env) promo subtotal shipmentCost (DecimalPlaces c)
      in updateOrderTotalPromo (co_Id ord) (pc_Id promo) totalPrice
           (updateShipmentCostAndFreeShipping (co_Id ord) shipmentCost freeShipping db))"

definition order_promo :: "shop_db \<Rightarrow> customer_order \<Rightarrow> PromoCode" where
  "order_promo db ord =
     (case co_PromoId ord of None \<Rightarrow> no_promo
      | Some p \<Rightarrow> (case find (\<lambda>pc. pc_Id pc = p) (sh_promos db) of None \<Rightarrow> no_promo | Some pc \<Rightarrow> pc))"

text \<open>
  The lines of the order as the full read shows them are validated again.  What no longer validates is
  cancelled, with the error as the result; what has changed is written back.
\<close>

definition validateAndUpdateOrderIfNeededWithLock :: "decimal_lib \<Rightarrow> shop_env \<Rightarrow> customer_order \<Rightarrow> OrderItem list \<Rightarrow> bool \<Rightarrow> bool
    \<Rightarrow> shop_db \<Rightarrow> (shop_error + bool) \<times> shop_db" where
  "validateAndUpdateOrderIfNeededWithLock L env ord orderItems cancelOnValidationFailure lockStock db =
     (let items = map ot_Insert orderItems; promo = order_promo db ord
      in case validateOrderItemsInsertWithLock L env db items (co_Currency ord) lockStock of
           Inl err \<Rightarrow>
             (thenE (whenE cancelOnValidationFailure (cancelOrder L ord items StockChangeSourceOrderCancelled)) (failE err)) db
         | Inr oiv \<Rightarrow>
             (let (same, _, validItems) = compareItems L env items (va_ValidItems oiv) False
              in if same then returnE False db
                 else (thenE (updateOrderItems L env validItems (co_Id ord))
                      (thenE (modifyE (updateTotalAmount L env ord (SubtotalDecimal L oiv) promo))
                        (returnE True))) db))"

text \<open>The full read needs the order's buyer.\<close>

definition fetchOrderInfo :: "customer_order \<Rightarrow> shop_db \<Rightarrow> (shop_error + OrderItem list) \<times> shop_db" where
  "fetchOrderInfo ord = readE (\<lambda>db. if co_BuyerEmail ord = None then Inl ErrNoBuyer else Inr (getOrdersItems db ord))"

text \<open>An order whose lines were updated is reported by an error, after the update was committed.\<close>

definition changed_error :: "('s \<Rightarrow> (shop_error + bool) \<times> 's) \<Rightarrow> 's \<Rightarrow> (shop_error + unit) \<times> 's" where
  "changed_error m s =
     (case m s of
        (Inl err, t) \<Rightarrow> (Inl err, t)
      | (Inr itemsChanged, t) \<Rightarrow> if itemsChanged then (Inl (ErrCheckout ErrOrderItemsUpdated), t) else (Inr (), t))"

definition ValidateOrderByUUID :: "decimal_lib \<Rightarrow> shop_env \<Rightarrow> string \<Rightarrow> shop_db \<Rightarrow> (shop_error + unit) \<times> shop_db" where
  "ValidateOrderByUUID L env uuid =
     bindE (getOrderByUUIDForUpdate uuid) (\<lambda>ord.
     bindE (fetchOrderInfo ord) (\<lambda>orderItems.
       if co_Status ord \<noteq> Placed then returnE ()
       else changed_error (txFunc (validateAndUpdateOrderIfNeededWithLock L env ord orderItems True False))))"

section \<open>The invoice\<close>

definition no_payment :: PaymentInsert where
  "no_payment = \<lparr>pi_PaymentMethodID = 0, pi_TransactionID = None, pi_TransactionAmount = 0,
     pi_TransactionAmountPaymentCurrency = 0, pi_ClientSecret = None, pi_IsTransactionDone = False,
     pi_ExpiredAt = None, pi_PaymentMethodType = None\<rparr>"

text \<open>A client secret belongs to one payment.\<close>

definition secret_free :: "customer_order \<Rightarrow> string \<Rightarrow> shop_db \<Rightarrow> bool" where
  "secret_free ord secret db \<longleftrightarrow>
     (\<forall>o' \<in> set (sh_orders db). co_Id o' = co_Id ord \<or>
        (case co_Payment o' of None \<Rightarrow> True | Some p \<Rightarrow> pi_ClientSecret p \<noteq> Some secret))"

definition processPayment :: "decimal_lib \<Rightarrow> customer_order \<Rightarrow> string \<Rightarrow> PaymentMethod \<Rightarrow> time \<Rightarrow> shop_db
    \<Rightarrow> (shop_error + unit) \<times> shop_db" where
  "processPayment L ord secret pm expiredAt =
     (let amount = RoundCurrency L (co_TotalPrice ord) (co_Currency ord);
          p = (case co_Payment ord of None \<Rightarrow> no_payment | Some p \<Rightarrow> p);
          p = p\<lparr>pi_PaymentMethodID := pm_Id pm, pi_IsTransactionDone := False, pi_TransactionAmount := amount,
                pi_TransactionAmountPaymentCurrency := amount, pi_ExpiredAt := Some expiredAt\<rparr>
      in if pm_Name pm = CARD \<or> pm_Name pm = CARD_TEST then
           bindE (readE (\<lambda>db. Inr (co_Payment ord = None \<or> secret_free ord secret db))) (\<lambda>free.
           thenE (checkE free (ErrCheckout ErrDuplicateKey))
           (thenE (modifyE (updateOrderPayment (co_Id ord) (p\<lparr>pi_ClientSecret := Some secret\<rparr>)))
             (updateOrderStatus (co_Id ord) AwaitingPayment)))
         else failE ErrUnsupportedPaymentMethod)"

definition order_paid_history :: "customer_order \<Rightarrow> PromoCode \<Rightarrow> StockHistoryParams" where
  "order_paid_history ord promo = \<lparr>hp_Source = StockChangeSourceOrderPaid, hp_OrderId = co_Id ord, hp_OrderUUID = co_UUID ord,
     hp_OrderCurrency = co_Currency ord, hp_OrderComment = (case co_OrderComment ord of None \<Rightarrow> [] | Some s \<Rightarrow> s),
     hp_PromoDiscount = pc_Discount promo, hp_PayoutBaseAmount = 0\<rparr>"

definition invoice_body :: "decimal_lib \<Rightarrow> shop_env \<Rightarrow> string \<Rightarrow> string \<Rightarrow> PaymentMethod \<Rightarrow> time \<Rightarrow> shop_db
    \<Rightarrow> (shop_error + bool) \<times> shop_db" where
  "invoice_body L env orderUUID secret pm expiredAt =
     bindE (getOrderByUUIDForUpdate orderUUID) (\<lambda>ord.
     thenE (readE (\<lambda>_. validateOrderStatus ord [Placed]))
     (bindE (fetchOrderInfo ord) (\<lambda>orderItems.
      if co_TotalPrice ord = 0
      then thenE (cancelOrder L ord (getOrderItemsInsert ord) StockChangeSourceOrderCancelled) (failE ErrTotalIsZero)
      else
        thenE (readE (\<lambda>_. map_sum ErrBelowCurrencyMinimum id (ValidateMinimum (co_TotalPrice ord) (co_Currency ord))))
        (bindE (readE (\<lambda>db. Inr (order_promo db ord))) (\<lambda>promo.
         bindE (validateAndUpdateOrderIfNeededWithLock L env ord orderItems True True) (\<lambda>itemsChanged.
         if itemsChanged then returnE True
         else thenE (ReduceStockForProductSizes L (map ot_Insert orderItems) (Some (order_paid_history ord promo)))
           (thenE (processPayment L ord secret pm expiredAt) (returnE False))))))))"

definition InsertFiatInvoice :: "decimal_lib \<Rightarrow> shop_env \<Rightarrow> string \<Rightarrow> string \<Rightarrow> PaymentMethod \<Rightarrow> time \<Rightarrow> shop_db
    \<Rightarrow> (shop_error + unit) \<times> shop_db" where
  "InsertFiatInvoice L env orderUUID secret pm expiredAt =
     thenE (readE (\<lambda>_. validatePaymentMethodAllowed pm))
       (changed_error (txFunc (invoice_body L env orderUUID secret pm expiredAt)))"

end
