(* ===== verification/Cart_Props.thy ===== *)
theory Cart_Props
  imports Order_Checkout "HOL-Library.Multiset"
begin

text \<open>
  What the validation of a cart guarantees: each line it lets through names a live variant of a listed
  product, has stock for its units and carries the price of the catalogue; each line it does not let
  through is reported; the total is the sum of the lines, whatever the order of the map they were
  merged in.
\<close>

section \<open>Lines that can be sold\<close>

definition in_stock_line :: "decimal_lib \<Rightarrow> shop_db \<Rightarrow> OrderItemInsert \<Rightarrow> bool" where
  "in_stock_line L db it \<longleftrightarrow>
     0 < oi_Quantity it \<and>
     (\<exists>p. listed_product db (oi_ProductId it) = Some p) \<and>
     (\<exists>v \<in> set (sh_variants db). is_variant (oi_ProductId it) (oi_SizeId it) (NormalizeVariantGrade (oi_Grade it)) v \<and>
        vr_Status v = 1 \<and> QuantityDecimal L it \<le> of_int (vr_Quantity v))"

text \<open>The list price, before any sale: a second has its own, a first the product's.\<close>

definition list_price :: "shop_db \<Rightarrow> string \<Rightarrow> OrderItemInsert \<Rightarrow> decimal \<Rightarrow> bool" where
  "list_price db c it price \<longleftrightarrow>
     (if oi_Grade it = VariantGradeB
      then \<exists>cur. (oi_VariantID it, cur, price) \<in> set (sh_variantPrices db) \<and> ToUpper cur = ToUpper c
      else \<exists>p cur. listed_product db (oi_ProductId it) = Some p \<and> (cur, price) \<in> set (pr_Prices p) \<and> EqualFold cur c)"

lemma listed_product_id: "listed_product db i = Some p \<Longrightarrow> pr_Id p = i"
  by (auto simp: listed_product_def find_product_def find_Some_iff split: option.split_asm if_split_asm)

lemma GetProductsByIds_listed: "p \<in> set (GetProductsByIds ids db) \<Longrightarrow> listed_product db (pr_Id p) = Some p"
  using listed_product_id by (fastforce simp: GetProductsByIds_def map_filter_def)

lemma find_listed:
  assumes "find (\<lambda>p. pr_Id p = i) (GetProductsByIds ids db) = Some p"
  shows "listed_product db i = Some p"
  using GetProductsByIds_listed [of p ids db] assms by (auto simp: find_Some_iff)

lemma quantity_of_int: "decimal_ok L \<Longrightarrow> dl_Round L (of_int n) 0 = of_int n"
  by (simp add: Round_id)

lemma stock_line_sold:
  assumes L: "decimal_ok L" and run: "stock_line L (GetProductsByIds ids db) (getProductsSizesByIds db items) it = (Some (it', p), adjs)"
    and q: "0 < oi_Quantity it"
  shows "in_stock_line L db it'" and "\<exists>n. it' = it\<lparr>oi_Quantity := n\<rparr>" and "listed_product db (oi_ProductId it) = Some p"
    and "adjs = [] \<Longrightarrow> it' = it" and "\<forall>a \<in> set adjs. aj_Reason a = AdjustmentReasonQuantityReduced"
proof -
  let ?sizes = "getProductsSizesByIds db items"
  from run obtain v where v: "live_size ?sizes it = Some v" and pos: "0 < vr_Quantity v"
    by (auto simp: stock_line_def Let_def split: option.split_asm if_split_asm)
  have mem: "v \<in> set (sh_variants db)" "vr_Status v = 1"
    "is_variant (oi_ProductId it) (oi_SizeId it) (NormalizeVariantGrade (oi_Grade it)) v"
    using v by (auto simp: live_size_def find_Some_iff getProductsSizesByIds_def dest!: nth_mem)
  let ?cut = "QuantityDecimal L it > of_int (vr_Quantity v)"
  have it': "it' = (if ?cut then it\<lparr>oi_Quantity := of_int (vr_Quantity v)\<rparr> else it)"
    and p: "find (\<lambda>p. pr_Id p = oi_ProductId it) (GetProductsByIds ids db) = Some p"
    and adjs: "adjs = (if ?cut then [adjustment it (QuantityDecimal L it) (of_int (vr_Quantity v)) AdjustmentReasonQuantityReduced] else [])"
    using run v pos by (simp_all add: stock_line_def Let_def split: option.split_asm if_split_asm)
  show p': "listed_product db (oi_ProductId it) = Some p" by (rule find_listed [OF p])
  show "\<exists>n. it' = it\<lparr>oi_Quantity := n\<rparr>" by (rule exI [of _ "oi_Quantity it'"]) (simp add: it')
  show "adjs = [] \<Longrightarrow> it' = it" "\<forall>a \<in> set adjs. aj_Reason a = AdjustmentReasonQuantityReduced"
    by (simp_all add: adjs it' adjustment_def split: if_split_asm)
  show "in_stock_line L db it'"
    using p' mem pos q by (auto simp: in_stock_line_def it' QuantityDecimal_def quantity_of_int [OF L])
qed

lemma stock_line_dropped:
  assumes "stock_line L products sizes it = (None, adjs)"
  shows "length (filter (\<lambda>a. aj_Reason a = AdjustmentReasonOutOfStock) adjs) = 1"
  using assms by (auto simp: stock_line_def Let_def adjustment_def split: option.split_asm if_split_asm)

lemma price_line_priced:
  assumes run: "price_line L (fetchVariantPrices db items) c p it = Inr it'" and p: "listed_product db (oi_ProductId it) = Some p"
  shows "0 < oi_ProductPrice it'" and "list_price db c it' (oi_ProductPrice it')"
    and "\<exists>a b d. it' = it\<lparr>oi_ProductPrice := a, oi_ProductSalePercentage := b, oi_ProductPriceWithSale := d\<rparr>"
proof -
  have "0 < oi_ProductPrice it' \<and> list_price db c it' (oi_ProductPrice it') \<and>
    (\<exists>a b d. it' = it\<lparr>oi_ProductPrice := a, oi_ProductSalePercentage := b, oi_ProductPriceWithSale := d\<rparr>)"
  proof (cases "oi_Grade it = VariantGradeB")
    case True
    then obtain price where price: "fetchVariantPrices db items (oi_VariantID it) (ToUpper c) = Some price" "0 < price"
      and it': "it' = it\<lparr>oi_ProductPrice := price, oi_ProductSalePercentage := 0, oi_ProductPriceWithSale := price\<rparr>"
      using run by (auto simp: price_line_def requirePositivePrice_def split: option.split_asm if_split_asm)
    from price(1) obtain cur where "(oi_VariantID it, cur, price) \<in> set (sh_variantPrices db)" "ToUpper cur = ToUpper c"
      by (auto simp: fetchVariantPrices_def find_Some_iff dest!: nth_mem split: if_split_asm)
    then show ?thesis using price(2) True by (auto simp: it' list_price_def)
  next
    case False
    then obtain price sale sold where price: "getProductPrice p c = Inr price"
      and it': "it' = it\<lparr>oi_ProductPrice := price, oi_ProductSalePercentage := sale, oi_ProductPriceWithSale := sold\<rparr>"
    proof (cases "SalePercentageDecimal L p > 0")
      case True
      obtain price where price: "getProductPrice p c = Inr price"
        "it' = it\<lparr>oi_ProductPrice := price, oi_ProductSalePercentage := SalePercentageDecimal L p,
           oi_ProductPriceWithSale := price * dl_Div L (100 - SalePercentageDecimal L p) 100\<rparr>"
        using run False True by (auto simp: price_line_def Let_def split: sum.split_asm)
      show thesis by (rule that [OF price])
    next
      case no_sale: False
      obtain price where price: "getProductPrice p c = Inr price"
        "it' = it\<lparr>oi_ProductPrice := price, oi_ProductPriceWithSale := price\<rparr>"
        using run False no_sale by (auto simp: price_line_def Let_def split: sum.split_asm)
      show thesis by (rule that [where sale = "oi_ProductSalePercentage it" and sold = price, OF price(1)]) (simp add: price(2))
    qed
    from price obtain cur where "(cur, price) \<in> set (pr_Prices p)" "EqualFold cur c" "0 < price"
      by (auto simp: getProductPrice_def find_Some_iff requirePositivePrice_def dest!: nth_mem split: option.split_asm if_split_asm)
    then show ?thesis using p False by (auto simp: list_price_def it')
  qed
  then show "0 < oi_ProductPrice it'" "list_price db c it' (oi_ProductPrice it')"
    "\<exists>a b d. it' = it\<lparr>oi_ProductPrice := a, oi_ProductSalePercentage := b, oi_ProductPriceWithSale := d\<rparr>" by blast+
qed

text \<open>A line of a validated cart.\<close>

definition sellable :: "decimal_lib \<Rightarrow> shop_db \<Rightarrow> string \<Rightarrow> OrderItemInsert \<Rightarrow> bool" where
  "sellable L db c it \<longleftrightarrow> in_stock_line L db it \<and> 0 < oi_ProductPrice it \<and> list_price db c it (oi_ProductPrice it)"

definition same_goods :: "OrderItemInsert \<Rightarrow> OrderItemInsert \<Rightarrow> bool" where
  "same_goods a b \<longleftrightarrow> oi_ProductId a = oi_ProductId b \<and> oi_SizeId a = oi_SizeId b \<and> oi_VariantID a = oi_VariantID b \<and>
     oi_VariantSKU a = oi_VariantSKU b \<and> oi_Grade a = oi_Grade b"

definition out_of_stock :: "OrderItemAdjustment list \<Rightarrow> nat" where
  "out_of_stock adjs = length (filter (\<lambda>a. aj_Reason a = AdjustmentReasonOutOfStock) adjs)"

lemma validate_line_ok:
  assumes L: "decimal_ok L"
    and run: "validate_line L (GetProductsByIds ids db) (getProductsSizesByIds db items) (fetchVariantPrices db items) c it = Inr (as, adjs)"
  shows "\<forall>x \<in> set as. sellable L db c x \<and> same_goods x it" and "length as + out_of_stock adjs = 1"
    and "adjs = [] \<Longrightarrow> map oi_Quantity as = [oi_Quantity it]"
proof -
  have q: "0 < oi_Quantity it" using run by (simp add: validate_line_def split: if_split_asm)
  obtain sold adjs' where s: "stock_line L (GetProductsByIds ids db) (getProductsSizesByIds db items) it = (sold, adjs')" by fastforce
  have "(\<forall>x \<in> set as. sellable L db c x \<and> same_goods x it) \<and> length as + out_of_stock adjs = 1 \<and>
    (adjs = [] \<longrightarrow> map oi_Quantity as = [oi_Quantity it])"
  proof (cases sold)
    case None
    then have "as = []" "adjs = adjs'" using run q s by (simp_all add: validate_line_def)
    moreover have "out_of_stock adjs' = 1" using stock_line_dropped s None by (simp add: out_of_stock_def)
    ultimately show ?thesis by (auto simp: out_of_stock_def)
  next
    case (Some sp)
    obtain it' p where sp: "sp = (it', p)" by fastforce
    note sl = stock_line_sold [OF L s [unfolded Some sp] q]
    from run q s Some sp obtain it'' where pl: "price_line L (fetchVariantPrices db items) c p it' = Inr it''"
      and as: "as = [it'']" "adjs = adjs'" by (auto simp: validate_line_def split: sum.split_asm)
    obtain n where n: "it' = it\<lparr>oi_Quantity := n\<rparr>" using sl(2) by blast
    have p: "listed_product db (oi_ProductId it') = Some p" using sl(3) by (simp add: n)
    note pr = price_line_priced [OF pl p]
    obtain a b d where d: "it'' = it'\<lparr>oi_ProductPrice := a, oi_ProductSalePercentage := b, oi_ProductPriceWithSale := d\<rparr>"
      using pr(3) by blast
    have "in_stock_line L db it''" using sl(1) by (simp add: d in_stock_line_def QuantityDecimal_def)
    then have "sellable L db c it'' \<and> same_goods it'' it" using pr(1,2) by (simp add: sellable_def same_goods_def d n)
    moreover have "out_of_stock adjs = 0" using sl(5) by (auto simp: out_of_stock_def as(2) filter_empty_conv)
    moreover have "adjs = [] \<longrightarrow> oi_Quantity it'' = oi_Quantity it" using sl(4) by (simp add: as(2) d)
    ultimately show ?thesis by (simp add: as(1))
  qed
  then show "\<forall>x \<in> set as. sellable L db c x \<and> same_goods x it" "length as + out_of_stock adjs = 1"
    "adjs = [] \<Longrightarrow> map oi_Quantity as = [oi_Quantity it]" by blast+
qed

lemma collect_lines_ok:
  assumes "collect_lines f xs = Inr (as, bs)" and "\<And>x a b. x \<in> set xs \<Longrightarrow> f x = Inr (a, b) \<Longrightarrow> \<forall>y \<in> set a. P y x"
  shows "\<forall>y \<in> set as. \<exists>x \<in> set xs. P y x"
  using assms
proof (induction xs arbitrary: as bs)
  case (Cons x xs)
  then obtain a b as' bs' where "f x = Inr (a, b)" "collect_lines f xs = Inr (as', bs')" "as = a @ as'"
    by (auto split: sum.split_asm)
  then show ?case using Cons.IH [of as' bs'] Cons.prems(2) by fastforce
qed simp

lemma collect_lines_count:
  assumes "collect_lines f xs = Inr (as, bs)" and "\<And>x a b. x \<in> set xs \<Longrightarrow> f x = Inr (a, b) \<Longrightarrow> length a + out_of_stock b = 1"
    and "\<And>x a. x \<in> set xs \<Longrightarrow> f x = Inr (a, []) \<Longrightarrow> map g a = [g x]"
  shows "length as + out_of_stock bs = length xs \<and> (bs = [] \<longrightarrow> map g as = map g xs)"
  using assms
proof (induction xs arbitrary: as bs)
  case (Cons x xs)
  from Cons.prems(1) obtain a b as' bs' where x: "f x = Inr (a, b)" "collect_lines f xs = Inr (as', bs')" "as = a @ as'" "bs = b @ bs'"
    by (auto split: sum.split_asm)
  have "length as' + out_of_stock bs' = length xs \<and> (bs' = [] \<longrightarrow> map g as' = map g xs)"
    by (rule Cons.IH [OF x(2)]) (use Cons.prems(2,3) in \<open>meson list.set_intros(2)\<close>)+
  moreover have "length a + out_of_stock b = 1" by (rule Cons.prems(2) [OF _ x(1)]) simp
  moreover have "map g a = [g x]" if "b = []" by (rule Cons.prems(3)) (use x(1) that in auto)
  ultimately show ?case by (auto simp: x out_of_stock_def)
qed (simp add: out_of_stock_def)

lemma resolve_line_quantity [simp]: "oi_Quantity (resolve_line db it) = oi_Quantity it"
  by (simp add: resolve_line_def split: option.split)

lemma validated_goods:
  assumes "decimal_ok L" and "validateOrderItemsStockAvailability L db items c = Inr (valid, adjs)"
  shows "\<forall>y \<in> set valid. \<exists>x \<in> set items. sellable L db c y \<and> same_goods y (resolve_line db x)"
    and "length valid + out_of_stock adjs = length items \<and> (adjs = [] \<longrightarrow> map oi_Quantity valid = map oi_Quantity items)"
proof -
  let ?items = "resolveVariantAddressing db items"
  let ?f = "validate_line L (GetProductsByIds (getProductIdsFromItems ?items) db) (getProductsSizesByIds db ?items)
      (fetchVariantPrices db ?items) c"
  have run: "collect_lines ?f ?items = Inr (valid, adjs)"
    using assms(2) by (simp add: validateOrderItemsStockAvailability_def Let_def split: if_split_asm)
  note line = validate_line_ok [OF assms(1)]
  have "\<forall>y \<in> set valid. \<exists>x \<in> set ?items. sellable L db c y \<and> same_goods y x"
    by (rule collect_lines_ok [OF run]) (use line(1) in blast)
  then show "\<forall>y \<in> set valid. \<exists>x \<in> set items. sellable L db c y \<and> same_goods y (resolve_line db x)"
    by (auto simp: resolveVariantAddressing_def)
  have "length valid + out_of_stock adjs = length ?items \<and> (adjs = [] \<longrightarrow> map oi_Quantity valid = map oi_Quantity ?items)"
    by (rule collect_lines_count [OF run]) (use line(2,3) in blast)+
  then show "length valid + out_of_stock adjs = length items \<and> (adjs = [] \<longrightarrow> map oi_Quantity valid = map oi_Quantity items)"
    by (simp add: resolveVariantAddressing_def comp_def)
qed

lemma validated_items:
  assumes "decimal_ok L" and "validateOrderItemsStockAvailability L db items c = Inr (valid, adjs)"
  shows "(\<forall>it \<in> set valid. sellable L db c it) \<and> length valid + out_of_stock adjs = length items \<and>
    (adjs = [] \<longrightarrow> map oi_Quantity valid = map oi_Quantity items)"
  using validated_goods [OF assms] by blast

section \<open>Merging\<close>

text \<open>The units a cart asks for under an address.\<close>

definition units_of_key :: "decimal_lib \<Rightarrow> string \<times> int \<times> int \<times> int \<Rightarrow> OrderItemInsert list \<Rightarrow> decimal" where
  "units_of_key L key items = sum_list (map (\<lambda>it. if merge_key it = key then QuantityDecimal L it else 0) items)"

lemma merge_key_quantity [simp]: "merge_key (it\<lparr>oi_Quantity := q\<rparr>) = merge_key it"
  by (simp add: merge_key_def)

lemma quantity_sum:
  assumes "decimal_ok L"
  shows "QuantityDecimal L (x\<lparr>oi_Quantity := QuantityDecimal L x + QuantityDecimal L it\<rparr>) = QuantityDecimal L x + QuantityDecimal L it"
proof -
  have "dl_Round L (of_int m + of_int n) 0 = of_int m + of_int n" for m n
    using quantity_of_int [OF assms, of "m + n"] by simp
  moreover have int: "\<exists>m. QuantityDecimal L y = of_int m" for y
    using Round_grid [OF assms, of 0 "oi_Quantity y"] by (simp add: QuantityDecimal_def on_grid_def)
  obtain m n where "QuantityDecimal L x = of_int m" "QuantityDecimal L it = of_int n" using int [of x] int [of it] by blast
  ultimately show ?thesis by (simp add: QuantityDecimal_def)
qed

lemma merge_into_units:
  "decimal_ok L \<Longrightarrow> units_of_key L key (merge_into L it xs) = units_of_key L key xs + units_of_key L key [it]"
  by (induction xs) (auto simp: units_of_key_def quantity_sum)

lemma merge_into_keys: "set (map merge_key (merge_into L it xs)) = insert (merge_key it) (set (map merge_key xs))"
  by (induction xs) auto

lemma merge_into_distinct: "distinct (map merge_key xs) \<Longrightarrow> distinct (map merge_key (merge_into L it xs))"
proof (induction xs)
  case (Cons x xs)
  show ?case
  proof (cases "merge_key x = merge_key it")
    case False
    have "merge_key x \<notin> set (map merge_key (merge_into L it xs))"
      unfolding merge_into_keys using Cons.prems False by simp
    then show ?thesis using Cons False by simp
  qed (use Cons.prems in simp)
qed simp

lemma merged_lines:
  fixes L :: decimal_lib and items :: "OrderItemInsert list"
  defines "m \<equiv> foldl (\<lambda>m it. if oi_Quantity it = 0 then m else merge_into L it m) [] items"
  assumes "decimal_ok L"
  shows "units_of_key L key m = units_of_key L key items" and "distinct (map merge_key m)"
    and "set (map merge_key m) \<subseteq> set (map merge_key items)"
proof -
  have zero: "QuantityDecimal L it = 0" if "oi_Quantity it = 0" for it
    using quantity_of_int [OF assms(2), of 0] that by (simp add: QuantityDecimal_def)
  have "units_of_key L key m = units_of_key L key items \<and> distinct (map merge_key m) \<and>
      set (map merge_key m) \<subseteq> set (map merge_key items)" unfolding m_def
  proof (induction items rule: rev_induct)
    case (snoc it items)
    have app: "units_of_key L key (items @ [it]) = units_of_key L key items + units_of_key L key [it]"
      by (simp add: units_of_key_def)
    show ?case
    proof (cases "oi_Quantity it = 0")
      case True
      then have "units_of_key L key [it] = 0" by (simp add: units_of_key_def zero)
      then show ?thesis using snoc True app by auto
    next
      case False
      have "set (map merge_key (foldl (\<lambda>m it. if oi_Quantity it = 0 then m else merge_into L it m) [] (items @ [it]))) \<subseteq>
          set (map merge_key (items @ [it]))"
        using snoc False merge_into_keys [of L it] by auto
      then show ?thesis using snoc False app by (simp add: merge_into_units [OF assms(2)] merge_into_distinct del: set_map)
    qed
  qed (simp add: units_of_key_def)
  then show "units_of_key L key m = units_of_key L key items" "distinct (map merge_key m)"
    "set (map merge_key m) \<subseteq> set (map merge_key items)" by blast+
qed

text \<open>A merged cart asks for the same units under each address, in one line for each.\<close>

lemma merging_keeps_units:
  assumes "decimal_ok L" and "\<And>xs. mset (en_range env xs) = mset xs"
  shows "units_of_key L key (mergeOrderItems L env items) = units_of_key L key items"
    and "distinct (map merge_key (mergeOrderItems L env items))"
    and "set (map merge_key (mergeOrderItems L env items)) \<subseteq> set (map merge_key items)"
proof -
  let ?m = "foldl (\<lambda>m it. if oi_Quantity it = 0 then m else merge_into L it m) [] items"
  note m = merged_lines(1) [OF assms(1), where key = key and items = items] merged_lines(2,3) [OF assms(1), where items = items]
  have p: "mset (mergeOrderItems L env items) = mset ?m" by (simp add: mergeOrderItems_def assms(2))
  have s: "sum_list (map f xs) = sum_list (map f ys)" if "mset xs = mset ys" for f :: "OrderItemInsert \<Rightarrow> decimal" and xs ys
    using that by (metis mset_map sum_mset_sum_list)
  show "units_of_key L key (mergeOrderItems L env items) = units_of_key L key items"
    unfolding units_of_key_def s [OF p] using m(1) by (simp add: units_of_key_def)
  show "distinct (map merge_key (mergeOrderItems L env items))"
    using m(2) mset_eq_imp_distinct_iff [of "map merge_key (mergeOrderItems L env items)" "map merge_key ?m"] p by simp
  show "set (map merge_key (mergeOrderItems L env items)) \<subseteq> set (map merge_key items)"
    using m(3) mset_eq_setD [OF p] by simp
qed

section \<open>Totals\<close>

lemma sum_lines_iff:
  "sum_lines L a items = Inr t \<longleftrightarrow> (\<forall>it \<in> set items. 0 < QuantityDecimal L it) \<and> t = a + sum_list (map (line_amount L) items)"
  by (induction items arbitrary: a) (auto simp: not_le)

lemma total_iff:
  "calculateTotalAmount L items c = Inr t \<longleftrightarrow> items \<noteq> [] \<and> (\<forall>it \<in> set items. 0 < QuantityDecimal L it) \<and>
     t = RoundCurrency L (sum_list (map (line_amount L) items)) c"
proof (cases "sum_lines L 0 items")
  case (Inl e)
  then have "\<not> (\<forall>it \<in> set items. 0 < QuantityDecimal L it)" using sum_lines_iff [of L 0 items] by auto
  then show ?thesis using Inl by (simp add: calculateTotalAmount_def)
next
  case (Inr s)
  then show ?thesis using sum_lines_iff [of L 0 items s] by (auto simp: calculateTotalAmount_def)
qed

lemma total_permuted:
  assumes "mset xs = mset ys"
  shows "calculateTotalAmount L xs c = Inr t \<longleftrightarrow> calculateTotalAmount L ys c = Inr t"
proof -
  have "sum_list (map (line_amount L) xs) = sum_list (map (line_amount L) ys)"
    using assms by (metis mset_map sum_mset_sum_list)
  moreover have "set xs = set ys" "xs = [] \<longleftrightarrow> ys = []" using mset_eq_setD [OF assms] assms by auto
  ultimately show ?thesis by (simp add: total_iff)
qed

section \<open>Tiers\<close>

lemma product_ids_set: "set (getProductIdsFromItems items) = oi_ProductId ` set items"
proof (induction items rule: rev_induct)
  case (snoc it items)
  then show ?case by (auto simp: getProductIdsFromItems_def)
qed (simp add: getProductIdsFromItems_def)

lemma GetProductsByIds_mem: "i \<in> set ids \<Longrightarrow> listed_product db i = Some p \<Longrightarrow> p \<in> set (GetProductsByIds ids db)"
  by (induction ids) (auto simp: GetProductsByIds_def map_filter_simps split: option.split)

lemma tier_access:
  assumes "validateOrderItemsTierAccess db items tier = Inr ()" and "it \<in> set items"
    and "listed_product db (oi_ProductId (resolve_line db it)) = Some p"
  shows "TierCanPurchase tier (pr_MinTier p)"
proof -
  have "p \<in> set (GetProductsByIds (getProductIdsFromItems (resolveVariantAddressing db items)) db)"
    by (rule GetProductsByIds_mem [OF _ assms(3)]) (use assms(2) in \<open>simp add: product_ids_set resolveVariantAddressing_def\<close>)
  then show ?thesis using assms(1)
    by (auto simp: validateOrderItemsTierAccess_def Let_def find_None_iff split: option.split_asm)
qed

text \<open>Which variant a line means depends on its address alone.\<close>

lemma resolve_key:
  assumes "merge_key a = merge_key b"
  shows "oi_ProductId (resolve_line db a) = oi_ProductId (resolve_line db b)"
proof -
  have "resolved_variant db a = resolved_variant db b" and "oi_ProductId a = oi_ProductId b"
    using assms by (simp_all add: merge_key_def resolved_variant_def)
  then show ?thesis by (simp add: resolve_line_def split: option.split)
qed

lemma cap_line_key [simp]: "merge_key (cap_line L n it) = merge_key it"
  by (simp add: cap_line_def)

lemma validated_products:
  assumes L: "decimal_ok L" and run: "validateOrderItemsInsert L env db (mergeOrderItems L env items) c = Inr (valid, adjs)"
    and rng: "\<And>xs. mset (en_range env xs) = mset xs" and y: "y \<in> set valid"
  shows "\<exists>it \<in> set items. oi_ProductId y = oi_ProductId (resolve_line db it)"
proof -
  let ?capped = "map (cap_line L (en_maxOrderItems env)) (mergeOrderItems L env items)"
  from run obtain adjs' where "validateOrderItemsStockAvailability L db ?capped c = Inr (valid, adjs')"
    by (auto simp: validateOrderItemsInsert_def adjustQuantities_def Let_def split: sum.split_asm prod.split_asm if_split_asm)
  from validated_goods(1) [OF L this] y obtain x where x: "x \<in> set (mergeOrderItems L env items)"
    and "same_goods y (resolve_line db (cap_line L (en_maxOrderItems env) x))" by auto
  then have p: "oi_ProductId y = oi_ProductId (resolve_line db x)"
    using resolve_key [of "cap_line L (en_maxOrderItems env) x" x db] by (simp add: same_goods_def)
  have "merge_key x \<in> merge_key ` set items" using merging_keeps_units(3) [OF L rng, of items] x by auto
  then obtain it where "it \<in> set items" "merge_key x = merge_key it" by blast
  then show ?thesis using p resolve_key [of x it db] by auto
qed

section \<open>What a cart buys\<close>

text \<open>The units on the shelf for a line, and whether the shop offers it at all.\<close>

definition shelf :: "shop_db \<Rightarrow> OrderItemInsert \<Rightarrow> int" where
  "shelf db it =
     (case find (\<lambda>v. vr_Status v = 1 \<and> is_variant (oi_ProductId it) (oi_SizeId it) (NormalizeVariantGrade (oi_Grade it)) v)
        (sh_variants db) of None \<Rightarrow> 0 | Some v \<Rightarrow> vr_Quantity v)"

definition offered :: "shop_db \<Rightarrow> OrderItemInsert \<Rightarrow> bool" where
  "offered db it \<longleftrightarrow> 0 < shelf db it \<and> listed_product db (oi_ProductId it) \<noteq> None"

text \<open>
  What the tables say a line costs.  A second has its own price and no sale.  A first has the product's price in the
  currency and, when the product is on sale, the product's percentage, which the price with the sale takes off; when
  it is not, the price stands and the line keeps the percentage it came with (a cart of the storefront sends none).
\<close>

definition catalogue_price :: "decimal_lib \<Rightarrow> shop_db \<Rightarrow> string \<Rightarrow> OrderItemInsert \<Rightarrow> OrderItemInsert \<Rightarrow> bool" where
  "catalogue_price L db c asked y \<longleftrightarrow>
     (if oi_Grade y = VariantGradeB
      then (\<exists>cur. (oi_VariantID y, cur, oi_ProductPrice y) \<in> set (sh_variantPrices db) \<and> ToUpper cur = ToUpper c) \<and>
        oi_ProductSalePercentage y = 0 \<and> oi_ProductPriceWithSale y = oi_ProductPrice y
      else \<exists>p cur. listed_product db (oi_ProductId y) = Some p \<and> (cur, oi_ProductPrice y) \<in> set (pr_Prices p) \<and> EqualFold cur c \<and>
        (let s = (case pr_SalePercentage p of None \<Rightarrow> 0 | Some d \<Rightarrow> dl_Round L d 2) in
         if 0 < s
         then oi_ProductSalePercentage y = s \<and> oi_ProductPriceWithSale y = oi_ProductPrice y * dl_Div L (100 - s) 100
         else oi_ProductSalePercentage y = oi_ProductSalePercentage asked \<and> oi_ProductPriceWithSale y = oi_ProductPrice y))"

text \<open>
  The line \<open>y\<close> is what a request for \<open>units\<close> under the address of the cart line \<open>asked\<close> buys: the variant the address
  means, the units asked for or what the shelf has, at the price of the tables.
\<close>

definition bought :: "decimal_lib \<Rightarrow> shop_db \<Rightarrow> string \<Rightarrow> decimal \<Rightarrow> OrderItemInsert \<Rightarrow> OrderItemInsert \<Rightarrow> bool" where
  "bought L db c units asked y \<longleftrightarrow> same_goods y (resolve_line db asked) \<and> 0 < oi_ProductPrice y \<and>
     QuantityDecimal L y = min units (of_int (shelf db (resolve_line db asked))) \<and> catalogue_price L db c asked y"

lemma catalogue_price_cong:
  "oi_ProductSalePercentage a = oi_ProductSalePercentage b \<Longrightarrow> catalogue_price L db c a y = catalogue_price L db c b y"
  by (simp add: catalogue_price_def)

lemma find_filter: "find P (filter Q xs) = find (\<lambda>x. Q x \<and> P x) xs"
  by (induction xs) auto

lemma live_size_shelf:
  assumes "it \<in> set its"
  shows "live_size (getProductsSizesByIds db its) it =
    find (\<lambda>v. vr_Status v = 1 \<and> is_variant (oi_ProductId it) (oi_SizeId it) (NormalizeVariantGrade (oi_Grade it)) v) (sh_variants db)"
  unfolding live_size_def getProductsSizesByIds_def find_filter
  by (rule arg_cong [where f = "\<lambda>P. find P (sh_variants db)"]) (use assms in blast)

lemma find_loaded:
  assumes "i \<in> set ids"
  shows "find (\<lambda>p. pr_Id p = i) (GetProductsByIds ids db) = listed_product db i"
proof (cases "find (\<lambda>p. pr_Id p = i) (GetProductsByIds ids db)")
  case None
  have "listed_product db i \<noteq> Some p" for p
    using GetProductsByIds_mem [OF assms, of db p] listed_product_id [of db i p] None by (auto simp: find_None_iff)
  then have "listed_product db i = None" by (meson not_Some_eq)
  then show ?thesis using None by simp
qed (use find_listed in auto)

lemma stock_line_exact:
  assumes "it \<in> set its"
  shows "fst (stock_line L (GetProductsByIds (getProductIdsFromItems its) db) (getProductsSizesByIds db its) it) =
    (if offered db it
     then Some (if QuantityDecimal L it > of_int (shelf db it) then it\<lparr>oi_Quantity := of_int (shelf db it)\<rparr> else it,
                the (listed_product db (oi_ProductId it)))
     else None)"
proof -
  have "oi_ProductId it \<in> set (getProductIdsFromItems its)" using assms by (simp add: product_ids_set)
  from find_loaded [OF this, of db] show ?thesis
    unfolding stock_line_def live_size_shelf [OF assms] offered_def shelf_def Let_def
    by (auto split: option.split)
qed

lemma price_line_exact:
  assumes run: "price_line L (fetchVariantPrices db items) c p it = Inr y" and p: "listed_product db (oi_ProductId it) = Some p"
  shows "catalogue_price L db c it y" and "0 < oi_ProductPrice y"
    and "\<exists>a b d. y = it\<lparr>oi_ProductPrice := a, oi_ProductSalePercentage := b, oi_ProductPriceWithSale := d\<rparr>"
proof -
  note pr = price_line_priced [OF run p]
  show "0 < oi_ProductPrice y" and y: "\<exists>a b d. y = it\<lparr>oi_ProductPrice := a, oi_ProductSalePercentage := b, oi_ProductPriceWithSale := d\<rparr>"
    by (rule pr)+
  have same: "oi_Grade y = oi_Grade it" "oi_ProductId y = oi_ProductId it" "oi_VariantID y = oi_VariantID it" using y by auto
  show "catalogue_price L db c it y"
  proof (cases "oi_Grade it = VariantGradeB")
    case True
    then have "oi_ProductSalePercentage y = 0" "oi_ProductPriceWithSale y = oi_ProductPrice y"
      using run by (auto simp: price_line_def split: option.split_asm)
    then show ?thesis using pr(2) True by (simp add: catalogue_price_def list_price_def same)
  next
    case False
    have "let s = (case pr_SalePercentage p of None \<Rightarrow> 0 | Some d \<Rightarrow> dl_Round L d 2) in
         if 0 < s
         then oi_ProductSalePercentage y = s \<and> oi_ProductPriceWithSale y = oi_ProductPrice y * dl_Div L (100 - s) 100
         else oi_ProductSalePercentage y = oi_ProductSalePercentage it \<and> oi_ProductPriceWithSale y = oi_ProductPrice y"
      using run False by (auto simp: price_line_def SalePercentageDecimal_def Let_def split: sum.split_asm if_split_asm option.split)
    then show ?thesis using pr(2) False p by (auto simp: catalogue_price_def list_price_def same)
  qed
qed

lemma validate_line_exact:
  assumes L: "decimal_ok L" and it: "it \<in> set its"
    and run: "validate_line L (GetProductsByIds (getProductIdsFromItems its) db) (getProductsSizesByIds db its)
      (fetchVariantPrices db its) c it = Inr (as, adjs)"
  shows "if offered db it
    then \<exists>y. as = [y] \<and> same_goods y it \<and> 0 < oi_ProductPrice y \<and>
      QuantityDecimal L y = min (QuantityDecimal L it) (of_int (shelf db it)) \<and> catalogue_price L db c it y
    else as = []"
proof -
  let ?s = "stock_line L (GetProductsByIds (getProductIdsFromItems its) db) (getProductsSizesByIds db its) it"
  note st = stock_line_exact [OF it, of L db]
  show ?thesis
  proof (cases "offered db it")
    case False
    then show ?thesis using run st by (auto simp: validate_line_def split: if_split_asm prod.split_asm option.split_asm sum.split_asm)
  next
    case True
    let ?n = "of_int (shelf db it) :: decimal"
    let ?it = "if QuantityDecimal L it > ?n then it\<lparr>oi_Quantity := ?n\<rparr> else it" and ?p = "the (listed_product db (oi_ProductId it))"
    obtain adjs' where s: "?s = (Some (?it, ?p), adjs')" using st True by (metis prod.collapse)
    obtain y where y: "price_line L (fetchVariantPrices db its) c ?p ?it = Inr y" "as = [y]"
      using run s by (auto simp: validate_line_def split: if_split_asm sum.split_asm)
    have "listed_product db (oi_ProductId ?it) = Some ?p" using True by (auto simp: offered_def)
    note pr = price_line_exact [OF y(1) this]
    have "QuantityDecimal L ?it = min (QuantityDecimal L it) ?n"
      using quantity_of_int [OF L, of "shelf db it"] by (auto simp: QuantityDecimal_def min_def)
    then have "same_goods y it \<and> QuantityDecimal L y = min (QuantityDecimal L it) ?n"
      using pr(3) by (auto simp: same_goods_def QuantityDecimal_def split: if_split_asm)
    moreover have "catalogue_price L db c it y"
      using pr(1) catalogue_price_cong [of ?it it L db c y] by simp
    ultimately show ?thesis using True y(2) pr(2) by simp
  qed
qed

lemma collect_lines_exact:
  assumes "collect_lines f xs = Inr (as, bs)"
    and "\<And>x a b. x \<in> set xs \<Longrightarrow> f x = Inr (a, b) \<Longrightarrow> if Q x then \<exists>y. a = [y] \<and> R x y else a = []"
  shows "list_all2 R (filter Q xs) as"
  using assms
proof (induction xs arbitrary: as bs)
  case (Cons x xs)
  from Cons.prems(1) obtain a b as' bs' where x: "f x = Inr (a, b)" "collect_lines f xs = Inr (as', bs')" "as = a @ as'"
    by (auto split: sum.split_asm)
  have "list_all2 R (filter Q xs) as'" by (rule Cons.IH [OF x(2)]) (use Cons.prems(2) in \<open>meson list.set_intros(2)\<close>)
  then show ?case using Cons.prems(2) [OF _ x(1)] x(3) by (auto split: if_split_asm)
qed simp

lemma find_snoc: "find P (xs @ [y]) = (case find P xs of None \<Rightarrow> if P y then Some y else None | Some x \<Rightarrow> Some x)"
  by (induction xs) auto

text \<open>The first line of a cart under an address, of those that ask for something.\<close>

definition first_of :: "OrderItemInsert list \<Rightarrow> string \<times> int \<times> int \<times> int \<Rightarrow> OrderItemInsert" where
  "first_of items key = the (find (\<lambda>it. oi_Quantity it \<noteq> 0 \<and> merge_key it = key) items)"

lemma merge_into_mem:
  "x \<in> set (merge_into L it xs) \<Longrightarrow>
     x \<in> set xs \<or> x = it \<and> merge_key it \<notin> merge_key ` set xs \<or> (\<exists>z \<in> set xs. \<exists>q. x = z\<lparr>oi_Quantity := q\<rparr>)"
  by (induction xs) (auto split: if_split_asm)

lemma merged_keys:
  "merge_key ` set (foldl (\<lambda>m it. if oi_Quantity it = 0 then m else merge_into L it m) [] items) =
     merge_key ` {it \<in> set items. oi_Quantity it \<noteq> 0}"
proof (induction items rule: rev_induct)
  case (snoc it items)
  then show ?case using merge_into_keys [of L it "foldl (\<lambda>m it. if oi_Quantity it = 0 then m else merge_into L it m) [] items"]
    by (auto simp: image_iff)
qed simp

lemma merged_first:
  assumes "x \<in> set (foldl (\<lambda>m it. if oi_Quantity it = 0 then m else merge_into L it m) [] items)"
  shows "\<exists>it q. find (\<lambda>it. oi_Quantity it \<noteq> 0 \<and> merge_key it = merge_key x) items = Some it \<and> x = it\<lparr>oi_Quantity := q\<rparr>"
  using assms
proof (induction items arbitrary: x rule: rev_induct)
  case (snoc it items)
  let ?m = "foldl (\<lambda>m it. if oi_Quantity it = 0 then m else merge_into L it m) [] items"
  have old: "\<exists>z q. find (\<lambda>it. oi_Quantity it \<noteq> 0 \<and> merge_key it = merge_key y) (items @ [it]) = Some z \<and> y = z\<lparr>oi_Quantity := q\<rparr>"
    if y: "y \<in> set ?m" for y
    using snoc.IH [OF y] by (auto simp: find_snoc)
  consider "x \<in> set ?m" | "oi_Quantity it \<noteq> 0" "x = it" "merge_key it \<notin> merge_key ` set ?m"
    | z q where "z \<in> set ?m" "x = z\<lparr>oi_Quantity := q\<rparr>"
    using snoc.prems merge_into_mem [of x L it ?m] by (auto split: if_split_asm)
  then show ?case
  proof cases
    case 2
    then have "find (\<lambda>z. oi_Quantity z \<noteq> 0 \<and> merge_key z = merge_key x) items = None"
      by (auto simp: find_None_iff merged_keys image_iff)
    then show ?thesis using 2(1,2) by (intro exI [of _ it] exI [of _ "oi_Quantity it"]) (simp add: find_snoc)
  next
    case 3
    then show ?thesis using old [OF 3(1)] by auto
  qed (rule old)
qed simp

lemma units_of_line:
  assumes "distinct (map merge_key xs)" and "x \<in> set xs"
  shows "units_of_key L (merge_key x) xs = QuantityDecimal L x"
  using assms
proof (induction xs)
  case (Cons y ys)
  have none: "units_of_key L k ys = 0" if "k \<notin> merge_key ` set ys" for k
    using that by (induction ys) (auto simp: units_of_key_def)
  show ?case
  proof (cases "x = y")
    case True
    then show ?thesis using Cons.prems(1) none [of "merge_key y"] by (simp add: units_of_key_def)
  next
    case False
    then have "x \<in> set ys" "merge_key y \<noteq> merge_key x" using Cons.prems by auto
    then show ?thesis using Cons by (simp add: units_of_key_def)
  qed
qed simp

lemma cap_line_units: "decimal_ok L \<Longrightarrow> QuantityDecimal L (cap_line L n x) = min (QuantityDecimal L x) (of_int n)"
  using quantity_of_int [of L n] by (auto simp: cap_line_def QuantityDecimal_def min_def)

lemma resolve_quantity: "resolve_line db (it\<lparr>oi_Quantity := q\<rparr>) = (resolve_line db it)\<lparr>oi_Quantity := q\<rparr>"
  by (simp add: resolve_line_def resolved_variant_def split: option.split)

lemma resolve_sale [simp]: "oi_ProductSalePercentage (resolve_line db it) = oi_ProductSalePercentage it"
  by (simp add: resolve_line_def split: option.split)

lemma offered_quantity [simp]:
  "shelf db (it\<lparr>oi_Quantity := q\<rparr>) = shelf db it" "offered db (it\<lparr>oi_Quantity := q\<rparr>) = offered db it"
  by (simp_all add: shelf_def offered_def)

lemma merged_line:
  assumes rng: "\<And>xs. mset (en_range env xs) = mset xs" and x: "x \<in> set (mergeOrderItems L env items)"
  shows "\<exists>q. x = (first_of items (merge_key x))\<lparr>oi_Quantity := q\<rparr>"
    and "first_of items (merge_key x) \<in> set items" and "merge_key (first_of items (merge_key x)) = merge_key x"
proof -
  have "x \<in> set (foldl (\<lambda>m it. if oi_Quantity it = 0 then m else merge_into L it m) [] items)"
    using x mset_eq_setD [OF rng] unfolding mergeOrderItems_def by blast
  then obtain it q where it: "find (\<lambda>it. oi_Quantity it \<noteq> 0 \<and> merge_key it = merge_key x) items = Some it"
      and q: "x = it\<lparr>oi_Quantity := q\<rparr>"
    using merged_first by blast
  have "first_of items (merge_key x) = it" unfolding first_of_def it by simp
  then show "\<exists>q. x = (first_of items (merge_key x))\<lparr>oi_Quantity := q\<rparr>" "first_of items (merge_key x) \<in> set items"
    "merge_key (first_of items (merge_key x)) = merge_key x"
    using q it by (auto simp: find_Some_iff)
qed

lemma merged_addresses:
  assumes rng: "\<And>xs. mset (en_range env xs) = mset xs"
  shows "set (map merge_key (mergeOrderItems L env items)) = merge_key ` {it \<in> set items. oi_Quantity it \<noteq> 0}"
  using merged_keys mset_eq_setD [OF rng] by (simp add: mergeOrderItems_def)

text \<open>
  A cart in full: each address it asks something under buys, if the shop offers the variant, one line with the units
  of all its lines together, and there are no other lines.
\<close>

definition cart_buys :: "decimal_lib \<Rightarrow> shop_db \<Rightarrow> int \<Rightarrow> string \<Rightarrow> OrderItemInsert list \<Rightarrow> OrderItemInsert list \<Rightarrow> bool" where
  "cart_buys L db most c items lines \<longleftrightarrow>
     (\<exists>keys. distinct keys \<and> set keys = merge_key ` {it \<in> set items. oi_Quantity it \<noteq> 0} \<and>
        list_all2 (\<lambda>key. bought L db c (min (units_of_key L key items) (of_int most)) (first_of items key))
          (filter (\<lambda>key. offered db (resolve_line db (first_of items key))) keys) lines)"

lemma validated_cart:
  assumes L: "decimal_ok L" and rng: "\<And>xs. mset (en_range env xs) = mset xs"
    and run: "validateOrderItemsInsert L env db (mergeOrderItems L env items) c = Inr (valid, adjs)"
  shows "cart_buys L db (en_maxOrderItems env) c items valid"
proof -
  let ?n = "en_maxOrderItems env" and ?ms = "mergeOrderItems L env items"
  let ?g = "\<lambda>m. resolve_line db (cap_line L ?n m)" and ?first = "\<lambda>m. first_of items (merge_key m)"
  let ?its = "map ?g ?ms"
  let ?R = "\<lambda>it y. same_goods y it \<and> 0 < oi_ProductPrice y \<and>
      QuantityDecimal L y = min (QuantityDecimal L it) (of_int (shelf db it)) \<and> catalogue_price L db c it y"
  note m = merging_keeps_units [OF L rng]
  obtain bs where "collect_lines (validate_line L (GetProductsByIds (getProductIdsFromItems ?its) db)
      (getProductsSizesByIds db ?its) (fetchVariantPrices db ?its) c) ?its = Inr (valid, bs)"
    using run by (auto simp: validateOrderItemsInsert_def adjustQuantities_def validateOrderItemsStockAvailability_def
        resolveVariantAddressing_def comp_def Let_def split: sum.split_asm prod.split_asm if_split_asm)
  then have "list_all2 ?R (filter (offered db) ?its) valid"
    by (rule collect_lines_exact) (rule validate_line_exact [OF L])
  then have sold: "list_all2 (\<lambda>m. ?R (?g m)) (filter (\<lambda>m. offered db (?g m)) ?ms) valid"
    by (simp add: filter_map list_all2_map1 comp_def)
  have asked: "\<exists>q. ?g x = (resolve_line db (?first x))\<lparr>oi_Quantity := q\<rparr>" if x: "x \<in> set ?ms" for x
  proof -
    obtain q where "x = (?first x)\<lparr>oi_Quantity := q\<rparr>" using merged_line(1) [OF rng x] by blast
    then have "cap_line L ?n x = (?first x)\<lparr>oi_Quantity := oi_Quantity (cap_line L ?n x)\<rparr>" by (metis cap_line_def OrderItemInsert.update_convs(5) OrderItemInsert.surjective OrderItemInsert.select_convs(5))
    then show ?thesis by (metis resolve_quantity)
  qed
  have off: "offered db (?g x) = offered db (resolve_line db (?first x))" if "x \<in> set ?ms" for x
    using asked [OF that] by auto
  have buy: "bought L db c (min (units_of_key L (merge_key x) items) (of_int ?n)) (?first x) y"
    if x: "x \<in> set ?ms" and y: "?R (?g x) y" for x y
  proof -
    obtain q where q: "?g x = (resolve_line db (?first x))\<lparr>oi_Quantity := q\<rparr>" using asked [OF x] by blast
    have "QuantityDecimal L (?g x) = min (units_of_key L (merge_key x) items) (of_int ?n)"
      using units_of_line [OF m(2) x] m(1) [of "merge_key x" items]
      by (simp add: QuantityDecimal_def [of L "resolve_line db _"] cap_line_units [OF L] flip: QuantityDecimal_def)
    moreover have "catalogue_price L db c (?g x) y = catalogue_price L db c (?first x) y"
      unfolding q by (rule catalogue_price_cong) simp
    moreover have "same_goods y (resolve_line db (?first x))" "shelf db (?g x) = shelf db (resolve_line db (?first x))"
      using y unfolding q by (simp_all add: same_goods_def)
    ultimately show ?thesis using y by (simp add: bought_def)
  qed
  show ?thesis
    unfolding cart_buys_def
  proof (intro exI [of _ "map merge_key ?ms"] conjI)
    show "distinct (map merge_key ?ms)" by (rule m(2))
    show "set (map merge_key ?ms) = merge_key ` {it \<in> set items. oi_Quantity it \<noteq> 0}"
      by (rule merged_addresses [OF rng])
    have "filter (\<lambda>m. offered db (?g m)) ?ms = filter (\<lambda>m. offered db (resolve_line db (?first m))) ?ms"
      by (rule filter_cong) (use off in simp_all)
    with sold have "list_all2 (\<lambda>m. ?R (?g m)) (filter (\<lambda>m. offered db (resolve_line db (?first m))) ?ms) valid" by simp
    then have "list_all2 (\<lambda>m. bought L db c (min (units_of_key L (merge_key m) items) (of_int ?n)) (?first m))
        (filter (\<lambda>m. offered db (resolve_line db (?first m))) ?ms) valid"
      by (rule list.rel_mono_strong) (use buy in simp)
    then show "list_all2 (\<lambda>key. bought L db c (min (units_of_key L key items) (of_int ?n)) (first_of items key))
        (filter (\<lambda>key. offered db (resolve_line db (first_of items key))) (map merge_key ?ms)) valid"
      by (simp add: filter_map list_all2_map1 comp_def)
  qed
qed

section \<open>The order of the lines\<close>

definition unit_due :: "decimal_lib \<Rightarrow> OrderItemInsert \<Rightarrow> decimal" where
  "unit_due L it =
     (let price = ProductPriceDecimal L it; sale = ProductSalePercentageDecimal L it
      in if sale > 0 then price * dl_Div L (100 - sale) 100 else price)"

lemma line_amount_unit: "line_amount L it = unit_due L it * QuantityDecimal L it"
  by (simp add: line_amount_def unit_due_def Let_def)

lemma unit_due_cong:
  "oi_ProductPrice a = oi_ProductPrice b \<Longrightarrow> oi_ProductSalePercentage a = oi_ProductSalePercentage b \<Longrightarrow> unit_due L a = unit_due L b"
  by (simp add: unit_due_def ProductPriceDecimal_def ProductSalePercentageDecimal_def)

text \<open>The total of a merged cart, address by address: the price of the first line there, times the units.\<close>

lemma merged_total:
  assumes L: "decimal_ok L" and rng: "\<And>xs. mset (en_range env xs) = mset xs"
    and K: "K = merge_key ` {it \<in> set items. oi_Quantity it \<noteq> 0}"
  shows "calculateTotalAmount L (mergeOrderItems L env items) c = Inr t \<longleftrightarrow> K \<noteq> {} \<and> (\<forall>k \<in> K. 0 < units_of_key L k items) \<and>
     t = RoundCurrency L (\<Sum>k\<in>K. unit_due L (first_of items k) * units_of_key L k items) c"
proof -
  let ?ms = "mergeOrderItems L env items"
  note m = merging_keeps_units [OF L rng] and line = merged_line [OF rng]
  have keys: "set (map merge_key ?ms) = K" unfolding K by (rule merged_addresses [OF rng])
  have units: "QuantityDecimal L x = units_of_key L (merge_key x) items" if "x \<in> set ?ms" for x
    using units_of_line [OF m(2) that] m(1) [of "merge_key x" items] by simp
  have "unit_due L x = unit_due L (first_of items (merge_key x))" if x: "x \<in> set ?ms" for x
  proof -
    obtain q where "x = (first_of items (merge_key x))\<lparr>oi_Quantity := q\<rparr>" using line(1) [OF x] by blast
    then show ?thesis by (metis unit_due_cong OrderItemInsert.update_convs(5) OrderItemInsert.surjective OrderItemInsert.select_convs(2,3))
  qed
  then have eq: "map (line_amount L) ?ms = map (\<lambda>k. unit_due L (first_of items k) * units_of_key L k items) (map merge_key ?ms)"
    using units by (simp add: line_amount_unit)
  have "sum_list (map (line_amount L) ?ms) = (\<Sum>k\<in>K. unit_due L (first_of items k) * units_of_key L k items)"
    unfolding eq sum_list_distinct_conv_sum_set [OF m(2)] keys ..
  moreover have "(\<forall>it \<in> set ?ms. 0 < QuantityDecimal L it) \<longleftrightarrow> (\<forall>k \<in> K. 0 < units_of_key L k items)"
    using units by (simp add: keys [symmetric])
  moreover have "?ms = [] \<longleftrightarrow> K = {}" using keys by auto
  ultimately show ?thesis by (simp add: total_iff)
qed

lemma sum_list_permuted:
  fixes f :: "OrderItemInsert \<Rightarrow> decimal"
  assumes "mset xs = mset ys"
  shows "sum_list (map f xs) = sum_list (map f ys)"
  using assms by (metis mset_map sum_mset_sum_list)

lemma units_permuted: "mset xs = mset ys \<Longrightarrow> units_of_key L key xs = units_of_key L key ys"
  unfolding units_of_key_def by (rule sum_list_permuted)

lemma merged_total_permuted:
  assumes L: "decimal_ok L" and rng: "\<And>xs. mset (en_range env xs) = mset xs" and rng': "\<And>xs. mset (en_range env' xs) = mset xs"
    and perm: "mset items' = mset items"
    and price: "\<And>a b. a \<in> set items \<Longrightarrow> b \<in> set items \<Longrightarrow> merge_key a = merge_key b \<Longrightarrow>
      oi_ProductPrice a = oi_ProductPrice b \<and> oi_ProductSalePercentage a = oi_ProductSalePercentage b"
  shows "calculateTotalAmount L (mergeOrderItems L env items) c = Inr t \<longleftrightarrow>
    calculateTotalAmount L (mergeOrderItems L env' items') c = Inr t"
proof -
  have set: "set items' = set items" by (rule mset_eq_setD [OF perm])
  let ?K = "merge_key ` {it \<in> set items. oi_Quantity it \<noteq> 0}"
  have first: "first_of xs k \<in> set xs \<and> merge_key (first_of xs k) = k" if "k \<in> merge_key ` {it \<in> set xs. oi_Quantity it \<noteq> 0}" for xs k
  proof -
    have "find (\<lambda>it. oi_Quantity it \<noteq> 0 \<and> merge_key it = k) xs \<noteq> None"
      using that by (auto simp: find_None_iff)
    then obtain it where it: "find (\<lambda>it. oi_Quantity it \<noteq> 0 \<and> merge_key it = k) xs = Some it" by blast
    have "first_of xs k = it" by (simp add: first_of_def it)
    then show ?thesis using it by (auto simp: find_Some_iff)
  qed
  have "unit_due L (first_of items k) = unit_due L (first_of items' k)" if k: "k \<in> ?K" for k
    using price [of "first_of items k" "first_of items' k"] first [OF k] first [of k items'] k set
    by (intro unit_due_cong) auto
  then have "(\<Sum>k\<in>?K. unit_due L (first_of items k) * units_of_key L k items) =
      (\<Sum>k\<in>?K. unit_due L (first_of items' k) * units_of_key L k items')"
    by (simp add: units_permuted [OF perm])
  then show ?thesis
    unfolding merged_total [OF L rng refl] merged_total [OF L rng' refl] set by (simp add: units_permuted [OF perm])
qed

end
