(* ===== verification/Order_Effects.thy ===== *)
theory Order_Effects
  imports Order_Lifecycle
begin

text \<open>
  What a successful operation of \<open>Order_Lifecycle\<close> did: the one order row it replaced, the stock it
  moved and the event it left.  The rows of the tables are well formed (\<open>orders_wf\<close>): ids and UUIDs are
  unique and a UUID has no colon, as \<open>generateOrderReference\<close> makes them.
\<close>

declare split_paired_All [simp del] split_paired_Ex [simp del]

definition orders_wf :: "shop_db \<Rightarrow> bool" where
  "orders_wf db \<longleftrightarrow> distinct (map co_Id (sh_orders db)) \<and> distinct (map co_UUID (sh_orders db)) \<and>
     (\<forall>o' \<in> set (sh_orders db). CHR '':'' \<notin> set (co_UUID o'))"

definition replace_order :: "customer_order \<Rightarrow> shop_db \<Rightarrow> shop_db" where
  "replace_order x db = db\<lparr>sh_orders := map (\<lambda>o'. if co_Id o' = co_Id x then x else o') (sh_orders db)\<rparr>"

section \<open>Finding and replacing rows\<close>

lemma find_unique:
  assumes "distinct (map f xs)" and "x \<in> set xs"
  shows "find (\<lambda>y. f y = f x) xs = Some x"
  using assms by (induction xs) auto

lemma find_order_Some:
  assumes "find_order uuid db = Some ord"
  shows "ord \<in> set (sh_orders db)" and "co_UUID ord = uuid"
  using assms by (auto simp: find_order_def find_Some_iff)

lemma find_order_id_Some:
  assumes "find_order_id i db = Some ord"
  shows "ord \<in> set (sh_orders db)" and "co_Id ord = i"
  using assms by (auto simp: find_order_id_def find_Some_iff)

lemma find_order_id_mem: "orders_wf db \<Longrightarrow> ord \<in> set (sh_orders db) \<Longrightarrow> find_order_id (co_Id ord) db = Some ord"
  by (simp add: orders_wf_def find_order_id_def find_unique)

lemma find_order_mem: "orders_wf db \<Longrightarrow> ord \<in> set (sh_orders db) \<Longrightarrow> find_order (co_UUID ord) db = Some ord"
  by (simp add: orders_wf_def find_order_def find_unique)

lemma find_order_id_stock: "stock_only db db' \<Longrightarrow> find_order_id i db' = find_order_id i db"
  by (simp add: find_order_id_def stock_only_def)

lemma replace_order_tables [simp]:
  "sh_variants (replace_order x db) = sh_variants db" "sh_journal (replace_order x db) = sh_journal db"
  "sh_products (replace_order x db) = sh_products db" "sh_sizes (replace_order x db) = sh_sizes db"
  "sh_variantPrices (replace_order x db) = sh_variantPrices db" "sh_claims (replace_order x db) = sh_claims db"
  "sh_promos (replace_order x db) = sh_promos db" "sh_events (replace_order x db) = sh_events db"
  "sh_nextOrder (replace_order x db) = sh_nextOrder db" "sh_nextItem (replace_order x db) = sh_nextItem db"
  by (simp_all add: replace_order_def)

lemma replace_same [simp]: "co_Id x = co_Id y \<Longrightarrow> replace_order x (replace_order y db) = replace_order x db"
  by (simp add: replace_order_def comp_def cong: map_cong)

lemma find_id_replace:
  "find_order_id i (replace_order x db) =
     (if i = co_Id x then (if find_order_id i db = None then None else Some x) else find_order_id i db)"
proof -
  have "find (\<lambda>o'. co_Id o' = i) (map (\<lambda>o'. if co_Id o' = co_Id x then x else o') os) =
     (if i = co_Id x then (if find (\<lambda>o'. co_Id o' = i) os = None then None else Some x) else find (\<lambda>o'. co_Id o' = i) os)"
    for os by (induction os) auto
  then show ?thesis by (simp add: find_order_id_def replace_order_def)
qed

lemma find_id_replace_Some [simp]:
  "find_order_id (co_Id x) db = Some y \<Longrightarrow> find_order_id (co_Id x) (replace_order x db) = Some x"
  by (simp add: find_id_replace)

lemma update_order_replace:
  assumes "orders_wf db" and "find_order_id i db = Some ord" and "co_Id (f ord) = i"
  shows "update_order i f db = replace_order (f ord) db"
proof -
  have "(if co_Id o' = i then f o' else o') = (if co_Id o' = co_Id (f ord) then f ord else o')"
    if "o' \<in> set (sh_orders db)" for o'
    using find_order_id_mem [OF assms(1) that] assms(2,3) by auto
  then show ?thesis by (simp add: update_order_def replace_order_def cong: map_cong)
qed

lemma orders_wf_ids:
  assumes "map co_Id (sh_orders db') = map co_Id (sh_orders db)" and "map co_UUID (sh_orders db') = map co_UUID (sh_orders db)"
  shows "orders_wf db' = orders_wf db"
proof -
  have wf: "orders_wf d \<longleftrightarrow> distinct (map co_Id (sh_orders d)) \<and> distinct (map co_UUID (sh_orders d)) \<and>
    (\<forall>u \<in> set (map co_UUID (sh_orders d)). CHR '':'' \<notin> set u)" for d
    by (simp add: orders_wf_def)
  show ?thesis unfolding wf assms ..
qed

lemma orders_wf_replace:
  assumes "orders_wf db" and "find_order_id (co_Id x) db = Some ord" and "co_UUID x = co_UUID ord"
  shows "orders_wf (replace_order x db)"
proof -
  have uuid: "co_UUID x = co_UUID o'" if "o' \<in> set (sh_orders db)" "co_Id o' = co_Id x" for o'
    using find_order_id_mem [OF assms(1) that(1)] assms(2,3) that(2) by auto
  have "map co_UUID (sh_orders (replace_order x db)) = map co_UUID (sh_orders db)"
    unfolding replace_order_def using uuid by auto
  moreover have "map co_Id (sh_orders (replace_order x db)) = map co_Id (sh_orders db)"
    unfolding replace_order_def by auto
  ultimately show ?thesis using assms(1) orders_wf_ids by blast
qed

lemma orders_wf_same: "sh_orders db' = sh_orders db \<Longrightarrow> orders_wf db' = orders_wf db"
  by (simp add: orders_wf_def)

lemma set_replace:
  assumes "orders_wf db" and "find_order_id (co_Id x) db = Some ord"
  shows "o' \<in> set (sh_orders (replace_order x db)) \<longleftrightarrow> o' = x \<or> (o' \<in> set (sh_orders db) \<and> co_Id o' \<noteq> co_Id x)"
  using find_order_id_Some [OF assms(2)] by (auto simp: replace_order_def)

text \<open>A sum over the orders changes by the row that was replaced.\<close>

lemma sum_replace:
  fixes g :: "customer_order \<Rightarrow> int"
  assumes "orders_wf db" and "find_order_id (co_Id x) db = Some ord"
  shows "sum_list (map g (sh_orders (replace_order x db))) = sum_list (map g (sh_orders db)) - g ord + g x"
proof -
  have "sum_list (map g (map (\<lambda>o'. if co_Id o' = co_Id x then x else o') os)) = sum_list (map g os) - g ord + g x"
    if "distinct (map co_Id os)" "find (\<lambda>o'. co_Id o' = co_Id x) os = Some ord" for os
    using that
  proof (induction os)
    case (Cons y os)
    show ?case
    proof (cases "co_Id y = co_Id x")
      case True
      have "(if co_Id o' = co_Id x then x else o') = o'" if "o' \<in> set os" for o'
        using that Cons.prems(1) True by (metis image_eqI distinct.simps(2) list.simps(9) set_map)
      then have "map (\<lambda>o'. if co_Id o' = co_Id x then x else o') os = os" by (simp add: map_idI)
      then show ?thesis using Cons.prems True by simp
    next
      case False
      then show ?thesis using Cons by simp
    qed
  qed simp
  then show ?thesis using assms by (simp add: orders_wf_def find_order_id_def replace_order_def)
qed

lemma stock_replace [simp]:
  "stock_qty k (replace_order x db) = stock_qty k db" "opening_stock k (replace_order x db) = opening_stock k db"
  "has_variant k (replace_order x db) = has_variant k db"
  by (cases k; simp add: stock_qty_def opening_stock_def has_variant_def find_variant_def)+

section \<open>Building blocks\<close>

lemma check_transition_ok [ok_simps]:
  "check_transition i new db = (Inr r, db') \<longleftrightarrow>
     db' = db \<and> (\<exists>ord. find_order_id i db = Some ord \<and> isValidStatusTransition (co_Status ord) new)"
  by (auto simp: check_transition_def ok_simps)

lemma updateOrderStatus_ok:
  assumes wf: "orders_wf db" and run: "updateOrderStatusWithValidation i new by' notes db = (Inr r, db')"
    and ord: "find_order_id i db = Some ord"
  shows "isValidStatusTransition (co_Status ord) new" and "db' = replace_order (add_history new by' notes (ord\<lparr>co_Status := new\<rparr>)) db"
proof -
  let ?x = "ord\<lparr>co_Status := new\<rparr>"
  have i: "co_Id ord = i" using ord by (rule find_order_id_Some)
  from run ord have v: "isValidStatusTransition (co_Status ord) new"
    and db': "db' = insertOrderStatusHistoryEntry i new by' notes (update_order i (\<lambda>o'. o'\<lparr>co_Status := new\<rparr>) db)"
    by (auto simp: updateOrderStatusWithValidation_def ok_simps)
  show "isValidStatusTransition (co_Status ord) new" by (rule v)
  have 1: "update_order i (\<lambda>o'. o'\<lparr>co_Status := new\<rparr>) db = replace_order ?x db"
    using update_order_replace [OF wf ord] i by simp
  have wf1: "orders_wf (replace_order ?x db)" by (rule orders_wf_replace [OF wf]) (use ord i in simp_all)
  have f1: "find_order_id i (replace_order ?x db) = Some ?x" using ord i by (simp add: find_id_replace)
  show "db' = replace_order (add_history new by' notes (ord\<lparr>co_Status := new\<rparr>)) db"
    using update_order_replace [OF wf1 f1, of "add_history new by' notes"] i
    by (simp add: db' 1 insertOrderStatusHistoryEntry_def add_history_def)
qed

definition accumulated :: "decimal_lib \<Rightarrow> OrderStatusName \<Rightarrow> decimal \<Rightarrow> string \<Rightarrow> string \<Rightarrow> customer_order \<Rightarrow> customer_order" where
  "accumulated L new amount reason code ord =
     add_history new ''admin'' (''Refunded amount: '' @ dl_String L amount @ '' (accumulated)'')
       (ord\<lparr>co_Status := new, co_RefundedAmount := co_RefundedAmount ord + dl_Round L amount 2,
            co_RefundReason := coalesce_text reason (co_RefundReason ord),
            co_RefundReasonCode := coalesce_text code (co_RefundReasonCode ord)\<rparr>)"

lemma accumulate_ok:
  assumes wf: "orders_wf db" and run: "updateOrderStatusAndAccumulateRefundedAmount L i new amount reason code db = (Inr r, db')"
    and ord: "find_order_id i db = Some ord"
  shows "isValidStatusTransition (co_Status ord) new" and "db' = replace_order (accumulated L new amount reason code ord) db"
proof -
  let ?f = "\<lambda>o'. o'\<lparr>co_Status := new, co_RefundedAmount := co_RefundedAmount o' + dl_Round L amount 2,
            co_RefundReason := coalesce_text reason (co_RefundReason o'),
            co_RefundReasonCode := coalesce_text code (co_RefundReasonCode o')\<rparr>"
  let ?n = "''Refunded amount: '' @ dl_String L amount @ '' (accumulated)''"
  have i: "co_Id ord = i" using ord by (rule find_order_id_Some)
  from run ord have v: "isValidStatusTransition (co_Status ord) new"
    and db': "db' = insertOrderStatusHistoryEntry i new ''admin'' ?n (update_order i ?f db)"
    by (auto simp: updateOrderStatusAndAccumulateRefundedAmount_def
      updateOrderStatusAndAccumulateRefundedAmountWithValidation_def ok_simps)
  show "isValidStatusTransition (co_Status ord) new" by (rule v)
  have 1: "update_order i ?f db = replace_order (?f ord) db"
    using update_order_replace [OF wf ord] i by simp
  have wf1: "orders_wf (replace_order (?f ord) db)" by (rule orders_wf_replace [OF wf]) (use ord i in simp_all)
  have f1: "find_order_id i (replace_order (?f ord) db) = Some (?f ord)" using ord i by (simp add: find_id_replace)
  show "db' = replace_order (accumulated L new amount reason code ord) db"
    using update_order_replace [OF wf1 f1, of "add_history new ''admin'' ?n"] i
    by (simp add: db' 1 insertOrderStatusHistoryEntry_def add_history_def accumulated_def)
qed

lemma claims_only:
  "sh_orders (releaseOpenPackagingClaims L i db) = sh_orders db" "stock_qty k (releaseOpenPackagingClaims L i db) = stock_qty k db"
  "opening_stock k (releaseOpenPackagingClaims L i db) = opening_stock k db"
  "sh_events (releaseOpenPackagingClaims L i db) = sh_events db" "sh_products (releaseOpenPackagingClaims L i db) = sh_products db"
  "sh_variants (releaseOpenPackagingClaims L i db) = sh_variants db" "sh_nextOrder (releaseOpenPackagingClaims L i db) = sh_nextOrder db"
proof -
  have one: "sh_orders (snd (insertReservationEvent L a b c d e f s)) = sh_orders s \<and>
      sh_events (snd (insertReservationEvent L a b c d e f s)) = sh_events s \<and>
      sh_products (snd (insertReservationEvent L a b c d e f s)) = sh_products s \<and>
      sh_variants (snd (insertReservationEvent L a b c d e f s)) = sh_variants s \<and>
      sh_nextOrder (snd (insertReservationEvent L a b c d e f s)) = sh_nextOrder s \<and>
      sh_journal (snd (insertReservationEvent L a b c d e f s)) = sh_journal s" for a b c d e f s
    by (simp add: insertReservationEvent_def)
  have fold: "sh_orders (foldl (\<lambda>db c. snd (insertReservationEvent L (g1 c) (g2 c) (g3 c) d (g4 c) u db)) s cs) = sh_orders s \<and>
      sh_events (foldl (\<lambda>db c. snd (insertReservationEvent L (g1 c) (g2 c) (g3 c) d (g4 c) u db)) s cs) = sh_events s \<and>
      sh_products (foldl (\<lambda>db c. snd (insertReservationEvent L (g1 c) (g2 c) (g3 c) d (g4 c) u db)) s cs) = sh_products s \<and>
      sh_variants (foldl (\<lambda>db c. snd (insertReservationEvent L (g1 c) (g2 c) (g3 c) d (g4 c) u db)) s cs) = sh_variants s \<and>
      sh_nextOrder (foldl (\<lambda>db c. snd (insertReservationEvent L (g1 c) (g2 c) (g3 c) d (g4 c) u db)) s cs) = sh_nextOrder s \<and>
      sh_journal (foldl (\<lambda>db c. snd (insertReservationEvent L (g1 c) (g2 c) (g3 c) d (g4 c) u db)) s cs) = sh_journal s"
    for g1 g2 g3 g4 d u s and cs :: "MaterialReservation list"
    by (induction cs arbitrary: s) (simp_all add: one)
  note r = fold [of mr_MaterialId "\<lambda>_. Some i" mr_Qty MaterialReservationRelease mr_ClaimKey "[]" db "openClaimsForOrder i db"]
  show "sh_orders (releaseOpenPackagingClaims L i db) = sh_orders db" "sh_events (releaseOpenPackagingClaims L i db) = sh_events db"
    "sh_products (releaseOpenPackagingClaims L i db) = sh_products db" "sh_variants (releaseOpenPackagingClaims L i db) = sh_variants db"
    "sh_nextOrder (releaseOpenPackagingClaims L i db) = sh_nextOrder db"
    using r by (simp_all add: releaseOpenPackagingClaims_def ReleaseOpenClaimsInTx_def)
  show "stock_qty k (releaseOpenPackagingClaims L i db) = stock_qty k db"
    using r by (simp add: releaseOpenPackagingClaims_def ReleaseOpenClaimsInTx_def stock_qty_def find_variant_def split: prod.split)
  then show "opening_stock k (releaseOpenPackagingClaims L i db) = opening_stock k db"
    using r by (simp add: releaseOpenPackagingClaims_def ReleaseOpenClaimsInTx_def opening_stock_def)
qed

lemma shop_enqueue_ok:
  assumes "enqueue now ins db = (Inr r, db')"
  shows "\<exists>evs. db' = db\<lparr>sh_events := evs\<rparr> \<and> EnqueueEvent now ins (sh_events db) = (Inr (), evs)"
  using assms by (auto simp: enqueue_def split: prod.split_asm sum.split_asm)

lemma events_only [simp]:
  "stock_qty k (db\<lparr>sh_events := evs\<rparr>) = stock_qty k db" "opening_stock k (db\<lparr>sh_events := evs\<rparr>) = opening_stock k db"
  "has_variant k (db\<lparr>sh_events := evs\<rparr>) = has_variant k db"
  by (cases k; simp add: stock_qty_def opening_stock_def has_variant_def find_variant_def)+

end
