(* ===== verification/Order_Moves.thy ===== *)
theory Order_Moves
  imports Order_Effects
begin

text \<open>
  Every operation of \<open>Order_Lifecycle\<close> as a move of one order: a step in the table of transitions with
  its row in the history, the stock it gives back, and the events it leaves.
\<close>

section \<open>Moves\<close>

text \<open>The part of an order that later operations compute with: its lines, currency and shipping terms.\<close>

definition line_facts :: "customer_order \<Rightarrow> (int \<times> OrderItemInsert) list" where
  "line_facts ord = map (\<lambda>r. (ir_Id r, item_insert r)) (co_Items ord)"

definition shipping_terms :: "customer_order \<Rightarrow> (decimal \<times> bool) option" where
  "shipping_terms ord = map_option (\<lambda>sm. (sm_Cost sm, sm_FreeShipping sm)) (co_Shipment ord)"

definition same_terms :: "customer_order \<Rightarrow> customer_order \<Rightarrow> bool" where
  "same_terms ord x \<longleftrightarrow> co_Id x = co_Id ord \<and> co_UUID x = co_UUID ord \<and> line_facts x = line_facts ord \<and>
     co_Currency x = co_Currency ord \<and> shipping_terms x = shipping_terms ord"

definition status_move :: "customer_order \<Rightarrow> customer_order \<Rightarrow> bool" where
  "status_move ord x \<longleftrightarrow> isValidStatusTransition (co_Status ord) (co_Status x) \<and>
     (\<exists>e. co_History x = co_History ord @ [e] \<and> hs_Status e = co_Status x)"

definition same_refunds :: "customer_order \<Rightarrow> customer_order \<Rightarrow> bool" where
  "same_refunds ord x \<longleftrightarrow> co_RefundedItems x = co_RefundedItems ord \<and> co_RefundedAmount x = co_RefundedAmount ord \<and>
     co_ShippingRefunded x = co_ShippingRefunded ord"

text \<open>The events of a type under a key.\<close>

definition event_count :: "AcctEventType \<Rightarrow> string \<Rightarrow> shop_db \<Rightarrow> nat" where
  "event_count ty key db =
     length (filter (\<lambda>e. ae_EventType e = ty \<and> ae_SourceKey e = key) (ev_events (sh_events db)))"

definition events_wf :: "shop_db \<Rightarrow> bool" where
  "events_wf db \<longleftrightarrow> distinct (map (\<lambda>e. (ae_EventType e, ae_SourceKey e)) (ev_events (sh_events db)))"

lemma distinct_filter_length: "distinct (map f es) \<Longrightarrow> length (filter (\<lambda>e. f e = k) es) \<le> 1"
  by (induction es) (auto simp: filter_empty_conv image_iff)

lemma events_wf_count: "events_wf db \<Longrightarrow> event_count ty key db \<le> 1"
  unfolding events_wf_def event_count_def
  using distinct_filter_length [of "\<lambda>e. (ae_EventType e, ae_SourceKey e)" "ev_events (sh_events db)" "(ty, key)"] by simp

definition status_event :: "OrderStatusName \<Rightarrow> AcctEventType option" where
  "status_event st = (case st of Confirmed \<Rightarrow> Some AcctEventOrderPaid | Shipped \<Rightarrow> Some AcctEventOrderShipped
     | Delivered \<Rightarrow> Some AcctEventOrderDelivered | _ \<Rightarrow> None)"

text \<open>One order was replaced, \<open>d\<close> units of each variant came back, and the event of the new status is there.\<close>

definition moved :: "shop_db \<Rightarrow> shop_db \<Rightarrow> customer_order \<Rightarrow> customer_order \<Rightarrow> (variant_key \<Rightarrow> int) \<Rightarrow> bool" where
  "moved db db' ord x d \<longleftrightarrow>
     find_order_id (co_Id x) db = Some ord \<and> same_terms ord x \<and>
     sh_orders db' = sh_orders (replace_order x db) \<and> sh_nextOrder db' = sh_nextOrder db \<and>
     (\<forall>k. stock_qty k db' = stock_qty k db + d k) \<and> (\<forall>k. opening_stock k db' = opening_stock k db) \<and>
     (\<forall>k. has_variant k db \<longrightarrow> has_variant k db') \<and> (\<forall>p. has_thumbnail db' p = has_thumbnail db p)"

definition no_event :: "shop_db \<Rightarrow> shop_db \<Rightarrow> bool" where
  "no_event db db' \<longleftrightarrow> sh_events db' = sh_events db"

definition one_event :: "AcctEventType \<Rightarrow> string \<Rightarrow> shop_db \<Rightarrow> shop_db \<Rightarrow> bool" where
  "one_event ty key db db' \<longleftrightarrow>
     (\<exists>now at'. EnqueueEvent now \<lparr>ei_EventType = ty, ei_SourceKey = key, ei_Payload = Inr (order_payload key),
        ei_OccurredAt = at'\<rparr> (sh_events db) = (Inr (), sh_events db'))"

definition status_events :: "customer_order \<Rightarrow> shop_db \<Rightarrow> shop_db \<Rightarrow> bool" where
  "status_events x db db' \<longleftrightarrow>
     (case status_event (co_Status x) of None \<Rightarrow> no_event db db' | Some ty \<Rightarrow> one_event ty (co_UUID x) db db')"

lemma status_move_add_history:
  "isValidStatusTransition (co_Status ord) st \<Longrightarrow> status_move ord (add_history st by' notes (y\<lparr>co_Status := st\<rparr>)) \<longleftrightarrow>
     co_History y = co_History ord"
  by (auto simp: status_move_def add_history_def)

lemma add_history_simps [simp]:
  "co_Id (add_history st b n x) = co_Id x" "co_UUID (add_history st b n x) = co_UUID x"
  "co_Status (add_history st b n x) = co_Status x" "co_Items (add_history st b n x) = co_Items x"
  "co_Currency (add_history st b n x) = co_Currency x" "co_Shipment (add_history st b n x) = co_Shipment x"
  "co_RefundedItems (add_history st b n x) = co_RefundedItems x"
  "co_RefundedAmount (add_history st b n x) = co_RefundedAmount x"
  "co_ShippingRefunded (add_history st b n x) = co_ShippingRefunded x"
  "co_History (add_history st b n x) = co_History x @ [\<lparr>hs_Status = st, hs_ChangedBy = b, hs_Notes = n\<rparr>]"
  "co_PromoId (add_history st b n x) = co_PromoId x" "co_Payment (add_history st b n x) = co_Payment x"
  by (simp_all add: add_history_def)

lemma same_terms_refl [simp]: "same_terms ord ord"
  by (simp add: same_terms_def)

lemma same_terms_fields [simp]:
  "same_terms ord (ord\<lparr>co_Status := s\<rparr>)" "same_terms ord (ord\<lparr>co_Status := s, co_RefundReason := r\<rparr>)"
  "same_terms ord (ord\<lparr>co_PromoId := p\<rparr>)" "same_terms ord (ord\<lparr>co_Payment := q\<rparr>)"
  by (simp_all add: same_terms_def line_facts_def shipping_terms_def)

lemma same_terms_add_history [simp]: "same_terms ord (add_history st b n x) = same_terms ord x"
  by (simp add: same_terms_def line_facts_def shipping_terms_def)

lemma same_terms_trans: "same_terms a b \<Longrightarrow> same_terms b c \<Longrightarrow> same_terms a c"
  by (simp add: same_terms_def)

lemma has_thumbnail_products: "sh_products db' = sh_products db \<Longrightarrow> has_thumbnail db' p = has_thumbnail db p"
  by (simp add: has_thumbnail_def find_product_def)

lemma stock_only_thumbnail: "stock_only db db' \<Longrightarrow> has_thumbnail db' p = has_thumbnail db p"
  by (rule has_thumbnail_products) (simp add: stock_only_def)

lemma has_variant_variants: "sh_variants db' = sh_variants db \<Longrightarrow> has_variant k db' = has_variant k db"
  by (cases k) (simp add: has_variant_def find_variant_def)

text \<open>Replacing one row, with nothing else touched.\<close>

lemma moved_replace:
  assumes "orders_wf db" and "find_order_id (co_Id x) db = Some ord" and "same_terms ord x"
  shows "moved db (replace_order x db) ord x (\<lambda>_. 0)"
  using assms by (simp add: moved_def has_thumbnail_def find_product_def)

lemma moved_event:
  "moved db t ord x d \<Longrightarrow> moved db (t\<lparr>sh_events := evs\<rparr>) ord x d"
  by (simp add: moved_def has_thumbnail_def find_product_def)

lemma moved_claims:
  "moved db t ord x d \<Longrightarrow> moved db (releaseOpenPackagingClaims L i t) ord x d"
  by (simp add: moved_def claims_only has_thumbnail_def find_product_def has_variant_def find_variant_def)

text \<open>Stock given back before the row is written.\<close>

lemma moved_after_stock:
  assumes "moved t db' ord x (\<lambda>_. 0)" and "stock_only db t" and "\<forall>k. stock_qty k t = stock_qty k db + d k"
    and "\<forall>k. opening_stock k t = opening_stock k db"
  shows "moved db db' ord x d"
  using assms stock_only_thumbnail [OF assms(2)] stock_only_has [OF assms(2)]
  by (auto simp: moved_def find_order_id_def replace_order_def stock_only_def)

lemma moved_trans:
  assumes "moved db t ord y (\<lambda>_. 0)" and "moved t db' y x d"
  shows "moved db db' ord x d"
proof -
  have id: "co_Id x = co_Id y" using assms(2) by (simp add: moved_def same_terms_def)
  have "sh_orders (replace_order x t) = sh_orders (replace_order x (replace_order y db))"
    using assms(1) by (simp add: moved_def replace_order_def)
  then have o': "sh_orders db' = sh_orders (replace_order x db)" using assms(2) id by (simp add: moved_def)
  have "same_terms ord x" using assms by (auto simp: moved_def intro: same_terms_trans)
  then show ?thesis using assms id o' by (simp add: moved_def)
qed

lemma moved_wf: "moved db db' ord x d \<Longrightarrow> orders_wf db \<Longrightarrow> orders_wf db'"
  unfolding moved_def using orders_wf_replace [of db x ord] orders_wf_same [of db' "replace_order x db"]
  by (auto simp: same_terms_def)

section \<open>Events\<close>

lemma EnqueueEvent_cases:
  assumes "EnqueueEvent now ins evs = (Inr (), evs')"
  obtains (known) e where "evs' = evs" and "e \<in> set (ev_events evs)" and "ae_EventType e = ei_EventType ins"
      and "ae_SourceKey e = ei_SourceKey ins"
    | (new) e where "ev_events evs' = ev_events evs @ [e]" and "ae_EventType e = ei_EventType ins"
      and "ae_SourceKey e = ei_SourceKey ins" and "ae_Payload e = ei_Payload ins"
      and "\<forall>e' \<in> set (ev_events evs). ae_EventType e' = ei_EventType ins \<longrightarrow> ae_SourceKey e' \<noteq> ei_SourceKey ins"
proof (cases "\<exists>e \<in> set (ev_events evs). ae_EventType e = ei_EventType ins \<and> ae_SourceKey e = ei_SourceKey ins")
  case True
  then have "evs' = evs" using assms by (auto simp: EnqueueEvent_def split: sum.split_asm)
  then show thesis using True known by blast
next
  case False
  then obtain p where p: "ei_Payload ins = Inr p" using assms by (auto simp: EnqueueEvent_def split: sum.split_asm)
  have "evs' = snd (EnqueueEvent now ins evs)" using assms by simp
  also have "\<dots> = evs\<lparr>ev_events := ev_events evs @ [\<lparr>ae_Id = ev_next evs, ae_EventType = ei_EventType ins,
      ae_SourceKey = ei_SourceKey ins, ae_Payload = Inr p, ae_OccurredAt = ei_OccurredAt ins, ae_CreatedAt = now,
      ae_ProcessedAt = None, ae_Attempts = 0, ae_NextRetryAt = None, ae_LastError = None, ae_NeedsReview = False\<rparr>],
      ev_next := ev_next evs + 1\<rparr>"
    using False by (simp add: EnqueueEvent_def p Let_def)
  finally show thesis using False p new by force
qed

lemma event_count_add:
  assumes "EnqueueEvent now ins (sh_events db) = (Inr (), sh_events db')"
  shows "event_count ty key db' =
    (if ty = ei_EventType ins \<and> key = ei_SourceKey ins then max 1 (event_count ty key db) else event_count ty key db)"
  using assms
proof (cases rule: EnqueueEvent_cases)
  case (known e)
  then have "e \<in> set (filter (\<lambda>e. ae_EventType e = ei_EventType ins \<and> ae_SourceKey e = ei_SourceKey ins) (ev_events (sh_events db)))"
    by simp
  then have "1 \<le> event_count (ei_EventType ins) (ei_SourceKey ins) db"
    unfolding event_count_def by (metis One_nat_def Suc_leI length_pos_if_in_set)
  then show ?thesis using known(1) by (auto simp: event_count_def)
next
  case (new e)
  then have "filter (\<lambda>e. ae_EventType e = ei_EventType ins \<and> ae_SourceKey e = ei_SourceKey ins) (ev_events (sh_events db)) = []"
    by (auto simp: filter_empty_conv)
  then show ?thesis using new by (auto simp: event_count_def)
qed

lemma status_events_count:
  assumes "status_events x db db'" and "events_wf db"
  shows "event_count ty key db' = (if status_event (co_Status x) = Some ty \<and> key = co_UUID x then 1 else event_count ty key db)"
proof (cases "status_event (co_Status x)")
  case None
  then show ?thesis using assms(1) by (simp add: status_events_def no_event_def event_count_def)
next
  case (Some ty')
  then obtain now at' where "EnqueueEvent now \<lparr>ei_EventType = ty', ei_SourceKey = co_UUID x,
      ei_Payload = Inr (order_payload (co_UUID x)), ei_OccurredAt = at'\<rparr> (sh_events db) = (Inr (), sh_events db')"
    using assms(1) by (auto simp: status_events_def one_event_def)
  from event_count_add [OF this, of ty key] show ?thesis
    using events_wf_count [OF assms(2), of ty key] by (auto simp: Some max_def)
qed

lemma refund_events_other:
  assumes "status_events x db db'"
  shows "refund_events u db' = refund_events u db"
proof (cases "status_event (co_Status x)")
  case None
  then show ?thesis using assms by (simp add: status_events_def no_event_def refund_events_def)
next
  case (Some ty')
  then obtain now at' where e: "EnqueueEvent now \<lparr>ei_EventType = ty', ei_SourceKey = co_UUID x,
      ei_Payload = Inr (order_payload (co_UUID x)), ei_OccurredAt = at'\<rparr> (sh_events db) = (Inr (), sh_events db')"
    using assms(1) by (auto simp: status_events_def one_event_def)
  have "ty' \<noteq> AcctEventOrderRefund" using Some by (auto simp: status_event_def split: OrderStatusName.split_asm)
  with e show ?thesis by (cases rule: EnqueueEvent_cases) (simp_all add: refund_events_def)
qed


section \<open>Operations that are not refunds\<close>

lemma replace_self:
  assumes "orders_wf db" and "find_order_id (co_Id ord) db = Some ord"
  shows "replace_order ord db = db"
  using update_order_replace [OF assms(1) assms(2), of "\<lambda>x. x"] by (simp add: update_order_def)

lemma moved_refl: "orders_wf db \<Longrightarrow> find_order_id (co_Id ord) db = Some ord \<Longrightarrow> moved db db ord ord (\<lambda>_. 0)"
  using moved_replace [of db ord ord] by (simp add: replace_self)

lemma find_id_id: "find_order_id i db = Some ord \<Longrightarrow> find_order_id (co_Id ord) db = Some ord"
  using find_order_id_Some(2) by blast

lemma find_order_id_of: "orders_wf db \<Longrightarrow> find_order uuid db = Some ord \<Longrightarrow> find_order_id (co_Id ord) db = Some ord"
  using find_order_Some(1) find_order_id_mem by blast

lemma find_order_id_orders: "sh_orders a = sh_orders b \<Longrightarrow> find_order_id i a = find_order_id i b"
  by (simp add: find_order_id_def)

lemma moved_found:
  assumes "moved db db' ord x d"
  shows "find_order_id (co_Id x) db' = Some x"
proof -
  have "sh_orders db' = sh_orders (replace_order x db)" "find_order_id (co_Id x) db = Some ord"
    using assms by (simp_all add: moved_def)
  then show ?thesis using find_order_id_orders [of db' "replace_order x db" "co_Id x"] by simp
qed

lemma updateOrderStatus_moved:
  assumes wf: "orders_wf db" and run: "updateOrderStatusWithValidation i new by' notes db = (Inr r, db')"
    and ord: "find_order_id i db = Some ord"
  obtains x where "moved db db' ord x (\<lambda>_. 0)" and "status_move ord x" and "same_refunds ord x"
    and "no_event db db'" and "co_Status x = new"
proof
  let ?x = "add_history new by' notes (ord\<lparr>co_Status := new\<rparr>)"
  note upd = updateOrderStatus_ok [OF wf run ord]
  show "moved db db' ord ?x (\<lambda>_. 0)" unfolding upd(2)
    by (rule moved_replace [OF wf]) (use find_id_id [OF ord] in simp_all)
  show "status_move ord ?x" using upd(1) by (simp add: status_move_def)
  show "same_refunds ord ?x" by (simp add: same_refunds_def)
  show "no_event db db'" by (simp add: no_event_def upd(2))
  show "co_Status ?x = new" by simp
qed

lemma update_fields_moved:
  assumes wf: "orders_wf db" and ord: "find_order_id i db = Some ord" and f: "same_terms ord (f ord)"
  shows "moved db (update_order i f db) ord (f ord) (\<lambda>_. 0)"
proof -
  have i: "co_Id (f ord) = i" using f find_order_id_Some(2) [OF ord] by (simp add: same_terms_def)
  show ?thesis unfolding update_order_replace [of db i ord f, OF wf ord i]
    by (rule moved_replace [OF wf _ f]) (simp add: i ord)
qed

lemma update_order_events [simp]: "sh_events (update_order i f db) = sh_events db"
  by (simp add: update_order_def)

definition lines_stocked :: "shop_db \<Rightarrow> bool" where
  "lines_stocked db \<longleftrightarrow> (\<forall>ord \<in> set (sh_orders db). \<forall>it \<in> set (getOrderItemsInsert ord). has_variant (item_key it) db)"

text \<open>
  An order that was only placed has taken nothing: the move to the payment takes its units, the move to
  the cancellation of an order that took them gives them back.
\<close>

definition given_back :: "decimal_lib \<Rightarrow> customer_order \<Rightarrow> customer_order \<Rightarrow> variant_key \<Rightarrow> int" where
  "given_back L ord x k =
     (if co_Status x = Cancelled \<and> co_Status ord \<noteq> Placed then units_at L k (getOrderItemsInsert ord)
      else if co_Status ord = Placed \<and> co_Status x \<noteq> Cancelled then - units_at L k (getOrderItemsInsert ord) else 0)"

definition plain_step :: "decimal_lib \<Rightarrow> shop_db \<Rightarrow> shop_db \<Rightarrow> bool" where
  "plain_step L db db' \<longleftrightarrow> db' = db \<or>
     (\<exists>ord x. moved db db' ord x (given_back L ord x) \<and> status_move ord x \<and> same_refunds ord x \<and> status_events x db db' \<and>
        co_Status x \<noteq> Refunded \<and> co_Status x \<noteq> PartiallyRefunded \<and>
        (co_Status x = AwaitingPayment \<longrightarrow> (\<forall>k. 0 \<le> stock_qty k db \<longrightarrow> 0 \<le> stock_qty k db')))"

lemma plain_stepI:
  assumes "moved db db' ord x (given_back L ord x)" and "status_move ord x" and "same_refunds ord x" and "status_events x db db'"
    and "co_Status x \<noteq> Refunded" and "co_Status x \<noteq> PartiallyRefunded" and "co_Status x \<noteq> AwaitingPayment"
  shows "plain_step L db db'"
  using assms unfolding plain_step_def by blast

lemma given_back_0 [simp]:
  assumes "co_Status x \<noteq> Cancelled" and "co_Status x \<noteq> AwaitingPayment" and "status_move ord x"
  shows "given_back L ord x = (\<lambda>_. 0)"
  using assms by (cases "co_Status ord") (auto simp: given_back_def status_move_def isValidStatusTransition_def)

lemma status_events_none: "status_event (co_Status x) = None \<Longrightarrow> no_event db db' \<Longrightarrow> status_events x db db'"
  by (simp add: status_events_def)

lemma no_event_trans: "no_event a b \<Longrightarrow> no_event b c \<Longrightarrow> no_event a c"
  by (simp add: no_event_def)

text \<open>The restoring steps shared by cancellation and expiry.\<close>

lemma restore_step:
  assumes L: "decimal_ok L" and stocked: "lines_stocked db" and mem: "ord \<in> set (sh_orders db)"
    and run: "RestoreStockForProductSizes L (getOrderItemsInsert ord) (Some h) db = (Inr r, t)"
  shows "stock_only db t" and "\<forall>k. stock_qty k t = stock_qty k db + units_at L k (getOrderItemsInsert ord)"
    and "\<forall>k. opening_stock k t = opening_stock k db"
proof -
  have has: "\<forall>it \<in> set (getOrderItemsInsert ord). has_variant (item_key it) db"
    using stocked mem by (simp add: lines_stocked_def)
  note r = RestoreStock_ok [OF L run has]
  show "stock_only db t" "\<forall>k. stock_qty k t = stock_qty k db + units_at L k (getOrderItemsInsert ord)"
    "\<forall>k. opening_stock k t = opening_stock k db" using r by blast+
qed

lemma cancelOrder_step:
  assumes wf: "orders_wf db" and L: "decimal_ok L" and stocked: "lines_stocked db"
    and ord: "find_order_id (co_Id ord) db = Some ord"
    and run: "cancelOrder L ord (getOrderItemsInsert ord) src db = (Inr r, db')"
  shows "plain_step L db db'"
proof (cases "co_Status ord = Cancelled")
  case True
  then show ?thesis using run by (simp add: cancelOrder_def ok_simps plain_step_def)
next
  case False
  let ?i = "co_Id ord"
  from run False obtain t1 t2 t3 where
    1: "(case stockRestoreModeForCancel (co_Status ord) of
           stockRestoreNone \<Rightarrow> returnE ()
         | stockRestoreHistory \<Rightarrow> RestoreStockForProductSizes L (getOrderItemsInsert ord) (Some (order_history src ord))) db = (Inr (), t1)"
    and 2: "t2 = (if promo_set ord then removePromo ?i t1 else t1)"
    and 3: "updateOrderStatus ?i Cancelled t2 = (Inr (), t3)"
    and db': "db' = releaseOpenPackagingClaims L ?i t3"
    by (auto simp: cancelOrder_def ok_simps split: if_split_asm)
  define d where "d k = (if co_Status ord \<noteq> Placed then units_at L k (getOrderItemsInsert ord) else 0)" for k
  have mem: "ord \<in> set (sh_orders db)" by (rule find_order_id_Some [OF ord])
  have s1: "stock_only db t1 \<and> (\<forall>k. stock_qty k t1 = stock_qty k db + d k) \<and> (\<forall>k. opening_stock k t1 = opening_stock k db)"
  proof (cases "co_Status ord = Placed")
    case True
    then show ?thesis using 1 by (simp add: stockRestoreModeForCancel_def returnE_ok d_def)
  next
    case False
    then show ?thesis using restore_step [OF L stocked mem] 1 by (simp add: stockRestoreModeForCancel_def d_def)
  qed
  have ord1: "find_order_id ?i t1 = Some ord" and wf1: "orders_wf t1"
    using s1 ord wf find_order_id_stock [of db t1 ?i] orders_wf_same [of t1 db] by (simp_all add: stock_only_def)
  obtain y where y: "moved t1 t2 ord y (\<lambda>_. 0)" "same_refunds ord y" "co_Status y = co_Status ord" "co_History y = co_History ord"
    and e2: "sh_events t2 = sh_events t1"
  proof (cases "promo_set ord")
    case True
    show thesis
      by (rule that [of "ord\<lparr>co_PromoId := None\<rparr>"])
        (use update_fields_moved [OF wf1 ord1, of "\<lambda>o'. o'\<lparr>co_PromoId := None\<rparr>"] True in
          \<open>simp_all add: 2 removePromo_def same_refunds_def\<close>)
  next
    case False
    show thesis by (rule that [of ord]) (use moved_refl [OF wf1 ord1] False in \<open>simp_all add: 2 same_refunds_def\<close>)
  qed
  have wf2: "orders_wf t2" by (rule moved_wf [OF y(1) wf1])
  have ord2: "find_order_id ?i t2 = Some y"
    using moved_found [OF y(1)] y(1) by (simp add: moved_def same_terms_def)
  obtain x where x: "moved t2 t3 y x (\<lambda>_. 0)" "status_move y x" "same_refunds y x" "no_event t2 t3" "co_Status x = Cancelled"
    using updateOrderStatus_moved [OF wf2 3 [unfolded updateOrderStatus_def] ord2] by blast
  have "moved db t3 ord x d"
    using moved_after_stock [OF moved_trans [OF y(1) x(1)]] s1 by blast
  moreover have "d = given_back L ord x" using x(5) by (auto simp: d_def given_back_def)
  ultimately have m: "moved db db' ord x (given_back L ord x)" unfolding db' by (auto intro: moved_claims)
  have "sh_events db' = sh_events db"
    using x(4) e2 s1 by (simp add: db' claims_only no_event_def stock_only_def)
  then have "status_events x db db'" by (simp add: status_events_def status_event_def x(5) no_event_def)
  moreover have "status_move ord x" "same_refunds ord x"
    using x(2,3) y(2,3,4) by (simp_all add: status_move_def same_refunds_def)
  ultimately show ?thesis using m x(5) by (intro plain_stepI [of db db' ord x]) simp_all
qed

lemma CancelOrder_step:
  assumes "orders_wf db" and "decimal_ok L" and "lines_stocked db" and "CancelOrder L uuid db = (Inr r, db')"
  shows "plain_step L db db'"
proof -
  from assms(4) obtain ord where "find_order uuid db = Some ord"
    and "cancelOrder L ord (getOrderItemsInsert ord) StockChangeSourceOrderCancelled db = (Inr (), db')"
    by (auto simp: CancelOrder_def getOrderByUUIDForUpdate_def ok_simps)
  then show ?thesis using cancelOrder_step [OF assms(1-3)] find_order_id_of [OF assms(1)] by blast
qed

lemma updateOrderStatus_step:
  assumes "orders_wf db" and "updateOrderStatusWithValidation i new b n db = (Inr r, db')" and "find_order_id i db = Some ord"
    and "status_event new = None" and "new \<noteq> Cancelled" and "new \<noteq> Refunded" and "new \<noteq> PartiallyRefunded" and "new \<noteq> AwaitingPayment"
  shows "plain_step L db db'"
proof -
  obtain x where "moved db db' ord x (\<lambda>_. 0)" "status_move ord x" "same_refunds ord x" "no_event db db'" "co_Status x = new"
    using updateOrderStatus_moved [OF assms(1-3)] by blast
  then show ?thesis using assms(4-8) by (intro plain_stepI [of db db' ord x]) (simp_all add: status_events_none)
qed

lemma SetOrderStatusToPendingReturn_step:
  assumes "orders_wf db" and "SetOrderStatusToPendingReturn uuid b db = (Inr r, db')"
  shows "plain_step L db db'"
proof -
  from assms(2) obtain ord where "find_order uuid db = Some ord"
    and "updateOrderStatusWithValidation (co_Id ord) PendingReturn b ''User requested return'' db = (Inr (), db')"
    by (auto simp: SetOrderStatusToPendingReturn_def getOrderByUUIDForUpdate_def ok_simps)
  then show ?thesis using updateOrderStatus_step [OF assms(1)] find_order_id_of [OF assms(1)]
    by (simp add: status_event_def)
qed

lemma request_return_step:
  assumes wf: "orders_wf db" and run: "request_return (co_Id ord) st reason db = (Inr r, db')"
    and ord: "find_order_id (co_Id ord) db = Some ord" and st: "isValidStatusTransition (co_Status ord) st"
    "status_event st = None" "st \<noteq> Cancelled" "st \<noteq> Refunded" "st \<noteq> PartiallyRefunded" "st \<noteq> AwaitingPayment"
  shows "plain_step L db db'"
proof -
  let ?y = "ord\<lparr>co_Status := st, co_RefundReason := Some reason\<rparr>"
  let ?f = "\<lambda>o'. o'\<lparr>co_Status := st, co_RefundReason := Some reason\<rparr>"
  let ?t = "update_order (co_Id ord) ?f db"
  let ?x = "add_history st ''user'' reason ?y"
  have db': "db' = update_order (co_Id ord) (add_history st ''user'' reason) ?t"
    using run by (simp add: request_return_def insertOrderStatusHistoryEntry_def ok_simps)
  have 1: "moved db ?t ord ?y (\<lambda>_. 0)" using update_fields_moved [OF wf ord, of ?f] by simp
  have 2: "moved ?t db' ?y ?x (\<lambda>_. 0)" unfolding db'
    by (rule update_fields_moved [OF moved_wf [OF 1 wf]]) (use moved_found [OF 1] in \<open>simp_all add: same_terms_def line_facts_def shipping_terms_def\<close>)
  have "moved db db' ord ?x (\<lambda>_. 0)" by (rule moved_trans [OF 1 2])
  moreover have "status_move ord ?x" using st(1) by (simp add: status_move_def)
  moreover have "same_refunds ord ?x" by (simp add: same_refunds_def)
  moreover have "no_event db db'" by (simp add: db' no_event_def)
  ultimately show ?thesis using st by (intro plain_stepI [of db db' ord ?x]) (simp_all add: status_events_none)
qed

lemma find_mem: "find P xs = Some x \<Longrightarrow> x \<in> set xs"
  by (auto simp: find_Some_iff)

lemma CancelOrderByUser_step:
  assumes wf: "orders_wf db" and L: "decimal_ok L" and stocked: "lines_stocked db"
    and run: "CancelOrderByUser L uuid email reason db = (Inr r, db')"
  shows "plain_step L db db'"
proof -
  from run obtain ord where mem: "ord \<in> set (sh_orders db)"
    and k: "(case co_Status ord of
         Placed \<Rightarrow> cancelOrder L ord (getOrderItemsInsert ord) StockChangeSourceOrderCancelled
       | AwaitingPayment \<Rightarrow> cancelOrder L ord (getOrderItemsInsert ord) StockChangeSourceOrderCancelled
       | Confirmed \<Rightarrow> request_return (co_Id ord) RefundInProgress reason
       | Shipped \<Rightarrow> request_return (co_Id ord) PendingReturn reason
       | Delivered \<Rightarrow> request_return (co_Id ord) PendingReturn reason
       | st \<Rightarrow> failE (ErrBadOrderStatus st)) db = (Inr r, db')"
    by (auto simp: CancelOrderByUser_def getOrderByUUIDAndEmailForUpdate_def bindE_ok readE_ok txFunc_ok requireE_ok dest: find_mem)
  have ord: "find_order_id (co_Id ord) db = Some ord" by (rule find_order_id_mem [OF wf mem])
  show ?thesis using k cancelOrder_step [OF wf L stocked ord] request_return_step [OF wf _ ord]
    by (cases "co_Status ord") (simp_all add: failE_ok isValidStatusTransition_def status_event_def)
qed


section \<open>Shipping, delivery and payment\<close>

lemma enqueue_order_ok:
  assumes "enqueue_order now ty uuid at' db = (Inr r, db')"
  shows "one_event ty uuid db db'" and "\<exists>evs. db' = db\<lparr>sh_events := evs\<rparr>"
proof -
  from shop_enqueue_ok [OF assms [unfolded enqueue_order_def]] obtain evs where "db' = db\<lparr>sh_events := evs\<rparr>"
    "EnqueueEvent now \<lparr>ei_EventType = ty, ei_SourceKey = uuid, ei_Payload = Inr (order_payload uuid),
       ei_OccurredAt = at'\<rparr> (sh_events db) = (Inr (), evs)" by blast
  then show "one_event ty uuid db db'" "\<exists>evs. db' = db\<lparr>sh_events := evs\<rparr>" by (auto simp: one_event_def)
qed

lemma one_event_after: "sh_events t = sh_events db \<Longrightarrow> one_event ty key t db' \<Longrightarrow> one_event ty key db db'"
  by (simp add: one_event_def)

text \<open>A change of the shipment row that keeps its cost.\<close>

lemma shipment_moved:
  assumes wf: "orders_wf db" and ord: "find_order_id i db = Some ord"
    and f: "\<And>sm. sm_Cost (f sm) = sm_Cost sm \<and> sm_FreeShipping (f sm) = sm_FreeShipping sm"
  shows "moved db (update_order i (\<lambda>o'. o'\<lparr>co_Shipment := map_option f (co_Shipment o')\<rparr>) db) ord
    (ord\<lparr>co_Shipment := map_option f (co_Shipment ord)\<rparr>) (\<lambda>_. 0)"
proof -
  have "same_terms ord (ord\<lparr>co_Shipment := map_option f (co_Shipment ord)\<rparr>)"
    by (simp add: same_terms_def line_facts_def shipping_terms_def option.map_comp comp_def f)
  then show ?thesis using update_fields_moved [OF wf ord, of "\<lambda>o'. o'\<lparr>co_Shipment := map_option f (co_Shipment o')\<rparr>"] by simp
qed

lemma SetTrackingNumber_step:
  assumes wf: "orders_wf db" and run: "SetTrackingNumber now uuid code db = (Inr r, db')"
  shows "plain_step L db db'"
proof -
  from run obtain ord sm t1 t2 shipped where found: "find_order uuid db = Some ord"
    and 1: "t1 = updateOrderShipment (co_Id ord) (sm\<lparr>sm_TrackingCode := Some code, sm_ShippingDate := Some shipped\<rparr>) db"
    and 2: "updateOrderStatus (co_Id ord) Shipped t1 = (Inr (), t2)"
    and 3: "enqueue_order now AcctEventOrderShipped uuid shipped t2 = (Inr (), db')"
    by (auto simp: SetTrackingNumber_def getOrderByUUIDForUpdate_def ok_simps Let_def)
  have ord: "find_order_id (co_Id ord) db = Some ord" by (rule find_order_id_of [OF wf found])
  obtain y where y: "moved db t1 ord y (\<lambda>_. 0)" "same_refunds ord y" "co_Status y = co_Status ord" "co_History y = co_History ord"
  proof -
    let ?f = "\<lambda>row. row\<lparr>sm_TrackingCode := Some code, sm_CarrierId := sm_CarrierId sm, sm_ShippingDate := Some shipped,
       sm_EstimatedArrivalDate := sm_EstimatedArrivalDate sm\<rparr>"
    have "moved db t1 ord (ord\<lparr>co_Shipment := map_option ?f (co_Shipment ord)\<rparr>) (\<lambda>_. 0)"
      using shipment_moved [OF wf ord, of ?f] by (simp add: 1 updateOrderShipment_def)
    then show thesis by (rule that) (simp_all add: same_refunds_def)
  qed
  have e1: "sh_events t1 = sh_events db" by (simp add: 1 updateOrderShipment_def)
  have ord1: "find_order_id (co_Id ord) t1 = Some y" using moved_found [OF y(1)] y(1) by (simp add: moved_def same_terms_def)
  obtain x where x: "moved t1 t2 y x (\<lambda>_. 0)" "status_move y x" "same_refunds y x" "no_event t1 t2" "co_Status x = Shipped"
    using updateOrderStatus_moved [OF moved_wf [OF y(1) wf] 2 [unfolded updateOrderStatus_def] ord1] by blast
  have uuid: "co_UUID x = uuid" using x(1) y(1) find_order_Some [OF found] by (simp add: moved_def same_terms_def)
  have "moved db t2 ord x (\<lambda>_. 0)" by (rule moved_trans [OF y(1) x(1)])
  then have "moved db db' ord x (\<lambda>_. 0)" using enqueue_order_ok(2) [OF 3] by (auto intro: moved_event)
  moreover have "one_event AcctEventOrderShipped uuid db db'"
    by (rule one_event_after [OF _ enqueue_order_ok(1) [OF 3]]) (use x(4) e1 in \<open>simp add: no_event_def\<close>)
  then have "status_events x db db'" by (simp add: status_events_def status_event_def x(5) uuid)
  moreover have "status_move ord x" "same_refunds ord x"
    using x(2,3) y(2,3,4) by (simp_all add: status_move_def same_refunds_def)
  ultimately show ?thesis using x(5) by (intro plain_stepI [of db db' ord x]) simp_all
qed

lemma DeliverOrderWithSource_step:
  assumes wf: "orders_wf db" and run: "DeliverOrderWithSource now uuid b n db = (Inr r, db')"
  shows "plain_step L db db'"
proof -
  from run obtain tr t where tr: "deliverOrderTx uuid b n now db = (Inr tr, t)"
    and ev: "whenE tr (enqueue_order now AcctEventOrderDelivered uuid now) t = (Inr (), db')"
    by (auto simp: DeliverOrderWithSource_def ok_simps)
  show ?thesis
  proof (cases tr)
    case False
    then have "t = db" using tr by (auto simp: deliverOrderTx_def getOrderByUUIDForUpdate_def ok_simps split: if_split_asm)
    then show ?thesis using ev False by (simp add: whenE_ok plain_step_def)
  next
    case True
    then obtain ord t1 where found: "find_order uuid db = Some ord"
      and 1: "updateOrderStatusWithValidation (co_Id ord) Delivered b n db = (Inr (), t1)"
      and 2: "t = setShipmentDeliveredAt (co_Id ord) now t1"
      using tr by (auto simp: deliverOrderTx_def getOrderByUUIDForUpdate_def ok_simps split: if_split_asm)
    have 3: "enqueue_order now AcctEventOrderDelivered uuid now t = (Inr (), db')" using ev True by (simp add: whenE_ok)
    have ord: "find_order_id (co_Id ord) db = Some ord" by (rule find_order_id_of [OF wf found])
    obtain y where y: "moved db t1 ord y (\<lambda>_. 0)" "status_move ord y" "same_refunds ord y" "no_event db t1" "co_Status y = Delivered"
      using updateOrderStatus_moved [OF wf 1 ord] by blast
    let ?f = "\<lambda>row. row\<lparr>sm_DeliveredAt := Some now\<rparr>"
    let ?x = "y\<lparr>co_Shipment := map_option ?f (co_Shipment y)\<rparr>"
    have ord1: "find_order_id (co_Id ord) t1 = Some y" using moved_found [OF y(1)] y(1) by (simp add: moved_def same_terms_def)
    have m2: "moved t1 t y ?x (\<lambda>_. 0)"
      using shipment_moved [OF moved_wf [OF y(1) wf] ord1, of ?f] by (simp add: 2 setShipmentDeliveredAt_def)
    have "moved db t ord ?x (\<lambda>_. 0)" by (rule moved_trans [OF y(1) m2])
    then have "moved db db' ord ?x (\<lambda>_. 0)" using enqueue_order_ok(2) [OF 3] by (auto intro: moved_event)
    moreover have uuid: "co_UUID ?x = uuid" using y(1) find_order_Some [OF found] by (simp add: moved_def same_terms_def)
    have "one_event AcctEventOrderDelivered uuid db db'"
      by (rule one_event_after [OF _ enqueue_order_ok(1) [OF 3]])
        (use y(4) in \<open>simp add: no_event_def 2 setShipmentDeliveredAt_def\<close>)
    then have "status_events ?x db db'" using uuid by (simp add: status_events_def status_event_def y(5))
    moreover have "status_move ord ?x" "same_refunds ord ?x"
      using y(2,3) by (simp_all add: status_move_def same_refunds_def)
    ultimately show ?thesis using y(5) by (intro plain_stepI [of db db' ord ?x]) simp_all
  qed
qed

lemma ExpireOrderPayment_step:
  assumes wf: "orders_wf db" and L: "decimal_ok L" and stocked: "lines_stocked db"
    and run: "ExpireOrderPayment L uuid db = (Inr r, db')"
  shows "plain_step L db db'"
proof -
  from run obtain ord where found: "find_order uuid db = Some ord" and k: "(if co_Status ord \<noteq> AwaitingPayment then returnE None
       else bindE (readE (\<lambda>_. requireE ErrNoPayment (co_Payment ord))) (\<lambda>payment.
         if pi_IsTransactionDone payment then returnE (Some payment)
         else
           thenE (modifyE (updateOrderPayment (co_Id ord) (expired_payment payment)))
           (thenE (RestoreStockForProductSizes L (getOrderItemsInsert ord)
                     (Some (order_history StockChangeSourceOrderCancelled ord)))
           (thenE (modifyE (releaseOpenPackagingClaims L (co_Id ord)))
           (thenE (updateOrderStatus (co_Id ord) Cancelled)
           (thenE (whenE (promo_set ord) (modifyE (removePromo (co_Id ord))))
             (returnE (Some payment)))))))) db = (Inr r, db')"
    unfolding ExpireOrderPayment_def getOrderByUUIDForUpdate_def txFunc_ok bindE_ok readE_ok requireE_ok by blast
  let ?i = "co_Id ord"
  have ord: "find_order_id ?i db = Some ord" by (rule find_order_id_of [OF wf found])
  show ?thesis
  proof (cases "db' = db")
    case True
    then show ?thesis by (simp add: plain_step_def)
  next
    case False
    then obtain p t2 t4 where st: "co_Status ord = AwaitingPayment"
      and 2: "RestoreStockForProductSizes L (getOrderItemsInsert ord) (Some (order_history StockChangeSourceOrderCancelled ord))
         (updateOrderPayment ?i p db) = (Inr (), t2)"
      and 4: "updateOrderStatus ?i Cancelled (releaseOpenPackagingClaims L ?i t2) = (Inr (), t4)"
      and 5: "db' = (if promo_set ord then removePromo ?i t4 else t4)"
      using k by (auto simp: ok_simps split: if_split_asm)
    let ?t1 = "updateOrderPayment ?i p db" and ?t3 = "releaseOpenPackagingClaims L ?i t2"
    let ?y1 = "ord\<lparr>co_Payment := map_option (\<lambda>_. p) (co_Payment ord)\<rparr>"
    have m1: "moved db ?t1 ord ?y1 (\<lambda>_. 0)" unfolding updateOrderPayment_def
      using update_fields_moved [OF wf ord, of "\<lambda>o'. o'\<lparr>co_Payment := map_option (\<lambda>_. p) (co_Payment o')\<rparr>"] by simp
    have items: "getOrderItemsInsert ?y1 = getOrderItemsInsert ord" by (simp add: getOrderItemsInsert_def)
    have wf1: "orders_wf ?t1" by (rule moved_wf [OF m1 wf])
    have found1: "find_order_id ?i ?t1 = Some ?y1" using moved_found [OF m1] by simp
    have has: "\<forall>it \<in> set (getOrderItemsInsert ord). has_variant (item_key it) ?t1"
    proof -
      have "has_variant k ?t1 = has_variant k db" for k
        by (rule has_variant_variants) (simp add: updateOrderPayment_def update_order_def)
      then show ?thesis using stocked find_order_Some(1) [OF found] by (simp add: lines_stocked_def)
    qed
    note s2 = RestoreStock_ok [OF L 2 has]
    let ?d = "\<lambda>k. units_at L k (getOrderItemsInsert ord)"
    have found3: "find_order_id ?i ?t3 = Some ?y1" and wf3: "orders_wf ?t3"
      using found1 wf1 s2(3) find_order_id_orders [of ?t3 ?t1] orders_wf_same [of ?t3 ?t1]
      by (simp_all add: claims_only stock_only_def)
    obtain y4 where y4: "moved ?t3 t4 ?y1 y4 (\<lambda>_. 0)" "status_move ?y1 y4" "same_refunds ?y1 y4" "no_event ?t3 t4" "co_Status y4 = Cancelled"
      using updateOrderStatus_moved [OF wf3 4 [unfolded updateOrderStatus_def] found3] by blast
    have wf4: "orders_wf t4" by (rule moved_wf [OF y4(1) wf3])
    have found4: "find_order_id ?i t4 = Some y4" using moved_found [OF y4(1)] y4(1) by (simp add: moved_def same_terms_def)
    obtain x where x: "moved t4 db' y4 x (\<lambda>_. 0)" "same_refunds y4 x" "co_Status x = co_Status y4" "co_History x = co_History y4"
      and e5: "sh_events db' = sh_events t4"
    proof (cases "promo_set ord")
      case True
      show thesis
        by (rule that [of "y4\<lparr>co_PromoId := None\<rparr>"])
          (use update_fields_moved [OF wf4 found4, of "\<lambda>o'. o'\<lparr>co_PromoId := None\<rparr>"] True in
            \<open>simp_all add: 5 removePromo_def same_refunds_def\<close>)
    next
      case False
      show thesis by (rule that [of y4])
        (use moved_refl [OF wf4, of y4] moved_found [OF y4(1)] False in \<open>simp_all add: 5 same_refunds_def\<close>)
    qed
    have 31: "moved ?t3 db' ?y1 x (\<lambda>_. 0)" by (rule moved_trans [OF y4(1) x(1)])
    have m23: "moved t2 db' ?y1 x (\<lambda>_. 0)"
      using 31 by (simp add: moved_def claims_only find_order_id_def replace_order_def has_thumbnail_def find_product_def
          has_variant_def find_variant_def)
    have m13: "moved ?t1 db' ?y1 x ?d"
      by (rule moved_after_stock [OF m23 s2(3)]) (use s2 in blast)+
    have "moved db db' ord x ?d" by (rule moved_trans [OF m1 m13])
    moreover have "given_back L ord x = ?d" using x(3) y4(5) st by (auto simp: given_back_def)
    moreover have "sh_events db' = sh_events db"
      using e5 y4(4) s2(3) by (simp add: no_event_def claims_only stock_only_def updateOrderPayment_def)
    then have "status_events x db db'" using x(3) y4(5) by (simp add: status_events_def status_event_def no_event_def)
    moreover have "status_move ord x" "same_refunds ord x"
      using x(2,3,4) y4(2,3) by (simp_all add: status_move_def same_refunds_def)
    ultimately show ?thesis using x(3) y4(5) by (intro plain_stepI [of db db' ord x]) simp_all
  qed
qed


subsection \<open>Payment\<close>

lemma resnapshot_facts [simp]: "ir_Id (resnapshot db r) = ir_Id r" "item_insert (resnapshot db r) = item_insert r"
  by (auto simp: resnapshot_def item_insert_def split: option.split)

lemma lock_products_moved:
  assumes "moved db t ord x d"
  shows "moved db (lock_products now items t) ord x d"
proof -
  let ?f = "\<lambda>p. if pr_Id p \<in> ir_ProductId ` set items \<and> pr_SkuLockedAt p = None then p\<lparr>pr_SkuLockedAt := Some now\<rparr> else p"
  have "find (\<lambda>p. pr_Id p = i) (map ?f ps) = map_option ?f (find (\<lambda>p. pr_Id p = i) ps)" for i ps
    by (induction ps) auto
  then have "find_product i (lock_products now items t) = map_option ?f (find_product i t)" for i
    by (simp add: find_product_def lock_products_def)
  then have "has_thumbnail (lock_products now items t) i = has_thumbnail t i" for i
    by (auto simp: has_thumbnail_def split: option.split)
  moreover have "stock_qty k (lock_products now items t) = stock_qty k t" "opening_stock k (lock_products now items t) = opening_stock k t"
    "has_variant k (lock_products now items t) = has_variant k t" "sh_orders (lock_products now items t) = sh_orders t"
    "sh_nextOrder (lock_products now items t) = sh_nextOrder t" for k
    by (cases k; simp add: lock_products_def stock_qty_def opening_stock_def has_variant_def find_variant_def)+
  ultimately show ?thesis using assms by (simp add: moved_def)
qed

lemma freeze_moved:
  assumes wf: "orders_wf db" and ord: "find_order_id i db = Some ord"
    and run: "freezeAndResnapshotOrderSKUs now i db = (Inr r, db')"
  shows "moved db db' ord (ord\<lparr>co_Items := map (resnapshot db) (co_Items ord)\<rparr>) (\<lambda>_. 0)" and "no_event db db'"
proof -
  let ?f = "\<lambda>o'. o'\<lparr>co_Items := map (resnapshot db) (co_Items o')\<rparr>"
  have "same_terms ord (?f ord)" by (simp add: same_terms_def line_facts_def shipping_terms_def comp_def)
  then have m: "moved db (update_order i ?f db) ord (?f ord) (\<lambda>_. 0)" using update_fields_moved [OF wf ord, of ?f] by simp
  from run obtain items where db': "db' = lock_products now items (update_order i ?f db)"
    by (auto simp: freezeAndResnapshotOrderSKUs_def ok_simps)
  show "moved db db' ord (?f ord) (\<lambda>_. 0)" unfolding db' by (rule lock_products_moved [OF m])
  show "no_event db db'" by (simp add: no_event_def db' lock_products_def)
qed

lemma disableVoucher_only: "\<exists>ps. snd (disableVoucherInTx cache q db) = db\<lparr>sh_promos := ps\<rparr>"
  by (auto simp: disableVoucherInTx_def split: option.split intro: exI [of _ "sh_promos db"])

lemma promos_only [simp]:
  "stock_qty k (db\<lparr>sh_promos := ps\<rparr>) = stock_qty k db" "opening_stock k (db\<lparr>sh_promos := ps\<rparr>) = opening_stock k db"
  "has_variant k (db\<lparr>sh_promos := ps\<rparr>) = has_variant k db" "has_thumbnail (db\<lparr>sh_promos := ps\<rparr>) i = has_thumbnail db i"
  "find_order_id j (db\<lparr>sh_promos := ps\<rparr>) = find_order_id j db"
  "sh_orders (replace_order x (db\<lparr>sh_promos := ps\<rparr>)) = sh_orders (replace_order x db)"
  by (cases k; simp add: stock_qty_def opening_stock_def has_variant_def find_variant_def has_thumbnail_def find_product_def
      find_order_id_def replace_order_def)+

lemma OrderPaymentDone_effect:
  assumes wf: "orders_wf db" and run: "OrderPaymentDone cache now uuid p db = (Inr r, db')"
  shows "plain_step L db db' \<and> (fst r \<longrightarrow> (\<exists>x. find_order uuid db' = Some x \<and> co_Status x = Confirmed))"
proof -
  from run obtain ord where found: "find_order uuid db = Some ord" and k: "(if co_Status ord \<noteq> AwaitingPayment then returnE (False, [])
     else
       bindE (if promo_set ord then (\<lambda>db. (case disableVoucherInTx cache (co_PromoId ord) db of (code, db) \<Rightarrow> (Inr code, db)))
              else returnE []) (\<lambda>code.
       thenE (updateOrderStatus (co_Id ord) Confirmed)
       (thenE (modifyE (updateOrderPayment (co_Id ord) (p\<lparr>pi_IsTransactionDone := True\<rparr>)))
       (thenE (freezeAndResnapshotOrderSKUs now (co_Id ord))
       (thenE (enqueue_order now AcctEventOrderPaid uuid now)
         (returnE (True, code))))))) db = (Inr r, db')"
    unfolding OrderPaymentDone_def payment_done_body_def getOrderByUUIDForUpdate_def txFunc_ok bindE_ok readE_ok requireE_ok by blast
  let ?i = "co_Id ord"
  have ord: "find_order_id ?i db = Some ord" by (rule find_order_id_of [OF wf found])
  show ?thesis
  proof (cases "co_Status ord = AwaitingPayment")
    case False
    then show ?thesis using k by (auto simp: returnE_ok plain_step_def)
  next
    case True
    from k True obtain c t0 t1 t3 where
      0: "(if promo_set ord then (\<lambda>db. (case disableVoucherInTx cache (co_PromoId ord) db of (code, db) \<Rightarrow> (Inr code, db)))
              else returnE []) db = (Inr c :: shop_error + string, t0)"
      and 1: "updateOrderStatus ?i Confirmed t0 = (Inr (), t1)"
      and 3: "freezeAndResnapshotOrderSKUs now ?i (updateOrderPayment ?i (p\<lparr>pi_IsTransactionDone := True\<rparr>) t1) = (Inr (), t3)"
      and 4: "enqueue_order now AcctEventOrderPaid uuid now t3 = (Inr (), db')"
      by (auto simp: bindE_ok thenE_ok modifyE_ok returnE_ok)
    have "\<exists>ps. t0 = db\<lparr>sh_promos := ps\<rparr>"
    proof (cases "promo_set ord")
      case True
      then show ?thesis using 0 disableVoucher_only [of cache "co_PromoId ord" db] by (auto split: prod.split_asm)
    next
      case False
      then show ?thesis using 0 by (auto simp: returnE_ok intro: exI [of _ "sh_promos db"])
    qed
    then obtain ps where t0: "t0 = db\<lparr>sh_promos := ps\<rparr>" ..
    note 1 = 1 [unfolded t0]
    let ?t0 = "db\<lparr>sh_promos := ps\<rparr>" and ?t2 = "updateOrderPayment ?i (p\<lparr>pi_IsTransactionDone := True\<rparr>) t1"
    have wf0: "orders_wf ?t0" and ord0: "find_order_id ?i ?t0 = Some ord"
      using wf ord by (simp_all add: orders_wf_def find_order_id_def)
    obtain y where y: "moved ?t0 t1 ord y (\<lambda>_. 0)" "status_move ord y" "same_refunds ord y" "no_event ?t0 t1" "co_Status y = Confirmed"
      using updateOrderStatus_moved [OF wf0 1 [unfolded updateOrderStatus_def] ord0] by blast
    have y0: "moved db t1 ord y (\<lambda>_. 0)"
      using y(1) by (simp add: moved_def)
    have wf1: "orders_wf t1" by (rule moved_wf [OF y0 wf])
    have ord1: "find_order_id ?i t1 = Some y" using moved_found [OF y0] y0 by (simp add: moved_def same_terms_def)
    let ?z = "y\<lparr>co_Payment := map_option (\<lambda>_. p\<lparr>pi_IsTransactionDone := True\<rparr>) (co_Payment y)\<rparr>"
    have m2: "moved t1 ?t2 y ?z (\<lambda>_. 0)" unfolding updateOrderPayment_def
      using update_fields_moved [OF wf1 ord1, of "\<lambda>o'. o'\<lparr>co_Payment := map_option (\<lambda>_. p\<lparr>pi_IsTransactionDone := True\<rparr>) (co_Payment o')\<rparr>"]
      by simp
    have wf2: "orders_wf ?t2" by (rule moved_wf [OF m2 wf1])
    have ord2: "find_order_id ?i ?t2 = Some ?z" using moved_found [OF m2] m2 find_order_id_Some [OF ord1] by simp
    let ?x = "?z\<lparr>co_Items := map (resnapshot ?t2) (co_Items ?z)\<rparr>"
    note m3 = freeze_moved [OF wf2 ord2 3]
    have "moved db t3 ord ?x (\<lambda>_. 0)" by (rule moved_trans [OF y0 moved_trans [OF m2 m3(1)]])
    then have m: "moved db db' ord ?x (\<lambda>_. 0)" using enqueue_order_ok(2) [OF 4] by (auto intro: moved_event)
    have uuid: "co_UUID ?x = uuid" using y0 find_order_Some [OF found] by (simp add: moved_def same_terms_def)
    have "find_order (co_UUID ?x) db' = Some ?x"
      by (rule find_order_mem [OF moved_wf [OF m wf] find_order_id_Some(1) [OF moved_found [OF m]]])
    then have last: "find_order uuid db' = Some ?x" unfolding uuid .
    have "sh_events t3 = sh_events db" using m3(2) y(4) by (simp add: no_event_def updateOrderPayment_def)
    from one_event_after [OF this enqueue_order_ok(1) [OF 4]]
    have "status_events ?x db db'" using uuid by (simp add: status_events_def status_event_def y(5))
    moreover have "status_move ord ?x" "same_refunds ord ?x" using y(2,3) by (simp_all add: status_move_def same_refunds_def)
    ultimately have "plain_step L db db'" using m y(5) by (intro plain_stepI [of db db' ord ?x]) simp_all
    then show ?thesis using last y(5) by (intro conjI impI exI [of _ ?x]) simp_all
  qed
qed

lemma OrderPaymentDone_step:
  assumes "orders_wf db" and "OrderPaymentDone cache now uuid p db = (Inr r, db')"
  shows "plain_step L db db'"
  using OrderPaymentDone_effect [OF assms] by blast

end
