(* ===== verification/Refund_Scope.thy ===== *)
theory Refund_Scope
  imports Order_Moves "HOL-Library.Multiset"
begin

text \<open>
  The scope of a refund, unit by unit: the lists that the code builds by counting and expanding are
  counts of units per line, and they stay within what is left to refund.
\<close>

declare split_paired_All [simp del] split_paired_Ex [simp del]

section \<open>Counting\<close>

definition units_of :: "refundItem list \<Rightarrow> int \<Rightarrow> int" where
  "units_of items i = int (length (filter (\<lambda>r. ri_OrderItemId r = i) items))"

lemma units_of_simps [simp]:
  "units_of [] i = 0" "units_of (r # rs) i = (if ri_OrderItemId r = i then 1 else 0) + units_of rs i"
  "units_of (rs @ rs') i = units_of rs i + units_of rs' i"
  by (simp_all add: units_of_def)

lemma units_of_nonneg [simp]: "0 \<le> units_of rs i"
  by (simp add: units_of_def)

lemma units_of_replicate [simp]: "units_of (replicate n r) i = (if ri_OrderItemId r = i then int n else 0)"
  by (induction n) auto

lemma refund_unit_id [simp]: "ri_OrderItemId (refund_unit it) = ot_Id it"
  by (simp add: refund_unit_def)

lemma count_of_update [simp]: "count_of (AList.update k v m) i = (if i = k then v else count_of m i)"
  by (simp add: count_of_def AList.update_conv')

lemma count_of_Nil [simp]: "count_of [] i = 0"
  by (simp add: count_of_def)

lemma count_ids_count: "count_of (count_ids ids) i = int (count_list ids i)"
proof -
  have "count_of (foldl (\<lambda>m i. AList.update i (case map_of m i of None \<Rightarrow> 1 | Some n \<Rightarrow> n + 1) m) m ids) i =
    count_of m i + int (count_list ids i)" for m
  proof (induction ids arbitrary: m)
    case (Cons j ids)
    have "(case map_of m j of None \<Rightarrow> 1 | Some n \<Rightarrow> n + 1) = count_of m j + 1"
      by (simp add: count_of_def split: option.split)
    then show ?case by (simp add: Cons.IH)
  qed simp
  then show ?thesis by (simp add: count_ids_def)
qed

lemma count_ids_distinct: "distinct (map fst (count_ids ids))"
proof -
  have "distinct (map fst m) \<Longrightarrow> distinct (map fst (foldl (\<lambda>m i. AList.update i (case map_of m i of None \<Rightarrow> 1 | Some n \<Rightarrow> n + 1) m) m ids))"
    for m by (induction ids arbitrary: m) (simp_all add: distinct_update)
  from this [of "[]"] show ?thesis by (simp add: count_ids_def)
qed

lemma count_of_mem: "distinct (map fst m) \<Longrightarrow> (i, n) \<in> set m \<Longrightarrow> count_of m i = n"
  by (simp add: count_of_def)

lemma refunded_by_item_units:
  assumes "\<forall>r \<in> set items. oi_Quantity (ri_OrderItemInsert r) = 1"
  shows "count_of (refunded_by_item items) i = units_of items i"
proof -
  have "count_of (foldl (\<lambda>m r. AList.update (ri_OrderItemId r)
         (count_of m (ri_OrderItemId r) + IntPart (oi_Quantity (ri_OrderItemInsert r))) m) m items) i = count_of m i + units_of items i"
    for m using assms by (induction items arbitrary: m) (auto simp: IntPart_def)
  then show ?thesis by (simp add: refunded_by_item_def)
qed

lemma refunded_by_item_distinct: "distinct (map fst (refunded_by_item items))"
proof -
  have "distinct (map fst m) \<Longrightarrow> distinct (map fst (foldl (\<lambda>m r. AList.update (ri_OrderItemId r)
         (count_of m (ri_OrderItemId r) + IntPart (oi_Quantity (ri_OrderItemInsert r))) m) m items))" for m
    by (induction items arbitrary: m) (simp_all add: distinct_update)
  from this [of "[]"] show ?thesis by (simp add: refunded_by_item_def)
qed

text \<open>Adding a table of counts to the ledger of an order.\<close>

lemma add_counts:
  assumes "distinct (map fst adds)" and "\<forall>(i, q) \<in> set adds. 0 \<le> q"
  shows "count_of (foldl (\<lambda>m (i, qty). if qty \<le> 0 then m else AList.update i (count_of m i + qty) m) m adds) i =
    count_of m i + count_of adds i"
  using assms
proof (induction adds arbitrary: m)
  case (Cons a adds)
  obtain j q where a: "a = (j, q)" by (cases a)
  have "j \<notin> fst ` set adds" using Cons.prems(1) by (simp add: a)
  then have j: "count_of adds j = 0" by (simp add: count_of_def map_of_eq_None_iff [THEN iffD2])
  show ?case
  proof (cases "q \<le> 0")
    case True
    then have "q = 0" using Cons.prems(2) by (simp add: a)
    then show ?thesis using Cons j by (simp add: a) (simp add: count_of_def)
  next
    case False
    then show ?thesis using Cons j by (auto simp: a) (simp_all add: count_of_def)
  qed
qed simp

lemma refunded_counts_nonneg:
  assumes "\<forall>r \<in> set items. oi_Quantity (ri_OrderItemInsert r) = 1"
  shows "\<forall>(i, q) \<in> set (refunded_by_item items). 0 \<le> q"
proof safe
  fix i q
  assume "(i, q) \<in> set (refunded_by_item items)"
  then have "q = units_of items i"
    using count_of_mem [OF refunded_by_item_distinct] refunded_by_item_units [OF assms] by metis
  then show "0 \<le> q" by simp
qed

section \<open>The requested units\<close>

lemma item_by_id_Some:
  assumes "distinct (map ot_Id items)"
  shows "item_by_id items i = Some it \<longleftrightarrow> it \<in> set items \<and> ot_Id it = i"
proof -
  have "distinct (map fst (rev (map (\<lambda>it. (ot_Id it, it)) items)))"
    using assms by (simp add: rev_map [symmetric] comp_def)
  from map_of_eq_Some_iff [OF this] show ?thesis by (auto simp: item_by_id_def)
qed

lemma map_requested_ok:
  assumes "map_requested items already reqs acc = Inr res" and "distinct (map fst reqs)"
  shows "\<exists>more. res = acc @ more \<and>
    (\<forall>r \<in> set more. \<exists>i it. item_by_id items i = Some it \<and> r = refund_unit it) \<and>
    (\<forall>i q it. (i, q) \<in> set reqs \<longrightarrow> item_by_id items i = Some it \<longrightarrow> q \<le> remaining_units already it) \<and>
    (\<forall>i. item_by_id items i \<noteq> None \<longrightarrow> (\<forall>it. item_by_id items i = Some it \<longrightarrow> ot_Id it = i) \<longrightarrow>
       (\<forall>j it. item_by_id items j = Some it \<longrightarrow> ot_Id it = j) \<longrightarrow> units_of more i = max 0 (count_of reqs i))"
  using assms
proof (induction reqs arbitrary: acc)
  case (Cons a reqs)
  obtain j q where a: "a = (j, q)" by (cases a)
  have "j \<notin> fst ` set reqs" using Cons.prems(2) by (simp add: a)
  then have j: "count_of reqs j = 0" by (simp add: count_of_def map_of_eq_None_iff [THEN iffD2])
  have cnt: "count_of ((j, q) # reqs) i = (if i = j then q else count_of reqs i)" for i by (simp add: count_of_def)
  show ?case
  proof (cases "item_by_id items j")
    case None
    then obtain more where "res = acc @ more"
      "\<forall>r \<in> set more. \<exists>i it. item_by_id items i = Some it \<and> r = refund_unit it"
      "\<forall>i q it. (i, q) \<in> set reqs \<longrightarrow> item_by_id items i = Some it \<longrightarrow> q \<le> remaining_units already it"
      "\<forall>i. item_by_id items i \<noteq> None \<longrightarrow> (\<forall>it. item_by_id items i = Some it \<longrightarrow> ot_Id it = i) \<longrightarrow>
       (\<forall>j it. item_by_id items j = Some it \<longrightarrow> ot_Id it = j) \<longrightarrow> units_of more i = max 0 (count_of reqs i)"
      using Cons.IH [of acc] Cons.prems by (auto simp: a)
    then show ?thesis using None by (intro exI [of _ more]) (auto simp: a cnt)
  next
    case (Some it)
    then have q: "q \<le> remaining_units already it"
      and run: "map_requested items already reqs (acc @ replicate (nat q) (refund_unit it)) = Inr res"
      using Cons.prems(1) by (simp_all add: a Let_def split: if_split_asm)
    obtain more where m: "res = (acc @ replicate (nat q) (refund_unit it)) @ more"
      "\<forall>r \<in> set more. \<exists>i it. item_by_id items i = Some it \<and> r = refund_unit it"
      "\<forall>i q it. (i, q) \<in> set reqs \<longrightarrow> item_by_id items i = Some it \<longrightarrow> q \<le> remaining_units already it"
      "\<forall>i. item_by_id items i \<noteq> None \<longrightarrow> (\<forall>it. item_by_id items i = Some it \<longrightarrow> ot_Id it = i) \<longrightarrow>
       (\<forall>j it. item_by_id items j = Some it \<longrightarrow> ot_Id it = j) \<longrightarrow> units_of more i = max 0 (count_of reqs i)"
      using Cons.IH [OF run] Cons.prems(2) by (auto simp: a)
    show ?thesis
    proof (intro exI [of _ "replicate (nat q) (refund_unit it) @ more"] conjI allI impI)
      show "res = acc @ replicate (nat q) (refund_unit it) @ more" using m(1) by simp
      show "\<forall>r\<in>set (replicate (nat q) (refund_unit it) @ more). \<exists>i it. item_by_id items i = Some it \<and> r = refund_unit it"
        using m(2) Some by (simp add: ball_Un set_replicate_conv_if) blast
    next
      fix i q' it'
      assume "(i, q') \<in> set (a # reqs)" "item_by_id items i = Some it'"
      then show "q' \<le> remaining_units already it'" using q Some m(3) by (auto simp: a)
    next
      fix i
      assume h: "item_by_id items i \<noteq> None" "\<forall>it. item_by_id items i = Some it \<longrightarrow> ot_Id it = i"
        "\<forall>j it. item_by_id items j = Some it \<longrightarrow> ot_Id it = j"
      then have "units_of more i = max 0 (count_of reqs i)" using m(4) by blast
      moreover have "ot_Id it = j" using h(3) Some by blast
      ultimately show "units_of (replicate (nat q) (refund_unit it) @ more) i = max 0 (count_of (a # reqs) i)"
        using j by (auto simp: a cnt)
    qed
  qed
qed simp

section \<open>The scope\<close>

definition permutes :: "((int \<times> int) list \<Rightarrow> (int \<times> int) list) \<Rightarrow> bool" where
  "permutes rng \<longleftrightarrow> (\<forall>xs. mset (rng xs) = mset xs)"

lemma permutes_id [simp]: "permutes (\<lambda>xs. xs)"
  by (simp add: permutes_def)

lemma permutes_simps:
  assumes "permutes rng"
  shows "set (rng xs) = set xs" and "distinct (map fst (rng xs)) = distinct (map fst xs)"
proof -
  have m: "mset (rng xs) = mset xs" using assms by (simp add: permutes_def)
  show "set (rng xs) = set xs" using m by (rule mset_eq_setD)
  have "mset (map fst (rng xs)) = mset (map fst xs)" using m by simp
  then show "distinct (map fst (rng xs)) = distinct (map fst xs)" by (rule mset_eq_imp_distinct_iff)
qed

lemma count_of_set: "distinct (map fst m) \<Longrightarrow> distinct (map fst m') \<Longrightarrow> set m' = set m \<Longrightarrow> count_of m' i = count_of m i"
  unfolding count_of_def using map_of_inject_set by metis

lemma full_units:
  assumes "distinct (map ot_Id items)" and "it \<in> set items"
  shows "units_of (orderItemsToRefundItems items already) (ot_Id it) = max 0 (remaining_units already it)"
  using assms
proof (induction items)
  case (Cons x items)
  have other: "units_of (orderItemsToRefundItems xs already) i = 0" if "i \<notin> ot_Id ` set xs" for i xs
    using that by (induction xs) (auto simp: orderItemsToRefundItems_def)
  show ?case
  proof (cases "it = x")
    case True
    have "units_of (orderItemsToRefundItems items already) (ot_Id x) = 0"
      using Cons.prems(1) by (intro other) simp
    then show ?thesis using True by (auto simp: orderItemsToRefundItems_def)
  next
    case False
    then have "it \<in> set items" "ot_Id x \<noteq> ot_Id it" using Cons.prems by auto
    then show ?thesis using Cons by (simp add: orderItemsToRefundItems_def)
  qed
qed simp

lemma full_members: "\<forall>r \<in> set (orderItemsToRefundItems items already). \<exists>it \<in> set items. r = refund_unit it"
  by (auto simp: orderItemsToRefundItems_def)

text \<open>
  The units of a scope are units of the order's lines, never more than remain; a full refund takes all
  that remain, a partial one at least a unit and leaves at least a unit.
\<close>

lemma scope_ok:
  assumes perm: "permutes rng" and dist: "distinct (map ot_Id orderItems)"
    and already: "\<forall>it \<in> set orderItems. 0 \<le> remaining_units already it"
    and run: "determineRefundScope rng st orderItems ids already = Inr (items, target)"
  shows "\<forall>r \<in> set items. \<exists>it \<in> set orderItems. r = refund_unit it"
    and "\<forall>it \<in> set orderItems. units_of items (ot_Id it) \<le> remaining_units already it"
    and "target = Refunded \<or> target = PartiallyRefunded"
    and "target = Refunded \<Longrightarrow> \<forall>it \<in> set orderItems. units_of items (ot_Id it) = remaining_units already it"
    and "target = PartiallyRefunded \<Longrightarrow> \<exists>it \<in> set orderItems. units_of items (ot_Id it) < remaining_units already it"
    and "target = PartiallyRefunded \<Longrightarrow> items \<noteq> [] \<and> st \<noteq> Confirmed"
proof -
  let ?full = "orderItemsToRefundItems orderItems already"
  let ?reqs = "rng (count_ids ids)"
  have full: "(\<forall>r \<in> set ?full. \<exists>it \<in> set orderItems. r = refund_unit it) \<and>
      (\<forall>it \<in> set orderItems. units_of ?full (ot_Id it) = remaining_units already it)"
    using full_members full_units [OF dist] already by (auto simp: max_def)
  have "items = ?full \<and> target = Refunded \<or>
    target = PartiallyRefunded \<and> st \<noteq> Confirmed \<and> items \<noteq> [] \<and> map_requested orderItems already ?reqs [] = Inr items \<and>
      \<not> refundCoversFullOrder orderItems ids already"
    using run by (auto simp: determineRefundScope_def validateAndMapOrderItems_def split: if_split_asm sum.split_asm option.split_asm list.split_asm)
  then have "(\<forall>r \<in> set items. \<exists>it \<in> set orderItems. r = refund_unit it) \<and>
     (\<forall>it \<in> set orderItems. units_of items (ot_Id it) \<le> remaining_units already it) \<and>
     (target = Refunded \<or> target = PartiallyRefunded) \<and>
     (target = Refunded \<longrightarrow> (\<forall>it \<in> set orderItems. units_of items (ot_Id it) = remaining_units already it)) \<and>
     (target = PartiallyRefunded \<longrightarrow> (\<exists>it \<in> set orderItems. units_of items (ot_Id it) < remaining_units already it)) \<and>
     (target = PartiallyRefunded \<longrightarrow> items \<noteq> [] \<and> st \<noteq> Confirmed)"
  proof
    assume "items = ?full \<and> target = Refunded"
    then show ?thesis using full by simp
  next
    assume p: "target = PartiallyRefunded \<and> st \<noteq> Confirmed \<and> items \<noteq> [] \<and> map_requested orderItems already ?reqs [] = Inr items \<and>
      \<not> refundCoversFullOrder orderItems ids already"
    have d: "distinct (map fst ?reqs)" using permutes_simps(2) [OF perm] count_ids_distinct by simp
    have by_id: "item_by_id orderItems i = Some it \<longleftrightarrow> it \<in> set orderItems \<and> ot_Id it = i" for i it
      by (rule item_by_id_Some [OF dist])
    have cnt: "count_of ?reqs i = int (count_list ids i)" for i
      using count_of_set [OF count_ids_distinct d permutes_simps(1) [OF perm]] count_ids_count by simp
    obtain more where m: "items = [] @ more"
      "\<forall>r \<in> set more. \<exists>i it. item_by_id orderItems i = Some it \<and> r = refund_unit it"
      "\<forall>i q it. (i, q) \<in> set ?reqs \<longrightarrow> item_by_id orderItems i = Some it \<longrightarrow> q \<le> remaining_units already it"
      "\<forall>i. item_by_id orderItems i \<noteq> None \<longrightarrow> (\<forall>it. item_by_id orderItems i = Some it \<longrightarrow> ot_Id it = i) \<longrightarrow>
       (\<forall>j it. item_by_id orderItems j = Some it \<longrightarrow> ot_Id it = j) \<longrightarrow> units_of more i = max 0 (count_of ?reqs i)"
      using map_requested_ok [OF _ d] p by blast
    have units: "units_of items (ot_Id it) = int (count_list ids (ot_Id it))" if "it \<in> set orderItems" for it
    proof -
      have "item_by_id orderItems (ot_Id it) = Some it" using that by (simp add: by_id)
      then have "units_of more (ot_Id it) = max 0 (count_of ?reqs (ot_Id it))"
        using spec [OF m(4), of "ot_Id it"] by_id by blast
      then show ?thesis using m(1) by (simp add: cnt)
    qed
    have le: "units_of items (ot_Id it) \<le> remaining_units already it" if it: "it \<in> set orderItems" for it
    proof (cases "count_list ids (ot_Id it) = 0")
      case True
      then show ?thesis using units [OF it] already it by simp
    next
      case False
      then have "count_of ?reqs (ot_Id it) \<noteq> 0" by (simp add: cnt)
      then have "(ot_Id it, count_of ?reqs (ot_Id it)) \<in> set ?reqs"
        by (auto simp: count_of_def dest: map_of_SomeD split: option.split_asm)
      moreover have "item_by_id orderItems (ot_Id it) = Some it" using it by (simp add: by_id)
      ultimately have "count_of ?reqs (ot_Id it) \<le> remaining_units already it" using m(3) by blast
      then show ?thesis using units [OF it] by (simp add: cnt)
    qed
    have "\<exists>it \<in> set orderItems. units_of items (ot_Id it) < remaining_units already it"
      using p units by (auto simp: refundCoversFullOrder_def count_ids_count)
    moreover have "\<forall>r \<in> set items. \<exists>it \<in> set orderItems. r = refund_unit it" using m(1,2) by (auto simp: by_id)
    ultimately show ?thesis using p le by simp
  qed
  then show "\<forall>r \<in> set items. \<exists>it \<in> set orderItems. r = refund_unit it"
    and "\<forall>it \<in> set orderItems. units_of items (ot_Id it) \<le> remaining_units already it"
    and "target = Refunded \<or> target = PartiallyRefunded"
    and "target = Refunded \<Longrightarrow> \<forall>it \<in> set orderItems. units_of items (ot_Id it) = remaining_units already it"
    and "target = PartiallyRefunded \<Longrightarrow> \<exists>it \<in> set orderItems. units_of items (ot_Id it) < remaining_units already it"
    and "target = PartiallyRefunded \<Longrightarrow> items \<noteq> [] \<and> st \<noteq> Confirmed" by blast+
qed

end
