(* ===== verification/Order_Refunds.thy ===== *)
theory Order_Refunds
  imports Refund_Scope
begin

text \<open>
  A refund as a move of one order: the units of its scope are added to the order's refunded
  quantities, the money to its refunded amount, the goods go where the disposition says, and one
  event with the next key of the order carries the amount to the ledger.
\<close>

declare split_paired_All [simp del] split_paired_Ex [simp del]

section \<open>The step\<close>

definition line_item :: "order_item_row \<Rightarrow> OrderItem" where
  "line_item r = \<lparr>ot_Id = ir_Id r, ot_Insert = item_insert r\<rparr>"

definition visible :: "shop_db \<Rightarrow> customer_order \<Rightarrow> bool" where
  "visible db ord \<longleftrightarrow> (\<forall>r \<in> set (co_Items ord). has_thumbnail db (ir_ProductId r))"

definition refund_delta :: "decimal_lib \<Rightarrow> RefundDisposition \<Rightarrow> refundItem list \<Rightarrow> variant_key \<Rightarrow> int" where
  "refund_delta L disposition items k =
     (let lines = map ri_OrderItemInsert items
      in case disposition of RefundDispositionWriteoff \<Rightarrow> 0
         | RefundDispositionSeconds \<Rightarrow> units_at L k (map as_seconds lines)
         | _ \<Rightarrow> units_at L k lines)"

text \<open>The units of the scope, against what was left of each line.\<close>

definition refunds_units :: "customer_order \<Rightarrow> customer_order \<Rightarrow> refundItem list \<Rightarrow> bool" where
  "refunds_units ord x items \<longleftrightarrow>
     (\<forall>r \<in> set items. \<exists>ln \<in> set (co_Items ord). r = refund_unit (line_item ln)) \<and>
     (\<forall>i. getRefundedQuantities x i = getRefundedQuantities ord i + units_of items i) \<and>
     (\<forall>ln \<in> set (co_Items ord). getRefundedQuantities x (ir_Id ln) \<le> ir_Quantity ln) \<and>
     (co_Status x = Refunded \<and> (\<forall>ln \<in> set (co_Items ord). getRefundedQuantities x (ir_Id ln) = ir_Quantity ln) \<or>
      co_Status x = PartiallyRefunded \<and> items \<noteq> [] \<and>
        (\<exists>ln \<in> set (co_Items ord). getRefundedQuantities x (ir_Id ln) < ir_Quantity ln))"

definition refund_total :: "decimal_lib \<Rightarrow> customer_order \<Rightarrow> customer_order \<Rightarrow> refundItem list \<Rightarrow> decimal" where
  "refund_total L ord x items =
     refundAmountFromItems L (map ri_OrderItemInsert items) (co_Currency ord) +
     (if co_ShippingRefunded x \<and> \<not> co_ShippingRefunded ord
      then (case co_Shipment ord of None \<Rightarrow> 0 | Some sm \<Rightarrow> CostDecimal L sm (co_Currency ord)) else 0)"

definition refunds_money :: "decimal_lib \<Rightarrow> customer_order \<Rightarrow> customer_order \<Rightarrow> refundItem list \<Rightarrow> bool" where
  "refunds_money L ord x items \<longleftrightarrow>
     co_RefundedAmount x = co_RefundedAmount ord + dl_Round L (refund_total L ord x items) 2 \<and>
     (co_ShippingRefunded ord \<longrightarrow> co_ShippingRefunded x)"

definition refund_event :: "customer_order \<Rightarrow> decimal \<Rightarrow> (int \<times> int) list \<Rightarrow> RefundDisposition \<Rightarrow> shop_db \<Rightarrow> shop_db \<Rightarrow> bool" where
  "refund_event ord amount counts disposition db db' \<longleftrightarrow>
     (\<exists>now. EnqueueEvent now \<lparr>ei_EventType = AcctEventOrderRefund,
        ei_SourceKey = refund_key (co_UUID ord) (length (refund_events (co_UUID ord) db) + 1),
        ei_Payload = Inr (refund_payload \<lparr>rp_OrderUUID = co_UUID ord, rp_RefundAmount = amount,
          rp_OrderCurrency = co_Currency ord, rp_RefundedByItem = counts, rp_Disposition = disposition\<rparr>),
        ei_OccurredAt = now\<rparr> (sh_events db) = (Inr (), sh_events db'))"

definition refund_step :: "decimal_lib \<Rightarrow> RefundDisposition \<Rightarrow> shop_db \<Rightarrow> shop_db \<Rightarrow> bool" where
  "refund_step L disposition db db' \<longleftrightarrow>
     (\<exists>ord x items. moved db db' ord x (refund_delta L disposition items) \<and> status_move ord x \<and>
        refunds_units ord x items \<and> refunds_money L ord x items \<and>
        refund_event ord (refund_total L ord x items) (refunded_by_item items) disposition db db')"

text \<open>What the order must satisfy for its refund to be counted right.\<close>

definition refundable :: "customer_order \<Rightarrow> bool" where
  "refundable ord \<longleftrightarrow> distinct (map ir_Id (co_Items ord)) \<and>
     (\<forall>ln \<in> set (co_Items ord). getRefundedQuantities ord (ir_Id ln) \<le> ir_Quantity ln)"

section \<open>The steps of a refund\<close>

lemma getRefunded_count: "getRefundedQuantities ord = count_of (co_RefundedItems ord)"
  by (simp add: getRefundedQuantities_def count_of_def fun_eq_iff)

lemma visible_items: "visible db ord \<Longrightarrow> getOrdersItems db ord = map line_item (co_Items ord)"
  by (simp add: visible_def getOrdersItems_def line_item_def)

lemma line_item_simps [simp]:
  "ot_Id (line_item r) = ir_Id r" "ot_Insert (line_item r) = item_insert r" "map ot_Id (map line_item rs) = map ir_Id rs"
  "remaining_units already (line_item r) = ir_Quantity r - already (ir_Id r)"
  by (simp_all add: line_item_def remaining_units_def item_insert_def)

lemma refund_unit_simps [simp]:
  "oi_Quantity (ri_OrderItemInsert (refund_unit it)) = 1"
  "item_key (ri_OrderItemInsert (refund_unit it)) = item_key (ot_Insert it)"
  by (simp_all add: refund_unit_def item_key_def)

lemma refund_stock_ok:
  assumes L: "decimal_ok L" and run: "refund_stock L disposition ord (map ri_OrderItemInsert items) db = (Inr r, t)"
    and has: "\<forall>r \<in> set items. has_variant (item_key (ri_OrderItemInsert r)) db"
  shows "stock_only db t" and "\<forall>k. stock_qty k t = stock_qty k db + refund_delta L disposition items k"
    and "\<forall>k. opening_stock k t = opening_stock k db"
proof -
  let ?its = "map ri_OrderItemInsert items"
  have has': "\<forall>it \<in> set ?its. has_variant (item_key it) db" using has by simp
  consider "disposition = RefundDispositionWriteoff" "t = db"
    | "disposition = RefundDispositionSeconds"
      "RestoreStockForProductSizesSeconds L ?its (Some (order_history StockChangeSourceOrderReturned ord)) db = (Inr r, t)"
    | "disposition \<noteq> RefundDispositionWriteoff" "disposition \<noteq> RefundDispositionSeconds"
      "RestoreStockForProductSizes L ?its (Some (order_history StockChangeSourceOrderReturned ord)) db = (Inr r, t)"
    using run by (cases disposition) (auto simp: refund_stock_def returnE_ok)
  then have "stock_only db t \<and> (\<forall>k. stock_qty k t = stock_qty k db + refund_delta L disposition items k) \<and>
    (\<forall>k. opening_stock k t = opening_stock k db)"
  proof cases
    case 1
    then show ?thesis by (simp add: refund_delta_def)
  next
    case 2
    then show ?thesis using RestoreSeconds_ok [OF L 2(2)] by (simp add: refund_delta_def)
  next
    case 3
    then show ?thesis using RestoreStock_ok [OF L 3(3) has'] by (cases disposition) (simp_all add: refund_delta_def Let_def)
  qed
  then show "stock_only db t" "\<forall>k. stock_qty k t = stock_qty k db + refund_delta L disposition items k"
    "\<forall>k. opening_stock k t = opening_stock k db" by blast+
qed

lemma insertRefunded_moved:
  assumes wf: "orders_wf db" and ord: "find_order_id i db = Some ord"
    and one: "\<forall>r \<in> set items. oi_Quantity (ri_OrderItemInsert r) = 1"
  obtains y where "moved db (insertRefundedOrderItems i (refunded_by_item items) db) ord y (\<lambda>_. 0)"
    and "\<And>j. getRefundedQuantities y j = getRefundedQuantities ord j + units_of items j"
    and "co_Status y = co_Status ord" "co_History y = co_History ord" "co_RefundedAmount y = co_RefundedAmount ord"
    "co_ShippingRefunded y = co_ShippingRefunded ord" "co_Items y = co_Items ord" "co_Shipment y = co_Shipment ord"
proof
  let ?f = "\<lambda>o'. o'\<lparr>co_RefundedItems := foldl (\<lambda>m (i, qty). if qty \<le> 0 then m else AList.update i (count_of m i + qty) m)
         (co_RefundedItems o') (refunded_by_item items)\<rparr>"
  have "same_terms ord (?f ord)" by (simp add: same_terms_def line_facts_def shipping_terms_def)
  then show "moved db (insertRefundedOrderItems i (refunded_by_item items) db) ord (?f ord) (\<lambda>_. 0)"
    using update_fields_moved [OF wf ord, of ?f] by (simp add: insertRefundedOrderItems_def)
  show "getRefundedQuantities (?f ord) j = getRefundedQuantities ord j + units_of items j" for j
    using add_counts [OF refunded_by_item_distinct refunded_counts_nonneg [OF one]]
    by (simp add: getRefunded_count refunded_by_item_units [OF one])
qed simp_all

lemma refund_shipping_ok:
  assumes wf: "orders_wf db" and ord: "find_order_id (co_Id ord) db = Some y"
    and same: "co_Shipment y = co_Shipment ord" "co_ShippingRefunded y = co_ShippingRefunded ord"
    and run: "refund_shipping L b ord base db = (Inr amount, db')"
  obtains z where "moved db db' y z (\<lambda>_. 0)" and "no_event db db'" and "z = y\<lparr>co_ShippingRefunded := co_ShippingRefunded z\<rparr>"
    and "co_ShippingRefunded ord \<longrightarrow> co_ShippingRefunded z"
    and "amount = base + (if co_ShippingRefunded z \<and> \<not> co_ShippingRefunded ord
      then (case co_Shipment ord of None \<Rightarrow> 0 | Some sm \<Rightarrow> CostDecimal L sm (co_Currency ord)) else 0)"
proof (cases "db' = db \<and> amount = base")
  case True
  have y: "co_Id y = co_Id ord" using find_order_id_Some(2) [OF ord] .
  show thesis by (rule that [of y]) (use True moved_refl [OF wf, of y] ord y same in \<open>auto simp: no_event_def\<close>)
next
  case False
  let ?f = "\<lambda>o'. o'\<lparr>co_ShippingRefunded := True\<rparr>"
  from run False obtain sm where b: "b" "\<not> co_ShippingRefunded ord" and sm: "getOrderShipment (co_Id ord) db = Inr sm"
    and db': "db' = markShippingRefunded (co_Id ord) db" and amount: "amount = base + CostDecimal L sm (co_Currency ord)"
    by (auto simp: refund_shipping_def ok_simps split: if_split_asm)
  have "co_Shipment ord = Some sm" using sm ord same(1) by (simp add: getOrderShipment_def requireE_ok)
  moreover have "same_terms y (?f y)" by (simp add: same_terms_def line_facts_def shipping_terms_def)
  then have "moved db db' y (?f y) (\<lambda>_. 0)"
    using update_fields_moved [OF wf ord, of ?f] by (simp add: db' markShippingRefunded_def)
  moreover have "no_event db db'" by (simp add: no_event_def db' markShippingRefunded_def)
  ultimately show thesis using b amount by (intro that [of "?f y"]) simp_all
qed

lemma accumulate_moved:
  assumes wf: "orders_wf db" and run: "updateOrderStatusAndAccumulateRefundedAmount L i new amount reason code db = (Inr r, db')"
    and ord: "find_order_id i db = Some z"
  obtains x where "moved db db' z x (\<lambda>_. 0)" and "status_move z x" and "no_event db db'" and "co_Status x = new"
    and "co_RefundedAmount x = co_RefundedAmount z + dl_Round L amount 2" and "co_RefundedItems x = co_RefundedItems z"
    and "co_ShippingRefunded x = co_ShippingRefunded z"
proof
  let ?x = "accumulated L new amount reason code z"
  note acc = accumulate_ok [OF wf run ord]
  have "same_terms z ?x" by (simp add: accumulated_def same_terms_def line_facts_def shipping_terms_def)
  then show "moved db db' z ?x (\<lambda>_. 0)" unfolding acc(2)
    by (intro moved_replace [OF wf]) (use find_id_id [OF ord] in \<open>simp_all add: same_terms_def\<close>)
  show "status_move z ?x" using acc(1) by (simp add: status_move_def accumulated_def)
  show "no_event db db'" by (simp add: no_event_def acc(2))
qed (simp_all add: accumulated_def)

text \<open>The whole of \<open>apply_refund\<close>, once the scope is known.\<close>

lemma apply_refund_step:
  assumes wf: "orders_wf db" and L: "decimal_ok L" and ord: "find_order_id (co_Id ord) db = Some ord"
    and units: "\<forall>r \<in> set items. \<exists>ln \<in> set (co_Items ord). r = refund_unit (line_item ln)"
    and has: "\<forall>it \<in> set (getOrderItemsInsert ord). has_variant (item_key it) db"
    and run: "apply_refund L now ord items target reason code ship disposition db = (Inr r, db')"
  obtains x where "moved db db' ord x (refund_delta L disposition items)" and "status_move ord x" and "co_Status x = target"
    and "\<And>i. getRefundedQuantities x i = getRefundedQuantities ord i + units_of items i"
    and "refunds_money L ord x items"
    and "refund_event ord (refund_total L ord x items) (refunded_by_item items) disposition db db'"
proof -
  let ?i = "co_Id ord" and ?its = "map ri_OrderItemInsert items" and ?counts = "refunded_by_item items"
  let ?base = "refundAmountFromItems L ?its (co_Currency ord)"
  from run obtain t1 amount t4 t5 where
    1: "refund_stock L disposition ord ?its db = (Inr (), t1)"
    and 4: "refund_shipping L ship ord ?base (insertRefundedOrderItems ?i ?counts (releaseOpenPackagingClaims L ?i t1)) = (Inr amount, t4)"
    and 5: "updateOrderStatusAndAccumulateRefundedAmount L ?i target amount reason code t4 = (Inr (), t5)"
    and 6: "enqueue_refund now ord amount ?counts disposition t5 = (Inr (), db')"
    unfolding apply_refund_def Let_def thenE_ok bindE_ok modifyE_ok by auto
  let ?t2 = "releaseOpenPackagingClaims L ?i t1"
  let ?t3 = "insertRefundedOrderItems ?i ?counts ?t2"
  have one: "\<forall>r \<in> set items. oi_Quantity (ri_OrderItemInsert r) = 1" using units by auto
  have "\<forall>r \<in> set items. has_variant (item_key (ri_OrderItemInsert r)) db"
    using units has by (fastforce simp: getOrderItemsInsert_def)
  note s1 = refund_stock_ok [OF L 1 this]
  have ord2: "find_order_id ?i ?t2 = Some ord" and wf2: "orders_wf ?t2"
    using ord wf s1(1) find_order_id_orders [of ?t2 db] orders_wf_same [of ?t2 db] by (simp_all add: claims_only stock_only_def)
  obtain y where y: "moved ?t2 ?t3 ord y (\<lambda>_. 0)"
    "\<And>j. getRefundedQuantities y j = getRefundedQuantities ord j + units_of items j"
    "co_Status y = co_Status ord" "co_History y = co_History ord" "co_RefundedAmount y = co_RefundedAmount ord"
    "co_ShippingRefunded y = co_ShippingRefunded ord" "co_Items y = co_Items ord" "co_Shipment y = co_Shipment ord"
    by (rule insertRefunded_moved [OF wf2 ord2 one]) blast
  have yi: "co_Id y = ?i" using y(1) by (simp add: moved_def same_terms_def)
  have wf3: "orders_wf ?t3" and ord3: "find_order_id ?i ?t3 = Some y"
    using moved_wf [OF y(1) wf2] moved_found [OF y(1)] yi by simp_all
  obtain z where z: "moved ?t3 t4 y z (\<lambda>_. 0)" "no_event ?t3 t4" "z = y\<lparr>co_ShippingRefunded := co_ShippingRefunded z\<rparr>"
    "co_ShippingRefunded ord \<longrightarrow> co_ShippingRefunded z"
    "amount = ?base + (if co_ShippingRefunded z \<and> \<not> co_ShippingRefunded ord
      then (case co_Shipment ord of None \<Rightarrow> 0 | Some sm \<Rightarrow> CostDecimal L sm (co_Currency ord)) else 0)"
    by (rule refund_shipping_ok [OF wf3 ord3 y(8,6) 4]) blast
  have zf: "co_Status z = co_Status y" "co_History z = co_History y" "co_RefundedAmount z = co_RefundedAmount y"
    "co_RefundedItems z = co_RefundedItems y" "co_Id z = co_Id y" by (subst z(3), simp)+
  have wf4: "orders_wf t4" and ord4: "find_order_id ?i t4 = Some z"
    using moved_wf [OF z(1) wf3] moved_found [OF z(1)] yi zf by simp_all
  obtain x where x: "moved t4 t5 z x (\<lambda>_. 0)" "status_move z x" "no_event t4 t5" "co_Status x = target"
    "co_RefundedAmount x = co_RefundedAmount z + dl_Round L amount 2" "co_RefundedItems x = co_RefundedItems z"
    "co_ShippingRefunded x = co_ShippingRefunded z"
    by (rule accumulate_moved [OF wf4 5 ord4]) blast
  from 6 have 6: "enqueue now \<lparr>ei_EventType = AcctEventOrderRefund,
        ei_SourceKey = refund_key (co_UUID ord) (length (refund_events (co_UUID ord) t5) + 1),
        ei_Payload = Inr (refund_payload \<lparr>rp_OrderUUID = co_UUID ord, rp_RefundAmount = amount,
          rp_OrderCurrency = co_Currency ord, rp_RefundedByItem = ?counts, rp_Disposition = disposition\<rparr>),
        ei_OccurredAt = now\<rparr> t5 = (Inr (), db')" by (simp add: enqueue_refund_def)
  have "moved ?t2 t5 ord x (\<lambda>_. 0)" by (rule moved_trans [OF y(1) moved_trans [OF z(1) x(1)]])
  then have "moved t1 t5 ord x (\<lambda>_. 0)"
    by (simp add: moved_def claims_only find_order_id_def replace_order_def has_thumbnail_def find_product_def
        has_variant_def find_variant_def)
  then have "moved db t5 ord x (refund_delta L disposition items)" by (rule moved_after_stock) (use s1 in blast)+
  moreover obtain evs where "db' = t5\<lparr>sh_events := evs\<rparr>" using shop_enqueue_ok [OF 6] by blast
  ultimately have m: "moved db db' ord x (refund_delta L disposition items)" by (simp add: moved_event)
  have ev: "sh_events t5 = sh_events db"
    using x(3) z(2) y(1) s1(1) by (simp add: no_event_def claims_only stock_only_def insertRefundedOrderItems_def)
  have total: "refund_total L ord x items = amount" by (simp add: refund_total_def x(7) z(5))
  show thesis
  proof (rule that [of x])
    show "moved db db' ord x (refund_delta L disposition items)" by (rule m)
    show "status_move ord x" using x(2) zf y(3,4) by (simp add: status_move_def)
    show "co_Status x = target" by (rule x(4))
    show "getRefundedQuantities x i = getRefundedQuantities ord i + units_of items i" for i
      using y(2) by (simp add: getRefunded_count x(6) zf)
    show "refunds_money L ord x items" unfolding refunds_money_def total using x(5,7) zf y(5) z(4) by simp
    show "refund_event ord (refund_total L ord x items) ?counts disposition db db'"
      using shop_enqueue_ok [OF 6] ev by (auto simp: refund_event_def total refund_events_def)
  qed
qed

lemma RefundOrder_step:
  assumes wf: "orders_wf db" and L: "decimal_ok L" and stocked: "lines_stocked db" and perm: "permutes rng"
    and vis: "\<forall>ord \<in> set (sh_orders db). visible db ord" and ok: "\<forall>ord \<in> set (sh_orders db). refundable ord"
    and run: "RefundOrder L now rng uuid ids reason code ship disposition db = (Inr r, db')"
  shows "refund_step L disposition db db'"
proof -
  from run have "refund_body L now rng uuid ids reason code ship disposition db = (Inr r, db')"
    by (simp add: RefundOrder_def ok_simps split: if_split_asm)
  then obtain ord items target where found: "find_order uuid db = Some ord"
    and scope: "determineRefundScope rng (co_Status ord) (getOrdersItems db ord) ids (getRefundedQuantities ord) = Inr (items, target)"
    and app: "apply_refund L now ord items target reason code ship disposition db = (Inr r, db')"
    by (auto simp: refund_body_def getOrderByUUIDForUpdate_def Let_def ok_simps)
  have mem: "ord \<in> set (sh_orders db)" by (rule find_order_Some [OF found])
  have ord: "find_order_id (co_Id ord) db = Some ord" by (rule find_order_id_of [OF wf found])
  have items: "getOrdersItems db ord = map line_item (co_Items ord)" using vis mem by (simp add: visible_items)
  have ref: "refundable ord" using ok mem by simp
  note sc = scope_ok [OF perm _ _ scope, unfolded items]
  have d: "distinct (map ot_Id (map line_item (co_Items ord)))" using ref by (simp add: refundable_def comp_def)
  have a: "\<forall>it \<in> set (map line_item (co_Items ord)). 0 \<le> remaining_units (getRefundedQuantities ord) it"
    using ref by (simp add: refundable_def)
  note sc = sc [OF d a]
  have units: "\<forall>r \<in> set items. \<exists>ln \<in> set (co_Items ord). r = refund_unit (line_item ln)" using sc(1) by simp
  have has: "\<forall>it \<in> set (getOrderItemsInsert ord). has_variant (item_key it) db" using stocked mem by (simp add: lines_stocked_def)
  obtain x where x: "moved db db' ord x (refund_delta L disposition items)" "status_move ord x" "co_Status x = target"
    "\<And>i. getRefundedQuantities x i = getRefundedQuantities ord i + units_of items i" "refunds_money L ord x items"
    "refund_event ord (refund_total L ord x items) (refunded_by_item items) disposition db db'"
    by (rule apply_refund_step [OF wf L ord units has app]) blast
  have "refunds_units ord x items" unfolding refunds_units_def
  proof (intro conjI)
    show "\<forall>ln \<in> set (co_Items ord). getRefundedQuantities x (ir_Id ln) \<le> ir_Quantity ln"
      using sc(2) x(4) by auto
    show "co_Status x = Refunded \<and> (\<forall>ln \<in> set (co_Items ord). getRefundedQuantities x (ir_Id ln) = ir_Quantity ln) \<or>
      co_Status x = PartiallyRefunded \<and> items \<noteq> [] \<and>
        (\<exists>ln \<in> set (co_Items ord). getRefundedQuantities x (ir_Id ln) < ir_Quantity ln)"
      using sc(3)
    proof
      assume t: "target = Refunded"
      then show ?thesis using sc(4) x(3,4) by auto
    next
      assume t: "target = PartiallyRefunded"
      then obtain ln where "ln \<in> set (co_Items ord)"
        "units_of items (ir_Id ln) < ir_Quantity ln - getRefundedQuantities ord (ir_Id ln)" using sc(5) by auto
      then have "\<exists>ln \<in> set (co_Items ord). getRefundedQuantities x (ir_Id ln) < ir_Quantity ln"
        using x(4) by (intro bexI [of _ ln]) simp_all
      then show ?thesis using t sc(6) x(3) by simp
    qed
  qed (use units x(4) in auto)
  then show ?thesis using x unfolding refund_step_def by blast
qed

end
