(* ===== verification/Order_Run.thy ===== *)
theory Order_Run
  imports Order_Refunds
begin

text \<open>
  The life of the orders as a whole: a run of the operations of \<open>Order_Lifecycle\<close> in any order, each
  a transaction of its own, the ones that fail included.
\<close>

declare split_paired_All [simp del] split_paired_Ex [simp del]

section \<open>Runs\<close>

datatype shop_op =
    CancelOp string
  | CancelByUserOp string string string
  | ReturnOp string string
  | TrackOp time string string
  | DeliverOp time string string string
  | PaidOp "PromoCode list" time string PaymentInsert
  | ExpireOp string
  | RefundOp time "(int \<times> int) list \<Rightarrow> (int \<times> int) list" string "int list" string string bool RefundDisposition
  | ActualCostOp string "decimal option" "decimal option"
  | SettledOp string decimal decimal
  | AssociateOp string string
  | CurrencyTotalOp string decimal

definition unitE :: "('s \<Rightarrow> ('e + 'a) \<times> 's) \<Rightarrow> 's \<Rightarrow> ('e + unit) \<times> 's" where
  "unitE m = bindE m (\<lambda>_. returnE ())"

fun exec_op :: "decimal_lib \<Rightarrow> shop_op \<Rightarrow> shop_db \<Rightarrow> (shop_error + unit) \<times> shop_db" where
  "exec_op L (CancelOp uuid) = CancelOrder L uuid"
| "exec_op L (CancelByUserOp uuid email reason) = CancelOrderByUser L uuid email reason"
| "exec_op L (ReturnOp uuid changedBy) = SetOrderStatusToPendingReturn uuid changedBy"
| "exec_op L (TrackOp now uuid code) = SetTrackingNumber now uuid code"
| "exec_op L (DeliverOp now uuid changedBy remark) = unitE (DeliverOrderWithSource now uuid changedBy remark)"
| "exec_op L (PaidOp cache now uuid p) = unitE (OrderPaymentDone cache now uuid p)"
| "exec_op L (ExpireOp uuid) = unitE (ExpireOrderPayment L uuid)"
| "exec_op L (RefundOp now rng uuid ids reason code ship disposition) =
     RefundOrder L now rng uuid ids reason code ship disposition"
| "exec_op L (ActualCostOp uuid a r) = SetShipmentActualCost uuid a r"
| "exec_op L (SettledOp uuid s f) = modifyE (UpdateSettledBaseAndFee L uuid s f)"
| "exec_op L (AssociateOp uuid pid) = AssociatePaymentIntentWithOrder uuid pid"
| "exec_op L (CurrencyTotalOp uuid t) = modifyE (UpdateTotalPaymentCurrency uuid t)"

text \<open>A map range visits every entry once; nothing else is asked of the arguments.\<close>

definition op_ok :: "shop_op \<Rightarrow> bool" where
  "op_ok a \<longleftrightarrow> (case a of RefundOp _ rng _ _ _ _ _ _ \<Rightarrow> permutes rng | _ \<Rightarrow> True)"

text \<open>A run, the dispositions of the refunds that went through beside the operations.\<close>

inductive lifecycle :: "decimal_lib \<Rightarrow> shop_op list \<Rightarrow> shop_db \<Rightarrow> shop_db \<Rightarrow> bool" for L where
  start: "lifecycle L [] db db"
| step: "lifecycle L ops db t \<Longrightarrow> op_ok a \<Longrightarrow> exec_op L a t = (r, db') \<Longrightarrow> lifecycle L (ops @ [a]) db db'"

inductive_cases lifecycle_NilE: "lifecycle L [] db db'"
inductive_simps lifecycle_Nil: "lifecycle L [] db db'"
inductive_simps lifecycle_snoc: "lifecycle L (ops @ [a]) db db'"

section \<open>The shape of a step\<close>

text \<open>What the invariants of an order speak of.\<close>

definition core :: "customer_order \<Rightarrow> (int \<times> string \<times> OrderStatusName \<times> status_history_row list \<times> (int \<times> OrderItemInsert) list) \<times>
    ((int \<times> int) list \<times> decimal \<times> bool \<times> string \<times> (decimal \<times> bool) option)" where
  "core ord = ((co_Id ord, co_UUID ord, co_Status ord, co_History ord, line_facts ord),
     (co_RefundedItems ord, co_RefundedAmount ord, co_ShippingRefunded ord, co_Currency ord, shipping_terms ord))"

lemma core_fields:
  assumes "core x = core y"
  shows "co_Id x = co_Id y" and "co_UUID x = co_UUID y" and "co_Status x = co_Status y" and "co_History x = co_History y"
    and "line_facts x = line_facts y" and "co_RefundedItems x = co_RefundedItems y"
    and "co_RefundedAmount x = co_RefundedAmount y" and "co_ShippingRefunded x = co_ShippingRefunded y"
  using assms by (simp_all add: core_def)

definition quiet_step :: "shop_db \<Rightarrow> shop_db \<Rightarrow> bool" where
  "quiet_step db db' \<longleftrightarrow> (\<exists>f. db' = db\<lparr>sh_orders := map f (sh_orders db)\<rparr> \<and> (\<forall>ord. core (f ord) = core ord))"

lemma quiet_stepI: "db' = db\<lparr>sh_orders := map f (sh_orders db)\<rparr> \<Longrightarrow> (\<And>ord. core (f ord) = core ord) \<Longrightarrow> quiet_step db db'"
  unfolding quiet_step_def by blast

lemma quiet_refl [simp]: "quiet_step db db"
  by (rule quiet_stepI [where f = "\<lambda>x. x"]) simp_all

lemma core_shipment: "map_option (\<lambda>sm. (sm_Cost sm, sm_FreeShipping sm)) s = shipping_terms ord \<Longrightarrow> core (ord\<lparr>co_Shipment := s\<rparr>) = core ord"
  by (simp add: core_def line_facts_def shipping_terms_def)

lemma core_simps [simp]:
  "core (ord\<lparr>co_Payment := q\<rparr>) = core ord"
  "core (ord\<lparr>co_TotalSettledBase := a, co_PaymentFee := b, co_TotalPriceEUR := c\<rparr>) = core ord"
  by (simp_all add: core_def line_facts_def shipping_terms_def)

lemma quiet_ops:
  "exec_op L (ActualCostOp uuid a r) db = (res, db') \<Longrightarrow> quiet_step db db'"
  "exec_op L (SettledOp uuid s f) db = (res, db') \<Longrightarrow> quiet_step db db'"
  "exec_op L (AssociateOp uuid pid) db = (res, db') \<Longrightarrow> quiet_step db db'"
  "exec_op L (CurrencyTotalOp uuid t) db = (res, db') \<Longrightarrow> quiet_step db db'"
proof -
  show "quiet_step db db'" if "exec_op L (ActualCostOp uuid a r) db = (res, db')"
  proof (cases "db' = db")
    case False
    then have "db' = db\<lparr>sh_orders := map (\<lambda>o'. if co_UUID o' = uuid
                 then o'\<lparr>co_Shipment := map_option (\<lambda>sm. sm\<lparr>sm_ActualCost := a, sm_ReturnShippingCost := r\<rparr>) (co_Shipment o')\<rparr>
                 else o') (sh_orders db)\<rparr>"
      using that by (auto simp: SetShipmentActualCost_def Let_def split: if_split_asm)
    then show ?thesis
      by (rule quiet_stepI) (auto simp: shipping_terms_def option.map_comp comp_def intro!: core_shipment)
  qed simp
  show "quiet_step db db'" if "exec_op L (SettledOp uuid s f) db = (res, db')"
    using that by (auto simp: UpdateSettledBaseAndFee_def modifyE_def Let_def intro!: quiet_stepI)
  show "quiet_step db db'" if run: "exec_op L (AssociateOp uuid pid) db = (res, db')"
  proof (cases "db' = db")
    case False
    then obtain i where "db' = update_order i (\<lambda>o'. o'\<lparr>co_Payment := map_option (\<lambda>p. p\<lparr>pi_ClientSecret := Some pid\<rparr>) (co_Payment o')\<rparr>) db"
      using run False by (auto simp: AssociatePaymentIntentWithOrder_def split: if_split_asm option.split_asm)
    then show ?thesis by (auto simp: update_order_def intro!: quiet_stepI)
  qed simp
  show "quiet_step db db'" if "exec_op L (CurrencyTotalOp uuid t) db = (res, db')"
    using that by (auto simp: UpdateTotalPaymentCurrency_def modifyE_def intro!: quiet_stepI)
qed

text \<open>A transaction that fails leaves the tables as they were.\<close>

lemma txFunc_Inl: "txFunc body s = (Inl e, t) \<Longrightarrow> t = s"
  by (auto simp: txFunc_def split: prod.split_asm sum.split_asm)

lemma unitE_Inl: "unitE m s = (Inl e, t) \<Longrightarrow> m s = (Inl e, t)"
  by (auto simp: unitE_def bindE_def returnE_def split: prod.split_asm sum.split_asm)

lemma unitE_ok [ok_simps]: "unitE m s = (Inr r, t) \<longleftrightarrow> (\<exists>a. m s = (Inr a, t))"
  by (simp add: unitE_def ok_simps)

lemma failed_op:
  assumes "exec_op L a db = (Inl e, db')"
  shows "db' = db"
  using assms
proof (cases a)
  case (RefundOp now rng uuid ids reason code ship disposition)
  then show ?thesis using assms by (auto simp: RefundOrder_def failE_def dest: txFunc_Inl split: if_split_asm)
qed (auto simp: CancelOrder_def CancelOrderByUser_def SetOrderStatusToPendingReturn_def SetTrackingNumber_def
    DeliverOrderWithSource_def OrderPaymentDone_def ExpireOrderPayment_def SetShipmentActualCost_def modifyE_def
    AssociatePaymentIntentWithOrder_def Let_def
    dest!: unitE_Inl dest: txFunc_Inl split: if_split_asm option.split_asm)

definition refund_disposition :: "shop_op \<Rightarrow> RefundDisposition" where
  "refund_disposition a = (case a of RefundOp _ _ _ _ _ _ _ d \<Rightarrow> d | _ \<Rightarrow> RefundDispositionUnset)"

lemma exec_step:
  assumes wf: "orders_wf db" and L: "decimal_ok L" and stocked: "lines_stocked db" and a: "op_ok a"
    and vis: "\<forall>ord \<in> set (sh_orders db). visible db ord" and ok: "\<forall>ord \<in> set (sh_orders db). refundable ord"
    and run: "exec_op L a db = (r, db')"
  shows "plain_step L db db' \<or> refund_step L (refund_disposition a) db db' \<or> quiet_step db db'"
proof (cases r)
  case (Inl e)
  then show ?thesis using failed_op run by (simp add: plain_step_def)
next
  case (Inr u)
  note run = run [unfolded Inr]
  show ?thesis
  proof (cases a)
    case (CancelOp uuid)
    then show ?thesis using run CancelOrder_step [OF wf L stocked] by simp
  next
    case (CancelByUserOp uuid email reason)
    then show ?thesis using run CancelOrderByUser_step [OF wf L stocked] by simp
  next
    case (ReturnOp uuid changedBy)
    then show ?thesis using run SetOrderStatusToPendingReturn_step [OF wf] by simp
  next
    case (TrackOp now uuid code)
    then show ?thesis using run SetTrackingNumber_step [OF wf] by simp
  next
    case (DeliverOp now uuid changedBy remark)
    then show ?thesis using run DeliverOrderWithSource_step [OF wf] by (auto simp: ok_simps)
  next
    case (PaidOp cache now uuid p)
    then have "\<exists>a. OrderPaymentDone cache now uuid p db = (Inr a, db')" using run by (simp add: unitE_ok)
    then show ?thesis using OrderPaymentDone_step [OF wf] by blast
  next
    case (ExpireOp uuid)
    then have "\<exists>a. ExpireOrderPayment L uuid db = (Inr a, db')" using run by (simp add: unitE_ok)
    then show ?thesis using ExpireOrderPayment_step [OF wf L stocked] by blast
  next
    case (RefundOp now rng uuid ids reason code ship disposition)
    then have "permutes rng" using a by (simp add: op_ok_def)
    then show ?thesis using RefundOp run RefundOrder_step [OF wf L stocked _ vis ok]
      by (simp add: refund_disposition_def)
  next
    case (ActualCostOp uuid x y)
    then show ?thesis using quiet_ops(1) run by metis
  next
    case (SettledOp uuid x y)
    then show ?thesis using quiet_ops(2) run by metis
  next
    case (AssociateOp uuid x)
    then show ?thesis using quiet_ops(3) run by metis
  next
    case (CurrencyTotalOp uuid x)
    then show ?thesis using quiet_ops(4) run by metis
  qed
qed

end
