(* ===== verification/Order_Invariant.thy ===== *)
theory Order_Invariant
  imports Order_Run
begin

text \<open>
  What holds of the orders between operations: the status is where the history of the order's table of
  transitions ends, the refunded units stay within the lines and agree with the status, every
  milestone has its one event in the outbox, and the refund events add up to what the order records.
  Each is a predicate of one order; all are kept by every step.
\<close>

declare split_paired_All [simp del] split_paired_Ex [simp del]

section \<open>The invariants of an order\<close>

definition statuses :: "customer_order \<Rightarrow> OrderStatusName list" where
  "statuses ord = map hs_Status (co_History ord)"

fun status_path :: "OrderStatusName \<Rightarrow> OrderStatusName list \<Rightarrow> OrderStatusName \<Rightarrow> bool" where
  "status_path s [] t \<longleftrightarrow> s = t"
| "status_path s (u # us) t \<longleftrightarrow> isValidStatusTransition s u \<and> status_path u us t"

text \<open>A checkout leaves no row in the history, an order entered by the shop one of its own.\<close>

definition tracked :: "customer_order \<Rightarrow> bool" where
  "tracked ord \<longleftrightarrow> status_path Placed (statuses ord) (co_Status ord) \<or>
     (case statuses ord of st # rest \<Rightarrow> st = Confirmed \<and> status_path Confirmed rest (co_Status ord) | [] \<Rightarrow> False)"

definition order_lines :: "customer_order \<Rightarrow> (int \<times> variant_key \<times> int) list" where
  "order_lines ord = map (\<lambda>(i, it). (i, item_key it, \<lfloor>oi_Quantity it\<rfloor>)) (line_facts ord)"

definition refunds_ok :: "customer_order \<Rightarrow> bool" where
  "refunds_ok ord \<longleftrightarrow>
     (let lines = order_lines ord; q = getRefundedQuantities ord
      in distinct (map fst lines) \<and>
         (\<forall>(i, _, n) \<in> set lines. 0 \<le> q i \<and> q i \<le> n) \<and>
         (if co_Status ord = Refunded then \<forall>(i, _, n) \<in> set lines. q i = n
          else if co_Status ord = PartiallyRefunded then (\<exists>(i, _, n) \<in> set lines. q i < n) \<and> (\<exists>(i, _, n) \<in> set lines. 0 < q i)
          else \<forall>(i, _, n) \<in> set lines. q i = 0))"

definition milestones_ok :: "shop_db \<Rightarrow> customer_order \<Rightarrow> bool" where
  "milestones_ok db ord \<longleftrightarrow>
     (\<forall>(ty, st) \<in> set [(AcctEventOrderPaid, Confirmed), (AcctEventOrderShipped, Shipped), (AcctEventOrderDelivered, Delivered)].
        event_count ty (co_UUID ord) db = (if st \<in> set (statuses ord) then 1 else 0))"

definition refund_amount :: "AcctEvent \<Rightarrow> decimal" where
  "refund_amount e = (case ae_Payload e of Inl _ \<Rightarrow> 0 | Inr p \<Rightarrow> rp_RefundAmount (py_Refund p))"

definition refund_units :: "AcctEvent \<Rightarrow> int \<Rightarrow> int" where
  "refund_units e i = (case ae_Payload e of Inl _ \<Rightarrow> 0 | Inr p \<Rightarrow> count_of (rp_RefundedByItem (py_Refund p)) i)"

definition ledgered :: "decimal_lib \<Rightarrow> shop_db \<Rightarrow> customer_order \<Rightarrow> bool" where
  "ledgered L db ord \<longleftrightarrow>
     (let evs = refund_events (co_UUID ord) db
      in map ae_SourceKey evs = map (\<lambda>n. refund_key (co_UUID ord) (n + 1)) [0..<length evs] \<and>
         co_RefundedAmount ord = sum_list (map (\<lambda>e. dl_Round L (refund_amount e) 2) evs) \<and>
         (\<forall>(i, _, _) \<in> set (order_lines ord). getRefundedQuantities ord i = sum_list (map (\<lambda>e. refund_units e i) evs)))"

definition line_visible :: "shop_db \<Rightarrow> customer_order \<Rightarrow> bool" where
  "line_visible db ord \<longleftrightarrow> (\<forall>(_, it) \<in> set (line_facts ord). has_thumbnail db (oi_ProductId it))"

definition line_stocked :: "shop_db \<Rightarrow> customer_order \<Rightarrow> bool" where
  "line_stocked db ord \<longleftrightarrow> (\<forall>(_, it) \<in> set (line_facts ord). has_variant (item_key it) db)"

definition order_ok :: "decimal_lib \<Rightarrow> shop_db \<Rightarrow> customer_order \<Rightarrow> bool" where
  "order_ok L db ord \<longleftrightarrow> line_visible db ord \<and> line_stocked db ord \<and> tracked ord \<and> refunds_ok ord \<and>
     milestones_ok db ord \<and> ledgered L db ord"

definition shop_ok :: "decimal_lib \<Rightarrow> shop_db \<Rightarrow> bool" where
  "shop_ok L db \<longleftrightarrow> orders_wf db \<and> events_wf db \<and> (\<forall>ord \<in> set (sh_orders db). order_ok L db ord)"

section \<open>What the invariants speak of\<close>

lemma order_lines_items: "order_lines ord = map (\<lambda>r. (ir_Id r, item_key (item_insert r), ir_Quantity r)) (co_Items ord)"
  by (simp add: order_lines_def line_facts_def item_insert_def comp_def)

lemma order_lines_mem: "r \<in> set (co_Items ord) \<Longrightarrow> (ir_Id r, item_key (item_insert r), ir_Quantity r) \<in> set (order_lines ord)"
  by (auto simp: order_lines_items)

lemma order_lines_cong: "line_facts x = line_facts y \<Longrightarrow> order_lines x = order_lines y"
  by (simp add: order_lines_def)

lemma line_visible_iff: "line_visible db ord \<longleftrightarrow> visible db ord"
  by (auto simp: line_visible_def visible_def line_facts_def item_insert_def)

lemma line_stocked_iff: "line_stocked db ord \<longleftrightarrow> (\<forall>it \<in> set (getOrderItemsInsert ord). has_variant (item_key it) db)"
  by (auto simp: line_stocked_def line_facts_def getOrderItemsInsert_def)

lemma refunds_ok_refundable: "refunds_ok ord \<Longrightarrow> refundable ord"
  by (auto simp: refunds_ok_def refundable_def order_lines_items Let_def comp_def)

lemma shop_ok_pre:
  assumes "shop_ok L db"
  shows "orders_wf db" and "events_wf db" and "lines_stocked db" and "\<forall>ord \<in> set (sh_orders db). visible db ord"
    and "\<forall>ord \<in> set (sh_orders db). refundable ord"
  using assms refunds_ok_refundable
  by (auto simp: shop_ok_def order_ok_def lines_stocked_def line_stocked_iff line_visible_iff)

text \<open>An order that kept its core keeps its invariants.\<close>

lemma refunded_cong: "co_RefundedItems x = co_RefundedItems y \<Longrightarrow> getRefundedQuantities x = getRefundedQuantities y"
  by (simp add: getRefundedQuantities_def fun_eq_iff)

lemma statuses_cong: "co_History x = co_History y \<Longrightarrow> statuses x = statuses y"
  by (simp add: statuses_def)

lemma order_ok_core:
  assumes "core x = core y"
  shows "order_ok L db x = order_ok L db y"
  unfolding order_ok_def line_visible_def line_stocked_def tracked_def refunds_ok_def milestones_ok_def ledgered_def
    core_fields [OF assms] order_lines_cong [OF core_fields(5) [OF assms]] refunded_cong [OF core_fields(6) [OF assms]]
    statuses_cong [OF core_fields(4) [OF assms]] ..

text \<open>The tables an order's invariants look at.\<close>

lemma order_ok_tables:
  assumes "order_ok L db ord" and "\<forall>k. has_variant k db \<longrightarrow> has_variant k db'" and "\<forall>p. has_thumbnail db' p = has_thumbnail db p"
    and "\<forall>ty \<in> {AcctEventOrderPaid, AcctEventOrderShipped, AcctEventOrderDelivered}.
      event_count ty (co_UUID ord) db' = event_count ty (co_UUID ord) db"
    and "refund_events (co_UUID ord) db' = refund_events (co_UUID ord) db"
  shows "order_ok L db' ord"
  using assms by (simp add: order_ok_def line_visible_def line_stocked_def milestones_ok_def ledgered_def split_beta)

section \<open>Keys of refund events\<close>

lemma colon_split:
  assumes "u @ '':'' @ r = v @ '':'' @ s" and "CHR '':'' \<notin> set u" and "CHR '':'' \<notin> set v"
  shows "u = v" and "r = s"
proof -
  have tw: "takeWhile (\<lambda>c. c \<noteq> CHR '':'') (w @ '':'' @ t) = w" if "CHR '':'' \<notin> set w" for w t
    using that by (induction w) auto
  show "u = v" using tw [of u r] tw [of v s] assms by metis
  then show "r = s" using assms(1) by simp
qed

lemma refund_key_inj: "refund_key u m = refund_key u n \<longleftrightarrow> m = n"
  by (simp add: refund_key_def)

lemma has_prefix: "take (length u + 1) key = u @ '':'' \<longleftrightarrow> (\<exists>r. key = u @ '':'' @ r)"
  using append_take_drop_id [of "length u + 1" key] by (auto simp del: append_take_drop_id) metis

lemma refund_key_of: "take (length u + 1) (refund_key v n) = u @ '':'' \<Longrightarrow> CHR '':'' \<notin> set u \<Longrightarrow> CHR '':'' \<notin> set v \<Longrightarrow> u = v"
  unfolding has_prefix refund_key_def using colon_split(1) by metis

lemma refund_events_new:
  assumes run: "refund_event ord amount counts disposition db db'" and led: "ledgered L db ord"
  obtains e where "ev_events (sh_events db') = ev_events (sh_events db) @ [e]" and "ae_EventType e = AcctEventOrderRefund"
    and "ae_SourceKey e = refund_key (co_UUID ord) (length (refund_events (co_UUID ord) db) + 1)"
    and "refund_amount e = amount" and "\<And>i. refund_units e i = count_of counts i"
    and "\<forall>e' \<in> set (ev_events (sh_events db)). ae_EventType e' = AcctEventOrderRefund \<longrightarrow> ae_SourceKey e' \<noteq> ae_SourceKey e"
proof -
  let ?u = "co_UUID ord" and ?n = "length (refund_events (co_UUID ord) db)"
  from run obtain now where e: "EnqueueEvent now \<lparr>ei_EventType = AcctEventOrderRefund, ei_SourceKey = refund_key ?u (?n + 1),
        ei_Payload = Inr (refund_payload \<lparr>rp_OrderUUID = ?u, rp_RefundAmount = amount,
          rp_OrderCurrency = co_Currency ord, rp_RefundedByItem = counts, rp_Disposition = disposition\<rparr>),
        ei_OccurredAt = now\<rparr> (sh_events db) = (Inr (), sh_events db')" by (auto simp: refund_event_def)
  from e show thesis
  proof (cases rule: EnqueueEvent_cases)
    case (known e)
    then have "e \<in> set (refund_events ?u db)" by (simp add: refund_events_def refund_key_def)
    then have "ae_SourceKey e \<in> set (map ae_SourceKey (refund_events ?u db))" by simp
    also have "\<dots> = (\<lambda>n. refund_key ?u (n + 1)) ` {0..<?n}" using led by (simp add: ledgered_def Let_def)
    finally show thesis using known(4) by (auto simp: refund_key_inj)
  next
    case (new e)
    show thesis
      by (rule that [of e]) (use new in \<open>simp_all add: refund_amount_def refund_units_def refund_payload_def\<close>)
  qed
qed

section \<open>A step keeps them\<close>

lemma status_path_snoc: "status_path s us t \<Longrightarrow> isValidStatusTransition t v \<Longrightarrow> status_path s (us @ [v]) v"
  by (induction us arbitrary: s) auto

lemma status_move_statuses: "status_move ord x \<Longrightarrow> statuses x = statuses ord @ [co_Status x]"
  by (auto simp: status_move_def statuses_def)

lemma status_move_tracked:
  assumes "status_move ord x" and "tracked ord"
  shows "tracked x"
proof -
  have v: "isValidStatusTransition (co_Status ord) (co_Status x)" using assms(1) by (simp add: status_move_def)
  show ?thesis using assms(2) v status_path_snoc [OF _ v] unfolding tracked_def status_move_statuses [OF assms(1)]
    by (auto split: list.splits)
qed

lemma same_terms_lines:
  assumes "same_terms ord x"
  shows "line_facts x = line_facts ord" and "order_lines x = order_lines ord" and "co_UUID x = co_UUID ord" and "co_Id x = co_Id ord"
  using assms order_lines_cong [of x ord] by (simp_all add: same_terms_def)

lemma enqueue_wf:
  assumes "EnqueueEvent now ins (sh_events db) = (Inr (), sh_events db')" and "events_wf db"
  shows "events_wf db'"
  using assms(1)
proof (cases rule: EnqueueEvent_cases)
  case (known e)
  then show ?thesis using assms(2) by (simp add: events_wf_def)
next
  case (new e)
  then show ?thesis using assms(2) by (force simp: events_wf_def)
qed

lemma status_events_wf:
  assumes "status_events x db db'" and "events_wf db"
  shows "events_wf db'"
proof (cases "status_event (co_Status x)")
  case None
  then show ?thesis using assms by (simp add: status_events_def no_event_def events_wf_def)
next
  case (Some ty)
  then show ?thesis using assms enqueue_wf by (auto simp: status_events_def one_event_def)
qed

lemma not_refunded_before:
  assumes "status_move ord x" and "co_Status x \<noteq> Refunded" and "co_Status x \<noteq> PartiallyRefunded"
  shows "co_Status ord \<noteq> Refunded" and "co_Status ord \<noteq> PartiallyRefunded"
  using assms by (auto simp: status_move_def isValidStatusTransition_def)

lemma plain_refunds_ok:
  assumes "status_move ord x" and "same_refunds ord x" and "same_terms ord x" and "refunds_ok ord"
    and "co_Status x \<noteq> Refunded" and "co_Status x \<noteq> PartiallyRefunded"
  shows "refunds_ok x"
  using assms not_refunded_before [OF assms(1,5,6)] same_terms_lines [OF assms(3)] refunded_cong [of x ord]
  by (simp add: refunds_ok_def same_refunds_def Let_def)

lemma refund_refunds_ok:
  assumes u: "refunds_units ord x items" and "same_terms ord x" and ok: "refunds_ok ord"
  shows "refunds_ok x"
proof -
  note lines = same_terms_lines(2) [OF assms(2)] order_lines_items [of ord]
  let ?q = "getRefundedQuantities x"
  have d: "distinct (map fst (order_lines x))" using ok by (simp add: refunds_ok_def Let_def lines(1))
  have q: "?q i = getRefundedQuantities ord i + units_of items i" for i using u by (simp add: refunds_units_def)
  have "0 \<le> getRefundedQuantities ord (ir_Id r)" if "r \<in> set (co_Items ord)" for r
    using ok that by (auto simp: refunds_ok_def Let_def lines(2))
  then have b: "\<forall>(i, _, n) \<in> set (order_lines x). 0 \<le> ?q i \<and> ?q i \<le> n"
    using u by (auto simp: lines refunds_units_def)
  have pos: "\<exists>(i, _, n) \<in> set (order_lines x). 0 < ?q i" if "items \<noteq> []"
  proof -
    from that obtain r items' where i: "items = r # items'" by (cases items) auto
    then obtain it where it: "it \<in> set (co_Items ord)" "r = refund_unit (line_item it)" using u by (auto simp: refunds_units_def)
    have "0 \<le> getRefundedQuantities ord (ir_Id it)" using ok it(1) by (auto simp: refunds_ok_def Let_def lines(2))
    moreover have "?q (ir_Id it) = getRefundedQuantities ord (ir_Id it) + (1 + units_of items' (ir_Id it))" by (simp add: q i it(2))
    moreover have "0 \<le> units_of items' (ir_Id it)" by simp
    ultimately have "0 < ?q (ir_Id it)" by linarith
    then show ?thesis using it(1) by (auto simp: lines)
  qed
  show ?thesis using u d b pos by (auto simp: refunds_ok_def Let_def refunds_units_def lines)
qed

lemma moved_orders:
  assumes "moved db db' ord x d" and "orders_wf db" and "o' \<in> set (sh_orders db')"
  obtains (same) "o' = x" | (other) "o' \<in> set (sh_orders db)" and "co_Id o' \<noteq> co_Id x" and "co_UUID o' \<noteq> co_UUID x"
proof (cases "o' = x")
  case False
  have f: "find_order_id (co_Id x) db = Some ord" and t: "same_terms ord x" using assms(1) by (simp_all add: moved_def)
  have o': "o' \<in> set (sh_orders db)" "co_Id o' \<noteq> co_Id x"
    using assms(1,3) set_replace [OF assms(2) f] False by (auto simp: moved_def)
  have "co_UUID o' \<noteq> co_UUID x"
  proof
    assume "co_UUID o' = co_UUID x"
    then have "co_UUID o' = co_UUID ord" using t by (simp add: same_terms_def)
    then have "find_order (co_UUID ord) db = Some o'" by (metis find_order_mem [OF assms(2) o'(1)])
    moreover have "find_order (co_UUID ord) db = Some ord" by (rule find_order_mem [OF assms(2) find_order_id_Some(1) [OF f]])
    ultimately have "o' = ord" by simp
    then show False using o'(2) t by (simp add: same_terms_def)
  qed
  with o' show thesis by (rule other)
qed (rule same)

lemma moved_tables:
  assumes "moved db db' ord x d"
  shows "\<forall>k. has_variant k db \<longrightarrow> has_variant k db'" and "\<forall>p. has_thumbnail db' p = has_thumbnail db p"
    and "ord \<in> set (sh_orders db)" and "same_terms ord x" and "co_UUID x = co_UUID ord"
proof -
  have m: "find_order_id (co_Id x) db = Some ord \<and> same_terms ord x \<and> (\<forall>k. has_variant k db \<longrightarrow> has_variant k db') \<and>
    (\<forall>p. has_thumbnail db' p = has_thumbnail db p)" using assms unfolding moved_def by blast
  then show "\<forall>k. has_variant k db \<longrightarrow> has_variant k db'" "\<forall>p. has_thumbnail db' p = has_thumbnail db p" "same_terms ord x"
    by blast+
  show "ord \<in> set (sh_orders db)" using m find_order_id_Some(1) by blast
  show "co_UUID x = co_UUID ord" using m by (simp add: same_terms_def)
qed

lemma plain_step_ok:
  assumes ok: "shop_ok L db" and step: "plain_step L db db'"
  shows "shop_ok L db'"
proof (cases "db' = db")
  case False
  with step obtain ord x where m: "moved db db' ord x (given_back L ord x)" and st: "status_move ord x" and r: "same_refunds ord x"
    and e: "status_events x db db'" and n: "co_Status x \<noteq> Refunded" "co_Status x \<noteq> PartiallyRefunded"
    by (auto simp: plain_step_def)
  have wf: "orders_wf db" and ev: "events_wf db" using ok by (simp_all add: shop_ok_def)
  note tab = moved_tables [OF m]
  note lines = same_terms_lines [OF tab(4)]
  have ord: "order_ok L db ord" using ok tab(3) by (simp add: shop_ok_def)
  have "order_ok L db' o'" if "o' \<in> set (sh_orders db')" for o'
    using m wf that
  proof (cases rule: moved_orders)
    case same
    have "milestones_ok db' x"
      using ord status_events_count [OF e ev] status_move_statuses [OF st]
      by (auto simp: order_ok_def milestones_ok_def tab(5) status_event_def split: OrderStatusName.split)
    moreover have "ledgered L db' x"
      using ord r refunded_cong [of x ord] by (simp add: order_ok_def ledgered_def lines refund_events_other [OF e] same_refunds_def)
    ultimately show ?thesis unfolding same
      using ord tab(1,2) status_move_tracked [OF st] plain_refunds_ok [OF st r tab(4) _ n]
      by (auto simp: order_ok_def line_visible_def line_stocked_def lines)
  next
    case other
    have "order_ok L db o'" using ok other(1) by (simp add: shop_ok_def)
    then show ?thesis
      by (rule order_ok_tables) (use tab(1,2) other(3) status_events_count [OF e ev] refund_events_other [OF e] in auto)
  qed
  then show ?thesis using moved_wf [OF m wf] status_events_wf [OF e ev] by (simp add: shop_ok_def)
qed (use ok in simp)

lemma quiet_step_ok:
  assumes ok: "shop_ok L db" and step: "quiet_step db db'"
  shows "shop_ok L db'"
proof -
  from step obtain f where db': "db' = db\<lparr>sh_orders := map f (sh_orders db)\<rparr>" and f: "\<And>ord. core (f ord) = core ord"
    by (auto simp: quiet_step_def)
  have ids: "co_Id (f ord) = co_Id ord" "co_UUID (f ord) = co_UUID ord" for ord using core_fields [OF f] by simp_all
  have "orders_wf db'" using ok orders_wf_ids [of db' db] by (simp add: shop_ok_def db' ids comp_def)
  moreover have "order_ok L db' (f ord)" if "ord \<in> set (sh_orders db)" for ord
  proof -
    have "order_ok L db ord" using ok that by (simp add: shop_ok_def)
    then have "order_ok L db' ord"
      by (rule order_ok_tables) (simp_all add: db' has_variant_def find_variant_def has_thumbnail_def find_product_def
          event_count_def refund_events_def split: prod.split)
    then show ?thesis using order_ok_core [OF f] by blast
  qed
  ultimately show ?thesis using ok by (auto simp: shop_ok_def db' events_wf_def)
qed

subsection \<open>A refund\<close>

lemma refund_event_wf: "refund_event ord amount counts disposition db db' \<Longrightarrow> events_wf db \<Longrightarrow> events_wf db'"
  by (auto simp: refund_event_def intro: enqueue_wf)

lemma refund_event_other:
  assumes e: "ev_events (sh_events db') = ev_events (sh_events db) @ [e]" "ae_EventType e = AcctEventOrderRefund"
    and key: "ae_SourceKey e = refund_key u n" and u: "CHR '':'' \<notin> set u"
  shows "ty \<noteq> AcctEventOrderRefund \<Longrightarrow> event_count ty key db' = event_count ty key db"
    and "refund_events u db' = refund_events u db @ [e]"
    and "v \<noteq> u \<Longrightarrow> CHR '':'' \<notin> set v \<Longrightarrow> refund_events v db' = refund_events v db"
proof -
  show "event_count ty key db' = event_count ty key db" if "ty \<noteq> AcctEventOrderRefund"
    using that e by (simp add: event_count_def)
  show "refund_events u db' = refund_events u db @ [e]" using e key by (simp add: refund_events_def refund_key_def)
  show "refund_events v db' = refund_events v db" if v: "v \<noteq> u" "CHR '':'' \<notin> set v"
  proof -
    have "take (length v + 1) (ae_SourceKey e) \<noteq> v @ '':''" using refund_key_of [of v u n] v u key by auto
    then show ?thesis using e by (simp add: refund_events_def)
  qed
qed

lemma refund_ledgered:
  assumes led: "ledgered L db ord" and same: "same_terms ord x" and u: "refunds_units ord x items" and m: "refunds_money L ord x items"
    and one: "\<forall>r \<in> set items. oi_Quantity (ri_OrderItemInsert r) = 1"
    and evs: "refund_events (co_UUID ord) db' = refund_events (co_UUID ord) db @ [e]"
    and e: "ae_SourceKey e = refund_key (co_UUID ord) (length (refund_events (co_UUID ord) db) + 1)"
    and amount: "refund_amount e = refund_total L ord x items" and units: "\<And>i. refund_units e i = count_of (refunded_by_item items) i"
  shows "ledgered L db' x"
proof -
  note lines = same_terms_lines [OF same]
  have "map ae_SourceKey (refund_events (co_UUID ord) db) =
      map (\<lambda>n. refund_key (co_UUID ord) (n + 1)) [0..<length (refund_events (co_UUID ord) db)]"
    and money: "co_RefundedAmount ord = sum_list (map (\<lambda>e. dl_Round L (refund_amount e) 2) (refund_events (co_UUID ord) db))"
    and q: "\<forall>(i, _, _) \<in> set (order_lines ord). getRefundedQuantities ord i =
      sum_list (map (\<lambda>e. refund_units e i) (refund_events (co_UUID ord) db))"
    using led by (simp_all add: ledgered_def Let_def)
  moreover have "co_RefundedAmount x = co_RefundedAmount ord + dl_Round L (refund_total L ord x items) 2"
    using m by (simp add: refunds_money_def)
  moreover have "getRefundedQuantities x i = getRefundedQuantities ord i + count_of (refunded_by_item items) i" for i
    using u refunded_by_item_units [OF one] by (simp add: refunds_units_def)
  ultimately show ?thesis by (auto simp: ledgered_def Let_def lines evs e amount units)
qed

lemma refund_step_ok:
  assumes ok: "shop_ok L db" and step: "refund_step L disposition db db'"
  shows "shop_ok L db'"
proof -
  from step obtain ord x items where m: "moved db db' ord x (refund_delta L disposition items)" and st: "status_move ord x"
    and u: "refunds_units ord x items" and mon: "refunds_money L ord x items"
    and e: "refund_event ord (refund_total L ord x items) (refunded_by_item items) disposition db db'"
    by (auto simp: refund_step_def)
  have wf: "orders_wf db" and ev: "events_wf db" using ok by (simp_all add: shop_ok_def)
  note tab = moved_tables [OF m]
  note lines = same_terms_lines [OF tab(4)]
  have ord: "order_ok L db ord" using ok tab(3) by (simp add: shop_ok_def)
  have led: "ledgered L db ord" using ord by (simp add: order_ok_def)
  have colon: "CHR '':'' \<notin> set (co_UUID o')" if "o' \<in> set (sh_orders db)" for o' using wf that by (simp add: orders_wf_def)
  have one: "\<forall>r \<in> set items. oi_Quantity (ri_OrderItemInsert r) = 1" using u by (auto simp: refunds_units_def)
  obtain ae where ae: "ev_events (sh_events db') = ev_events (sh_events db) @ [ae]" "ae_EventType ae = AcctEventOrderRefund"
    "ae_SourceKey ae = refund_key (co_UUID ord) (length (refund_events (co_UUID ord) db) + 1)"
    "refund_amount ae = refund_total L ord x items" "\<And>i. refund_units ae i = count_of (refunded_by_item items) i"
    by (rule refund_events_new [OF e led]) blast
  note oth = refund_event_other [OF ae(1-3) colon [OF tab(3)]]
  have "order_ok L db' o'" if "o' \<in> set (sh_orders db')" for o'
    using m wf that
  proof (cases rule: moved_orders)
    case same
    have "milestones_ok db' x"
      using ord oth(1) status_move_statuses [OF st] u by (auto simp: order_ok_def milestones_ok_def tab(5) refunds_units_def)
    moreover have "ledgered L db' x" by (rule refund_ledgered [OF led tab(4) u mon one oth(2) ae(3-5)])
    ultimately show ?thesis unfolding same
      using ord tab(1,2) status_move_tracked [OF st] refund_refunds_ok [OF u tab(4)]
      by (auto simp: order_ok_def line_visible_def line_stocked_def lines)
  next
    case other
    have "order_ok L db o'" using ok other(1) by (simp add: shop_ok_def)
    then show ?thesis
      by (rule order_ok_tables) (use tab(1,2,5) other(3) oth(1,3) colon [OF other(1)] in auto)
  qed
  then show ?thesis using moved_wf [OF m wf] refund_event_wf [OF e ev] by (simp add: shop_ok_def)
qed

section \<open>Every run keeps them\<close>

lemma exec_ok:
  assumes "decimal_ok L" and "shop_ok L db" and "op_ok a" and "exec_op L a db = (r, db')"
  shows "shop_ok L db'"
  using exec_step [OF shop_ok_pre(1) [OF assms(2)] assms(1) shop_ok_pre(3) [OF assms(2)] assms(3) shop_ok_pre(4,5) [OF assms(2)] assms(4)]
    plain_step_ok [OF assms(2)] refund_step_ok [OF assms(2)] quiet_step_ok [OF assms(2)] by blast

lemma lifecycle_ok:
  assumes "lifecycle L ops db db'" and "decimal_ok L" and "shop_ok L db"
  shows "shop_ok L db'"
  using assms by (induction rule: lifecycle.induct) (auto intro: exec_ok)

text \<open>The relation that a step establishes, for the states in which runs are.\<close>

lemma exec_cases:
  assumes "decimal_ok L" and "shop_ok L db" and "op_ok a" and "exec_op L a db = (r, db')"
  shows "plain_step L db db' \<or> refund_step L (refund_disposition a) db db' \<or> quiet_step db db'"
  by (rule exec_step [OF shop_ok_pre(1) [OF assms(2)] assms(1) shop_ok_pre(3) [OF assms(2)] assms(3) shop_ok_pre(4,5) [OF assms(2)] assms(4)])

lemma lifecycle_induct_ok [consumes 3, case_names start step]:
  assumes "lifecycle L ops db db'" and "decimal_ok L" and "shop_ok L db"
    and "\<And>db. shop_ok L db \<Longrightarrow> P [] db db"
    and "\<And>ops db t a r db'. lifecycle L ops db t \<Longrightarrow> P ops db t \<Longrightarrow> shop_ok L t \<Longrightarrow> op_ok a \<Longrightarrow> exec_op L a t = (r, db') \<Longrightarrow>
      plain_step L t db' \<or> refund_step L (refund_disposition a) t db' \<or> quiet_step t db' \<Longrightarrow> P (ops @ [a]) db db'"
  shows "P ops db db'"
  using assms(1-3)
proof (induction rule: lifecycle.induct)
  case (step ops db t a r db')
  have t: "shop_ok L t" by (rule lifecycle_ok [OF step.hyps(1) step.prems])
  show ?case
    by (rule assms(5) [OF step.hyps(1) step.IH [OF step.prems] t step.hyps(2,3)
        exec_cases [OF step.prems(1) t step.hyps(2,3)]])
qed (rule assms(4))

end
