(* ===== verification/Order_Stock.thy ===== *)
theory Order_Stock
  imports Order_Invariant
begin

text \<open>
  The goods an order holds: what its checkout took from the shelf and no refund or cancellation has
  given back.  Stock and goods held are two accounts between which the operations move units.
\<close>

declare split_paired_All [simp del] split_paired_Ex [simp del]

definition holds_stock :: "OrderStatusName \<Rightarrow> bool" where
  "holds_stock st \<longleftrightarrow> st \<noteq> Placed \<and> st \<noteq> Cancelled"

definition held_by :: "variant_key \<Rightarrow> customer_order \<Rightarrow> int" where
  "held_by k ord =
     (if holds_stock (co_Status ord)
      then sum_list (map (\<lambda>(i, key, n). if key = k then n - getRefundedQuantities ord i else 0) (order_lines ord)) else 0)"

definition units_held :: "variant_key \<Rightarrow> shop_db \<Rightarrow> int" where
  "units_held k db = sum_list (map (held_by k) (sh_orders db))"

section \<open>Units of lines\<close>

definition line_total :: "variant_key \<Rightarrow> customer_order \<Rightarrow> int" where
  "line_total k ord = sum_list (map (\<lambda>(_, key, n). if key = k then n else 0) (order_lines ord))"

lemma line_units_item: "decimal_ok L \<Longrightarrow> line_units L (item_insert r) = ir_Quantity r"
  by (simp add: line_units_def QuantityDecimal_def item_insert_def decimal_simps)

lemma units_at_lines: "decimal_ok L \<Longrightarrow> units_at L k (getOrderItemsInsert ord) = line_total k ord"
  by (simp add: units_at_def getOrderItemsInsert_def line_total_def order_lines_items comp_def line_units_item cong del: if_weak_cong)

lemma line_units_refund: "decimal_ok L \<Longrightarrow> line_units L (ri_OrderItemInsert (refund_unit it)) = 1"
  by (simp add: line_units_def QuantityDecimal_def decimal_simps)

lemma sum_one_line:
  fixes f :: "order_item_row \<Rightarrow> int"
  assumes "distinct (map ir_Id rs)" and "y \<in> set rs"
  shows "sum_list (map (\<lambda>r. if ir_Id y = ir_Id r then f r else 0) rs) = f y"
  using assms
proof (induction rs)
  case (Cons r rs)
  have zero: "sum_list (map (\<lambda>r. if ir_Id y = ir_Id r then f r else 0) rs) = 0" if "ir_Id y \<notin> ir_Id ` set rs"
    using that by (induction rs) auto
  show ?case
  proof (cases "y = r")
    case True
    then show ?thesis using Cons.prems zero by simp
  next
    case False
    then have "y \<in> set rs" using Cons.prems(2) by simp
    moreover from this have "ir_Id y \<in> ir_Id ` set rs" by (rule imageI)
    then have "ir_Id y \<noteq> ir_Id r" using Cons.prems(1) by (metis distinct.simps(2) list.simps(9) set_map)
    ultimately show ?thesis using Cons by simp
  qed
qed simp

lemma refund_units_at:
  assumes L: "decimal_ok L" and d: "distinct (map ir_Id rs)"
    and u: "\<forall>r \<in> set items. \<exists>ln \<in> set rs. r = refund_unit (line_item ln)"
  shows "units_at L k (map ri_OrderItemInsert items) =
    sum_list (map (\<lambda>r. if item_key (item_insert r) = k then units_of items (ir_Id r) else 0) rs)"
  using u
proof (induction items)
  case Nil
  have "(\<lambda>r. if item_key (item_insert r) = k then units_of [] (ir_Id r) else 0) = (\<lambda>r. 0)" by auto
  then show ?case by simp
next
  case (Cons x items)
  from Cons.prems obtain y where y: "y \<in> set rs" "x = refund_unit (line_item y)" by auto
  have "sum_list (map (\<lambda>r. if item_key (item_insert r) = k then units_of (x # items) (ir_Id r) else 0) rs) =
    sum_list (map (\<lambda>r. (if ir_Id y = ir_Id r then (if item_key (item_insert r) = k then 1 else 0) else 0) +
      (if item_key (item_insert r) = k then units_of items (ir_Id r) else 0)) rs)"
    by (rule arg_cong [where f = sum_list], rule map_cong) (auto simp: y)
  also have "\<dots> = (if item_key (item_insert y) = k then 1 else 0) + units_at L k (map ri_OrderItemInsert items)"
    using Cons sum_one_line [OF d y(1), of "\<lambda>r. if item_key (item_insert r) = k then 1 else 0"] by (simp add: sum_list_addf)
  finally show ?case by (simp add: y(2) line_units_refund [OF L])
qed

section \<open>How a step moves goods\<close>

lemma held_moved:
  assumes m: "moved db db' ord x d" and wf: "orders_wf db"
  shows "units_held k db' = units_held k db - held_by k ord + held_by k x"
  using assms sum_replace [OF wf, of x ord "held_by k"] by (simp add: moved_def units_held_def)

lemma held_same: "line_facts x = line_facts ord \<Longrightarrow> getRefundedQuantities x = getRefundedQuantities ord \<Longrightarrow>
    holds_stock (co_Status x) = holds_stock (co_Status ord) \<Longrightarrow> held_by k x = held_by k ord"
  by (simp add: held_by_def order_lines_cong [of x ord] cong del: if_weak_cong)

lemma held_unrefunded:
  assumes "refunds_ok ord" and "co_Status ord \<noteq> Refunded" and "co_Status ord \<noteq> PartiallyRefunded"
    and "line_facts x = line_facts ord" and "getRefundedQuantities x = getRefundedQuantities ord"
  shows "held_by k x = (if holds_stock (co_Status x) then line_total k ord else 0)"
proof -
  have "(\<lambda>(i, key, n). if key = k then n - getRefundedQuantities ord i else 0) l = (\<lambda>(i, key, n). if key = k then n else 0) l"
    if "l \<in> set (order_lines ord)" for l :: "int \<times> variant_key \<times> int"
    using assms(1-3) that by (auto simp: refunds_ok_def Let_def)
  then have eq: "map (\<lambda>(i, key, n). if key = k then n - getRefundedQuantities ord i else 0) (order_lines ord) =
    map (\<lambda>(i, key, n). if key = k then n else 0) (order_lines ord)" by (rule map_cong [OF refl])
  show ?thesis unfolding held_by_def line_total_def order_lines_cong [OF assms(4)] assms(5) eq ..
qed

lemma plain_held:
  assumes L: "decimal_ok L" and ok: "refunds_ok ord" and st: "status_move ord x" and r: "same_refunds ord x" and t: "same_terms ord x"
    and n: "co_Status x \<noteq> Refunded" "co_Status x \<noteq> PartiallyRefunded"
  shows "held_by k x = held_by k ord - given_back L ord x k"
proof -
  have q: "getRefundedQuantities x = getRefundedQuantities ord" by (rule refunded_cong) (use r in \<open>simp add: same_refunds_def\<close>)
  have v: "isValidStatusTransition (co_Status ord) (co_Status x)" using st by (simp add: status_move_def)
  note h = held_unrefunded [OF ok not_refunded_before [OF st n]]
  have "held_by k x = (if holds_stock (co_Status x) then line_total k ord else 0)"
    by (rule h [OF same_terms_lines(1) [OF t] q])
  moreover have "held_by k ord = (if holds_stock (co_Status ord) then line_total k ord else 0)"
    by (rule h [OF refl refl])
  moreover have "co_Status ord = Placed \<and> co_Status x = AwaitingPayment \<or> co_Status ord = Placed \<and> co_Status x = Cancelled \<or>
    co_Status ord \<noteq> Placed \<and> holds_stock (co_Status ord) \<and> co_Status x = Cancelled \<or>
    co_Status ord \<noteq> Placed \<and> holds_stock (co_Status ord) \<and> holds_stock (co_Status x) \<and> co_Status x \<noteq> Cancelled"
    using v by (cases "co_Status ord") (auto simp: holds_stock_def isValidStatusTransition_def)
  ultimately show ?thesis
    by (elim disjE conjE) (simp_all add: given_back_def holds_stock_def units_at_lines [OF L])
qed

lemma refund_held:
  assumes L: "decimal_ok L" and ok: "refunds_ok ord" and st: "status_move ord x" and u: "refunds_units ord x items" and t: "same_terms ord x"
  shows "held_by k x = held_by k ord - units_at L k (map ri_OrderItemInsert items)"
proof -
  have v: "isValidStatusTransition (co_Status ord) (co_Status x)" using st by (simp add: status_move_def)
  have x: "co_Status x = Refunded \<or> co_Status x = PartiallyRefunded" using u by (auto simp: refunds_units_def)
  have h: "holds_stock (co_Status ord)" "holds_stock (co_Status x)"
    using v x by (cases "co_Status ord"; auto simp: holds_stock_def isValidStatusTransition_def)+
  have d: "distinct (map ir_Id (co_Items ord))" using refunds_ok_refundable [OF ok] by (simp add: refundable_def)
  have q: "getRefundedQuantities x i = getRefundedQuantities ord i + units_of items i" for i using u by (simp add: refunds_units_def)
  have "units_at L k (map ri_OrderItemInsert items) =
    sum_list (map (\<lambda>r. if item_key (item_insert r) = k then units_of items (ir_Id r) else 0) (co_Items ord))"
    by (rule refund_units_at [OF L d]) (use u in \<open>simp add: refunds_units_def\<close>)
  moreover have "held_by k ord = sum_list (map (\<lambda>r. if item_key (item_insert r) = k then ir_Quantity r - getRefundedQuantities ord (ir_Id r) else 0) (co_Items ord))"
    using h(1) by (simp add: held_by_def order_lines_items comp_def)
  moreover have "held_by k x = sum_list (map (\<lambda>r. if item_key (item_insert r) = k then ir_Quantity r - getRefundedQuantities x (ir_Id r) else 0) (co_Items ord))"
    using h(2) by (simp add: held_by_def same_terms_lines(2) [OF t] order_lines_items [of ord] comp_def)
  moreover have "(\<lambda>r. if item_key (item_insert r) = k then ir_Quantity r - getRefundedQuantities ord (ir_Id r) else 0) =
    (\<lambda>r. (if item_key (item_insert r) = k then ir_Quantity r - getRefundedQuantities x (ir_Id r) else 0) +
      (if item_key (item_insert r) = k then units_of items (ir_Id r) else 0))" by (auto simp: q)
  ultimately show ?thesis by (simp add: sum_list_addf)
qed

text \<open>Stock and goods held, after a step: the refund says what became of its units.\<close>

definition goods :: "variant_key \<Rightarrow> shop_db \<Rightarrow> int" where
  "goods k db = stock_qty k db + units_held k db"

lemma plain_goods:
  assumes "decimal_ok L" and "shop_ok L db" and "plain_step L db db'"
  shows "goods k db' = goods k db" and "opening_stock k db' = opening_stock k db"
proof -
  have "goods k db' = goods k db \<and> opening_stock k db' = opening_stock k db"
  proof (cases "db' = db")
    case False
    with assms(3) obtain ord x where m: "moved db db' ord x (given_back L ord x)" and st: "status_move ord x" and r: "same_refunds ord x"
      and n: "co_Status x \<noteq> Refunded" "co_Status x \<noteq> PartiallyRefunded" by (auto simp: plain_step_def)
    note tab = moved_tables [OF m]
    have ok: "refunds_ok ord" and wf: "orders_wf db" using assms(2) tab(3) by (auto simp: shop_ok_def order_ok_def)
    show ?thesis using m held_moved [OF m wf, of k] plain_held [OF assms(1) ok st r tab(4) n, of k]
      by (simp add: goods_def moved_def)
  qed simp
  then show "goods k db' = goods k db" "opening_stock k db' = opening_stock k db" by blast+
qed

lemma quiet_goods:
  assumes "quiet_step db db'"
  shows "goods k db' = goods k db" and "opening_stock k db' = opening_stock k db"
proof -
  from assms obtain f where db': "db' = db\<lparr>sh_orders := map f (sh_orders db)\<rparr>" and f: "\<And>ord. core (f ord) = core ord"
    by (auto simp: quiet_step_def)
  have "held_by k (f ord) = held_by k ord" for ord
    by (rule held_same [OF core_fields(5) [OF f] refunded_cong [OF core_fields(6) [OF f]]]) (simp add: core_fields(3) [OF f])
  then show "goods k db' = goods k db" by (simp add: goods_def units_held_def db' stock_qty_def find_variant_def comp_def split: prod.split)
  show "opening_stock k db' = opening_stock k db" by (simp add: opening_stock_def db' stock_qty_def find_variant_def split: prod.split)
qed

lemma refund_goods:
  assumes L: "decimal_ok L" and ok: "shop_ok L db" and step: "refund_step L disposition db db'"
  obtains ord items where "ord \<in> set (sh_orders db)" and "\<forall>r \<in> set items. \<exists>ln \<in> set (co_Items ord). r = refund_unit (line_item ln)"
    and "\<And>k. goods k db' = goods k db + refund_delta L disposition items k - units_at L k (map ri_OrderItemInsert items)"
    and "\<And>k. opening_stock k db' = opening_stock k db"
proof -
  from step obtain ord x items where m: "moved db db' ord x (refund_delta L disposition items)" and st: "status_move ord x"
    and u: "refunds_units ord x items" by (auto simp: refund_step_def)
  note tab = moved_tables [OF m]
  have r: "refunds_ok ord" and wf: "orders_wf db" using ok tab(3) by (auto simp: shop_ok_def order_ok_def)
  show thesis
  proof (rule that [OF tab(3)])
    show "\<forall>r \<in> set items. \<exists>ln \<in> set (co_Items ord). r = refund_unit (line_item ln)" using u by (simp add: refunds_units_def)
    show "goods k db' = goods k db + refund_delta L disposition items k - units_at L k (map ri_OrderItemInsert items)" for k
      using m held_moved [OF m wf, of k] refund_held [OF L r st u tab(4), of k] by (simp add: goods_def moved_def)
    show "opening_stock k db' = opening_stock k db" for k using m by (simp add: moved_def)
  qed
qed

end
