(* ===== verification/Checkout_Effects.thy ===== *)
theory Checkout_Effects
  imports Cart_Props Order_Stock
begin

text \<open>
  What a checkout, a repricing and an invoice do to the tables: the order that is appended, the lines that
  are replaced, the goods that are taken.  The relations here stand beside the moves of \<open>Order_Moves\<close>,
  so that the runs of the whole shop are sequences of both.
\<close>

declare split_paired_All [simp del] split_paired_Ex [simp del]

section \<open>The lines of a new order\<close>

text \<open>The row of a line of the cart.\<close>

definition row_of :: "decimal_lib \<Rightarrow> OrderItemInsert \<Rightarrow> order_item_row \<Rightarrow> bool" where
  "row_of L it r \<longleftrightarrow> ir_ProductId r = oi_ProductId it \<and> ir_SizeId r = oi_SizeId it \<and>
     ir_Grade r = NormalizeVariantGrade (oi_Grade it) \<and> ir_Quantity r = sql_INT (QuantityDecimal L it) \<and>
     ir_ProductPrice r = ProductPriceDecimal L it \<and> ir_SalePercentage r = Some (ProductSalePercentageDecimal L it)"

lemma grade_of: "NormalizeVariantGrade a = b \<Longrightarrow> NormalizeVariantGrade b = b"
  by auto

lemma order_line_row: "order_line L env db items it = Inr r \<Longrightarrow> row_of L it r"
  by (auto simp: order_line_def row_of_def Let_def dest: grade_of split: option.split_asm prod.split_asm if_split_asm)

lemma row_of_Id [simp]: "row_of L it (r\<lparr>ir_Id := n\<rparr>) = row_of L it r"
  by (simp add: row_of_def)

lemma number_lines_ids: "map ir_Id (number_lines n rows) = map (\<lambda>i. n + int i) [0..<length rows]"
proof (induction rows arbitrary: n)
  case (Cons r rows)
  have "map (\<lambda>i. n + int i) [0..<Suc (length rows)] = n # map (\<lambda>i. n + 1 + int i) [0..<length rows]"
    by (simp add: upt_conv_Cons map_Suc_upt [symmetric] comp_def add.assoc del: upt_Suc)
  then show ?case by (simp add: Cons del: upt_Suc)
qed simp

lemma number_lines_distinct: "distinct (map ir_Id (number_lines n rows))"
  by (simp add: number_lines_ids distinct_map inj_on_def)

lemma number_lines_rows: "list_all2 (row_of L) items (number_lines n rows) = list_all2 (row_of L) items rows"
  by (induction rows arbitrary: n items) (auto simp: list_all2_Cons2)

lemma number_lines_columns: "list_all line_columns_ok (number_lines n rows) = list_all line_columns_ok rows"
  by (induction rows arbitrary: n) (auto simp: line_columns_ok_def)

text \<open>Lines that were written have positive quantities and distinct ids, one for each line of the cart.\<close>

definition lines_of :: "decimal_lib \<Rightarrow> OrderItemInsert list \<Rightarrow> order_item_row list \<Rightarrow> bool" where
  "lines_of L items rows \<longleftrightarrow> rows \<noteq> [] \<and> distinct (map ir_Id rows) \<and> list_all2 (row_of L) items rows \<and>
     list_all line_columns_ok rows"

lemma insertOrderItems_ok:
  assumes "insertOrderItems L env items i db = (Inr r, db')"
  obtains rows m where "lines_of L items rows"
    and "db' = (update_order i (\<lambda>o'. o'\<lparr>co_Items := co_Items o' @ rows\<rparr>) db)\<lparr>sh_nextItem := m\<rparr>"
proof -
  from assms obtain rows where ne: "items \<noteq> []" and l: "list_all2 (\<lambda>it a. order_line L env db items it = Inr a) items rows"
    and c: "list_all line_columns_ok rows"
    and db': "db' = (update_order i (\<lambda>o'. o'\<lparr>co_Items := co_Items o' @ number_lines (sh_nextItem db) rows\<rparr>) db)
      \<lparr>sh_nextItem := sh_nextItem db + int (length rows)\<rparr>"
    by (auto simp: insertOrderItems_def ok_simps mapE_read)
  let ?rows = "number_lines (sh_nextItem db) rows"
  have "rows \<noteq> []" using ne l by auto
  then have "?rows \<noteq> []" by (cases rows) simp_all
  moreover have "list_all2 (row_of L) items rows"
    by (rule list_all2_mono [OF l]) (rule order_line_row)
  ultimately have "lines_of L items ?rows"
    using c by (simp add: lines_of_def number_lines_distinct number_lines_rows number_lines_columns)
  then show thesis using db' by (rule that)
qed

lemma in_stock_has:
  assumes "in_stock_line L db it"
  shows "has_thumbnail db (oi_ProductId it)" and "has_variant (item_key it) db"
proof -
  from assms obtain p v where p: "listed_product db (oi_ProductId it) = Some p" and v: "v \<in> set (sh_variants db)"
    "is_variant (oi_ProductId it) (oi_SizeId it) (NormalizeVariantGrade (oi_Grade it)) v"
    by (auto simp: in_stock_line_def)
  show "has_thumbnail db (oi_ProductId it)"
    using p by (auto simp: listed_product_def has_thumbnail_def split: option.split_asm if_split_asm)
  show "has_variant (item_key it) db"
    using v by (auto simp: has_variant_def item_key_def find_variant_def find_None_iff)
qed

text \<open>The lines of an order whose goods the shop has.\<close>

definition sound_lines :: "shop_db \<Rightarrow> customer_order \<Rightarrow> bool" where
  "sound_lines db x \<longleftrightarrow> co_Items x \<noteq> [] \<and> distinct (map ir_Id (co_Items x)) \<and>
     (\<forall>r \<in> set (co_Items x). 0 < ir_Quantity r \<and> has_thumbnail db (ir_ProductId r) \<and> has_variant (item_key (item_insert r)) db)"

lemma row_of_key: "row_of L it r \<Longrightarrow> item_key (item_insert r) = item_key it"
  by (simp add: row_of_def item_key_def item_insert_def)

lemma sound_linesI:
  assumes l: "lines_of L items (co_Items x)" and s: "\<forall>it \<in> set items. in_stock_line L db it"
  shows "sound_lines db x"
  unfolding sound_lines_def
proof (intro conjI ballI)
  show "co_Items x \<noteq> []" "distinct (map ir_Id (co_Items x))" using l by (simp_all add: lines_of_def)
  fix r assume r: "r \<in> set (co_Items x)"
  then show "0 < ir_Quantity r" using l by (auto simp: lines_of_def list_all_iff line_columns_ok_def)
  obtain it where it: "it \<in> set items" "row_of L it r"
  proof -
    from r obtain i where i: "i < length (co_Items x)" "r = co_Items x ! i" by (auto simp: in_set_conv_nth)
    show thesis by (rule that [of "items ! i"]) (use l i in \<open>auto simp: lines_of_def list_all2_conv_all_nth\<close>)
  qed
  note has = in_stock_has [OF s [rule_format, OF it(1)]]
  show "has_thumbnail db (ir_ProductId r)" using has(1) it(2) by (simp add: row_of_def)
  show "has_variant (item_key (item_insert r)) db" using has(2) by (simp add: row_of_key [OF it(2)])
qed

lemma lines_of_units:
  assumes L: "decimal_ok L" and l: "lines_of L items (co_Items x)"
  shows "units_at L k (getOrderItemsInsert x) = units_at L k items"
proof -
  have "list_all2 (row_of L) items rows \<Longrightarrow> units_at L k (map item_insert rows) = units_at L k items" for rows
  proof (induction items rows rule: list_all2_induct)
    case (Cons it items r rows)
    have "line_units L (item_insert r) = line_units L it"
      using Cons.hyps(1) line_units_eq [OF L, of it] by (simp add: row_of_def line_units_item [OF L])
    then show ?case using Cons row_of_key [OF Cons.hyps(1)] by simp
  qed simp
  then show ?thesis using l by (simp add: lines_of_def getOrderItemsInsert_def)
qed

text \<open>Taking goods never makes the stock negative.\<close>

lemma ReduceStock_nonneg:
  assumes L: "decimal_ok L" and run: "ReduceStockForProductSizes L items (Some h) db = (Inr r, db')" and q: "0 \<le> stock_qty k db"
  shows "0 \<le> stock_qty k db'"
proof -
  from run obtain ess t where m: "mapE (reduce_line L (Some h)) items db = (Inr ess, t)"
    and w: "whenE (concat ess \<noteq> []) (RecordStockChange (concat ess)) t = (Inr r, db')"
    by (auto simp: ReduceStockForProductSizes_def bindE_ok)
  have "0 \<le> stock_qty k t"
    using m q
  proof (rule mapE_induct)
    fix it t a v
    assume "0 \<le> stock_qty k t" and step: "reduce_line L (Some h) it t = (Inr a, v)"
    from step have dec: "decrease_quantity (oi_ProductId it) (oi_SizeId it) (NormalizeVariantGrade (oi_Grade it))
        (of_int (line_units L it)) t = (Inr (), v)"
      by (auto simp: reduce_line_def ok_simps Let_def line_units_eq [OF L])
    show "0 \<le> stock_qty k v"
      using decrease_ok(1) [OF dec, of k] decrease_ok(4) [OF dec] \<open>0 \<le> stock_qty k t\<close> by (auto split: if_splits)
  qed
  moreover have "stock_qty k db' = stock_qty k t"
    using w RecordStockChange_ok(2) [of "concat ess" t r db' k] by (auto simp: whenE_ok split: if_split_asm)
  ultimately show ?thesis by simp
qed

section \<open>A new order\<close>

definition ids_below :: "shop_db \<Rightarrow> bool" where
  "ids_below db \<longleftrightarrow> (\<forall>o' \<in> set (sh_orders db). co_Id o' < sh_nextOrder db)"

text \<open>The order \<open>x\<close> was appended, and \<open>d\<close> units of each variant came or went.\<close>

definition created :: "shop_db \<Rightarrow> shop_db \<Rightarrow> customer_order \<Rightarrow> (variant_key \<Rightarrow> int) \<Rightarrow> bool" where
  "created db t x d \<longleftrightarrow> ids_below db \<and> sh_orders t = sh_orders db @ [x] \<and> co_Id x = sh_nextOrder db \<and>
     sh_nextOrder t = sh_nextOrder db + 1 \<and> (\<forall>k. stock_qty k t = stock_qty k db + d k) \<and>
     (\<forall>k. opening_stock k t = opening_stock k db) \<and> (\<forall>k. has_variant k db \<longrightarrow> has_variant k t) \<and>
     (\<forall>p. has_thumbnail t p = has_thumbnail db p)"

lemma same_tables:
  assumes "sh_variants t' = sh_variants t" and "sh_journal t' = sh_journal t" and "sh_products t' = sh_products t"
  shows "stock_qty k t' = stock_qty k t" and "opening_stock k t' = opening_stock k t" and "has_variant k t' = has_variant k t"
    and "has_thumbnail t' p = has_thumbnail t p"
  using assms
  by (cases k; simp add: stock_qty_def opening_stock_def has_variant_def find_variant_def has_thumbnail_def find_product_def)+

text \<open>Writes of tables that the invariants do not read.\<close>

definition side_write :: "shop_db \<Rightarrow> shop_db \<Rightarrow> bool" where
  "side_write t t' \<longleftrightarrow> sh_orders t' = sh_orders t \<and> sh_variants t' = sh_variants t \<and> sh_journal t' = sh_journal t \<and>
     sh_products t' = sh_products t \<and> sh_nextOrder t' = sh_nextOrder t"

lemma side_write_simps [simp]:
  "side_write t t" "side_write t (t\<lparr>sh_addresses := a, sh_nextAddress := n\<rparr>)" "side_write t (t\<lparr>sh_subscribers := s\<rparr>)"
  "side_write t (t\<lparr>sh_nextItem := n\<rparr>)" "side_write t (t\<lparr>sh_events := evs\<rparr>)"
  by (simp_all add: side_write_def)

lemma side_write_trans: "side_write a b \<Longrightarrow> side_write b c \<Longrightarrow> side_write a c"
  by (simp add: side_write_def)

lemma created_side:
  assumes "created db t x d" and "side_write t t'"
  shows "created db t' x d"
  using assms same_tables [of t' t] by (simp add: created_def side_write_def)

lemma created_update:
  assumes "created db t x d" and "i = co_Id x" and "co_Id (f x) = co_Id x"
  shows "created db (update_order i f t) (f x) d"
proof -
  have "map (\<lambda>o'. if co_Id o' = i then f o' else o') (sh_orders db) = sh_orders db"
    using assms by (intro map_idI) (auto simp: created_def ids_below_def)
  then show ?thesis using assms same_tables [of "update_order i f t" t] by (simp add: created_def update_order_def)
qed

lemma created_stock:
  assumes "created db t x d" and "stock_only t t'" and "\<And>k. stock_qty k t' = stock_qty k t + e k"
    and "\<And>k. opening_stock k t' = opening_stock k t"
  shows "created db t' x (\<lambda>k. d k + e k)"
  using assms stock_only_thumbnail [OF assms(2)] stock_only_has [OF assms(2)] by (simp add: created_def stock_only_def)

lemma lock_products_same:
  "has_thumbnail (lock_products now items t) i = has_thumbnail t i" "stock_qty k (lock_products now items t) = stock_qty k t"
  "opening_stock k (lock_products now items t) = opening_stock k t" "has_variant k (lock_products now items t) = has_variant k t"
  "sh_orders (lock_products now items t) = sh_orders t" "sh_nextOrder (lock_products now items t) = sh_nextOrder t"
  "sh_events (lock_products now items t) = sh_events t"
proof -
  let ?f = "\<lambda>p. if pr_Id p \<in> ir_ProductId ` set items \<and> pr_SkuLockedAt p = None then p\<lparr>pr_SkuLockedAt := Some now\<rparr> else p"
  have "find (\<lambda>p. pr_Id p = i) (map ?f ps) = map_option ?f (find (\<lambda>p. pr_Id p = i) ps)" for i ps
    by (induction ps) auto
  then have "find_product i (lock_products now items t) = map_option ?f (find_product i t)" for i
    by (simp add: find_product_def lock_products_def)
  then show "has_thumbnail (lock_products now items t) i = has_thumbnail t i"
    by (auto simp: has_thumbnail_def split: option.split)
  show "stock_qty k (lock_products now items t) = stock_qty k t" "opening_stock k (lock_products now items t) = opening_stock k t"
    "has_variant k (lock_products now items t) = has_variant k t" "sh_orders (lock_products now items t) = sh_orders t"
    "sh_nextOrder (lock_products now items t) = sh_nextOrder t" "sh_events (lock_products now items t) = sh_events t"
    by (cases k; simp add: lock_products_def stock_qty_def opening_stock_def has_variant_def find_variant_def)+
qed

lemma created_lock: "created db t x d \<Longrightarrow> created db (lock_products now items t) x d"
  by (simp add: created_def lock_products_same)

text \<open>What the row of a new order says.\<close>

definition draft :: "decimal_lib \<Rightarrow> shop_env \<Rightarrow> shop_db \<Rightarrow> OrderItemInsert list \<Rightarrow> order_facts \<Rightarrow> customer_order \<Rightarrow> bool" where
  "draft L env db items f x \<longleftrightarrow> co_UUID x = en_reference env \<and> en_reference env \<notin> co_UUID ` set (sh_orders db) \<and>
     co_Status x = nf_Status f \<and> co_History x = [] \<and> co_RefundedItems x = [] \<and> co_RefundedAmount x = 0 \<and>
     co_Currency x = nf_Currency f \<and> co_PromoId x = nf_PromoId f \<and>
     co_TotalPrice x = sql_MONEY (RoundCurrency L (nf_TotalPrice f) (nf_Currency f)) \<and> lines_of L items (co_Items x)"

lemma insertOrder_ok:
  assumes ids: "ids_below db" and run: "insertOrder L env f eur rate vat vatID db = (Inr i, t)"
  obtains x where "created db t x (\<lambda>_. 0)" and "i = co_Id x" and "no_event db t" and "co_Items x = []"
    and "\<And>rows. lines_of L items rows \<Longrightarrow> draft L env db items f (x\<lparr>co_Items := rows\<rparr>)"
proof -
  let ?x = "(new_order (sh_nextOrder db) (en_reference env) (nf_Status f) (sql_MONEY (RoundCurrency L (nf_TotalPrice f) (nf_Currency f)))
      (nf_Currency f))\<lparr>co_PromoId := nf_PromoId f, co_TotalPriceEUR := eur, co_VatRatePct := Some rate,
                co_VatAmount := Some vat, co_BuyerVatID := vatID, co_GAClientID := nf_GAClientID f, co_Locale := nf_Locale f\<rparr>"
  from run have fresh: "en_reference env \<notin> co_UUID ` set (sh_orders db)" and i: "i = sh_nextOrder db"
    and t: "t = db\<lparr>sh_orders := sh_orders db @ [?x], sh_nextOrder := sh_nextOrder db + 1\<rparr>"
    by (simp_all add: insertOrder_def ok_simps Let_def)
  show thesis
  proof (rule that [of ?x])
    show "created db t ?x (\<lambda>_. 0)" using same_tables [of t db] ids by (simp add: created_def t new_order_def)
    show "i = co_Id ?x" "no_event db t" "co_Items ?x = []" by (simp_all add: i t no_event_def new_order_def)
    show "draft L env db items f (?x\<lparr>co_Items := rows\<rparr>)" if "lines_of L items rows" for rows
      using that fresh by (simp add: draft_def new_order_def)
  qed
qed

lemma draft_fields [simp]:
  "draft L env db items f (x\<lparr>co_Shipment := s\<rparr>) = draft L env db items f x"
  "draft L env db items f (x\<lparr>co_Payment := p\<rparr>) = draft L env db items f x"
  "draft L env db items f (x\<lparr>co_BuyerEmail := e, co_Buyer := b\<rparr>) = draft L env db items f x"
  by (simp_all add: draft_def)

lemma insertAddresses_ok:
  assumes "insertAddresses a b t = (Inr r, t')"
  shows "side_write t t' \<and> sh_events t' = sh_events t"
proof -
  have one: "side_write s s' \<and> sh_events s' = sh_events s" if "insert_address c s = (Inr j, s')" for c s j s'
    using that by (auto simp: insert_address_def)
  show ?thesis
  proof (cases "a = b")
    case True
    then show ?thesis using assms one by (auto simp: insertAddresses_def bindE_ok returnE_ok)
  next
    case False
    then obtain i s j where "insert_address a t = (Inr i, s)" "insert_address b s = (Inr j, t')"
      using assms by (auto simp: insertAddresses_def bindE_ok returnE_ok)
    then show ?thesis using one [of a t i s] one [of b s j t'] by (auto intro: side_write_trans)
  qed
qed

lemma update_keeps_events [simp]: "no_event db (update_order i f t) = no_event db t"
  by (simp add: no_event_def)

lemma insertOrderDetails_ok:
  assumes ids: "ids_below db"
    and run: "insertOrderDetails L env f items carrier cost free shipping billing buyer vatID db = (Inr i, db')"
  obtains x where "created db db' x (\<lambda>_. 0)" and "i = co_Id x" and "no_event db db'" and "draft L env db items f x"
proof -
  from run obtain t1 t2 t4 a b eur rate vat where
    1: "insertOrder L env f eur rate vat vatID db = (Inr i, t1)"
    and 2: "insertOrderItems L env items i t1 = (Inr (), t2)"
    and 4: "insertAddresses shipping billing (insertShipment carrier i cost free t2) = (Inr (a, b), t4)"
    and 5: "insertBuyer buyer i a b t4 = (Inr (), db')"
    unfolding insertOrderDetails_def Let_def bindE_ok thenE_ok readE_ok modifyE_ok returnE_ok
    by (auto simp: bindE_ok thenE_ok returnE_ok split: prod.split_asm)
  obtain x1 where x1: "created db t1 x1 (\<lambda>_. 0)" "i = co_Id x1" "no_event db t1" "co_Items x1 = []"
    and d1: "\<And>rows. lines_of L items rows \<Longrightarrow> draft L env db items f (x1\<lparr>co_Items := rows\<rparr>)"
    using insertOrder_ok [OF ids 1] by blast
  obtain rows m where rows: "lines_of L items rows"
    and t2: "t2 = (update_order i (\<lambda>o'. o'\<lparr>co_Items := co_Items o' @ rows\<rparr>) t1)\<lparr>sh_nextItem := m\<rparr>"
    using insertOrderItems_ok [OF 2] by blast
  have x2: "created db t2 (x1\<lparr>co_Items := rows\<rparr>) (\<lambda>_. 0)" unfolding t2
    by (rule created_side [of _ "update_order i (\<lambda>o'. o'\<lparr>co_Items := co_Items o' @ rows\<rparr>) t1"])
      (use created_update [OF x1(1,2), of "\<lambda>o'. o'\<lparr>co_Items := co_Items o' @ rows\<rparr>"] x1(4) in simp_all)
  obtain s where s: "insertShipment carrier i cost free t2 = update_order i (\<lambda>o'. o'\<lparr>co_Shipment := Some s\<rparr>) t2"
    by (simp add: insertShipment_def)
  have x3: "created db (insertShipment carrier i cost free t2) (x1\<lparr>co_Items := rows, co_Shipment := Some s\<rparr>) (\<lambda>_. 0)"
    unfolding s using created_update [OF x2, of i "\<lambda>o'. o'\<lparr>co_Shipment := Some s\<rparr>"] x1(2) by simp
  note a = insertAddresses_ok [OF 4]
  have x4: "created db t4 (x1\<lparr>co_Items := rows, co_Shipment := Some s\<rparr>) (\<lambda>_. 0)"
    by (rule created_side [OF x3]) (use a in blast)
  obtain g e w where 5: "db' = update_order i g t4" "\<And>o'. g o' = o'\<lparr>co_BuyerEmail := e, co_Buyer := w\<rparr>"
    using 5 by (auto simp: insertBuyer_def ok_simps)
  have m: "created db db' (g (x1\<lparr>co_Items := rows, co_Shipment := Some s\<rparr>)) (\<lambda>_. 0)" unfolding 5(1)
    by (rule created_update [OF x4]) (simp_all add: x1(2) 5(2))
  have "sh_events db' = sh_events db"
    using a x1(3) by (simp add: 5(1) no_event_def insertShipment_def t2)
  then show thesis
    by (intro that [OF m]) (use d1 [OF rows] in \<open>simp_all add: x1(2) 5(2) no_event_def\<close>)
qed

section \<open>Checkout\<close>

text \<open>
  A checkout: the new order is placed and has taken nothing, or it is confirmed, has its row in the history
  and its event, and has taken its goods.
\<close>

definition create_step :: "decimal_lib \<Rightarrow> shop_db \<Rightarrow> shop_db \<Rightarrow> bool" where
  "create_step L db db' \<longleftrightarrow>
     (\<exists>x. created db db' x (\<lambda>k. if co_Status x = Placed then 0 else - units_at L k (getOrderItemsInsert x)) \<and>
        sound_lines db x \<and> co_UUID x \<notin> co_UUID ` set (sh_orders db) \<and> CHR '':'' \<notin> set (co_UUID x) \<and>
        co_RefundedItems x = [] \<and> co_RefundedAmount x = 0 \<and> (\<forall>k. 0 \<le> stock_qty k db \<longrightarrow> 0 \<le> stock_qty k db') \<and>
        (co_Status x = Placed \<and> co_History x = [] \<and> no_event db db' \<or>
         co_Status x = Confirmed \<and> statuses x = [Confirmed] \<and> one_event AcctEventOrderPaid (co_UUID x) db db'))"

lemma no_event_side: "sh_events t' = sh_events t \<Longrightarrow> no_event db t \<Longrightarrow> no_event db t'"
  by (simp add: no_event_def)

lemma validated_stock:
  assumes "decimal_ok L" and "validateOrderItemsInsert L env db items c = Inr (valid, adjs)"
  shows "\<forall>it \<in> set valid. sellable L db c it"
  using assms validated_items [OF assms(1)]
  by (auto simp: validateOrderItemsInsert_def Let_def split: prod.split_asm sum.split_asm if_split_asm)

lemma map_sum_fst_Inr: "map_sum fst fst r = Inr v \<longleftrightarrow> (\<exists>w. r = Inr (v, w))"
  by (cases r) auto

lemma place_order_ok:
  assumes ids: "ids_below db"
    and run: "place_order L env f items carrier cost free shipping billing buyer vatID promo' pm expiredAt db = (Inr (i, mail), db')"
  obtains x where "created db db' x (\<lambda>_. 0)" and "i = co_Id x" and "no_event db db'" and "draft L env db items f x"
proof -
  from run obtain t1 t2 where
    1: "insertOrderDetails L env f items carrier cost free shipping billing buyer vatID db = (Inr i, t1)"
    and 2: "(if promo' then handlePromoSubscription (bi_Email buyer) else returnE False) t1 = (Inr mail, t2)"
    and 3: "db' = insertPaymentRecord pm i expiredAt t2"
    by (auto simp: place_order_def bindE_ok thenE_ok modifyE_ok returnE_ok)
  obtain x where x: "created db t1 x (\<lambda>_. 0)" "i = co_Id x" "no_event db t1" "draft L env db items f x"
    using insertOrderDetails_ok [OF ids 1] by blast
  have s: "side_write t1 t2 \<and> sh_events t2 = sh_events t1"
    using 2 by (auto simp: handlePromoSubscription_def UpsertSubscription_def Let_def returnE_ok split: if_split_asm option.split_asm prod.split_asm)
  obtain p where p: "db' = update_order i (\<lambda>o'. o'\<lparr>co_Payment := Some p\<rparr>) t2" by (simp add: 3 insertPaymentRecord_def)
  have "created db t2 x (\<lambda>_. 0)" by (rule created_side [OF x(1)]) (use s in blast)
  then have m: "created db db' (x\<lparr>co_Payment := Some p\<rparr>) (\<lambda>_. 0)"
    using created_update [of db t2 x "\<lambda>_. 0" i "\<lambda>o'. o'\<lparr>co_Payment := Some p\<rparr>"] x(2) by (simp add: p)
  show thesis by (rule that [OF m]) (use x s in \<open>simp_all add: p no_event_def\<close>)
qed

text \<open>The price of a checkout: its lines, the promo code and the carrier.\<close>

definition checkout_total :: "decimal_lib \<Rightarrow> shop_env \<Rightarrow> OrderNew \<Rightarrow> ShipmentCarrier \<Rightarrow> OrderItemInsert list \<Rightarrow> decimal \<Rightarrow> bool" where
  "checkout_total L env new carrier items amount \<longleftrightarrow>
     (\<exists>subtotal price. calculateTotalAmount L items (on_Currency new) = Inr subtotal \<and>
        PriceDecimal L carrier (on_Currency new) = Inr price \<and>
        (let promo = usable_promo (en_now env) (GetPromoByCode env (on_PromoCode new));
             cost = fst (shipping_price L env promo subtotal (on_Currency new) price)
         in amount = SubtotalWithPromo L (en_now env) promo subtotal cost (DecimalPlaces (on_Currency new))))"

lemma create_body_ok:
  assumes ids: "ids_below db" and L: "decimal_ok L"
    and run: "create_body L env new promo' expiredAt pm carrier shipping billing buyer db = (Inr (i, mail), db')"
  obtains x f valid where "created db db' x (\<lambda>_. 0)" and "i = co_Id x" and "no_event db db'" and "draft L env db valid f x"
    and "nf_Status f = Placed" and "nf_Currency f = on_Currency new" and "\<forall>it \<in> set valid. sellable L db (on_Currency new) it"
    and "checkout_total L env new carrier valid (nf_TotalPrice f)"
    and "\<exists>adjs. validateOrderItemsInsert L env db (mergeOrderItems L env (on_Items new)) (on_Currency new) = Inr (valid, adjs)"
proof -
  let ?promo = "usable_promo (en_now env) (GetPromoByCode env (on_PromoCode new))" and ?c = "on_Currency new"
  from run obtain valid adjs subtotal price where
    v: "validateOrderItemsInsert L env db (mergeOrderItems L env (on_Items new)) ?c = Inr (valid, adjs)"
    and s: "calculateTotalAmount L valid ?c = Inr subtotal" and pr: "PriceDecimal L carrier ?c = Inr price"
    and k: "(case shipping_price L env ?promo subtotal ?c price of (cost, free) \<Rightarrow>
      place_order L env \<lparr>nf_Status = Placed, nf_TotalPrice = SubtotalWithPromo L (en_now env) ?promo subtotal cost (DecimalPlaces ?c),
               nf_Currency = ?c, nf_PromoId = (if pc_Id ?promo > 0 then Some (pc_Id ?promo) else None),
               nf_GAClientID = some_text (on_GAClientID new), nf_Locale = some_text (on_Locale new)\<rparr>
         valid carrier cost free shipping billing buyer (on_BuyerVatID new) promo' (pm_Id pm) expiredAt) db = (Inr (i, mail), db')"
    unfolding create_body_def Let_def bindE_ok readE_ok map_sum_fst_Inr by blast
  obtain cost free where c: "shipping_price L env ?promo subtotal ?c price = (cost, free)" by fastforce
  obtain f where pf: "place_order L env f valid carrier cost free shipping billing buyer (on_BuyerVatID new) promo' (pm_Id pm) expiredAt db =
      (Inr (i, mail), db')" and f: "nf_Status f = Placed" "nf_Currency f = ?c"
      "nf_TotalPrice f = SubtotalWithPromo L (en_now env) ?promo subtotal cost (DecimalPlaces ?c)"
    by (rule that [OF k [unfolded c prod.case]]) simp_all
  have t: "checkout_total L env new carrier valid (nf_TotalPrice f)"
    using s pr by (simp add: checkout_total_def c f(3) Let_def)
  show thesis
    by (rule place_order_ok [OF ids pf], rule that) (use validated_stock [OF L v] v f(1,2) t in simp_all)
qed

text \<open>The checkout of the storefront.\<close>

lemma CreateOrder_ok:
  assumes ids: "ids_below db" and L: "decimal_ok L" and run: "CreateOrder L env new promo' expiredAt db = (Inr (i, mail), db')"
  obtains x f valid carrier where "created db db' x (\<lambda>_. 0)" and "i = co_Id x" and "no_event db db'" and "draft L env db valid f x"
    and "nf_Status f = Placed" and "nf_Currency f = on_Currency new" and "\<forall>it \<in> set valid. sellable L db (on_Currency new) it"
    and "validateShipmentCarrier env (on_ShipmentCarrierId new) (ad_Country (the (on_ShippingAddress new))) = Inr carrier"
    and "checkout_total L env new carrier valid (nf_TotalPrice f)"
    and "validateOrderItemsTierAccess db (on_Items new) (on_BuyerTier new) = Inr ()"
    and "\<exists>adjs. validateOrderItemsInsert L env db (mergeOrderItems L env (on_Items new)) (on_Currency new) = Inr (valid, adjs)"
proof -
  from run obtain shipping billing buyer pm carrier where
    ad: "validateOrderInput new = Inr (shipping, billing, buyer)"
    and c: "validateShipmentCarrier env (on_ShipmentCarrierId new) (ad_Country shipping) = Inr carrier"
    and t: "validateOrderItemsTierAccess db (on_Items new) (on_BuyerTier new) = Inr ()"
    and b: "create_body L env new promo' expiredAt pm carrier shipping billing buyer db = (Inr (i, mail), db')"
    unfolding CreateOrder_def by (auto simp: bindE_ok thenE_ok readE_ok txFunc_ok split: prod.split_asm)
  have "shipping = the (on_ShippingAddress new)"
    using ad by (auto simp: validateOrderInput_def split: if_split_asm option.split_asm)
  with c have c: "validateShipmentCarrier env (on_ShipmentCarrierId new) (ad_Country (the (on_ShippingAddress new))) = Inr carrier"
    by simp
  show thesis by (rule create_body_ok [OF ids L b], rule that) (use c t in simp_all)
qed

lemma CreateOrder_step:
  assumes ids: "ids_below db" and L: "decimal_ok L" and ref: "CHR '':'' \<notin> set (en_reference env)"
    and run: "CreateOrder L env new promo' expiredAt db = (Inr r, db')"
  shows "create_step L db db'"
proof -
  obtain x f valid where x: "created db db' x (\<lambda>_. 0)" "no_event db db'" "draft L env db valid f x"
    and f: "nf_Status f = Placed" and s: "\<forall>it \<in> set valid. sellable L db (on_Currency new) it"
    using CreateOrder_ok [OF ids L, of env new promo' expiredAt "fst r" "snd r" db'] run by (metis prod.collapse)
  have "sound_lines db x"
    by (rule sound_linesI [of L valid]) (use x(3) s in \<open>auto simp: draft_def sellable_def\<close>)
  moreover have "0 \<le> stock_qty k db'" if "0 \<le> stock_qty k db" for k using x(1) that by (simp add: created_def)
  ultimately show ?thesis unfolding create_step_def using x ref f by (intro exI [of _ x]) (simp add: draft_def)
qed

text \<open>The order a manager enters.\<close>

lemma custom_line_ok:
  assumes L: "decimal_ok L"
    and run: "validate_custom_line L env (GetProductsByIds ids db) (getProductsSizesByIds db items) prices it = Inr (as, adjs)"
  shows "\<forall>x \<in> set as. in_stock_line L db x"
proof -
  have q: "0 < oi_Quantity it" using run by (simp add: validate_custom_line_def split: if_split_asm)
  obtain sold adjs' where s: "stock_line L (GetProductsByIds ids db) (getProductsSizesByIds db items) it = (sold, adjs')" by fastforce
  have as: "as = (case sold of None \<Rightarrow> [] | Some (it', _) \<Rightarrow> [it'])"
    using run s by (auto simp: validate_custom_line_def split: if_split_asm option.split_asm)
  show ?thesis
  proof (cases sold)
    case (Some sp)
    then obtain it' p where sp: "sold = Some (it', p)" by fastforce
    show ?thesis using stock_line_sold(1) [OF L s [unfolded sp] q] by (simp add: as sp)
  qed (simp add: as)
qed

lemma custom_cart_ok:
  assumes L: "decimal_ok L" and run: "validateOrderItemsStockForCustomOrder L env db items = Inr (valid, adjs)"
  shows "\<forall>it \<in> set valid. in_stock_line L db it"
proof -
  from run have "collect_lines (validate_custom_line L env (GetProductsByIds (getProductIdsFromItems (resolveVariantAddressing db items)) db)
      (getProductsSizesByIds db (resolveVariantAddressing db items)) (fetchVariantPrices db (resolveVariantAddressing db items)))
      (resolveVariantAddressing db items) = Inr (valid, adjs)"
    by (simp add: validateOrderItemsStockForCustomOrder_def Let_def split: if_split_asm)
  from collect_lines_ok [OF this, of "\<lambda>y _. in_stock_line L db y"] show ?thesis
    using custom_line_ok [OF L] by blast
qed

lemma row_of_resnapshot [simp]: "row_of L it (resnapshot t r) = row_of L it r" "line_columns_ok (resnapshot t r) = line_columns_ok r"
  by (auto simp: row_of_def line_columns_ok_def resnapshot_def split: option.split)

lemma lines_of_resnapshot: "lines_of L items (map (resnapshot t) rows) = lines_of L items rows"
  by (simp add: lines_of_def comp_def list_all2_map2 list.pred_map)

lemma freeze_created:
  assumes c: "created db t x d" and run: "freezeAndResnapshotOrderSKUs now (co_Id x) t = (Inr r, t')"
  shows "created db t' (x\<lparr>co_Items := map (resnapshot t) (co_Items x)\<rparr>) d" and "sh_events t' = sh_events t"
proof -
  from run obtain items where
    t': "t' = lock_products now items (update_order (co_Id x) (\<lambda>o'. o'\<lparr>co_Items := map (resnapshot t) (co_Items o')\<rparr>) t)"
    by (auto simp: freezeAndResnapshotOrderSKUs_def ok_simps)
  show "created db t' (x\<lparr>co_Items := map (resnapshot t) (co_Items x)\<rparr>) d" unfolding t'
    by (rule created_lock) (use created_update [OF c refl, of "\<lambda>o'. o'\<lparr>co_Items := map (resnapshot t) (co_Items o')\<rparr>"] in simp)
  show "sh_events t' = sh_events t" by (simp add: t' lock_products_same)
qed

lemma enter_order_step:
  assumes ids: "ids_below db" and L: "decimal_ok L" and ref: "CHR '':'' \<notin> set (en_reference env)"
    and st: "nf_Status f = Confirmed" and stock: "\<forall>it \<in> set items. in_stock_line L db it"
    and run: "enter_order L env f items carrier cost shipping billing buyer vatID pm db = (Inr i, db')"
  shows "create_step L db db'"
proof -
  from run obtain t1 t3 t4 where
    1: "insertOrderDetails L env f items carrier cost False shipping billing buyer vatID db = (Inr i, t1)"
    and 3: "freezeAndResnapshotOrderSKUs (en_now env) i (insertPaymentRecordForCustomOrder pm i (nf_TotalPrice f) t1) = (Inr (), t3)"
    and 4: "ReduceStockForProductSizes L items (Some (custom_history env i (nf_Currency f))) t3 = (Inr (), t4)"
    and 5: "enqueue_order (en_now env) AcctEventOrderPaid (en_reference env) (en_now env)
      (insertOrderStatusHistoryEntry i Confirmed ''admin'' ''custom order'' t4) = (Inr (), db')"
    by (auto simp: enter_order_def bindE_ok thenE_ok modifyE_ok returnE_ok)
  obtain x1 where x1: "created db t1 x1 (\<lambda>_. 0)" "i = co_Id x1" "no_event db t1" "draft L env db items f x1"
    using insertOrderDetails_ok [OF ids 1] by blast
  let ?t2 = "insertPaymentRecordForCustomOrder pm i (nf_TotalPrice f) t1"
  obtain p where p: "?t2 = update_order i (\<lambda>o'. o'\<lparr>co_Payment := Some p\<rparr>) t1"
    by (simp add: insertPaymentRecordForCustomOrder_def)
  have x2: "created db ?t2 (x1\<lparr>co_Payment := Some p\<rparr>) (\<lambda>_. 0)" unfolding p
    using created_update [OF x1(1,2), of "\<lambda>o'. o'\<lparr>co_Payment := Some p\<rparr>"] by simp
  let ?x3 = "x1\<lparr>co_Payment := Some p, co_Items := map (resnapshot ?t2) (co_Items x1)\<rparr>"
  have x3: "created db t3 ?x3 (\<lambda>_. 0)" and e3: "sh_events t3 = sh_events ?t2"
    using freeze_created [OF x2, of "en_now env" "()" t3] 3 x1(2) by simp_all
  note r = ReduceStock_ok [OF L 4]
  have x4: "created db t4 ?x3 (\<lambda>k. - units_at L k items)"
    using created_stock [OF x3 r(3), of "\<lambda>k. - units_at L k items"] r(1,2) by simp
  let ?x = "add_history Confirmed ''admin'' ''custom order'' ?x3"
  let ?t5 = "insertOrderStatusHistoryEntry i Confirmed ''admin'' ''custom order'' t4"
  have x5: "created db ?t5 ?x (\<lambda>k. - units_at L k items)" unfolding insertOrderStatusHistoryEntry_def add_history_def [symmetric]
    using created_update [OF x4, of i "add_history Confirmed ''admin'' ''custom order''"] x1(2) by (simp add: add_history_def)
  have lines: "lines_of L items (co_Items ?x)" and x: "co_UUID ?x = en_reference env" "co_Status ?x = Confirmed"
      "en_reference env \<notin> co_UUID ` set (sh_orders db)" "co_RefundedItems ?x = []" "co_RefundedAmount ?x = 0"
      "statuses ?x = [Confirmed]"
    using x1(4) st by (simp_all add: draft_def lines_of_resnapshot statuses_def)
  obtain evs where evs: "db' = ?t5\<lparr>sh_events := evs\<rparr>" using enqueue_order_ok(2) [OF 5] by blast
  have "created db db' ?x (\<lambda>k. - units_at L k (getOrderItemsInsert ?x))"
    using created_side [OF x5, of db'] by (simp add: evs lines_of_units [OF L lines])
  moreover have "sound_lines db ?x" by (rule sound_linesI [OF lines stock])
  moreover have "0 \<le> stock_qty k db'" if "0 \<le> stock_qty k db" for k
  proof -
    have "0 \<le> stock_qty k t3" using x3 that by (simp add: created_def)
    then have "0 \<le> stock_qty k t4" by (rule ReduceStock_nonneg [OF L 4])
    then show ?thesis using x4 x5 created_side [OF x5, of db'] by (simp add: created_def evs)
  qed
  moreover have "one_event AcctEventOrderPaid (co_UUID ?x) db db'" unfolding x(1)
    by (rule one_event_after [OF _ enqueue_order_ok(1) [OF 5]])
      (use x1(3) e3 r(3) in \<open>simp add: no_event_def p stock_only_def insertOrderStatusHistoryEntry_def\<close>)
  ultimately show ?thesis unfolding create_step_def using x ref by (intro exI [of _ ?x]) simp
qed

lemma CreateCustomOrder_step:
  assumes ids: "ids_below db" and L: "decimal_ok L" and ref: "CHR '':'' \<notin> set (en_reference env)"
    and run: "CreateCustomOrder L env new db = (Inr i, db')"
  shows "create_step L db db'"
proof -
  from run obtain shipping billing buyer pm normalized carrier sc where
    b: "custom_body L env new normalized sc pm carrier shipping billing buyer db = (Inr i, db')"
    unfolding CreateCustomOrder_def Let_def by (auto simp: bindE_ok thenE_ok readE_ok checkE_ok txFunc_ok split: prod.split_asm)
  then obtain amount valid cost where v: "validateOrderItemsStockForCustomOrder L env db (mergeOrderItems L env normalized) = Inr (valid, [])"
    and e: "enter_order L env \<lparr>nf_Status = Confirmed, nf_TotalPrice = amount, nf_Currency = on_Currency new, nf_PromoId = None,
      nf_GAClientID = None, nf_Locale = None\<rparr> valid carrier cost shipping billing buyer (on_BuyerVatID new) (pm_Id pm) db = (Inr i, db')"
    unfolding custom_body_def Let_def
    by (auto simp: bindE_ok thenE_ok readE_ok checkE_ok returnE_ok split: prod.split_asm option.split_asm)
  show ?thesis by (rule enter_order_step [OF ids L ref _ custom_cart_ok [OF L v] e]) simp
qed

section \<open>Repricing\<close>

text \<open>A placed order whose lines were replaced: its goods are still on the shelf, nothing was refunded.\<close>

definition reprice_step :: "shop_db \<Rightarrow> shop_db \<Rightarrow> bool" where
  "reprice_step db db' \<longleftrightarrow>
     (\<exists>ord x. find_order_id (co_Id x) db = Some ord \<and> co_UUID x = co_UUID ord \<and> co_Status ord = Placed \<and>
        co_Status x = Placed \<and> co_History x = co_History ord \<and> co_RefundedItems x = [] \<and>
        co_RefundedAmount x = co_RefundedAmount ord \<and> sound_lines db x \<and>
        sh_orders db' = sh_orders (replace_order x db) \<and> sh_nextOrder db' = sh_nextOrder db \<and>
        sh_variants db' = sh_variants db \<and> sh_journal db' = sh_journal db \<and> sh_products db' = sh_products db \<and>
        sh_events db' = sh_events db)"

lemma update_order_fields [simp]:
  "sh_nextOrder (update_order i f db) = sh_nextOrder db" "sh_variants (update_order i f db) = sh_variants db"
  "sh_journal (update_order i f db) = sh_journal db" "sh_products (update_order i f db) = sh_products db"
  "sh_promos (update_order i f db) = sh_promos db"
  by (simp_all add: update_order_def)

lemma update_order_twice:
  "(\<And>o'. co_Id (f o') = co_Id o') \<Longrightarrow> update_order i g (update_order i f db) = update_order i (\<lambda>o'. g (f o')) db"
  by (simp add: update_order_def comp_def cong: map_cong)

lemma update_nextItem: "update_order i f (db\<lparr>sh_nextItem := m\<rparr>) = (update_order i f db)\<lparr>sh_nextItem := m\<rparr>"
  by (simp add: update_order_def)

lemma updateOrderItems_ok:
  assumes "updateOrderItems L env items i db = (Inr r, db')"
  obtains rows m where "lines_of L items rows"
    and "db' = (update_order i (\<lambda>o'. o'\<lparr>co_RefundedItems := [], co_Items := rows\<rparr>) db)\<lparr>sh_nextItem := m\<rparr>"
proof -
  from assms have "insertOrderItems L env items i (deleteOrderItems i db) = (Inr (), db')"
    by (simp add: updateOrderItems_def ok_simps)
  from insertOrderItems_ok [OF this] obtain rows m where l: "lines_of L items rows"
    and db': "db' = (update_order i (\<lambda>o'. o'\<lparr>co_Items := co_Items o' @ rows\<rparr>) (deleteOrderItems i db))\<lparr>sh_nextItem := m\<rparr>" by blast
  have "db' = (update_order i (\<lambda>o'. o'\<lparr>co_RefundedItems := [], co_Items := rows\<rparr>) db)\<lparr>sh_nextItem := m\<rparr>"
    by (simp add: db' deleteOrderItems_def update_order_twice)
  with l show thesis by (rule that)
qed

lemma updateTotalAmount_ok:
  obtains g where "updateTotalAmount L env ord subtotal promo db = update_order (co_Id ord) g db"
    and "\<And>o'. co_Id (g o') = co_Id o' \<and> co_UUID (g o') = co_UUID o' \<and> co_Status (g o') = co_Status o' \<and> co_History (g o') = co_History o' \<and>
      co_RefundedItems (g o') = co_RefundedItems o' \<and> co_RefundedAmount (g o') = co_RefundedAmount o' \<and> co_Items (g o') = co_Items o'"
proof -
  let ?promo = "usable_promo (en_now env) (Some promo)"
  obtain cost free where c: "repriced_shipping L env ?promo subtotal (co_Currency ord) (co_Shipment ord) = (cost, free)" by fastforce
  show thesis
    by (rule that, unfold updateTotalAmount_def Let_def c prod.case updateOrderTotalPromo_def updateShipmentCostAndFreeShipping_def,
      rule update_order_twice) simp_all
qed

text \<open>The lines a repricing writes.\<close>

lemma revalidated_lines:
  assumes L: "decimal_ok L" and run: "validateOrderItemsInsertWithLock L env db items c lock = Inr oiv"
  shows "\<forall>it \<in> set (va_ValidItems oiv). sellable L db c it"
proof -
  let ?v = "if lock then map_sum (\<lambda>err. (err, [])) id (validateOrderItemsStockAvailability L db (mergeOrderItems L env items) c)
    else validateOrderItemsInsert L env db (mergeOrderItems L env items) c"
  show ?thesis
  proof (cases ?v)
    case (Inl e)
    obtain err adjs where e: "e = (err, adjs)" by fastforce
    have "oiv = emptyChangedValidation adjs"
      using run Inl by (simp add: validateOrderItemsInsertWithLock_def Let_def e split: if_split_asm)
    then show ?thesis by (simp add: emptyChangedValidation_def)
  next
    case (Inr r)
    obtain valid adjs where r: "r = (valid, adjs)" by fastforce
    have "va_ValidItems oiv = [] \<or> va_ValidItems oiv = valid"
      using run Inr by (auto simp: validateOrderItemsInsertWithLock_def Let_def r emptyChangedValidation_def
          split: if_split_asm sum.split_asm)
    moreover have "\<forall>it \<in> set valid. sellable L db c it"
    proof (cases lock)
      case True
      then have "validateOrderItemsStockAvailability L db (mergeOrderItems L env items) c = Inr (valid, adjs)"
        using Inr r by (cases "validateOrderItemsStockAvailability L db (mergeOrderItems L env items) c") simp_all
      then show ?thesis using validated_items [OF L] by blast
    next
      case False
      then show ?thesis using Inr r validated_stock [OF L] by simp
    qed
    ultimately show ?thesis by auto
  qed
qed

lemma reprice_ok:
  assumes wf: "orders_wf db" and L: "decimal_ok L" and sorts: "\<forall>xs. set (en_sort env xs) = set xs"
    and ord: "find_order_id (co_Id ord) db = Some ord" and placed: "co_Status ord = Placed"
    and run: "validateAndUpdateOrderIfNeededWithLock L env ord items cancel lock db = (Inr changed, db')"
  shows "if changed then reprice_step db db' else db' = db"
proof -
  let ?items = "map ot_Insert items"
  from run obtain oiv where v: "validateOrderItemsInsertWithLock L env db ?items (co_Currency ord) lock = Inr oiv"
    and k: "(let (same, _, validItems) = compareItems L env ?items (va_ValidItems oiv) False
              in if same then returnE False
                 else (thenE (updateOrderItems L env validItems (co_Id ord))
                      (thenE (modifyE (updateTotalAmount L env ord (SubtotalDecimal L oiv) (order_promo db ord)))
                        (returnE True)))) db = (Inr changed, db')"
    by (auto simp: validateAndUpdateOrderIfNeededWithLock_def Let_def thenE_ok failE_ok split: sum.split_asm prod.split_asm if_split_asm)
  show ?thesis
  proof (cases "fst (compareItems L env ?items (va_ValidItems oiv) False)")
    case True
    then show ?thesis using k by (auto simp: compareItems_def Let_def returnE_ok)
  next
    case False
    let ?valid = "en_sort env (va_ValidItems oiv)"
    from k False obtain t where u: "updateOrderItems L env ?valid (co_Id ord) db = (Inr (), t)"
      and db': "db' = updateTotalAmount L env ord (SubtotalDecimal L oiv) (order_promo db ord) t" and ch: "changed"
      by (auto simp: compareItems_def Let_def ok_simps)
    obtain rows m where rows: "lines_of L ?valid rows"
      and t: "t = (update_order (co_Id ord) (\<lambda>o'. o'\<lparr>co_RefundedItems := [], co_Items := rows\<rparr>) db)\<lparr>sh_nextItem := m\<rparr>"
      using updateOrderItems_ok [OF u] by blast
    obtain g where g: "db' = update_order (co_Id ord) g t"
      "\<And>o'. co_Id (g o') = co_Id o' \<and> co_UUID (g o') = co_UUID o' \<and> co_Status (g o') = co_Status o' \<and> co_History (g o') = co_History o' \<and>
      co_RefundedItems (g o') = co_RefundedItems o' \<and> co_RefundedAmount (g o') = co_RefundedAmount o' \<and> co_Items (g o') = co_Items o'"
      unfolding db' using updateTotalAmount_ok by blast
    let ?f = "\<lambda>o'. g (o'\<lparr>co_RefundedItems := [], co_Items := rows\<rparr>)"
    let ?x = "?f ord"
    have x: "co_Id ?x = co_Id ord" "co_UUID ?x = co_UUID ord" "co_Status ?x = co_Status ord" "co_History ?x = co_History ord"
      "co_RefundedItems ?x = []" "co_RefundedAmount ?x = co_RefundedAmount ord" "co_Items ?x = rows" by (simp_all add: g(2))
    have e: "db' = (update_order (co_Id ord) ?f db)\<lparr>sh_nextItem := m\<rparr>"
      by (simp add: g(1) t update_nextItem update_order_twice)
    have r: "update_order (co_Id ord) ?f db = replace_order ?x db" by (rule update_order_replace [of db "co_Id ord" ord ?f, OF wf ord x(1)])
    have "sound_lines db ?x"
    proof (rule sound_linesI)
      show "lines_of L ?valid (co_Items ?x)" using rows by (simp only: x(7))
      show "\<forall>it \<in> set ?valid. in_stock_line L db it"
        using revalidated_lines [OF L v] sorts by (simp add: sellable_def)
    qed
    then have "reprice_step db db'" unfolding reprice_step_def using x ord placed
      by (intro exI [of _ ord] exI [of _ ?x]) (simp add: e r)
    then show ?thesis using ch by simp
  qed
qed

section \<open>The invoice\<close>

lemma processPayment_moved:
  assumes wf: "orders_wf t" and ord: "find_order_id (co_Id ord) t = Some ord"
    and run: "processPayment L ord secret pm expiredAt t = (Inr r, db')"
  obtains x where "moved t db' ord x (\<lambda>_. 0)" and "status_move ord x" and "same_refunds ord x" and "no_event t db'"
    and "co_Status x = AwaitingPayment"
proof -
  from run obtain p where 1: "updateOrderStatus (co_Id ord) AwaitingPayment (updateOrderPayment (co_Id ord) p t) = (Inr (), db')"
    by (auto simp: processPayment_def Let_def ok_simps split: if_split_asm)
  let ?t = "updateOrderPayment (co_Id ord) p t"
  let ?y = "ord\<lparr>co_Payment := map_option (\<lambda>_. p) (co_Payment ord)\<rparr>"
  have m: "moved t ?t ord ?y (\<lambda>_. 0)" unfolding updateOrderPayment_def
    using update_fields_moved [OF wf ord, of "\<lambda>o'. o'\<lparr>co_Payment := map_option (\<lambda>_. p) (co_Payment o')\<rparr>"] by simp
  have wf1: "orders_wf ?t" and ord1: "find_order_id (co_Id ord) ?t = Some ?y"
    using moved_wf [OF m wf] moved_found [OF m] by simp_all
  obtain x where x: "moved ?t db' ?y x (\<lambda>_. 0)" "status_move ?y x" "same_refunds ?y x" "no_event ?t db'" "co_Status x = AwaitingPayment"
    using updateOrderStatus_moved [OF wf1 1 [unfolded updateOrderStatus_def] ord1] by blast
  show thesis
    by (rule that [OF moved_trans [OF m x(1)]])
      (use x in \<open>simp_all add: status_move_def same_refunds_def no_event_def updateOrderPayment_def\<close>)
qed

definition desk_step :: "decimal_lib \<Rightarrow> shop_db \<Rightarrow> shop_db \<Rightarrow> bool" where
  "desk_step L db db' \<longleftrightarrow> create_step L db db' \<or> reprice_step db db' \<or> plain_step L db db'"

lemma visible_inserts: "visible db ord \<Longrightarrow> map ot_Insert (getOrdersItems db ord) = getOrderItemsInsert ord"
  by (simp add: visible_items line_item_def getOrderItemsInsert_def comp_def)

definition invoiced :: "decimal_lib \<Rightarrow> string \<Rightarrow> shop_db \<Rightarrow> shop_db \<Rightarrow> bool" where
  "invoiced L uuid db db' \<longleftrightarrow>
     (\<exists>ord x. find_order uuid db = Some ord \<and> co_Status ord = Placed \<and> co_Status x = AwaitingPayment \<and>
        moved db db' ord x (\<lambda>k. - units_at L k (getOrderItemsInsert ord)) \<and> sh_events db' = sh_events db)"

lemma invoice_body_effect:
  assumes wf: "orders_wf db" and L: "decimal_ok L" and sorts: "\<forall>xs. set (en_sort env xs) = set xs"
    and vis: "\<forall>ord \<in> set (sh_orders db). visible db ord"
    and run: "invoice_body L env uuid secret pm expiredAt db = (Inr changed, db')"
  shows "if changed then reprice_step db db' else plain_step L db db' \<and> invoiced L uuid db db'"
proof -
  from run obtain ord itemsChanged t where found: "find_order uuid db = Some ord" and placed: "co_Status ord = Placed"
    and v: "validateAndUpdateOrderIfNeededWithLock L env ord (getOrdersItems db ord) True True db = (Inr itemsChanged, t)"
    and k: "(if itemsChanged then returnE True
         else thenE (ReduceStockForProductSizes L (map ot_Insert (getOrdersItems db ord)) (Some (order_paid_history ord (order_promo db ord))))
           (thenE (processPayment L ord secret pm expiredAt) (returnE False))) t = (Inr changed, db')"
    unfolding invoice_body_def getOrderByUUIDForUpdate_def fetchOrderInfo_def validateOrderStatus_def
    by (auto simp: bindE_ok thenE_ok readE_ok requireE_ok failE_ok split: if_split_asm)
  have ord: "find_order_id (co_Id ord) db = Some ord" by (rule find_order_id_of [OF wf found])
  have mem: "ord \<in> set (sh_orders db)" by (rule find_order_id_Some [OF ord])
  note r = reprice_ok [OF wf L sorts ord placed v]
  show ?thesis
  proof (cases itemsChanged)
    case True
    then show ?thesis using r k by (simp add: returnE_ok)
  next
    case False
    then obtain t2 where 2: "ReduceStockForProductSizes L (getOrderItemsInsert ord) (Some (order_paid_history ord (order_promo db ord))) db =
        (Inr (), t2)" and 3: "processPayment L ord secret pm expiredAt t2 = (Inr (), db')" and ch: "\<not> changed"
      using k r visible_inserts [of db ord] vis mem by (auto simp: thenE_ok returnE_ok)
    note s = ReduceStock_ok [OF L 2]
    have wf2: "orders_wf t2" and ord2: "find_order_id (co_Id ord) t2 = Some ord"
      using s(3) wf ord orders_wf_same [of t2 db] find_order_id_stock [of db t2] by (simp_all add: stock_only_def)
    obtain x where x: "moved t2 db' ord x (\<lambda>_. 0)" "status_move ord x" "same_refunds ord x" "no_event t2 db'"
      "co_Status x = AwaitingPayment" using processPayment_moved [OF wf2 ord2 3] by blast
    let ?d = "\<lambda>k. - units_at L k (getOrderItemsInsert ord)"
    have m: "moved db db' ord x ?d" by (rule moved_after_stock [OF x(1) s(3)]) (use s(1,2) in auto)
    have g: "given_back L ord x = ?d" using x(5) placed by (auto simp: given_back_def)
    have e: "status_events x db db'" using x(4,5) s(3) by (simp add: status_events_def status_event_def no_event_def stock_only_def)
    have pos: "0 \<le> stock_qty k db'" if "0 \<le> stock_qty k db" for k
      using ReduceStock_nonneg [OF L 2 that] x(1) by (simp add: moved_def)
    have "plain_step L db db'" unfolding plain_step_def
      using m x(2,3,5) e pos by (intro disjI2 exI [of _ ord] exI [of _ x]) (simp add: g)
    moreover have "invoiced L uuid db db'" unfolding invoiced_def
      using found placed m x(4,5) s(3) by (intro exI [of _ ord] exI [of _ x]) (simp add: no_event_def stock_only_def)
    ultimately show ?thesis using ch by simp
  qed
qed

lemma invoice_body_step:
  assumes "orders_wf db" and "decimal_ok L" and "\<forall>xs. set (en_sort env xs) = set xs"
    and "\<forall>ord \<in> set (sh_orders db). visible db ord"
    and "invoice_body L env uuid secret pm expiredAt db = (Inr changed, db')"
  shows "if changed then reprice_step db db' else plain_step L db db'"
  using invoice_body_effect [OF assms] by (simp split: if_splits)

lemma changed_error_cases:
  assumes "changed_error m s = (r, t)"
  obtains (failed) e where "m s = (Inl e, t)" | (changed) "m s = (Inr True, t)" | (same) "m s = (Inr False, t)" and "r = Inr ()"
  using assms by (auto simp: changed_error_def split: prod.split_asm sum.split_asm if_split_asm)

lemma InsertFiatInvoice_step:
  assumes wf: "orders_wf db" and L: "decimal_ok L" and sorts: "\<forall>xs. set (en_sort env xs) = set xs"
    and vis: "\<forall>ord \<in> set (sh_orders db). visible db ord"
    and run: "InsertFiatInvoice L env uuid secret pm expiredAt db = (r, db')"
  shows "db' = db \<or> desk_step L db db'"
proof (cases "pm_Allowed pm")
  case True
  then have "changed_error (txFunc (invoice_body L env uuid secret pm expiredAt)) db = (r, db')"
    using run by (simp add: InsertFiatInvoice_def validatePaymentMethodAllowed_def thenE_def bindE_def readE_def)
  then show ?thesis
  proof (cases rule: changed_error_cases)
    case (failed e)
    then show ?thesis by (simp add: txFunc_Inl [OF failed])
  next
    case changed
    then show ?thesis using invoice_body_step [OF wf L sorts vis, of uuid secret pm expiredAt True db'] by (simp add: txFunc_ok desk_step_def)
  next
    case same
    then show ?thesis using invoice_body_step [OF wf L sorts vis, of uuid secret pm expiredAt False db'] by (simp add: txFunc_ok desk_step_def)
  qed
next
  case False
  then show ?thesis using run by (simp add: InsertFiatInvoice_def validatePaymentMethodAllowed_def thenE_def bindE_def readE_def)
qed

lemma ValidateOrderByUUID_step:
  assumes wf: "orders_wf db" and L: "decimal_ok L" and sorts: "\<forall>xs. set (en_sort env xs) = set xs"
    and run: "ValidateOrderByUUID L env uuid db = (r, db')"
  shows "db' = db \<or> reprice_step db db'"
proof (cases "find_order uuid db")
  case None
  then show ?thesis using run
    by (simp add: ValidateOrderByUUID_def getOrderByUUIDForUpdate_def bindE_def readE_def requireE_def)
next
  case (Some ord)
  have ord: "find_order_id (co_Id ord) db = Some ord" by (rule find_order_id_of [OF wf Some])
  show ?thesis
  proof (cases "co_BuyerEmail ord = None \<or> co_Status ord \<noteq> Placed")
    case True
    then show ?thesis using run Some
      by (auto simp: ValidateOrderByUUID_def getOrderByUUIDForUpdate_def fetchOrderInfo_def bindE_def readE_def requireE_def
          returnE_def split: if_split_asm)
  next
    case False
    then obtain email where "co_BuyerEmail ord = Some email" and placed: "co_Status ord = Placed" by auto
    then have "changed_error (txFunc (validateAndUpdateOrderIfNeededWithLock L env ord (getOrdersItems db ord) True False)) db = (r, db')"
      using run Some
      by (simp_all add: ValidateOrderByUUID_def getOrderByUUIDForUpdate_def fetchOrderInfo_def bindE_def readE_def requireE_def)
    then show ?thesis
    proof (cases rule: changed_error_cases)
      case (failed e)
      then show ?thesis by (simp add: txFunc_Inl [OF failed])
    next
      case changed
      then show ?thesis using reprice_ok [OF wf L sorts ord placed, of _ True False True db'] by (simp add: txFunc_ok)
    next
      case same
      then show ?thesis using reprice_ok [OF wf L sorts ord placed, of _ True False False db'] by (simp add: txFunc_ok)
    qed
  qed
qed

end
