(* ===== verification/Shop_Run.thy ===== *)
theory Shop_Run
  imports Checkout_Effects
begin

text \<open>
  The shop as a whole: the operations of \<open>Order_Lifecycle\<close> and \<open>Order_Checkout\<close> in any order, from an
  empty shop on.  The invariants of \<open>Order_Invariant\<close> are those of every state reached, with what makes
  a new order safe to add: its id and its UUID are new, and the outbox has no event of it yet.
\<close>

declare split_paired_All [simp del] split_paired_Ex [simp del]

section \<open>Runs\<close>

datatype desk_op =
    ShopOp shop_op
  | CheckoutOp shop_env OrderNew bool time
  | CustomOp shop_env OrderNew
  | ValidateOp shop_env string
  | InvoiceOp shop_env string string PaymentMethod time

fun exec_desk :: "decimal_lib \<Rightarrow> desk_op \<Rightarrow> shop_db \<Rightarrow> (shop_error + unit) \<times> shop_db" where
  "exec_desk L (ShopOp a) = exec_op L a"
| "exec_desk L (CheckoutOp env new receivePromo expiredAt) = unitE (CreateOrder L env new receivePromo expiredAt)"
| "exec_desk L (CustomOp env new) = unitE (CreateCustomOrder L env new)"
| "exec_desk L (ValidateOp env uuid) = ValidateOrderByUUID L env uuid"
| "exec_desk L (InvoiceOp env uuid secret pm expiredAt) = InsertFiatInvoice L env uuid secret pm expiredAt"

text \<open>A reference has no colon, a sort only moves its elements.\<close>

definition env_ok :: "shop_env \<Rightarrow> bool" where
  "env_ok env \<longleftrightarrow> CHR '':'' \<notin> set (en_reference env) \<and> (\<forall>xs. mset (en_sort env xs) = mset xs)"

definition desk_ok :: "desk_op \<Rightarrow> bool" where
  "desk_ok a = (case a of ShopOp b \<Rightarrow> op_ok b | CheckoutOp env _ _ _ \<Rightarrow> env_ok env | CustomOp env _ \<Rightarrow> env_ok env
     | ValidateOp env _ \<Rightarrow> env_ok env | InvoiceOp env _ _ _ _ \<Rightarrow> env_ok env)"

inductive shop_run :: "decimal_lib \<Rightarrow> desk_op list \<Rightarrow> shop_db \<Rightarrow> shop_db \<Rightarrow> bool" for L where
  start: "shop_run L [] db db"
| step: "shop_run L ops db t \<Longrightarrow> desk_ok a \<Longrightarrow> exec_desk L a t = (r, db') \<Longrightarrow> shop_run L (ops @ [a]) db db'"

inductive_simps shop_run_Nil: "shop_run L [] db db'"
inductive_simps shop_run_snoc: "shop_run L (ops @ [a]) db db'"

lemma env_ok_sort: "env_ok env \<Longrightarrow> \<forall>xs. set (en_sort env xs) = set xs"
  unfolding env_ok_def by (metis set_mset_mset)

section \<open>The invariant of a run\<close>

definition owns_key :: "string \<Rightarrow> string \<Rightarrow> bool" where
  "owns_key u key \<longleftrightarrow> key = u \<or> take (length u + 1) key = u @ '':''"

definition events_owned :: "shop_db \<Rightarrow> bool" where
  "events_owned db \<longleftrightarrow>
     (\<forall>e \<in> set (ev_events (sh_events db)). \<exists>u \<in> co_UUID ` set (sh_orders db). owns_key u (ae_SourceKey e))"

definition placed_clean :: "shop_db \<Rightarrow> bool" where
  "placed_clean db \<longleftrightarrow> (\<forall>ord \<in> set (sh_orders db). co_Status ord = Placed \<longrightarrow> refund_events (co_UUID ord) db = [])"

definition reach_ok :: "decimal_lib \<Rightarrow> shop_db \<Rightarrow> bool" where
  "reach_ok L db \<longleftrightarrow> shop_ok L db \<and> ids_below db \<and> events_owned db \<and> placed_clean db"

lemma owns_key_unique: "owns_key u key \<Longrightarrow> owns_key v key \<Longrightarrow> CHR '':'' \<notin> set u \<Longrightarrow> CHR '':'' \<notin> set v \<Longrightarrow> u = v"
  unfolding owns_key_def has_prefix using colon_split(1) by (metis append_Cons append_Nil in_set_conv_decomp)

text \<open>An order that is not there has no events.\<close>

lemma no_events_yet:
  assumes own: "events_owned db" and wf: "orders_wf db" and u: "u \<notin> co_UUID ` set (sh_orders db)" "CHR '':'' \<notin> set u"
  shows "event_count ty u db = 0" and "refund_events u db = []"
proof -
  have "\<not> owns_key u (ae_SourceKey e)" if "e \<in> set (ev_events (sh_events db))" for e
  proof
    assume "owns_key u (ae_SourceKey e)"
    moreover obtain v where v: "v \<in> co_UUID ` set (sh_orders db)" "owns_key v (ae_SourceKey e)"
      using own \<open>e \<in> set (ev_events (sh_events db))\<close> unfolding events_owned_def by blast
    moreover have "CHR '':'' \<notin> set v" using v(1) wf by (auto simp: orders_wf_def)
    ultimately show False using owns_key_unique u by metis
  qed
  then show "event_count ty u db = 0" "refund_events u db = []"
    by (auto simp: event_count_def refund_events_def owns_key_def filter_empty_conv)
qed

lemma owned_enqueue:
  assumes "EnqueueEvent now ins (sh_events db) = (Inr (), sh_events db')" and "events_owned db"
    and "co_UUID ` set (sh_orders db) \<subseteq> co_UUID ` set (sh_orders db')"
    and "u \<in> co_UUID ` set (sh_orders db')" and "owns_key u (ei_SourceKey ins)"
  shows "events_owned db'"
  using assms(1)
proof (cases rule: EnqueueEvent_cases)
  case (known e)
  then show ?thesis using assms(2,3) unfolding events_owned_def by (metis subsetD)
next
  case (new e)
  then show ?thesis using assms(2-5) unfolding events_owned_def by (metis (no_types, lifting) Un_iff empty_iff empty_set list.simps(15) set_append insert_iff subsetD)
qed

lemma owned_no_event:
  "no_event db db' \<Longrightarrow> events_owned db \<Longrightarrow> co_UUID ` set (sh_orders db) \<subseteq> co_UUID ` set (sh_orders db') \<Longrightarrow> events_owned db'"
  unfolding events_owned_def no_event_def by (metis subsetD)

lemma owned_status_events:
  assumes "status_events x db db'" and "events_owned db" and "co_UUID ` set (sh_orders db) \<subseteq> co_UUID ` set (sh_orders db')"
    and "co_UUID x \<in> co_UUID ` set (sh_orders db')"
  shows "events_owned db'"
proof (cases "status_event (co_Status x)")
  case None
  then show ?thesis using assms(1) owned_no_event [OF _ assms(2,3)] by (simp add: status_events_def)
next
  case (Some ty)
  then obtain now at' where "EnqueueEvent now \<lparr>ei_EventType = ty, ei_SourceKey = co_UUID x,
      ei_Payload = Inr (order_payload (co_UUID x)), ei_OccurredAt = at'\<rparr> (sh_events db) = (Inr (), sh_events db')"
    using assms(1) by (auto simp: status_events_def one_event_def)
  then show ?thesis by (rule owned_enqueue [OF _ assms(2,3,4)]) (simp add: owns_key_def)
qed

lemma moved_uuids:
  assumes "moved db db' ord x d" and "orders_wf db"
  shows "co_UUID ` set (sh_orders db') = co_UUID ` set (sh_orders db)" and "co_UUID x \<in> co_UUID ` set (sh_orders db')"
    and "ids_below db \<Longrightarrow> ids_below db'"
proof -
  have f: "find_order_id (co_Id x) db = Some ord" and u: "co_UUID x = co_UUID ord"
    and s: "sh_orders db' = sh_orders (replace_order x db)" and n: "sh_nextOrder db' = sh_nextOrder db"
    using assms(1) unfolding moved_def same_terms_def by blast+
  have uuids: "co_UUID (if co_Id o' = co_Id x then x else o') = co_UUID o'" if "o' \<in> set (sh_orders db)" for o'
    using find_order_id_mem [OF assms(2) that] f u by auto
  have "map co_UUID (sh_orders db') = map co_UUID (sh_orders db)"
    unfolding s replace_order_def using uuids by simp
  then show 1: "co_UUID ` set (sh_orders db') = co_UUID ` set (sh_orders db)" by (metis set_map)
  show "co_UUID x \<in> co_UUID ` set (sh_orders db')" unfolding 1 u using find_order_id_Some(1) [OF f] by simp
  show "ids_below db'" if "ids_below db"
    using that n find_order_id_Some [OF f] by (auto simp: ids_below_def s replace_order_def)
qed

text \<open>The operations on an order that is there.\<close>

lemma plain_step_reach:
  assumes ok: "reach_ok L db" and step: "plain_step L db db'"
  shows "reach_ok L db'"
proof (cases "db' = db")
  case False
  with step obtain ord x where m: "moved db db' ord x (given_back L ord x)" and st: "status_move ord x"
    and e: "status_events x db db'" by (auto simp: plain_step_def)
  have wf: "orders_wf db" using ok by (simp add: reach_ok_def shop_ok_def)
  note u = moved_uuids [OF m wf]
  have "co_Status x \<noteq> Placed" using st by (cases "co_Status ord") (auto simp: status_move_def isValidStatusTransition_def)
  then have "refund_events (co_UUID o') db' = []" if "o' \<in> set (sh_orders db')" "co_Status o' = Placed" for o'
    using that(2) moved_orders [OF m wf that(1)] refund_events_other [OF e] ok
    by (metis reach_ok_def placed_clean_def)
  then show ?thesis
    using plain_step_ok [of L db db'] ok step u owned_status_events [OF e] by (simp add: reach_ok_def placed_clean_def)
qed (use ok in simp)

lemma refund_step_reach:
  assumes ok: "reach_ok L db" and step: "refund_step L disposition db db'"
  shows "reach_ok L db'"
proof -
  from step obtain ord x items where m: "moved db db' ord x (refund_delta L disposition items)" and st: "status_move ord x"
    and e: "refund_event ord (refund_total L ord x items) (refunded_by_item items) disposition db db'"
    by (auto simp: refund_step_def)
  have wf: "orders_wf db" using ok by (simp add: reach_ok_def shop_ok_def)
  note u = moved_uuids [OF m wf]
  note tab = moved_tables [OF m]
  have led: "ledgered L db ord" using ok tab(3) by (simp add: reach_ok_def shop_ok_def order_ok_def)
  obtain ae where ae: "ev_events (sh_events db') = ev_events (sh_events db) @ [ae]" "ae_EventType ae = AcctEventOrderRefund"
    "ae_SourceKey ae = refund_key (co_UUID ord) (length (refund_events (co_UUID ord) db) + 1)"
    by (rule refund_events_new [OF e led]) blast
  have colon: "CHR '':'' \<notin> set (co_UUID o')" if "o' \<in> set (sh_orders db)" for o' using wf that by (simp add: orders_wf_def)
  note oth = refund_event_other(3) [OF ae colon [OF tab(3)]]
  have x: "co_Status x \<noteq> Placed" using st by (cases "co_Status ord") (auto simp: status_move_def isValidStatusTransition_def)
  have "refund_events (co_UUID o') db' = []" if "o' \<in> set (sh_orders db')" "co_Status o' = Placed" for o'
    using m wf that(1)
  proof (cases rule: moved_orders)
    case other
    then show ?thesis using oth [of "co_UUID o'"] colon [OF other(1)] tab(5) ok that(2) by (simp add: reach_ok_def placed_clean_def)
  qed (use x that(2) in simp)
  moreover have "events_owned db'"
    unfolding events_owned_def u(1) ae(1)
  proof
    fix e assume "e \<in> set (ev_events (sh_events db) @ [ae])"
    then consider "e \<in> set (ev_events (sh_events db))" | "e = ae" by auto
    then show "\<exists>v \<in> co_UUID ` set (sh_orders db). owns_key v (ae_SourceKey e)"
    proof cases
      case 1
      then show ?thesis using ok by (simp add: reach_ok_def events_owned_def)
    next
      case 2
      have "owns_key (co_UUID ord) (ae_SourceKey ae)" by (simp add: owns_key_def ae(3) refund_key_def)
      then show ?thesis using tab(3) 2 by blast
    qed
  qed
  ultimately show ?thesis using refund_step_ok [of L db disposition db'] ok step u by (simp add: reach_ok_def placed_clean_def)
qed

lemma quiet_step_reach:
  assumes ok: "reach_ok L db" and step: "quiet_step db db'"
  shows "reach_ok L db'"
proof -
  from step obtain f where db': "db' = db\<lparr>sh_orders := map f (sh_orders db)\<rparr>" and f: "\<And>ord. core (f ord) = core ord"
    by (auto simp: quiet_step_def)
  have ids: "co_Id (f ord) = co_Id ord" "co_UUID (f ord) = co_UUID ord" "co_Status (f ord) = co_Status ord" for ord
    using core_fields [OF f] by simp_all
  have "co_UUID ` set (sh_orders db') = co_UUID ` set (sh_orders db)" by (simp add: db' image_image ids)
  then have "events_owned db'" using ok by (simp add: reach_ok_def events_owned_def db')
  moreover have "ids_below db'" "placed_clean db'"
    using ok by (simp_all add: reach_ok_def ids_below_def placed_clean_def db' ids refund_events_def)
  ultimately show ?thesis using quiet_step_ok [of L db db'] ok step by (simp add: reach_ok_def)
qed

text \<open>A new order.\<close>

lemma create_status_events:
  assumes "co_Status x = Placed \<and> co_History x = [] \<and> no_event db db' \<or>
         co_Status x = Confirmed \<and> statuses x = [Confirmed] \<and> one_event AcctEventOrderPaid (co_UUID x) db db'"
  shows "status_events x db db'" and "tracked x" and "co_Status x = Placed \<or> co_Status x = Confirmed"
    and "statuses x = (case status_event (co_Status x) of None \<Rightarrow> [] | Some _ \<Rightarrow> [co_Status x])"
  using assms by (auto simp: status_events_def status_event_def tracked_def statuses_def)

lemma fresh_refunds_ok:
  assumes "sound_lines db x" and "co_RefundedItems x = []" and "co_Status x \<noteq> Refunded" and "co_Status x \<noteq> PartiallyRefunded"
  shows "refunds_ok x"
proof -
  have q: "getRefundedQuantities x i = 0" for i using assms(2) by (simp add: getRefundedQuantities_def)
  show ?thesis using assms(1,3,4) by (auto simp: refunds_ok_def Let_def q order_lines_items sound_lines_def comp_def)
qed

lemma sound_visible:
  assumes "sound_lines db x" and "\<forall>k. has_variant k db \<longrightarrow> has_variant k db'" and "\<forall>p. has_thumbnail db' p = has_thumbnail db p"
  shows "line_visible db' x" and "line_stocked db' x"
  using assms by (auto simp: line_visible_iff visible_def line_stocked_iff getOrderItemsInsert_def sound_lines_def)

lemma create_step_reach:
  assumes ok: "reach_ok L db" and step: "create_step L db db'"
  shows "reach_ok L db'"
proof -
  from step obtain x d where c: "created db db' x d" and s: "sound_lines db x" and new: "co_UUID x \<notin> co_UUID ` set (sh_orders db)"
    and col: "CHR '':'' \<notin> set (co_UUID x)" and r: "co_RefundedItems x = []" "co_RefundedAmount x = 0"
    and st: "co_Status x = Placed \<and> co_History x = [] \<and> no_event db db' \<or>
         co_Status x = Confirmed \<and> statuses x = [Confirmed] \<and> one_event AcctEventOrderPaid (co_UUID x) db db'"
    unfolding create_step_def by blast
  note cs = create_status_events [OF st]
  have wf: "orders_wf db" and ev: "events_wf db" and own: "events_owned db" using ok by (simp_all add: reach_ok_def shop_ok_def)
  have os: "sh_orders db' = sh_orders db @ [x]" and ids: "ids_below db" "co_Id x = sh_nextOrder db" "sh_nextOrder db' = sh_nextOrder db + 1"
    and tab: "\<forall>k. has_variant k db \<longrightarrow> has_variant k db'" "\<forall>p. has_thumbnail db' p = has_thumbnail db p"
    using c unfolding created_def by blast+
  note none = no_events_yet [OF own wf new col]
  note cnt = status_events_count [OF cs(1) ev] and ref = refund_events_other [OF cs(1)]
  have "co_Id x \<notin> co_Id ` set (sh_orders db)" using ids by (auto simp: ids_below_def)
  then have wf': "orders_wf db'" using wf new col by (simp add: orders_wf_def os)
  have "order_ok L db' x"
  proof -
    have "milestones_ok db' x" using cs(3,4) none(1) by (auto simp: milestones_ok_def cnt status_event_def)
    moreover have "ledgered L db' x" using none(2) r by (simp add: ledgered_def Let_def ref getRefundedQuantities_def)
    ultimately show ?thesis using sound_visible [OF s tab] cs(2,3) fresh_refunds_ok [OF s r(1)] by (auto simp: order_ok_def)
  qed
  moreover have "order_ok L db' o'" if o': "o' \<in> set (sh_orders db)" for o'
  proof -
    have "co_UUID o' \<noteq> co_UUID x" using new o' by (metis image_eqI)
    moreover have "order_ok L db o'" using ok o' by (simp add: reach_ok_def shop_ok_def)
    ultimately show ?thesis by (intro order_ok_tables [OF _ tab]) (simp_all add: cnt ref)
  qed
  ultimately have "shop_ok L db'" using wf' status_events_wf [OF cs(1) ev] by (auto simp: shop_ok_def os)
  moreover have "events_owned db'" by (rule owned_status_events [OF cs(1) own]) (auto simp: os)
  moreover have "ids_below db'" using ids by (auto simp: ids_below_def os)
  moreover have "placed_clean db'" using ok none(2) by (auto simp: reach_ok_def placed_clean_def os ref)
  ultimately show ?thesis by (simp add: reach_ok_def)
qed

text \<open>A repricing.\<close>

lemma reprice_step_reach:
  assumes ok: "reach_ok L db" and step: "reprice_step db db'"
  shows "reach_ok L db'"
proof -
  from step obtain ord x where f: "find_order_id (co_Id x) db = Some ord" and u: "co_UUID x = co_UUID ord"
    and st: "co_Status ord = Placed" "co_Status x = Placed" "co_History x = co_History ord"
    and r: "co_RefundedItems x = []" "co_RefundedAmount x = co_RefundedAmount ord" and s: "sound_lines db x"
    and os: "sh_orders db' = sh_orders (replace_order x db)" and n: "sh_nextOrder db' = sh_nextOrder db"
    and t: "sh_variants db' = sh_variants db" "sh_journal db' = sh_journal db" "sh_products db' = sh_products db"
    and e: "sh_events db' = sh_events db" unfolding reprice_step_def by blast
  have wf: "orders_wf db" using ok by (simp add: reach_ok_def shop_ok_def)
  have ordm: "ord \<in> set (sh_orders db)" by (rule find_order_id_Some(1) [OF f])
  have ord: "order_ok L db ord" using ok ordm by (simp add: reach_ok_def shop_ok_def)
  have none: "refund_events (co_UUID ord) db = []" using ok ordm st(1) by (simp add: reach_ok_def placed_clean_def)
  have tab: "\<forall>k. has_variant k db \<longrightarrow> has_variant k db'" "\<forall>p. has_thumbnail db' p = has_thumbnail db p"
    using same_tables(3,4) [OF t] by simp_all
  have ev: "event_count ty key db' = event_count ty key db" "refund_events v db' = refund_events v db" for ty key v
    by (simp_all add: event_count_def refund_events_def e)
  have set': "o' \<in> set (sh_orders db') \<longleftrightarrow> o' = x \<or> (o' \<in> set (sh_orders db) \<and> co_Id o' \<noteq> co_Id x)" for o'
    unfolding os by (rule set_replace [OF wf f])
  have "order_ok L db' x"
  proof -
    have "tracked ord" using ord by (simp add: order_ok_def)
    then have "tracked x" unfolding tracked_def statuses_cong [OF st(3)] st(1,2) .
    moreover have "milestones_ok db' x" using ord statuses_cong [OF st(3)] by (simp add: order_ok_def milestones_ok_def ev u)
    moreover have "ledgered L db' x"
      using ord none r by (simp add: order_ok_def ledgered_def Let_def ev u getRefundedQuantities_def)
    ultimately show ?thesis using sound_visible [OF s tab] fresh_refunds_ok [OF s r(1)] st(2) by (simp add: order_ok_def)
  qed
  moreover have "order_ok L db' o'" if o': "o' \<in> set (sh_orders db)" for o'
  proof -
    have "order_ok L db o'" using ok o' by (simp add: reach_ok_def shop_ok_def)
    then show ?thesis by (rule order_ok_tables [OF _ tab]) (simp_all add: ev)
  qed
  moreover have wf': "orders_wf db'" using orders_wf_replace [OF wf f u] orders_wf_same [OF os] by simp
  ultimately have "shop_ok L db'" using ok e by (auto simp: shop_ok_def reach_ok_def set' events_wf_def)
  moreover have "events_owned db'"
    using ok ordm u unfolding reach_ok_def events_owned_def e
  proof (intro ballI, elim conjE)
    fix ev assume "ev \<in> set (ev_events (sh_events db))"
      and own: "\<forall>e \<in> set (ev_events (sh_events db)). \<exists>u \<in> co_UUID ` set (sh_orders db). owns_key u (ae_SourceKey e)"
    then obtain o' where o': "o' \<in> set (sh_orders db)" "owns_key (co_UUID o') (ae_SourceKey ev)" by blast
    show "\<exists>u \<in> co_UUID ` set (sh_orders db'). owns_key u (ae_SourceKey ev)"
    proof (cases "co_Id o' = co_Id x")
      case True
      then have "o' = ord" using find_order_id_mem [OF wf o'(1)] f by simp
      then show ?thesis using o'(2) u set' by (metis image_eqI)
    next
      case False
      then show ?thesis using o' set' by blast
    qed
  qed
  moreover have "ids_below db'"
  proof -
    have below: "\<forall>o' \<in> set (sh_orders db). co_Id o' < sh_nextOrder db" using ok by (simp add: reach_ok_def ids_below_def)
    then have "co_Id x < sh_nextOrder db" using ordm find_order_id_Some(2) [OF f] by metis
    then show ?thesis using below n by (auto simp: ids_below_def set')
  qed
  moreover have "placed_clean db'" using ok none u by (auto simp: reach_ok_def placed_clean_def set' ev)
  ultimately show ?thesis by (simp add: reach_ok_def)
qed

section \<open>Every run\<close>

lemma exec_desk_cases:
  assumes L: "decimal_ok L" and ok: "reach_ok L db" and a: "desk_ok a" and run: "exec_desk L a db = (r, db')"
  obtains (desk) "desk_step L db db'" | (refund) b where "a = ShopOp b" and "refund_step L (refund_disposition b) db db'"
    | (quiet) "quiet_step db db'"
proof -
  have sh: "shop_ok L db" and ids: "ids_below db" using ok by (simp_all add: reach_ok_def)
  have same: "desk_step L db db" by (simp add: desk_step_def plain_step_def)
  note pre = shop_ok_pre [OF sh]
  show thesis
  proof (cases a)
    case (ShopOp b)
    then show ?thesis using exec_cases [OF L sh, of b r db'] a run that by (auto simp: desk_ok_def desk_step_def)
  next
    case (CheckoutOp env new p t)
    show ?thesis
    proof (cases r)
      case (Inl e)
      then have "db' = db" using run CheckoutOp
        by (auto simp: CreateOrder_def bindE_def thenE_def readE_def dest!: unitE_Inl dest: txFunc_Inl split: sum.split_asm prod.split_asm)
      then show ?thesis using same desk by simp
    next
      case (Inr v)
      then obtain w where "CreateOrder L env new p t db = (Inr w, db')" using run CheckoutOp by (auto simp: unitE_ok)
      then have "create_step L db db'" using CreateOrder_step [OF ids L, of env new p t w db'] a CheckoutOp
        by (simp add: desk_ok_def env_ok_def)
      then show ?thesis using desk by (simp add: desk_step_def)
    qed
  next
    case (CustomOp env new)
    show ?thesis
    proof (cases r)
      case (Inl e)
      then have "db' = db" using run CustomOp
        by (auto simp: CreateCustomOrder_def bindE_def thenE_def readE_def checkE_def returnE_def failE_def Let_def
            dest!: unitE_Inl dest: txFunc_Inl split: sum.split_asm prod.split_asm if_split_asm)
      then show ?thesis using same desk by simp
    next
      case (Inr v)
      then obtain w where "CreateCustomOrder L env new db = (Inr w, db')" using run CustomOp by (auto simp: unitE_ok)
      then have "create_step L db db'" using CreateCustomOrder_step [OF ids L] a CustomOp by (auto simp: desk_ok_def env_ok_def)
      then show ?thesis using desk by (simp add: desk_step_def)
    qed
  next
    case (ValidateOp env uuid)
    then show ?thesis using ValidateOrderByUUID_step [OF pre(1) L env_ok_sort, of env uuid r db'] a run same desk
      by (auto simp: desk_ok_def desk_step_def)
  next
    case (InvoiceOp env uuid secret pm t)
    then show ?thesis using InsertFiatInvoice_step [OF pre(1) L env_ok_sort pre(4), of env uuid secret pm t r db'] a run same desk
      by (auto simp: desk_ok_def)
  qed
qed

lemma exec_desk_reach:
  assumes L: "decimal_ok L" and ok: "reach_ok L db" and a: "desk_ok a" and run: "exec_desk L a db = (r, db')"
  shows "reach_ok L db'"
  using assms
proof (cases rule: exec_desk_cases)
  case desk
  then show ?thesis using create_step_reach [OF ok] reprice_step_reach [OF ok] plain_step_reach [OF ok] by (auto simp: desk_step_def)
qed (use refund_step_reach [OF ok] quiet_step_reach [OF ok] in auto)

lemma shop_run_reach:
  assumes "shop_run L ops db db'" and "decimal_ok L" and "reach_ok L db"
  shows "reach_ok L db'"
  using assms by (induction rule: shop_run.induct) (auto intro: exec_desk_reach)

lemma shop_run_induct_ok [consumes 3, case_names start step]:
  assumes "shop_run L ops db db'" and "decimal_ok L" and "reach_ok L db"
    and "\<And>db. reach_ok L db \<Longrightarrow> P [] db db"
    and "\<And>ops db t a r db'. P ops db t \<Longrightarrow> reach_ok L t \<Longrightarrow> desk_ok a \<Longrightarrow> exec_desk L a t = (r, db') \<Longrightarrow> P (ops @ [a]) db db'"
  shows "P ops db db'"
  using assms(1-3)
proof (induction rule: shop_run.induct)
  case (step ops db t a r db')
  show ?case
    by (rule assms(5) [OF step.IH [OF step.prems] shop_run_reach [OF step.hyps(1) step.prems] step.hyps(2,3)])
qed (rule assms(4))

end
