(* ===== verification/Order_Props.thy ===== *)
theory Order_Props
  imports Order_Stock
begin

text \<open>
  The properties of the life of the orders, over every run of the operations: the history follows the
  table of transitions, refunds stay within the order and agree with the ledger's events, milestones
  are announced once, goods are neither lost nor made.
\<close>

declare split_paired_All [simp del] split_paired_Ex [simp del]

section \<open>A run to evaluate\<close>

definition run_ops :: "decimal_lib \<Rightarrow> shop_op list \<Rightarrow> shop_db \<Rightarrow> shop_db" where
  "run_ops L ops db = foldl (\<lambda>db a. snd (exec_op L a db)) db ops"

lemma lifecycle_run_ops:
  assumes "list_all op_ok ops"
  shows "lifecycle L ops db (run_ops L ops db)"
  using assms
proof (induction ops rule: rev_induct)
  case Nil
  show ?case by (simp add: run_ops_def lifecycle.start)
next
  case (snoc a ops)
  have "exec_op L a (run_ops L ops db) = (fst (exec_op L a (run_ops L ops db)), run_ops L (ops @ [a]) db)"
    by (simp add: run_ops_def)
  then show ?case using snoc lifecycle.step by fastforce
qed

definition demo_time :: time where "demo_time = 0"

definition demo_item :: "int \<Rightarrow> int \<Rightarrow> int \<Rightarrow> order_item_row" where
  "demo_item i sz n = \<lparr>ir_Id = i, ir_ProductId = 7, ir_ProductPrice = 100, ir_SalePercentage = Some 10, ir_Quantity = n,
     ir_SizeId = sz, ir_VariantId = sz, ir_Grade = ''A'', ir_CostPriceAtSale = None, ir_ProductPriceBase = None,
     ir_VariantSKUSnapshot = ''S'', ir_BaseSKUSnapshot = None\<rparr>"

definition demo_variant :: "int \<Rightarrow> Variant" where
  "demo_variant sz = \<lparr>vr_Id = sz, vr_ProductId = 7, vr_SizeId = sz, vr_Grade = ''A'', vr_Quantity = 5, vr_SKU = Some ''S'', vr_Status = 1\<rparr>"

definition demo_order :: customer_order where
  "demo_order = \<lparr>co_Id = 1, co_UUID = ''U1'', co_Status = AwaitingPayment, co_TotalPrice = 280, co_Currency = ''EUR'',
     co_PromoId = None, co_RefundReason = None, co_RefundReasonCode = None, co_RefundedAmount = 0, co_ShippingRefunded = False,
     co_OrderComment = None, co_TotalPriceEUR = None, co_TotalSettledBase = None, co_PaymentFee = None, co_Promo = None,
     co_VatRatePct = None, co_VatAmount = None, co_BuyerVatID = None, co_GAClientID = None, co_Locale = None,
     co_Items = [demo_item 1 2 2, demo_item 2 3 1], co_RefundedItems = [],
     co_History = [\<lparr>hs_Status = AwaitingPayment, hs_ChangedBy = ''system'', hs_Notes = []\<rparr>],
     co_Shipment = Some \<lparr>sm_CarrierId = 1, sm_Cost = 10, sm_FreeShipping = False, sm_TrackingCode = None, sm_ShippingDate = None,
       sm_EstimatedArrivalDate = None, sm_DeliveredAt = None, sm_ActualCost = None, sm_ReturnShippingCost = None\<rparr>,
     co_Payment = Some \<lparr>pi_PaymentMethodID = 1, pi_TransactionID = None, pi_TransactionAmount = 280,
       pi_TransactionAmountPaymentCurrency = 280, pi_ClientSecret = Some ''pi'', pi_IsTransactionDone = False, pi_ExpiredAt = None,
       pi_PaymentMethodType = None\<rparr>,
     co_BuyerEmail = Some ''a@b'', co_Buyer = None\<rparr>"

definition demo_db :: shop_db where
  "demo_db = \<lparr>sh_orders = [demo_order], sh_variants = [demo_variant 2, demo_variant 3],
     sh_products = [\<lparr>pr_Id = 7, pr_SKU = Some ''B'', pr_SkuLockedAt = None, pr_LifecycleStatus = 2, pr_Prices = [],
       pr_SalePercentage = Some 10, pr_MinTier = 0,
       pr_CostPrice = None, pr_ThumbnailId = Some 1\<rparr>],
     sh_sizes = [], sh_variantPrices = [], sh_journal = [], sh_claims = [], sh_promos = [],
     sh_vatRates = [], sh_addresses = [], sh_subscribers = [],
     sh_events = \<lparr>ev_events = [], ev_next = 1\<rparr>, sh_nextOrder = 2, sh_nextItem = 3, sh_nextVariant = 4,
     sh_nextAddress = 1\<rparr>"

definition demo_payment :: PaymentInsert where
  "demo_payment = \<lparr>pi_PaymentMethodID = 1, pi_TransactionID = Some ''t'', pi_TransactionAmount = 280,
       pi_TransactionAmountPaymentCurrency = 280, pi_ClientSecret = Some ''pi'', pi_IsTransactionDone = True, pi_ExpiredAt = None,
       pi_PaymentMethodType = None\<rparr>"

text \<open>Paid, shipped, delivered, one unit of the first line back, then the rest with its shipping.\<close>

definition demo_ops :: "shop_op list" where
  "demo_ops = [PaidOp [] demo_time ''U1'' demo_payment, TrackOp demo_time ''U1'' ''T'', DeliverOp demo_time ''U1'' ''system'' [],
     RefundOp demo_time (\<lambda>m. m) ''U1'' [1] [] [] False RefundDispositionRestock,
     RefundOp demo_time rev ''U1'' [] [] [] True RefundDispositionUnset]"

abbreviation demo_end :: shop_db where "demo_end \<equiv> run_ops decimal_std demo_ops demo_db"

lemma permutes_rev [simp]: "permutes rev"
  by (simp add: permutes_def)

lemma demo_run: "lifecycle decimal_std demo_ops demo_db demo_end"
  by (rule lifecycle_run_ops) (simp add: demo_ops_def op_ok_def)

lemma demo_ok: "shop_ok decimal_std demo_db"
  by code_simp

lemma demo_final:
  "map (\<lambda>o'. (co_UUID o', co_Status o', co_RefundedAmount o', co_Items o' = [])) (sh_orders demo_end) = [(''U1'', Refunded, 280, False)]"
  by code_simp

abbreviation demo_last :: customer_order where "demo_last \<equiv> hd (sh_orders demo_end)"

lemma demo_last_status: "co_Status demo_last = Refunded" and demo_last_items: "co_Items demo_last \<noteq> []"
  and demo_mem: "demo_last \<in> set (sh_orders demo_end)"
  using demo_final by (auto simp: map_eq_Cons_conv)

section \<open>The status of an order\<close>

lemma status_path_append: "status_path s us t \<Longrightarrow> status_path t vs u \<Longrightarrow> status_path s (us @ vs) u"
  by (induction us arbitrary: s) auto

definition follows :: "customer_order \<Rightarrow> customer_order \<Rightarrow> bool" where
  "follows ord x \<longleftrightarrow> co_UUID x = co_UUID ord \<and> (\<exists>us. statuses x = statuses ord @ us \<and> status_path (co_Status ord) us (co_Status x))"

lemma follows_refl [simp]: "follows ord ord"
  by (auto simp: follows_def)

lemma follows_trans: "follows a b \<Longrightarrow> follows b c \<Longrightarrow> follows a c"
  unfolding follows_def by (metis append.assoc status_path_append)

lemma follows_move: "status_move ord x \<Longrightarrow> co_UUID x = co_UUID ord \<Longrightarrow> follows ord x"
  using status_move_statuses by (auto simp: follows_def status_move_def)

lemma moved_follows:
  assumes m: "moved db db' ord x d" and wf: "orders_wf db" and f: "follows ord x" and y: "y \<in> set (sh_orders db)"
  shows "\<exists>z \<in> set (sh_orders db'). follows y z"
proof -
  have o': "find_order_id (co_Id x) db = Some ord" "sh_orders db' = sh_orders (replace_order x db)" using m by (simp_all add: moved_def)
  show ?thesis
  proof (cases "co_Id y = co_Id x")
    case True
    then have "y = ord" using find_order_id_mem [OF wf y] o'(1) by simp
    then show ?thesis using f o' set_replace [OF wf o'(1)] by auto
  next
    case False
    then show ?thesis using y o' set_replace [OF wf o'(1)] by (intro bexI [of _ y]) auto
  qed
qed

lemma step_follows:
  assumes "shop_ok L db" and "plain_step L db db' \<or> refund_step L disposition db db' \<or> quiet_step db db'" and y: "y \<in> set (sh_orders db)"
  shows "\<exists>z \<in> set (sh_orders db'). follows y z"
proof -
  have wf: "orders_wf db" using assms(1) by (simp add: shop_ok_def)
  have moved: "\<exists>z \<in> set (sh_orders db'). follows y z" if "moved db db' ord x d" "status_move ord x" for ord x d
    by (rule moved_follows [OF that(1) wf follows_move [OF that(2) moved_tables(5) [OF that(1)]] y])
  from assms(2) show ?thesis
  proof (elim disjE)
    assume "plain_step L db db'"
    then consider "db' = db" | ord x where "moved db db' ord x (given_back L ord x)" "status_move ord x"
      by (auto simp: plain_step_def)
    then show ?thesis by cases (use y moved in \<open>auto intro: bexI [of _ y]\<close>)
  next
    assume "refund_step L disposition db db'"
    then show ?thesis using moved by (auto simp: refund_step_def)
  next
    assume "quiet_step db db'"
    then obtain f where db': "db' = db\<lparr>sh_orders := map f (sh_orders db)\<rparr>" and f: "\<And>ord. core (f ord) = core ord"
      by (auto simp: quiet_step_def)
    have "follows y (f y)" using core_fields [OF f, of y] by (simp add: follows_def statuses_def)
    then show ?thesis using y by (auto simp: db')
  qed
qed

lemma run_follows:
  assumes "lifecycle L ops db db'" and "decimal_ok L" and "shop_ok L db"
  shows "\<forall>y \<in> set (sh_orders db). \<exists>z \<in> set (sh_orders db'). follows y z"
  using assms
proof (induction rule: lifecycle_induct_ok)
  case (step ops db t a r db')
  then show ?case using step_follows follows_trans by meson
qed (use follows_refl in blast)

lemma terminal_path: "status_path s us t \<Longrightarrow> s = Cancelled \<or> s = Refunded \<Longrightarrow> us = [] \<and> t = s"
  by (cases us) (auto simp: isValidStatusTransition_def)

text \<open>
  C9: whatever is done to the shop, and in whatever order, an order's history only grows, by steps of the
  table of transitions that end in its status; a cancelled or a refunded order stays what it is.
\<close>

theorem order_history_follows_the_table:
  assumes "decimal_ok L" and "shop_ok L db" and "lifecycle L ops db db'" and "ord \<in> set (sh_orders db)"
  shows "\<exists>x \<in> set (sh_orders db'). co_UUID x = co_UUID ord \<and> tracked x \<and>
    (\<exists>us. statuses x = statuses ord @ us \<and> status_path (co_Status ord) us (co_Status x)) \<and>
    (co_Status ord = Cancelled \<or> co_Status ord = Refunded \<longrightarrow> co_Status x = co_Status ord \<and> statuses x = statuses ord)"
proof -
  obtain x us where x: "x \<in> set (sh_orders db')" "co_UUID x = co_UUID ord"
    "statuses x = statuses ord @ us" "status_path (co_Status ord) us (co_Status x)"
    using run_follows [OF assms(3,1,2)] assms(4) by (auto simp: follows_def)
  moreover have "tracked x" using lifecycle_ok [OF assms(3,1,2)] x(1) by (simp add: shop_ok_def order_ok_def)
  ultimately show ?thesis using terminal_path [OF x(4)] by auto
qed

theorem order_history_follows_the_table_witness:
  "\<exists>x \<in> set (sh_orders demo_end). co_UUID x = co_UUID demo_order \<and> tracked x \<and>
    (\<exists>us. statuses x = statuses demo_order @ us \<and> status_path (co_Status demo_order) us (co_Status x))"
  using order_history_follows_the_table [OF decimal_std_ok demo_ok demo_run, of demo_order] by (auto simp: demo_db_def)

section \<open>Refunds\<close>

text \<open>
  C7: no line is refunded beyond its units, and the status tells how far the refunds went: all units of a
  refunded order, some but not all of a partially refunded one, none of any other.
\<close>

theorem refunds_stay_within_the_order:
  assumes "decimal_ok L" and "shop_ok L db" and "lifecycle L ops db db'" and "ord \<in> set (sh_orders db')"
  shows "(\<forall>r \<in> set (co_Items ord). 0 \<le> getRefundedQuantities ord (ir_Id r) \<and> getRefundedQuantities ord (ir_Id r) \<le> ir_Quantity r) \<and>
    (if co_Status ord = Refunded then \<forall>r \<in> set (co_Items ord). getRefundedQuantities ord (ir_Id r) = ir_Quantity r
     else if co_Status ord = PartiallyRefunded
     then (\<exists>r \<in> set (co_Items ord). getRefundedQuantities ord (ir_Id r) < ir_Quantity r) \<and>
       (\<exists>r \<in> set (co_Items ord). 0 < getRefundedQuantities ord (ir_Id r))
     else \<forall>r \<in> set (co_Items ord). getRefundedQuantities ord (ir_Id r) = 0)"
proof -
  have "refunds_ok ord" using lifecycle_ok [OF assms(3,1,2)] assms(4) by (simp add: shop_ok_def order_ok_def)
  then show ?thesis by (auto simp: refunds_ok_def Let_def order_lines_items split: if_split_asm)
qed

theorem refunds_stay_within_the_order_witness:
  "co_Status demo_last = Refunded \<and>
   getRefundedQuantities demo_last (ir_Id (hd (co_Items demo_last))) = ir_Quantity (hd (co_Items demo_last))"
  using refunds_stay_within_the_order [OF decimal_std_ok demo_ok demo_run demo_mem] demo_last_status demo_last_items
  by (simp add: list.set_sel)

text \<open>
  C8: the refunded amount of an order is the sum of the amounts of its refund events, each rounded to the
  cent, the refunded units of a line the sum of the units in the events; the events are numbered from one.
\<close>

theorem refund_events_add_up:
  assumes "decimal_ok L" and "shop_ok L db" and "lifecycle L ops db db'" and "ord \<in> set (sh_orders db')"
  shows "map ae_SourceKey (refund_events (co_UUID ord) db') =
      map (\<lambda>n. refund_key (co_UUID ord) (n + 1)) [0..<length (refund_events (co_UUID ord) db')] \<and>
    co_RefundedAmount ord = sum_list (map (\<lambda>e. dl_Round L (refund_amount e) 2) (refund_events (co_UUID ord) db')) \<and>
    (\<forall>r \<in> set (co_Items ord). getRefundedQuantities ord (ir_Id r) =
       sum_list (map (\<lambda>e. refund_units e (ir_Id r)) (refund_events (co_UUID ord) db')))"
proof -
  have "ledgered L db' ord" using lifecycle_ok [OF assms(3,1,2)] assms(4) by (simp add: shop_ok_def order_ok_def)
  then show ?thesis by (auto simp: ledgered_def Let_def order_lines_items)
qed

theorem refund_events_add_up_witness:
  "co_RefundedAmount demo_last =
     sum_list (map (\<lambda>e. dl_Round decimal_std (refund_amount e) 2) (refund_events (co_UUID demo_last) demo_end))"
  using refund_events_add_up [OF decimal_std_ok demo_ok demo_run demo_mem] by blast

section \<open>Milestones\<close>

text \<open>
  the ledger hears once that an order was paid, shipped or delivered, and only when its history says so.
\<close>

theorem one_event_per_milestone:
  assumes "decimal_ok L" and "shop_ok L db" and "lifecycle L ops db db'" and "ord \<in> set (sh_orders db')"
    and "(ty, st) \<in> {(AcctEventOrderPaid, Confirmed), (AcctEventOrderShipped, Shipped), (AcctEventOrderDelivered, Delivered)}"
  shows "event_count ty (co_UUID ord) db' = (if st \<in> set (statuses ord) then 1 else 0)"
proof -
  have "milestones_ok db' ord" using lifecycle_ok [OF assms(3,1,2)] assms(4) by (simp add: shop_ok_def order_ok_def)
  then show ?thesis using assms(5) by (auto simp: milestones_ok_def)
qed

theorem one_event_per_milestone_witness:
  "event_count AcctEventOrderShipped (co_UUID demo_last) demo_end = (if Shipped \<in> set (statuses demo_last) then 1 else 0)"
  by (rule one_event_per_milestone [OF decimal_std_ok demo_ok demo_run demo_mem]) simp

text \<open>
  C21: the provider may report a payment any number of times: the first report of an order that awaits it
  confirms the order, and every further one finds it confirmed and changes nothing.
\<close>

theorem payment_is_confirmed_once:
  assumes "orders_wf db" and "OrderPaymentDone cache now uuid p db = (Inr (True, code), db')"
  shows "(\<exists>x. find_order uuid db' = Some x \<and> co_Status x = Confirmed) \<and>
    OrderPaymentDone cache' now' uuid p' db' = (Inr (False, []), db')"
proof -
  obtain x where x: "find_order uuid db' = Some x" "co_Status x = Confirmed"
    using OrderPaymentDone_effect [OF assms] by auto
  then have "payment_done_body cache' now' uuid p' db' = (Inr (False, []), db')"
    by (simp add: payment_done_body_def getOrderByUUIDForUpdate_def bindE_def readE_def requireE_def returnE_def)
  then show ?thesis using x by (simp add: OrderPaymentDone_def txFunc_def)
qed

lemma demo_paid: "fst (OrderPaymentDone [] demo_time ''U1'' demo_payment demo_db) = Inr (True, [])"
  by code_simp

theorem payment_is_confirmed_once_witness:
  "OrderPaymentDone [] demo_time ''U1'' demo_payment (snd (OrderPaymentDone [] demo_time ''U1'' demo_payment demo_db)) =
     (Inr (False, []), snd (OrderPaymentDone [] demo_time ''U1'' demo_payment demo_db))"
  using payment_is_confirmed_once [OF shop_ok_pre(1) [OF demo_ok], of "[]" demo_time "''U1''" demo_payment "[]"
    "snd (OrderPaymentDone [] demo_time ''U1'' demo_payment demo_db)"] demo_paid
  by (metis prod.collapse)

section \<open>Goods\<close>

text \<open>
  while returned goods go back to the shelf, the stock of a variant and the units that orders hold of it
  add up to the same.
\<close>

theorem goods_are_conserved:
  assumes "decimal_ok L" and "shop_ok L db" and "lifecycle L ops db db'"
    and "\<forall>a \<in> set ops. refund_disposition a \<noteq> RefundDispositionWriteoff \<and> refund_disposition a \<noteq> RefundDispositionSeconds"
  shows "stock_qty k db' + units_held k db' = stock_qty k db + units_held k db"
proof -
  have "goods k db' = goods k db" using assms(3,1,2,4)
  proof (induction rule: lifecycle_induct_ok)
    case (step ops db t a r db')
    have IH: "goods k t = goods k db" using step.IH step.prems by simp
    from step.hyps(5) have "goods k db' = goods k t"
    proof (elim disjE)
      assume "plain_step L t db'"
      then show ?thesis using plain_goods [OF assms(1)] step.hyps by blast
    next
      assume r: "refund_step L (refund_disposition a) t db'"
      obtain items where "goods k db' = goods k t + refund_delta L (refund_disposition a) items k - units_at L k (map ri_OrderItemInsert items)"
        by (rule refund_goods [OF assms(1) _ r]) (use step.hyps in blast)+
      moreover have "refund_delta L (refund_disposition a) items k = units_at L k (map ri_OrderItemInsert items)"
        using step.prems by (cases "refund_disposition a") (auto simp: refund_delta_def Let_def)
      ultimately show ?thesis by simp
    next
      assume "quiet_step t db'"
      then show ?thesis by (rule quiet_goods)
    qed
    then show ?case using IH by simp
  qed simp
  then show ?thesis by (simp add: goods_def)
qed

theorem goods_are_conserved_witness:
  "stock_qty (7, 2, ''A'') demo_end + units_held (7, 2, ''A'') demo_end = stock_qty (7, 2, ''A'') demo_db + units_held (7, 2, ''A'') demo_db"
  by (rule goods_are_conserved [OF decimal_std_ok demo_ok demo_run]) (simp add: demo_ops_def refund_disposition_def)

text \<open>Over both grades of a size.\<close>

definition two_grades :: "customer_order \<Rightarrow> bool" where
  "two_grades ord \<longleftrightarrow> (\<forall>r \<in> set (co_Items ord). NormalizeVariantGrade (ir_Grade r) = VariantGradeA \<or> NormalizeVariantGrade (ir_Grade r) = VariantGradeB)"

definition size_goods :: "int \<Rightarrow> int \<Rightarrow> shop_db \<Rightarrow> int" where
  "size_goods p s db = stock_qty (p, s, VariantGradeA) db + stock_qty (p, s, VariantGradeB) db +
     units_held (p, s, VariantGradeA) db + units_held (p, s, VariantGradeB) db"

lemma size_goods_goods: "size_goods p s db = goods (p, s, VariantGradeA) db + goods (p, s, VariantGradeB) db"
  by (simp add: size_goods_def goods_def)

lemma seconds_sum:
  assumes "\<forall>it \<in> set items. NormalizeVariantGrade (oi_Grade it) = VariantGradeA \<or> NormalizeVariantGrade (oi_Grade it) = VariantGradeB"
  shows "units_at L (p, s, VariantGradeA) (map as_seconds items) + units_at L (p, s, VariantGradeB) (map as_seconds items) =
    units_at L (p, s, VariantGradeA) items + units_at L (p, s, VariantGradeB) items"
  using assms
proof (induction items)
  case (Cons a items)
  then show ?case by (auto simp: item_key_def [of a])
qed simp

lemma units_at_nonneg:
  assumes "decimal_ok L" and "\<forall>r \<in> set items. \<exists>it. r = refund_unit it"
  shows "0 \<le> units_at L k (map ri_OrderItemInsert items)"
proof -
  have u: "line_units L (ri_OrderItemInsert r) = 1" if "r \<in> set items" for r
    using assms that line_units_refund [OF assms(1)] by auto
  show ?thesis using u by (induction items) auto
qed

lemma refund_size_goods:
  assumes L: "decimal_ok L" and ok: "shop_ok L db" and step: "refund_step L disposition db db'"
    and g: "\<forall>ord \<in> set (sh_orders db). two_grades ord"
  shows "size_goods p s db' \<le> size_goods p s db" and "disposition \<noteq> RefundDispositionWriteoff \<Longrightarrow> size_goods p s db' = size_goods p s db"
proof -
  obtain ord items where ord: "ord \<in> set (sh_orders db)"
    and u: "\<forall>r \<in> set items. \<exists>ln \<in> set (co_Items ord). r = refund_unit (line_item ln)"
    and d: "\<And>k. goods k db' = goods k db + refund_delta L disposition items k - units_at L k (map ri_OrderItemInsert items)"
    by (rule refund_goods [OF L ok step]) blast
  let ?its = "map ri_OrderItemInsert items"
  have "\<forall>it \<in> set ?its. NormalizeVariantGrade (oi_Grade it) = VariantGradeA \<or> NormalizeVariantGrade (oi_Grade it) = VariantGradeB"
  proof
    fix it assume "it \<in> set ?its"
    then obtain r where r: "r \<in> set (co_Items ord)" "oi_Grade it = ir_Grade r"
      using u by (auto simp: refund_unit_def item_insert_def)
    then show "NormalizeVariantGrade (oi_Grade it) = VariantGradeA \<or> NormalizeVariantGrade (oi_Grade it) = VariantGradeB"
      using g ord by (simp add: two_grades_def)
  qed
  note sec = seconds_sum [OF this, of L p s]
  have "0 \<le> units_at L k ?its" for k by (rule units_at_nonneg [OF L]) (use u in blast)
  note pos = this [of "(p, s, VariantGradeA)"] this [of "(p, s, VariantGradeB)"]
  have "size_goods p s db' \<le> size_goods p s db \<and> (disposition \<noteq> RefundDispositionWriteoff \<longrightarrow> size_goods p s db' = size_goods p s db)"
    using d [of "(p, s, VariantGradeA)"] d [of "(p, s, VariantGradeB)"] sec pos
    by (cases disposition) (simp_all add: size_goods_goods refund_delta_def Let_def)
  then show "size_goods p s db' \<le> size_goods p s db" "disposition \<noteq> RefundDispositionWriteoff \<Longrightarrow> size_goods p s db' = size_goods p s db"
    by blast+
qed

lemma two_grades_lines: "two_grades ord \<longleftrightarrow> (\<forall>(_, it) \<in> set (line_facts ord).
    NormalizeVariantGrade (oi_Grade it) = VariantGradeA \<or> NormalizeVariantGrade (oi_Grade it) = VariantGradeB)"
  by (auto simp: two_grades_def line_facts_def item_insert_def)

lemma step_two_grades:
  assumes ok: "shop_ok L db" and g: "\<forall>ord \<in> set (sh_orders db). two_grades ord"
    and step: "plain_step L db db' \<or> refund_step L disposition db db' \<or> quiet_step db db'"
  shows "\<forall>ord \<in> set (sh_orders db'). two_grades ord"
proof -
  have wf: "orders_wf db" using ok by (simp add: shop_ok_def)
  have moved: "\<forall>ord \<in> set (sh_orders db'). two_grades ord" if m: "moved db db' ord x d" for ord x d
  proof
    fix y assume "y \<in> set (sh_orders db')"
    with m wf show "two_grades y"
    proof (cases rule: moved_orders)
      case same
      have "two_grades ord" using g moved_tables(3) [OF m] by simp
      then show ?thesis using same_terms_lines(1) [OF moved_tables(4) [OF m]] by (simp add: two_grades_lines same)
    qed (use g in simp)
  qed
  from step show ?thesis
  proof (elim disjE)
    assume "quiet_step db db'"
    then obtain f where db': "db' = db\<lparr>sh_orders := map f (sh_orders db)\<rparr>" and f: "\<And>ord. core (f ord) = core ord"
      by (auto simp: quiet_step_def)
    show ?thesis using g core_fields(5) [OF f] by (simp add: db' two_grades_lines)
  qed (use moved g in \<open>auto simp: plain_step_def refund_step_def\<close>)
qed

text \<open>
  C18: returned goods may come back as seconds, so the two grades of a size are one account: no run makes
  goods out of nothing, and only a refund that writes its goods off loses any.
\<close>

theorem size_goods_only_written_off:
  assumes "decimal_ok L" and "shop_ok L db" and "\<forall>ord \<in> set (sh_orders db). two_grades ord" and "lifecycle L ops db db'"
  shows "size_goods p s db' \<le> size_goods p s db \<and>
    ((\<forall>a \<in> set ops. refund_disposition a \<noteq> RefundDispositionWriteoff) \<longrightarrow> size_goods p s db' = size_goods p s db)"
proof -
  have "(\<forall>ord \<in> set (sh_orders db'). two_grades ord) \<and> size_goods p s db' \<le> size_goods p s db \<and>
    ((\<forall>a \<in> set ops. refund_disposition a \<noteq> RefundDispositionWriteoff) \<longrightarrow> size_goods p s db' = size_goods p s db)"
    using assms(4,1,2,3)
  proof (induction rule: lifecycle_induct_ok)
    case (step ops db t a r db')
    have IH: "\<forall>ord \<in> set (sh_orders t). two_grades ord" "size_goods p s t \<le> size_goods p s db"
      "(\<forall>a \<in> set ops. refund_disposition a \<noteq> RefundDispositionWriteoff) \<longrightarrow> size_goods p s t = size_goods p s db"
      using step.IH step.prems by blast+
    have "size_goods p s db' \<le> size_goods p s t \<and>
      (refund_disposition a \<noteq> RefundDispositionWriteoff \<longrightarrow> size_goods p s db' = size_goods p s t)"
      using step.hyps(5)
    proof (elim disjE)
      assume "plain_step L t db'"
      then show ?thesis using plain_goods [OF assms(1) step.hyps(2)] by (simp add: size_goods_goods)
    next
      assume "refund_step L (refund_disposition a) t db'"
      then show ?thesis using refund_size_goods [OF assms(1) step.hyps(2) _ IH(1)] by blast
    next
      assume "quiet_step t db'"
      then show ?thesis using quiet_goods by (simp add: size_goods_goods)
    qed
    then show ?case using IH step_two_grades [OF step.hyps(2) IH(1) step.hyps(5)] by auto
  qed simp
  then show ?thesis by blast
qed

theorem size_goods_only_written_off_witness: "size_goods 7 2 demo_end = size_goods 7 2 demo_db"
  using size_goods_only_written_off [OF decimal_std_ok demo_ok _ demo_run, of 7 2]
  by (simp add: demo_db_def demo_order_def two_grades_def demo_item_def NormalizeVariantGrade_def demo_ops_def refund_disposition_def)

text \<open>
  C20: every change of stock is in the journal: the stock of a variant less the changes its journal lists
  is the same after any run.
\<close>

theorem journal_explains_the_stock:
  assumes "decimal_ok L" and "shop_ok L db" and "lifecycle L ops db db'"
  shows "of_int (stock_qty k db') - journal_total k (sh_journal db') = of_int (stock_qty k db) - journal_total k (sh_journal db)"
proof -
  have "opening_stock k db' = opening_stock k db" using assms(3,1,2)
  proof (induction rule: lifecycle_induct_ok)
    case (step ops db t a r db')
    from step.hyps(5) have "opening_stock k db' = opening_stock k t"
    proof (elim disjE)
      assume r: "refund_step L (refund_disposition a) t db'"
      show ?thesis by (rule refund_goods [OF assms(1) step.hyps(2) r]) blast
    qed (use plain_goods [OF assms(1) step.hyps(2)] quiet_goods in blast)+
    then show ?case using step.IH by simp
  qed simp
  then show ?thesis by (simp add: opening_stock_def)
qed

theorem journal_explains_the_stock_witness:
  "of_int (stock_qty (7, 2, ''A'') demo_end) - journal_total (7, 2, ''A'') (sh_journal demo_end) =
   of_int (stock_qty (7, 2, ''A'') demo_db) - journal_total (7, 2, ''A'') (sh_journal demo_db)"
  by (rule journal_explains_the_stock [OF decimal_std_ok demo_ok demo_run])

end
