(* ===== verification/Shop_Props.thy ===== *)
theory Shop_Props
  imports Shop_Run Order_Props
begin

text \<open>
  The properties of the whole shop, from its first checkout on: every state it reaches keeps the
  invariants of its orders, goods are never sold twice, a checkout sells what the shop has at the
  price of the catalogue to buyers of the right tier, and an invoice takes the goods or nothing.
\<close>

declare split_paired_All [simp del] split_paired_Ex [simp del]

section \<open>A run to evaluate\<close>

definition run_desk :: "decimal_lib \<Rightarrow> desk_op list \<Rightarrow> shop_db \<Rightarrow> shop_db" where
  "run_desk L ops db = foldl (\<lambda>db a. snd (exec_desk L a db)) db ops"

lemma shop_run_run_desk:
  assumes "list_all desk_ok ops"
  shows "shop_run L ops db (run_desk L ops db)"
  using assms
proof (induction ops rule: rev_induct)
  case Nil
  show ?case by (simp add: run_desk_def shop_run.start)
next
  case (snoc a ops)
  have "exec_desk L a (run_desk L ops db) = (fst (exec_desk L a (run_desk L ops db)), run_desk L (ops @ [a]) db)"
    by (simp add: run_desk_def)
  then show ?case using snoc shop_run.step by fastforce
qed

definition desk_db :: shop_db where
  "desk_db = demo_db\<lparr>sh_orders := [], sh_products := [\<lparr>pr_Id = 7, pr_SKU = Some ''B'', pr_SkuLockedAt = None,
     pr_LifecycleStatus = 2, pr_Prices = [(''EUR'', 100)], pr_SalePercentage = Some 10, pr_MinTier = 0,
     pr_CostPrice = None, pr_ThumbnailId = Some 1\<rparr>], sh_nextOrder := 1, sh_nextItem := 1\<rparr>"

definition desk_card :: PaymentMethod where
  "desk_card = \<lparr>pm_Id = 1, pm_Name = CARD, pm_Allowed = True\<rparr>"

definition desk_env :: "string \<Rightarrow> shop_env" where
  "desk_env ref = \<lparr>en_now = 0, en_carriers = [\<lparr>ca_Id = 1, ca_Allowed = True, ca_Prices = [(''EUR'', 10)], ca_AllowedRegions = []\<rparr>],
     en_methods = [desk_card, \<lparr>pm_Id = 2, pm_Name = CASH, pm_Allowed = True\<rparr>], en_promos = [], en_complimentary = [], en_maxOrderItems = 3,
     en_baseCurrency = ''EUR'', en_reference = ref, en_range = (\<lambda>xs. xs), en_sort = (\<lambda>xs. xs)\<rparr>"

definition desk_line :: "int \<Rightarrow> decimal \<Rightarrow> OrderItemInsert" where
  "desk_line v n = \<lparr>oi_ProductId = 0, oi_ProductPrice = 50, oi_ProductSalePercentage = 0, oi_ProductPriceWithSale = 0,
     oi_Quantity = n, oi_SizeId = 0, oi_VariantID = v, oi_VariantSKU = [], oi_Grade = []\<rparr>"

definition desk_new :: "OrderItemInsert list \<Rightarrow> PaymentMethodName \<Rightarrow> OrderNew" where
  "desk_new items pm = (let a = \<lparr>ad_Country = ''PL'', ad_State = None, ad_City = ''W'', ad_AddressLineOne = ''1'',
        ad_AddressLineTwo = None, ad_Company = None, ad_PostalCode = ''0''\<rparr>
     in \<lparr>on_Items = items, on_ShippingAddress = Some a, on_BillingAddress = Some a,
          on_Buyer = Some \<lparr>bi_FirstName = ''A'', bi_LastName = ''B'', bi_Email = ''a@b'', bi_Phone = ''1234567''\<rparr>,
          on_PaymentMethod = pm, on_ShipmentCarrierId = 1, on_PromoCode = [], on_Currency = ''EUR'',
          on_CustomShipmentCost = None, on_GAClientID = [], on_Locale = [], on_BuyerTier = 0, on_BuyerVatID = None\<rparr>)"

text \<open>
  A checkout of the storefront that asks for one unit too many, its invoice and payment, an order over the
  counter, and a third buyer who finds one unit left.
\<close>

definition desk_ops :: "desk_op list" where
  "desk_ops = [CheckoutOp (desk_env ''U1'') (desk_new [desk_line 2 4] CARD) True 100,
     InvoiceOp (desk_env ''U1'') ''U1'' ''pi'' desk_card 100, ShopOp (PaidOp [] demo_time ''U1'' demo_payment),
     CustomOp (desk_env ''U2'') (desk_new [desk_line 2 1] CASH),
     CheckoutOp (desk_env ''U3'') (desk_new [desk_line 2 2, desk_line 3 1] CARD) False 100,
     ShopOp (RefundOp demo_time (\<lambda>m. m) ''U1'' [] [] [] True RefundDispositionUnset),
     ValidateOp (desk_env ''U3'') ''U3'']"

abbreviation desk_end :: shop_db where "desk_end \<equiv> run_desk decimal_std desk_ops desk_db"

lemma desk_run: "shop_run decimal_std desk_ops desk_db desk_end"
  by (rule shop_run_run_desk) (simp add: desk_ops_def desk_ok_def op_ok_def env_ok_def desk_env_def)

definition new_shop :: "shop_db \<Rightarrow> bool" where
  "new_shop db \<longleftrightarrow> sh_orders db = [] \<and> ev_events (sh_events db) = []"

lemma new_shop_reach: "new_shop db \<Longrightarrow> reach_ok L db"
  by (simp add: new_shop_def reach_ok_def shop_ok_def orders_wf_def events_wf_def ids_below_def events_owned_def placed_clean_def)

lemma desk_db_new: "new_shop desk_db"
  by (simp add: new_shop_def desk_db_def demo_db_def)

section \<open>Every state of the shop\<close>

text \<open>
  C3: a shop that starts with no orders keeps, through every sequence of checkouts, repricings, invoices,
  payments, shipments, deliveries, cancellations, expiries and refunds, failed ones included, the
  invariants of all its orders: ids, references and outbox keys are unique, and each order has goods the
  shop knows, a history along the table of transitions, refunds within its lines, one event for each
  milestone, and refund events that add up to what it records.
\<close>

theorem every_shop_is_sound:
  assumes "decimal_ok L" and "new_shop db" and "shop_run L ops db db'"
  shows "distinct (map co_Id (sh_orders db')) \<and> distinct (map co_UUID (sh_orders db')) \<and>
    distinct (map (\<lambda>e. (ae_EventType e, ae_SourceKey e)) (ev_events (sh_events db'))) \<and>
    (\<forall>ord \<in> set (sh_orders db'). line_visible db' ord \<and> line_stocked db' ord \<and> tracked ord \<and> refunds_ok ord \<and>
       milestones_ok db' ord \<and> ledgered L db' ord)"
  using shop_run_reach [OF assms(3,1) new_shop_reach [OF assms(2)]]
  by (simp add: reach_ok_def shop_ok_def orders_wf_def events_wf_def order_ok_def)

lemma desk_end_orders: "map co_UUID (sh_orders desk_end) = [''U1'', ''U2'', ''U3'']"
  by code_simp

theorem every_shop_is_sound_witness:
  "length (sh_orders desk_end) = 3 \<and> tracked (hd (sh_orders desk_end)) \<and> refunds_ok (hd (sh_orders desk_end)) \<and>
   ledgered decimal_std desk_end (hd (sh_orders desk_end))"
proof -
  have "length (map co_UUID (sh_orders desk_end)) = 3" unfolding desk_end_orders by simp
  then have n: "length (sh_orders desk_end) = 3" by simp
  then have "hd (sh_orders desk_end) \<in> set (sh_orders desk_end)" by (cases "sh_orders desk_end") auto
  then show ?thesis using every_shop_is_sound [OF decimal_std_ok desk_db_new desk_run] n by blast
qed

section \<open>Goods\<close>

lemma units_held_append: "sh_orders db' = sh_orders db @ [x] \<Longrightarrow> units_held k db' = units_held k db + held_by k x"
  by (simp add: units_held_def)

lemma create_goods:
  assumes L: "decimal_ok L" and step: "create_step L db db'"
  shows "goods k db' = goods k db"
proof -
  from step obtain x where c: "created db db' x (\<lambda>k. if co_Status x = Placed then 0 else - units_at L k (getOrderItemsInsert x))"
    and s: "sound_lines db x" and r: "co_RefundedItems x = []" and st: "co_Status x = Placed \<or> co_Status x = Confirmed"
    unfolding create_step_def by blast
  have ok: "refunds_ok x" using fresh_refunds_ok [OF s r] st by auto
  have "held_by k x = (if holds_stock (co_Status x) then line_total k x else 0)"
    using held_unrefunded [OF ok _ _ refl refl, where k = k] st by auto
  then show ?thesis using c st units_held_append [of db' db x k] units_at_lines [OF L, of k x]
    by (auto simp: goods_def created_def holds_stock_def)
qed

lemma reprice_goods:
  assumes wf: "orders_wf db" and step: "reprice_step db db'"
  shows "goods k db' = goods k db" and "stock_qty k db' = stock_qty k db"
proof -
  from step obtain ord x where f: "find_order_id (co_Id x) db = Some ord" and st: "co_Status ord = Placed" "co_Status x = Placed"
    and os: "sh_orders db' = sh_orders (replace_order x db)"
    and t: "sh_variants db' = sh_variants db" "sh_journal db' = sh_journal db" "sh_products db' = sh_products db"
    unfolding reprice_step_def by blast
  show q: "stock_qty k db' = stock_qty k db" by (rule same_tables(1) [OF t])
  have "units_held k db' = units_held k db - held_by k ord + held_by k x"
    using sum_replace [OF wf f, of "held_by k"] by (simp add: units_held_def os)
  then show "goods k db' = goods k db" using st q by (simp add: goods_def held_by_def holds_stock_def)
qed

definition restocks :: "desk_op \<Rightarrow> bool" where
  "restocks a = (case a of ShopOp b \<Rightarrow> refund_disposition b \<noteq> RefundDispositionWriteoff \<and> refund_disposition b \<noteq> RefundDispositionSeconds
     | _ \<Rightarrow> True)"

lemma desk_goods:
  assumes L: "decimal_ok L" and ok: "reach_ok L db" and a: "desk_ok a" and run: "exec_desk L a db = (r, db')" and s: "restocks a"
  shows "goods k db' = goods k db"
proof -
  have sh: "shop_ok L db" using ok by (simp add: reach_ok_def)
  from L ok a run show ?thesis
  proof (cases rule: exec_desk_cases)
    case desk
    then show ?thesis using create_goods [OF L, of db db' k] reprice_goods(1) [OF shop_ok_pre(1) [OF sh], of db' k]
        plain_goods(1) [OF L sh, of db' k] by (auto simp: desk_step_def)
  next
    case (refund b)
    obtain items where "goods k db' = goods k db + refund_delta L (refund_disposition b) items k - units_at L k (map ri_OrderItemInsert items)"
      by (rule refund_goods [OF L sh refund(2)]) blast
    moreover have "refund_delta L (refund_disposition b) items k = units_at L k (map ri_OrderItemInsert items)"
      using s refund(1) by (cases "refund_disposition b") (auto simp: refund_delta_def Let_def restocks_def)
    ultimately show ?thesis by simp
  next
    case quiet
    then show ?thesis by (rule quiet_goods)
  qed
qed

text \<open>The units of an order that is there, and of a refund, are not negative.\<close>

lemma order_units_nonneg:
  assumes L: "decimal_ok L" and ok: "refunds_ok ord"
  shows "0 \<le> units_at L k (getOrderItemsInsert ord)" and "0 \<le> held_by k ord"
proof -
  have b: "0 \<le> getRefundedQuantities ord i \<and> getRefundedQuantities ord i \<le> n" if "(i, key, n) \<in> set (order_lines ord)" for i key n
    using ok that unfolding refunds_ok_def Let_def by blast
  have "0 \<le> (\<lambda>(_, key, n). if key = k then n else 0) l" if "l \<in> set (order_lines ord)" for l :: "int \<times> variant_key \<times> int"
    using b that by (cases l) force
  then show "0 \<le> units_at L k (getOrderItemsInsert ord)"
    unfolding units_at_lines [OF L] line_total_def by (intro sum_list_nonneg) auto
  have "0 \<le> (\<lambda>(i, key, n). if key = k then n - getRefundedQuantities ord i else 0) l" if "l \<in> set (order_lines ord)"
    for l :: "int \<times> variant_key \<times> int" using b that by (cases l) force
  then show "0 \<le> held_by k ord" unfolding held_by_def by (auto intro!: sum_list_nonneg)
qed

lemma plain_nonneg:
  assumes L: "decimal_ok L" and ok: "shop_ok L db" and step: "plain_step L db db'" and q: "0 \<le> stock_qty k db"
  shows "0 \<le> stock_qty k db'"
proof (cases "db' = db")
  case False
  with step obtain ord x where m: "moved db db' ord x (given_back L ord x)" and st: "status_move ord x"
    and p: "co_Status x = AwaitingPayment \<longrightarrow> (\<forall>k. 0 \<le> stock_qty k db \<longrightarrow> 0 \<le> stock_qty k db')" by (auto simp: plain_step_def)
  have u: "0 \<le> units_at L k (getOrderItemsInsert ord)"
    by (rule order_units_nonneg(1) [OF L]) (use ok moved_tables(3) [OF m] in \<open>auto simp: shop_ok_def order_ok_def\<close>)
  have "co_Status ord = Placed \<Longrightarrow> co_Status x = Cancelled \<or> co_Status x = AwaitingPayment"
    using st by (cases "co_Status x") (auto simp: status_move_def isValidStatusTransition_def)
  then show ?thesis using p q m u by (cases "co_Status x = AwaitingPayment") (auto simp: moved_def given_back_def)
qed (use q in simp)

lemma refund_nonneg:
  assumes L: "decimal_ok L" and step: "refund_step L disposition db db'" and q: "0 \<le> stock_qty k db"
  shows "0 \<le> stock_qty k db'"
proof -
  from step obtain ord x items where m: "moved db db' ord x (refund_delta L disposition items)" and u: "refunds_units ord x items"
    by (auto simp: refund_step_def)
  have one: "line_units L (ri_OrderItemInsert r) = 1" if "r \<in> set items" for r
    using u that line_units_refund [OF L] by (auto simp: refunds_units_def)
  have "0 \<le> units_at L k (map ri_OrderItemInsert items) \<and> 0 \<le> units_at L k (map as_seconds (map ri_OrderItemInsert items))"
    using one by (induction items) auto
  then have "0 \<le> refund_delta L disposition items k" by (cases disposition) (simp_all add: refund_delta_def Let_def)
  then show ?thesis using m q by (simp add: moved_def)
qed

lemma desk_nonneg:
  assumes L: "decimal_ok L" and ok: "reach_ok L db" and a: "desk_ok a" and run: "exec_desk L a db = (r, db')" and q: "0 \<le> stock_qty k db"
  shows "0 \<le> stock_qty k db'"
proof -
  have sh: "shop_ok L db" using ok by (simp add: reach_ok_def)
  from L ok a run show ?thesis
  proof (cases rule: exec_desk_cases)
    case desk
    then consider "create_step L db db'" | "reprice_step db db'" | "plain_step L db db'" by (auto simp: desk_step_def)
    then show ?thesis
    proof cases
      case 1
      then show ?thesis using q unfolding create_step_def by blast
    next
      case 2
      then show ?thesis using q reprice_goods(2) [OF shop_ok_pre(1) [OF sh]] by simp
    next
      case 3
      then show ?thesis by (rule plain_nonneg [OF L sh _ q])
    qed
  next
    case (refund b)
    then show ?thesis using refund_nonneg [OF L _ q] by blast
  next
    case quiet
    then show ?thesis using q by (auto simp: quiet_step_def stock_qty_def find_variant_def split: prod.split)
  qed
qed

text \<open>
  C4: the stock of a variant never becomes negative, and while returned goods go back to the shelf the stock
  and the units that orders hold add up to what the shop opened with, so no more units are sold than it had.
\<close>

theorem shop_never_oversells:
  assumes "decimal_ok L" and "new_shop db" and "shop_run L ops db db'" and "0 \<le> stock_qty k db"
  shows "0 \<le> stock_qty k db' \<and>
    ((\<forall>a \<in> set ops. restocks a) \<longrightarrow> stock_qty k db' + units_held k db' = stock_qty k db \<and> units_held k db' \<le> stock_qty k db)"
proof -
  have "0 \<le> stock_qty k db' \<and> ((\<forall>a \<in> set ops. restocks a) \<longrightarrow> goods k db' = goods k db)"
    using assms(3,1) new_shop_reach [OF assms(2)] assms(4)
  proof (induction rule: shop_run_induct_ok)
    case (step ops db t a r db')
    then have IH: "0 \<le> stock_qty k t \<and> ((\<forall>a \<in> set ops. restocks a) \<longrightarrow> goods k t = goods k db)" by blast
    then show ?case using desk_nonneg [OF assms(1) step.hyps(1-3)] desk_goods [OF assms(1) step.hyps(1-3)] by auto
  qed simp
  moreover have "units_held k db = 0" using assms(2) by (simp add: new_shop_def units_held_def)
  ultimately show ?thesis by (auto simp: goods_def)
qed

theorem shop_never_oversells_witness:
  "0 \<le> stock_qty (7, 2, ''A'') desk_end \<and>
   stock_qty (7, 2, ''A'') desk_end + units_held (7, 2, ''A'') desk_end = stock_qty (7, 2, ''A'') desk_db"
proof -
  have q: "0 \<le> stock_qty (7, 2, ''A'') desk_db"
    by (simp add: desk_db_def demo_db_def demo_variant_def stock_qty_def find_variant_def is_variant_def)
  have "\<forall>a \<in> set desk_ops. restocks a" by (simp add: desk_ops_def restocks_def refund_disposition_def)
  then show ?thesis using shop_never_oversells [OF decimal_std_ok desk_db_new desk_run q] by blast
qed

section \<open>Checkout\<close>








lemma desk_checkout:
  "(case CreateOrder decimal_std (desk_env ''U1'') (desk_new [desk_line 2 4] CARD) True 100 desk_db of
      (Inr (i, mail), db') \<Rightarrow> i = 1 \<and> \<not> mail \<and>
        map (\<lambda>o'. (co_Id o', map ir_ProductId (co_Items o'))) (sh_orders db') = [(1, [7])]
    | _ \<Rightarrow> False)"
  by code_simp

lemma desk_checkout_run:
  obtains db' x r where "CreateOrder decimal_std (desk_env ''U1'') (desk_new [desk_line 2 4] CARD) True 100 desk_db = (Inr (1, False), db')"
    and "find_order_id 1 db' = Some x" and "co_Items x = [r]"
  using desk_checkout by (auto simp: find_order_id_def split: prod.split_asm sum.split_asm)


lemma lines_of_mem:
  assumes "list_all2 (row_of L) items rows" and "r \<in> set rows"
  shows "\<exists>it \<in> set items. row_of L it r"
  using assms by (induction rule: list_all2_induct) auto

text \<open>
  C10: whatever a cart mixes, by SKU, by id or by product and size, each product that a checkout sells is one
  that the buyer's tier may buy.
\<close>

theorem checkout_respects_the_tier:
  assumes "decimal_ok L" and "reach_ok L db" and "\<And>xs. mset (en_range env xs) = mset xs"
    and "CreateOrder L env new receivePromo expiredAt db = (Inr (i, mail), db')"
    and "find_order_id i db' = Some x" and "r \<in> set (co_Items x)"
  shows "\<exists>p. listed_product db (ir_ProductId r) = Some p \<and> TierCanPurchase (on_BuyerTier new) (pr_MinTier p)"
proof -
  have ids: "ids_below db" using assms(2) by (simp add: reach_ok_def)
  obtain y f valid carrier where y: "created db db' y (\<lambda>_. 0)" "i = co_Id y" "no_event db db'" "draft L env db valid f y"
    and f: "nf_Status f = Placed" "nf_Currency f = on_Currency new"
    and v: "\<forall>it \<in> set valid. sellable L db (on_Currency new) it"
    and c: "validateShipmentCarrier env (on_ShipmentCarrierId new) (ad_Country (the (on_ShippingAddress new))) = Inr carrier"
    and t: "checkout_total L env new carrier valid (nf_TotalPrice f)"
    and tier: "validateOrderItemsTierAccess db (on_Items new) (on_BuyerTier new) = Inr ()"
    and valid: "\<exists>adjs. validateOrderItemsInsert L env db (mergeOrderItems L env (on_Items new)) (on_Currency new) = Inr (valid, adjs)"
    by (rule CreateOrder_ok [OF ids assms(1,4)])
  from valid obtain adjs where run: "validateOrderItemsInsert L env db (mergeOrderItems L env (on_Items new)) (on_Currency new) = Inr (valid, adjs)" ..
  have "find_order_id i db' = Some y"
  proof -
    have "find (\<lambda>o'. co_Id o' = i) (sh_orders db) = None"
      using y(1,2) by (auto simp: created_def ids_below_def find_None_iff)
    then show ?thesis using y(1,2) by (simp add: find_order_id_def created_def find_append')
  qed
  then have x: "x = y" using assms(5) by simp
  have "list_all2 (row_of L) valid (co_Items x)" using y(4) by (simp add: x draft_def lines_of_def)
  then obtain it where it: "it \<in> set valid" "row_of L it r"
    using assms(6) lines_of_mem [of L valid "co_Items x" r] by blast
  obtain p where p: "listed_product db (oi_ProductId it) = Some p" using v it(1) by (auto simp: sellable_def in_stock_line_def)
  obtain it' where it': "it' \<in> set (on_Items new)" "oi_ProductId it = oi_ProductId (resolve_line db it')"
    using validated_products [OF assms(1) run assms(3) it(1)] by blast
  have "TierCanPurchase (on_BuyerTier new) (pr_MinTier p)" by (rule tier_access [OF tier it'(1)]) (use p it'(2) in simp)
  then show ?thesis using p it(2) by (simp add: row_of_def)
qed

theorem checkout_respects_the_tier_witness:
  "\<exists>db' x. find_order_id 1 db' = Some x \<and>
     CreateOrder decimal_std (desk_env ''U1'') (desk_new [desk_line 2 4] CARD) True 100 desk_db = (Inr (1, False), db') \<and>
     (\<exists>p. listed_product desk_db (ir_ProductId (hd (co_Items x))) = Some p \<and> TierCanPurchase 0 (pr_MinTier p))"
proof -
  obtain db' x r where run: "CreateOrder decimal_std (desk_env ''U1'') (desk_new [desk_line 2 4] CARD) True 100 desk_db = (Inr (1, False), db')"
    and x: "find_order_id 1 db' = Some x" "co_Items x = [r]"
    by (rule desk_checkout_run)
  have rng: "mset (en_range (desk_env ''U1'') xs) = mset xs" for xs by (simp add: desk_env_def)
  have "\<exists>p. listed_product desk_db (ir_ProductId r) = Some p \<and> TierCanPurchase (on_BuyerTier (desk_new [desk_line 2 4] CARD)) (pr_MinTier p)"
    by (rule checkout_respects_the_tier [OF decimal_std_ok new_shop_reach [OF desk_db_new] rng run x(1)]) (simp add: x(2))
  then show ?thesis using run x by (intro exI [of _ db'] exI [of _ x]) (simp add: desk_new_def Let_def)
qed

section \<open>The invoice\<close>

text \<open>
  C11: an invoice either takes the units of every line of a placed order and leaves it waiting for its payment,
  or reports that the lines had to be updated and leaves them updated, or fails and leaves everything as it
  was, the cancellations it attempts included.
\<close>

theorem invoice_takes_the_goods_or_nothing:
  assumes "decimal_ok L" and "reach_ok L db" and "env_ok env"
    and "InsertFiatInvoice L env uuid secret pm expiredAt db = (res, db')"
  shows "case res of
      Inr _ \<Rightarrow> \<exists>ord x. find_order uuid db = Some ord \<and> co_Status ord = Placed \<and> find_order uuid db' = Some x \<and>
        co_Status x = AwaitingPayment \<and> line_facts x = line_facts ord \<and> sh_events db' = sh_events db \<and>
        (\<forall>k. stock_qty k db' = stock_qty k db - units_at L k (getOrderItemsInsert ord))
    | Inl err \<Rightarrow> db' = db \<or> err = ErrCheckout ErrOrderItemsUpdated \<and> reprice_step db db'"
proof (cases "pm_Allowed pm")
  case True
  have sh: "shop_ok L db" using assms(2) by (simp add: reach_ok_def)
  note wf = shop_ok_pre(1) [OF sh] and vis = shop_ok_pre(4) [OF sh]
  have sorts: "\<forall>xs. set (en_sort env xs) = set xs" by (rule env_ok_sort [OF assms(3)])
  note effect = invoice_body_effect [OF wf assms(1) sorts vis, of uuid secret pm expiredAt]
  have run: "changed_error (txFunc (invoice_body L env uuid secret pm expiredAt)) db = (res, db')"
    using assms(4) True by (simp add: InsertFiatInvoice_def validatePaymentMethodAllowed_def thenE_def bindE_def readE_def)
  from run show ?thesis
  proof (cases rule: changed_error_cases)
    case (failed e)
    then show ?thesis using run txFunc_Inl [OF failed] by (auto simp: changed_error_def)
  next
    case changed
    then have "reprice_step db db'" using effect [of True db'] by (simp add: txFunc_ok)
    then show ?thesis using run changed by (auto simp: changed_error_def)
  next
    case same
    then have "invoiced L uuid db db'" using effect [of False db'] by (simp add: txFunc_ok)
    then obtain ord x where f: "find_order uuid db = Some ord" and st: "co_Status ord = Placed" "co_Status x = AwaitingPayment"
      and m: "moved db db' ord x (\<lambda>k. - units_at L k (getOrderItemsInsert ord))" and e: "sh_events db' = sh_events db"
      unfolding invoiced_def by blast
    have u: "co_UUID x = uuid" using moved_tables(5) [OF m] find_order_Some(2) [OF f] by simp
    have "find_order (co_UUID x) db' = Some x"
      by (rule find_order_mem [OF moved_wf [OF m wf] find_order_id_Some(1) [OF moved_found [OF m]]])
    then have "find_order uuid db' = Some x" unfolding u .
    moreover have "line_facts x = line_facts ord" using same_terms_lines(1) [OF moved_tables(4) [OF m]] .
    ultimately show ?thesis using f st m e same(2) by (auto simp: moved_def)
  qed
next
  case False
  then show ?thesis using assms(4)
    by (auto simp: InsertFiatInvoice_def validatePaymentMethodAllowed_def thenE_def bindE_def readE_def)
qed

lemma desk_invoice:
  "(case InsertFiatInvoice decimal_std (desk_env ''U1'') ''U1'' ''pi'' desk_card 100 (run_desk decimal_std (take 1 desk_ops) desk_db) of
      (Inr _, _) \<Rightarrow> True | _ \<Rightarrow> False)"
  by code_simp

theorem invoice_takes_the_goods_or_nothing_witness:
  "\<exists>db db' ord x. InsertFiatInvoice decimal_std (desk_env ''U1'') ''U1'' ''pi'' desk_card 100 db = (Inr (), db') \<and>
     find_order ''U1'' db = Some ord \<and> co_Status ord = Placed \<and> find_order ''U1'' db' = Some x \<and> co_Status x = AwaitingPayment \<and>
     stock_qty (7, 2, ''A'') db' = stock_qty (7, 2, ''A'') db - units_at decimal_std (7, 2, ''A'') (getOrderItemsInsert ord)"
proof -
  let ?db = "run_desk decimal_std (take 1 desk_ops) desk_db"
  have "list_all desk_ok (take 1 desk_ops)" by (simp add: desk_ops_def desk_ok_def env_ok_def desk_env_def)
  then have ok: "reach_ok decimal_std ?db"
    by (rule shop_run_reach [OF shop_run_run_desk decimal_std_ok new_shop_reach [OF desk_db_new]])
  have env: "env_ok (desk_env ''U1'')" by (simp add: env_ok_def desk_env_def)
  obtain db' where run: "InsertFiatInvoice decimal_std (desk_env ''U1'') ''U1'' ''pi'' desk_card 100 ?db = (Inr (), db')"
    using desk_invoice by (auto split: prod.split_asm sum.split_asm)
  from invoice_takes_the_goods_or_nothing [OF decimal_std_ok ok env run] obtain ord x where
    "find_order ''U1'' ?db = Some ord" "co_Status ord = Placed" "find_order ''U1'' db' = Some x" "co_Status x = AwaitingPayment"
    "stock_qty (7, 2, ''A'') db' = stock_qty (7, 2, ''A'') ?db - units_at decimal_std (7, 2, ''A'') (getOrderItemsInsert ord)"
    by auto
  with run show ?thesis by (intro exI [of _ ?db] exI [of _ db'] exI [of _ ord] exI [of _ x]) simp
qed

section \<open>The cart\<close>

text \<open>
  C19: A cart is merged into one line for each address, with the units that all its lines ask for under it, whatever
  the order of the lines.  The order in which the runtime visits the merged lines does not change the total.  The order
  of the lines themselves does not change it either, when lines of one address carry one price and one sale percentage;
  merging keeps those of the first line, so otherwise the total depends on which line comes first.
\<close>

theorem cart_order_is_irrelevant:
  assumes "decimal_ok L" and "\<And>xs. mset (en_range env xs) = mset xs" and "\<And>xs. mset (en_range env' xs) = mset xs"
    and "mset items' = mset items"
  shows "units_of_key L key (mergeOrderItems L env' items') = units_of_key L key items \<and>
    distinct (map merge_key (mergeOrderItems L env' items')) \<and>
    (calculateTotalAmount L (mergeOrderItems L env items) c = Inr t \<longleftrightarrow> calculateTotalAmount L (mergeOrderItems L env' items) c = Inr t) \<and>
    ((\<forall>a b. a \<in> set items \<and> b \<in> set items \<and> merge_key a = merge_key b \<longrightarrow>
        oi_ProductPrice a = oi_ProductPrice b \<and> oi_ProductSalePercentage a = oi_ProductSalePercentage b) \<longrightarrow>
     (calculateTotalAmount L (mergeOrderItems L env items) c = Inr t \<longleftrightarrow> calculateTotalAmount L (mergeOrderItems L env' items') c = Inr t))"
proof -
  have same: "mset (mergeOrderItems L env items) = mset (mergeOrderItems L env' items)"
    by (simp add: mergeOrderItems_def assms(2,3))
  show ?thesis
  proof (intro conjI impI)
    show "units_of_key L key (mergeOrderItems L env' items') = units_of_key L key items"
      unfolding merging_keeps_units(1) [OF assms(1,3)] by (rule units_permuted [OF assms(4)])
    show "distinct (map merge_key (mergeOrderItems L env' items'))" by (rule merging_keeps_units(2) [OF assms(1,3)])
    show "calculateTotalAmount L (mergeOrderItems L env items) c = Inr t \<longleftrightarrow> calculateTotalAmount L (mergeOrderItems L env' items) c = Inr t"
      by (rule total_permuted [OF same])
    assume "\<forall>a b. a \<in> set items \<and> b \<in> set items \<and> merge_key a = merge_key b \<longrightarrow>
        oi_ProductPrice a = oi_ProductPrice b \<and> oi_ProductSalePercentage a = oi_ProductSalePercentage b"
    then show "calculateTotalAmount L (mergeOrderItems L env items) c = Inr t \<longleftrightarrow> calculateTotalAmount L (mergeOrderItems L env' items') c = Inr t"
      by (intro merged_total_permuted [OF assms]) blast
  qed
qed

theorem cart_order_is_irrelevant_witness:
  "units_of_key decimal_std ([], 2, 0, 0) (mergeOrderItems decimal_std (desk_env ''U1'') [desk_line 2 2, desk_line 3 1, desk_line 2 1]) = 3 \<and>
   (calculateTotalAmount decimal_std (mergeOrderItems decimal_std (desk_env ''U1'') [desk_line 2 1, desk_line 3 1, desk_line 2 2]) ''EUR'' = Inr 200 \<longleftrightarrow>
    calculateTotalAmount decimal_std (mergeOrderItems decimal_std (desk_env ''U1'') [desk_line 2 2, desk_line 3 1, desk_line 2 1]) ''EUR'' = Inr 200)"
proof -
  let ?a = "[desk_line 2 1, desk_line 3 1, desk_line 2 2]" and ?b = "[desk_line 2 2, desk_line 3 1, desk_line 2 1]"
  have r: "mset (en_range (desk_env ''U1'') xs) = mset xs" for xs by (simp add: desk_env_def)
  have p: "mset ?b = mset ?a" by simp
  have u: "units_of_key decimal_std ([], 2, 0, 0) ?a = 3" by code_simp
  have price: "\<forall>a b. a \<in> set ?a \<and> b \<in> set ?a \<and> merge_key a = merge_key b \<longrightarrow>
      oi_ProductPrice a = oi_ProductPrice b \<and> oi_ProductSalePercentage a = oi_ProductSalePercentage b"
    by (auto simp: desk_line_def)
  note t = cart_order_is_irrelevant [OF decimal_std_ok r r p, of "([], 2, 0, 0)" "''EUR''" 200]
  show ?thesis
    by (rule conjI [OF trans [OF conjunct1 [OF t] u] mp [OF conjunct2 [OF conjunct2 [OF conjunct2 [OF t]]] price]])
qed

end
