(* ===== verification/Spec2Isabelle.thy ===== *)
theory Spec2Isabelle
  imports Acct_Order Acct_Material Acct_Production Ledger_Props
    Circuit_Breaker Rate_Limit Stock_Reserve Posting_Chain Opex_Store Shop_Props
begin

text \<open>
  A model of the business core of grbpwr-manager, the back end of a clothing brand: orders and their
  stock, the outbox of order events, the worker that turns events into entries, and the double-entry
  ledger; beside them the in-memory guards of the public API.  All paths below are under
  \<open>src/internal\<close>.

  \<^bold>\<open>How the parts interact.\<close>  An order lives in the shop's tables (\<open>store/order\<close>).  Every operation on it is
  one transaction that moves its status along a table of transitions, moves stock
  (\<open>store/product\<close>) with a row in the stock journal, and at its milestones (paid, shipped, delivered,
  refunded) appends an event to the outbox (\<open>store/accounting/events.go\<close>) in the same transaction.
  The posting worker (\<open>acctposting\<close>) reads pending events, asks the posting rules (\<open>accounting\<close>, pure
  functions from facts to an entry) for the entries, and writes them to the journal
  (\<open>store/accounting/ledger.go\<close>) under an idempotency key, together with the mark on the event.
  Operating expenses (\<open>store/metrics/opex_v2.go\<close>) are kept as lines that the worker accrues by month.
  Before an order exists, the carts of the storefront hold stock in memory (\<open>stockreserve\<close>), requests
  are limited per key (\<open>ratelimit\<close>), and calls to external services pass a breaker (\<open>circuitbreaker\<close>).

  \<^bold>\<open>Conventions.\<close>
  \<^item> A Go struct is a record with its fields, a string type with constants a datatype, a nullable column
    an option, a Go string the list of its bytes (\<open>Go_Strings\<close>), an instant the nanoseconds since the
    epoch (\<open>Go_Time\<close>).
  \<^item> \<open>decimal.Decimal\<close> is an exact rational.  The package is not part of the repository: its roundings
    and its printing are the fields of a record \<open>decimal_lib\<close> that the definitions take as an argument,
    and \<open>decimal_ok\<close> says what is relied on (Prelude, where an instance satisfies it).
  \<^item> An error is a value of a sum type.  Code that threads tables through many fallible calls is a
    function from the tables to a result and the tables it leaves (\<open>Result_State\<close>); \<open>txFunc\<close> is the
    transaction, which takes back the writes of a body that failed.
  \<^item> A SQL statement is its effect on the rows it touches.  A failure of the database itself, a lost
    connection or a deadlock, is not a value of the model: each of them ends the operation and rolls
    its transaction back.
  \<^item> Strings are compared byte by byte.  The columns have the collation \<open>utf8mb4_unicode_ci\<close>, which also takes
    strings for equal that differ in case only; the source keys the code makes are of one case (ids, dates and
    lower-case prefixes), so the unique keys of the journal and of the outbox decide the same on them.  Trimming
    and changing case are those of ASCII.
  \<^item> Where Go ranges over a map, the order is a parameter or a list, and the properties hold for each.
  \<^item> The wall clock is an argument of whatever reads it.  Ids are unbounded integers: no arithmetic is
    done on them but the next id of an auto-increment column.

  \<^bold>\<open>Foundations.\<close>  \<open>Prelude\<close>, \<open>Go_Strings\<close>, \<open>Go_Time\<close>: the above, with the lemmas on sums,
  lists, rounding and the calendar all components share.  \<open>Result_State\<close>: code with state and errors,
  with its unfolding rules and the transaction.

  \<^bold>\<open>Posting rules\<close> (\<open>accounting\<close>).  \<open>Acct_Types\<close>: \<open>entity/accounting.go\<close> and the fact sets.
  \<open>Acct_Balance\<close>: \<open>balance.go\<close>.  \<open>Acct_Vat\<close>: \<open>vatregime.go\<close>.  \<open>Acct_Common\<close>: \<open>accounts.go\<close>,
  \<open>common.go\<close>.  \<open>Acct_Sale\<close>: \<open>ordersale.go\<close>, \<open>refund.go\<close>.  \<open>Acct_Delivered\<close>: \<open>orderdelivery.go\<close>.
  \<open>Acct_Material\<close>: \<open>material.go\<close>.  \<open>Acct_Accruals\<close>: \<open>opex.go\<close>, \<open>shipping.go\<close>, \<open>devexpense.go\<close>,
  \<open>dispute.go\<close>.  \<open>Acct_Production\<close>: \<open>production.go\<close>.  \<open>Acct_Order\<close> has their properties: every entry
  balances and is on the cent grid, a full refund undoes its sale, the delivered chain moves what
  the single sale entry moves, cost of goods given back stays within the cost of the sale.  Source
  keys are injective (locale \<open>versioned_key\<close>, interpreted on the keys of each source), work in progress
  is cleared by the final receipt of a run, measured against the entries the material rules post for its issues, and
  never relieved by more than was put in.

  \<^bold>\<open>Ledger store\<close> (\<open>store/accounting\<close>).  \<open>Ledger_Store\<close> has the tables and operations of
  \<open>accounting.go\<close>, \<open>ledger.go\<close>, \<open>periods.go\<close>, \<open>checkpoints.go\<close>; \<open>Ledger_Props\<close> the invariant (balanced
  journal, unique keys, a reversal for at most one entry), idempotence of posting as the locale
  \<open>journal\<close>, interpreted on the transaction that posts, the gate of closed periods, and reversal.

  \<^bold>\<open>Outbox and worker.\<close>  \<open>Outbox\<close>: \<open>store/accounting/events.go\<close> and the posting state of an order.
  \<open>Posting_Worker\<close>: \<open>acctposting/outbox.go\<close>, one handler per event type.  \<open>Posting_Props\<close>: an event is
  marked exactly when its entries are written, an event that cannot be posted is retried with growing
  waits and reaches the dead letter after its last attempt.  \<open>Posting_Chain\<close>: the chain of the entries
  of one order, the drain of the prepayment and transit accounts, and replays.

  \<^bold>\<open>Operating expenses.\<close>  \<open>Opex_Store\<close>: \<open>store/metrics/opex_v2.go\<close>: lines, templates, and the
  materialisation of a template, which makes each due month's line once.

  \<^bold>\<open>Shop.\<close>  \<open>Shop_Types\<close>: the tables and the currency rules (\<open>currency\<close>).  \<open>Product_Stock\<close>: the writes
  of stock with their journal; \<open>Stock_Effects\<close>: what each does to the quantity of every variant.
  \<open>Order_Status\<close>: the table of transitions and the guarded updates (\<open>status.go\<close>, \<open>fetch.go\<close>).
  \<open>Order_Lifecycle\<close>: payment, shipping, delivery, cancellation, expiry and refunds (\<open>lifecycle.go\<close>,
  \<open>refund.go\<close>, parts of \<open>payment.go\<close> and \<open>update.go\<close>).  \<open>Order_Effects\<close>, \<open>Order_Moves\<close>, \<open>Refund_Scope\<close>,
  \<open>Order_Refunds\<close>: every operation as a move of one order, its stock and its events.
  \<open>Order_Run\<close>: any sequence of operations, those that fail included, as the relation
  \<open>lifecycle\<close> with its induction rule.  \<open>Order_Invariant\<close>, \<open>Order_Stock\<close>, \<open>Order_Props\<close>: what holds of the
  orders, the stock and the outbox after every run.

  \<^bold>\<open>Checkout.\<close>  \<open>Order_Pricing\<close>: carriers, promo codes, tiers, the resolution of the address of a line, the
  validation of a cart line by line (stock, cap, price), its merging and its total, the VAT part and the
  EUR snapshot (\<open>store/order/validation.go\<close>, \<open>util.go\<close>, \<open>vat.go\<close>, \<open>eur_snapshot.go\<close>,
  \<open>entity/promo.go\<close>, \<open>entity/shipment.go\<close>).  \<open>Order_Checkout\<close>: the inserts of an order, the storefront
  checkout, the order over the counter, repricing, and the invoice (\<open>create.go\<close>, \<open>insert.go\<close>, the rest
  of \<open>update.go\<close>, \<open>payment.go\<close> and \<open>validation.go\<close>).  What the code reads from its cache, its clock and its
  random source is the record \<open>shop_env\<close>: the dictionaries, the base currency, the instant, the reference
  of the next order, the order in which a Go map is visited and the sort of a list.  \<open>Cart_Props\<close>: what a
  validated line and a merged cart are, and the tier gate.  \<open>Checkout_Effects\<close>: a checkout as the
  appending of one order (\<open>create_step\<close>), a repricing as the rewriting of one placed order
  (\<open>reprice_step\<close>), an invoice as a move (\<open>invoiced\<close>).  \<open>Shop_Run\<close>: runs that mix these with the life cycle,
  and \<open>reach_ok\<close>, the invariant that a shop without orders starts with and every operation keeps; it asks
  of the environment that a reference has no colon (a reference is drawn from letters and digits) and that
  a sort permutes.  \<open>Shop_Props\<close>: nothing is oversold, the lines of a checkout are exactly
  what its cart buys (\<open>cart_buys\<close> in \<open>Cart_Props\<close>: one line for each offered address, its units cut to the cap and the
  shelf, at the price and the sale of the tables) and go to the right tier, an invoice takes the goods or nothing.

  \<^bold>\<open>In-memory guards.\<close>  \<open>Circuit_Breaker\<close> (\<open>circuitbreaker/breaker.go\<close>), \<open>Rate_Limit\<close>
  (\<open>ratelimit/ratelimit.go\<close>, refined by a sliding window) and \<open>Stock_Reserve\<close> (\<open>stockreserve/reserve.go\<close>:
  the indexes agree with the reservations, the holds stay within the stock and what late commits revive) are under a mutex, so an
  operation is a step.

  \<^bold>\<open>Loops and bounds.\<close>  Every loop of the modelled code runs over a list or a map and is structural
  recursion, or counts down a measure (\<open>months_between\<close>), so no definition needs fuel and all are total.

  \<^bold>\<open>Not modelled.\<close>  HTTP and gRPC handlers and their conversions (\<open>apisrv\<close>, \<open>api\<close>, \<open>dto\<close>), which check
  and reshape requests; calls to Stripe, mail, carriers, object storage and analytics, which are I/O
  behind an interface; the reports and the listings of the stores, which are SQL; the product
  lifecycle side (tech cards, samples, production runs, pattern files), whose operations are edits of
  documents; generated code and the code that seeds test data.
\<close>

end
